(* ===== verification/Prelude.thy ===== *)
theory Prelude
  imports Main "HOL-Library.Sublist"
begin

text \<open>
  What every component shares: the result of code that may raise, transactions, lists of rows
  addressed by a key, and the string methods of Python that the sources use.

  A value of type \<open>string\<close> stands for a Python \<open>str\<close> whose code points are at most U+00FF
  (one \<open>char\<close> per code point). Code that may raise returns \<open>'e + 'a\<close>, with \<open>Inl\<close> for
  the exception. Times are \<open>int\<close>, in the unit named where they are used.
\<close>

named_theorems row_simps \<open>lookups and updates of keyed rows\<close>

section \<open>Actions on a state that may raise\<close>

text \<open>An action returns its result or exception together with the state it leaves behind.\<close>

type_synonym ('s, 'e, 'a) act = "'s \<Rightarrow> ('e + 'a) \<times> 's"

definition act_return :: "'a \<Rightarrow> ('s, 'e, 'a) act" where
  "act_return x = (\<lambda>s. (Inr x, s))"

definition act_raise :: "'e \<Rightarrow> ('s, 'e, 'a) act" where
  "act_raise e = (\<lambda>s. (Inl e, s))"

definition act_modify :: "('s \<Rightarrow> 's) \<Rightarrow> ('s, 'e, unit) act" where
  "act_modify f = (\<lambda>s. (Inr (), f s))"

definition act_bind :: "('s, 'e, 'a) act \<Rightarrow> ('a \<Rightarrow> ('s, 'e, 'b) act) \<Rightarrow> ('s, 'e, 'b) act" where
  "act_bind m k = (\<lambda>s. case m s of (Inl e, s') \<Rightarrow> (Inl e, s') | (Inr x, s') \<Rightarrow> k x s')"

abbreviation act_seq :: "('s, 'e, 'a) act \<Rightarrow> ('s, 'e, 'b) act \<Rightarrow> ('s, 'e, 'b) act" where
  "act_seq m k \<equiv> act_bind m (\<lambda>_. k)"

lemmas act_simps [simp] =
  act_return_def act_raise_def act_modify_def act_bind_def

text \<open>The loop over the records of a call; the transaction of a call that raises is rolled back.\<close>

fun for_each :: "('i \<Rightarrow> ('s, 'e, unit) act) \<Rightarrow> 'i list \<Rightarrow> ('s, 'e, unit) act" where
  "for_each f [] = act_return ()"
| "for_each f (i # ids) = act_seq (f i) (for_each f ids)"

definition rolled_back :: "('s, 'e, 'a) act \<Rightarrow> ('s, 'e, 'a) act" where
  "rolled_back m = (\<lambda>s. case m s of (Inl x, _) \<Rightarrow> (Inl x, s) | (Inr y, s') \<Rightarrow> (Inr y, s'))"

lemma for_each_inv:
  assumes "\<And>i s. i \<in> set ids \<Longrightarrow> I s \<Longrightarrow> I (snd (f i s))" "I s"
  shows "I (snd (for_each f ids s))"
  using assms
proof (induction ids arbitrary: s)
  case (Cons i ids)
  obtain x s' where f: "f i s = (x, s')" by fastforce
  with Cons.prems(1) [of i s] Cons.prems(2) have "I s'" by simp
  with Cons.IH [of s'] Cons.prems(1) f show ?case by (cases x) auto
qed simp

lemma rolled_back_inv: "(I s \<Longrightarrow> I (snd (m s))) \<Longrightarrow> I s \<Longrightarrow> I (snd (rolled_back m s))"
  by (auto simp: rolled_back_def split: prod.split sum.split)

section \<open>Rows addressed by a key\<close>

definition row_get :: "('r \<Rightarrow> 'k) \<Rightarrow> 'k \<Rightarrow> 'r list \<Rightarrow> 'r option" where
  "row_get key k rows = find (\<lambda>r. key r = k) rows"

definition row_upd :: "('r \<Rightarrow> 'k) \<Rightarrow> 'k \<Rightarrow> ('r \<Rightarrow> 'r) \<Rightarrow> 'r list \<Rightarrow> 'r list" where
  "row_upd key k f rows = map (\<lambda>r. if key r = k then f r else r) rows"

lemma row_get_Nil [row_simps]: "row_get key k [] = None"
  by (simp add: row_get_def)

lemma row_get_Cons [row_simps]:
  "row_get key k (r # rows) = (if key r = k then Some r else row_get key k rows)"
  by (simp add: row_get_def)

lemma row_upd_Nil [row_simps]: "row_upd key k f [] = []"
  by (simp add: row_upd_def)

lemma row_upd_Cons [row_simps]:
  "row_upd key k f (r # rows) = (if key r = k then f r else r) # row_upd key k f rows"
  by (simp add: row_upd_def)

lemma row_get_upd_same:
  "(\<And>r. key (f r) = key r) \<Longrightarrow> row_get key k (row_upd key k f rows) = map_option f (row_get key k rows)"
  by (induction rows) (auto simp: row_simps)

lemma row_get_upd_other:
  "(\<And>r. key (f r) = key r) \<Longrightarrow> k \<noteq> k' \<Longrightarrow> row_get key k' (row_upd key k f rows) = row_get key k' rows"
  by (induction rows) (auto simp: row_simps)

lemma map_key_row_upd: "(\<And>r. key (f r) = key r) \<Longrightarrow> map key (row_upd key k f rows) = map key rows"
  by (simp add: row_upd_def)

lemma row_get_in_set: "row_get key k rows = Some r \<Longrightarrow> r \<in> set rows \<and> key r = k"
  by (induction rows) (auto simp: row_simps split: if_splits)

lemma row_get_None: "row_get key k rows = None \<longleftrightarrow> k \<notin> key ` set rows"
  by (induction rows) (auto simp: row_simps)

lemma row_get_distinct:
  "distinct (map key rows) \<Longrightarrow> r \<in> set rows \<Longrightarrow> row_get key (key r) rows = Some r"
  by (induction rows) (force simp: row_simps)+

lemma row_get_append:
  "row_get key k (xs @ ys) = (case row_get key k xs of None \<Rightarrow> row_get key k ys | Some r \<Rightarrow> Some r)"
  by (induction xs) (auto simp: row_simps)

lemma in_set_row_upd:
  "r \<in> set (row_upd key k f rows) \<longleftrightarrow> (\<exists>r0 \<in> set rows. r = (if key r0 = k then f r0 else r0))"
  unfolding row_upd_def set_map image_iff by blast

section \<open>Strings\<close>

text \<open>\<open>str.isspace\<close>, \<open>strip\<close>, \<open>rstrip\<close> and \<open>lower\<close> on code points up to U+00FF.\<close>

definition py_space :: "char \<Rightarrow> bool" where
  "py_space c \<longleftrightarrow> (of_char c :: nat) \<in> set [9, 10, 11, 12, 13, 28, 29, 30, 31, 32, 133, 160]"

definition py_lstrip :: "string \<Rightarrow> string" where
  "py_lstrip s = dropWhile py_space s"

definition py_rstrip :: "string \<Rightarrow> string" where
  "py_rstrip s = rev (dropWhile py_space (rev s))"

definition py_strip :: "string \<Rightarrow> string" where
  "py_strip s = py_rstrip (py_lstrip s)"

definition py_rstrip_char :: "char \<Rightarrow> string \<Rightarrow> string" where
  "py_rstrip_char c s = rev (dropWhile (\<lambda>d. d = c) (rev s))"

definition py_lower_char :: "char \<Rightarrow> char" where
  "py_lower_char c =
     (let n = of_char c :: nat
      in if 65 \<le> n \<and> n \<le> 90 \<or> 192 \<le> n \<and> n \<le> 222 \<and> n \<noteq> 215 then char_of (n + 32) else c)"

definition py_lower :: "string \<Rightarrow> string" where
  "py_lower s = map py_lower_char s"

text \<open>\<open>s.find(pat)\<close>: the least index, \<open>None\<close> for -1; \<open>pat in s\<close>.\<close>

fun py_find :: "string \<Rightarrow> string \<Rightarrow> nat option" where
  "py_find pat [] = (if pat = [] then Some 0 else None)"
| "py_find pat (c # cs) =
     (if prefix pat (c # cs) then Some 0 else map_option Suc (py_find pat cs))"

definition py_in :: "string \<Rightarrow> string \<Rightarrow> bool" where
  "py_in pat s \<longleftrightarrow> py_find pat s \<noteq> None"

text \<open>\<open>s[:n]\<close> and \<open>s[-n:]\<close> for a positive \<open>n\<close>.\<close>

definition py_first :: "nat \<Rightarrow> string \<Rightarrow> string" where
  "py_first n s = take n s"

definition py_last :: "nat \<Rightarrow> string \<Rightarrow> string" where
  "py_last n s = drop (length s - n) s"

text \<open>\<open>str.splitlines()\<close> breaks at LF, VT, FF, CR, CR LF, FS, GS, RS and NEL.\<close>

definition py_break :: "char \<Rightarrow> bool" where
  "py_break c \<longleftrightarrow> (of_char c :: nat) \<in> set [10, 11, 12, 13, 28, 29, 30, 133]"

function py_splitlines_acc :: "string \<Rightarrow> string \<Rightarrow> string list" where
  "py_splitlines_acc acc [] = (if acc = [] then [] else [rev acc])"
| "py_splitlines_acc acc (c # cs) =
     (if c = CHR 0x0D \<and> cs \<noteq> [] \<and> hd cs = CHR 0x0A
      then rev acc # py_splitlines_acc [] (tl cs)
      else if py_break c then rev acc # py_splitlines_acc [] cs
      else py_splitlines_acc (c # acc) cs)"
  by pat_completeness auto
termination
  by (relation "measure (\<lambda>(acc, s). length s)") auto

definition py_splitlines :: "string \<Rightarrow> string list" where
  "py_splitlines s = py_splitlines_acc [] s"

text \<open>\<open>str(n)\<close> for integers.\<close>

fun nat_digits :: "nat \<Rightarrow> string" where
  "nat_digits n =
     (if n < 10 then [char_of (48 + n)] else nat_digits (n div 10) @ [char_of (48 + n mod 10)])"

declare nat_digits.simps [simp del]

definition int_str :: "int \<Rightarrow> string" where
  "int_str i = (if i < 0 then CHR ''-'' # nat_digits (nat (- i)) else nat_digits (nat i))"

lemma py_splitlines_Nil [simp]: "py_splitlines [] = []"
  by (simp add: py_splitlines_def)

lemma py_find_prefix: "prefix pat s \<Longrightarrow> py_find pat s = Some 0"
  by (cases s) auto

lemma py_in_append: "py_in pat (xs @ pat @ ys)"
proof (induction xs)
  case Nil
  then show ?case by (simp add: py_in_def py_find_prefix)
next
  case (Cons x xs)
  then show ?case by (auto simp: py_in_def)
qed

lemma py_find_Some: "py_find pat s = Some i \<Longrightarrow> i \<le> length s \<and> prefix pat (drop i s)"
  by (induction s arbitrary: i) (auto split: if_splits)

lemma py_splitlines_acc_line:
  assumes "\<And>c. c \<in> set l \<Longrightarrow> \<not> py_break c"
  shows "py_splitlines_acc acc (l @ CHR 0x0A # rest) = (rev acc @ l) # py_splitlines_acc [] rest"
  using assms
proof (induction l arbitrary: acc)
  case Nil
  have "py_break (CHR 0x0A)" by (simp add: py_break_def)
  then show ?case by simp
next
  case (Cons c l)
  have "\<not> py_break c" using Cons.prems by simp
  then have "c \<noteq> CHR 0x0D" by (auto simp: py_break_def)
  with \<open>\<not> py_break c\<close> have "py_splitlines_acc acc ((c # l) @ CHR 0x0A # rest)
      = py_splitlines_acc (c # acc) (l @ CHR 0x0A # rest)"
    by simp
  with Cons show ?case by simp
qed

lemma py_strip_id:
  assumes "s = [] \<or> (\<not> py_space (hd s) \<and> \<not> py_space (last s))"
  shows "py_strip s = s"
proof (cases "s = []")
  case True
  then show ?thesis by (simp add: py_strip_def py_lstrip_def py_rstrip_def)
next
  case False
  with assms have "py_lstrip s = s" by (cases s) (auto simp: py_lstrip_def)
  moreover from False assms have "py_rstrip s = s"
    by (cases s rule: rev_cases) (auto simp: py_rstrip_def)
  ultimately show ?thesis by (simp add: py_strip_def)
qed

lemma py_splitlines_acc_append:
  "py_splitlines_acc acc (xs @ CHR 0x0A # ys) = py_splitlines_acc acc (xs @ [CHR 0x0A]) @ py_splitlines_acc [] ys"
proof (induction acc xs rule: py_splitlines_acc.induct)
  case (1 acc)
  have "py_break (CHR 0x0A)" by (simp add: py_break_def)
  then show ?case by simp
next
  case (2 acc c cs)
  show ?case
  proof (cases cs)
    case Nil
    with 2 show ?thesis by (auto simp: py_break_def)
  next
    case (Cons d ds)
    with 2 show ?thesis by auto
  qed
qed

lemma py_splitlines_append:
  "py_splitlines (xs @ CHR 0x0A # ys) = py_splitlines (xs @ [CHR 0x0A]) @ py_splitlines ys"
  unfolding py_splitlines_def by (rule py_splitlines_acc_append)

lemma py_splitlines_line:
  "(\<And>c. c \<in> set l \<Longrightarrow> \<not> py_break c) \<Longrightarrow> py_splitlines (l @ CHR 0x0A # rest) = l # py_splitlines rest"
  unfolding py_splitlines_def using py_splitlines_acc_line [of l "[]" rest] by simp

section \<open>Values of \<open>json.loads\<close> and optional strings\<close>

datatype json =
  JNull | JBool bool | JNum int | JStr string | JList "json list" | JObj "(string \<times> json) list"

text \<open>\<open>a or b\<close> on an optional string, \<open>bool(s)\<close>, and \<open>os.environ.get\<close>.\<close>

definition py_or :: "string option \<Rightarrow> string \<Rightarrow> string" where
  "py_or a b = (case a of None \<Rightarrow> b | Some s \<Rightarrow> if s = [] then b else s)"

definition py_or_opt :: "string option \<Rightarrow> string option \<Rightarrow> string option" where
  "py_or_opt a b = (case a of None \<Rightarrow> b | Some s \<Rightarrow> if s = [] then b else Some s)"

definition truthy :: "string option \<Rightarrow> bool" where
  "truthy a \<longleftrightarrow> a \<noteq> None \<and> a \<noteq> Some []"

definition env_get :: "(string \<Rightarrow> string option) \<Rightarrow> string \<Rightarrow> string \<Rightarrow> string" where
  "env_get env name dflt = (case env name of None \<Rightarrow> dflt | Some v \<Rightarrow> v)"

text \<open>\<open>repr(s)\<close>.\<close>

definition hex_digit :: "nat \<Rightarrow> char" where
  "hex_digit n = (if n < 10 then char_of (48 + n) else char_of (87 + n))"

definition repr_char :: "char \<Rightarrow> char \<Rightarrow> string" where
  "repr_char q c =
     (let n = of_char c :: nat
      in if c = q \<or> n = 92 then [CHR 0x5C, c]
         else if n = 10 then [CHR 0x5C, CHR ''n'']
         else if n = 13 then [CHR 0x5C, CHR ''r'']
         else if n = 9 then [CHR 0x5C, CHR ''t'']
         else if n < 32 \<or> 127 \<le> n \<and> n \<le> 160 \<or> n = 173
         then [CHR 0x5C, CHR ''x'', hex_digit (n div 16), hex_digit (n mod 16)]
         else [c])"

definition py_repr :: "string \<Rightarrow> string" where
  "py_repr s =
     (let q = (if CHR 0x27 \<in> set s \<and> CHR 0x22 \<notin> set s then CHR 0x22 else CHR 0x27)
      in q # concat (map (repr_char q) s) @ [q])"

end
