(* ===== verification/MigrationWindow.thy ===== *)
theory MigrationWindow
  imports Prelude
begin

text \<open>
  The maintenance-window evaluator of infra/runners/migration_runner/window.py.

  A \<open>datetime\<close> in UTC is its \<open>int\<close> number of microseconds. A datetime in a tenant's zone is
  its wall-clock reading (microseconds since the epoch as that clock shows them) with Python's
  \<open>fold\<close> attribute: Python compares and subtracts two datetimes of one zone by their wall-clock
  readings, which is what \<open>is_open\<close> relies on.

  The packages croniter and zoneinfo are not part of the repository: \<open>cron_lib\<close> collects what the
  code calls of them, and every definition takes it as an argument.
\<close>

section \<open>The packages the evaluator calls\<close>

record local_dt =
  wall :: int
  fold_bit :: bool

record cron_lib =
  cron_valid :: "string \<Rightarrow> bool"
  zone_valid :: "string \<Rightarrow> bool"
  to_local :: "string \<Rightarrow> int \<Rightarrow> local_dt"
  to_utc :: "string \<Rightarrow> local_dt \<Rightarrow> int"
  get_prev :: "string \<Rightarrow> local_dt \<Rightarrow> local_dt"
  get_next :: "string \<Rightarrow> local_dt \<Rightarrow> local_dt"

datatype window_error = InvalidCron string | InvalidZone string

abbreviation second :: int where "second \<equiv> 1000000"
abbreviation hour :: int where "hour \<equiv> 3600 * second"

section \<open>The evaluator\<close>

record window_evaluator =
  w_cron :: string
  w_tz :: string
  w_override_until :: "int option"
  w_global_override :: bool
  w_tolerance :: int

text \<open>The dataclass constructor: defaults for the last three fields, then \<open>__post_init__\<close>.\<close>

definition window_post_init :: "cron_lib \<Rightarrow> window_evaluator \<Rightarrow> window_error + window_evaluator" where
  "window_post_init lib w =
     (if \<not> cron_valid lib (w_cron w) then Inl (InvalidCron (w_cron w))
      else if \<not> zone_valid lib (w_tz w) then Inl (InvalidZone (w_tz w))
      else Inr w)"

definition window_init ::
  "cron_lib \<Rightarrow> string \<Rightarrow> string \<Rightarrow> int option \<Rightarrow> bool \<Rightarrow> window_error + window_evaluator" where
  "window_init lib c z ovr glob =
     window_post_init lib
       \<lparr>w_cron = c, w_tz = z, w_override_until = ovr, w_global_override = glob, w_tolerance = hour\<rparr>"

text \<open>\<open>dt + timedelta(seconds=1)\<close> moves the wall clock and clears \<open>fold\<close>.\<close>

definition plus_second :: "local_dt \<Rightarrow> local_dt" where
  "plus_second d = \<lparr>wall = wall d + second, fold_bit = False\<rparr>"

definition is_open :: "cron_lib \<Rightarrow> window_evaluator \<Rightarrow> int \<Rightarrow> window_error + bool" where
  "is_open lib w now =
     (if w_global_override w then Inr True
      else if (case w_override_until w of None \<Rightarrow> False | Some u \<Rightarrow> u > now) then Inr True
      else
        let local_now = to_local lib (w_tz w) now;
            probe = plus_second local_now
        in if \<not> cron_valid lib (w_cron w) then Inl (InvalidCron (w_cron w))
           else
             let prev_firing_local = get_prev lib (w_cron w) probe;
                 delta = wall local_now - wall prev_firing_local
             in Inr (delta \<ge> 0 \<and> delta \<le> w_tolerance w))"

definition next_open :: "cron_lib \<Rightarrow> window_evaluator \<Rightarrow> int \<Rightarrow> window_error + int" where
  "next_open lib w now =
     (case is_open lib w now of
        Inl e \<Rightarrow> Inl e
      | Inr True \<Rightarrow> Inr now
      | Inr False \<Rightarrow>
          let candidates =
                (case w_override_until w of
                   None \<Rightarrow> [] | Some u \<Rightarrow> if u > now then [u] else []);
              local_now = to_local lib (w_tz w) now;
              next_firing_local = get_next lib (w_cron w) local_now
          in Inr (Min (set (candidates @ [to_utc lib (w_tz w) next_firing_local]))))"

section \<open>What the code relies on of croniter\<close>

text \<open>
  croniter documents \<open>get_prev\<close> as the most recent firing strictly before the start time.
  \<open>firing\<close> is the set of wall-clock readings at which the expression fires.
\<close>

definition get_prev_spec :: "cron_lib \<Rightarrow> string \<Rightarrow> (int \<Rightarrow> bool) \<Rightarrow> bool" where
  "get_prev_spec lib c firing \<longleftrightarrow>
     (\<forall>d. firing (wall (get_prev lib c d)) \<and> wall (get_prev lib c d) < wall d \<and>
          (\<forall>f. firing f \<and> f < wall d \<longrightarrow> f \<le> wall (get_prev lib c d)))"

lemma is_open_override:
  "w_global_override w \<or> (\<exists>u. w_override_until w = Some u \<and> u > now) \<Longrightarrow> is_open lib w now = Inr True"
  by (auto simp: is_open_def)

lemma is_open_cron:
  assumes "\<not> w_global_override w" "\<And>u. w_override_until w = Some u \<Longrightarrow> u \<le> now"
    "cron_valid lib (w_cron w)"
  shows "is_open lib w now =
    Inr (0 \<le> wall (to_local lib (w_tz w) now) - wall (get_prev lib (w_cron w) (plus_second (to_local lib (w_tz w) now)))
       \<and> wall (to_local lib (w_tz w) now) - wall (get_prev lib (w_cron w) (plus_second (to_local lib (w_tz w) now)))
           \<le> w_tolerance w)"
  using assms by (auto simp: is_open_def Let_def split: option.splits)

text \<open>A closed evaluator is one that no override opens.\<close>

lemma is_open_False_no_override:
  "is_open lib w now = Inr False \<Longrightarrow>
   \<not> w_global_override w \<and> (\<forall>u. w_override_until w = Some u \<longrightarrow> u \<le> now)"
  by (auto simp: is_open_def split: if_splits option.splits)

lemma wall_plus_second [simp]: "wall (plus_second d) = wall d + second"
  by (simp add: plus_second_def)

text \<open>A library for the witnesses: firings at every multiple of a period, a zone without offset.\<close>

definition periodic_lib :: "int \<Rightarrow> cron_lib" where
  "periodic_lib p =
     \<lparr>cron_valid = (\<lambda>c. c \<noteq> []), zone_valid = (\<lambda>z. z \<noteq> []),
      to_local = (\<lambda>_ t. \<lparr>wall = t, fold_bit = False\<rparr>), to_utc = (\<lambda>_ d. wall d),
      get_prev = (\<lambda>_ d. \<lparr>wall = ((wall d - 1) div p) * p, fold_bit = False\<rparr>),
      get_next = (\<lambda>_ d. \<lparr>wall = (wall d div p + 1) * p, fold_bit = False\<rparr>)\<rparr>"

lemma periodic_lib_prev:
  assumes "0 < p"
  shows "get_prev_spec (periodic_lib p) c (\<lambda>f. p dvd f)"
proof -
  have before: "((n - 1) div p) * p < n" for n :: int
    using assms by (smt (verit) div_mult_mod_eq pos_mod_sign)
  have latest: "f \<le> ((n - 1) div p) * p" if "p dvd f" "f < n" for f n :: int
  proof -
    from \<open>p dvd f\<close> obtain k where k: "f = p * k" ..
    with that(2) have "p * k \<le> n - 1" by simp
    then have "k \<le> (n - 1) div p"
      using assms by (metis nonzero_mult_div_cancel_left order_less_irrefl zdiv_mono1)
    with k assms show ?thesis by (simp add: mult.commute)
  qed
  show ?thesis
    using before latest by (auto simp: get_prev_spec_def periodic_lib_def)
qed

section \<open>Properties\<close>

text \<open>
  C11: With no override in force, the window is open exactly when the expression fired within the
  tolerance before (or at) the tenant's local time and does not fire within the coming second
  (exclusive). The second conjunct is the effect of the one-second probe.
\<close>

theorem window_open_iff_recent_firing:
  assumes prev: "get_prev_spec lib (w_cron w) firing"
    and cron: "cron_valid lib (w_cron w)"
    and glob: "\<not> w_global_override w"
    and ovr: "\<And>u. w_override_until w = Some u \<Longrightarrow> u \<le> now"
    and local: "t = wall (to_local lib (w_tz w) now)"
  shows "is_open lib w now = Inr True \<longleftrightarrow>
    (\<exists>f. firing f \<and> t - w_tolerance w \<le> f \<and> f \<le> t) \<and> (\<forall>f. firing f \<longrightarrow> f \<le> t \<or> t + second \<le> f)"
proof -
  define q where "q = wall (get_prev lib (w_cron w) (plus_second (to_local lib (w_tz w) now)))"
  have q: "firing q" "q < t + second" "\<And>f. firing f \<Longrightarrow> f < t + second \<Longrightarrow> f \<le> q"
    using prev [unfolded get_prev_spec_def, rule_format, of "plus_second (to_local lib (w_tz w) now)"]
    unfolding local q_def by auto
  have "is_open lib w now = Inr True \<longleftrightarrow> q \<le> t \<and> t - q \<le> w_tolerance w"
    using is_open_cron [OF glob ovr cron] local by (auto simp: q_def)
  also have "\<dots> \<longleftrightarrow>
    (\<exists>f. firing f \<and> t - w_tolerance w \<le> f \<and> f \<le> t) \<and> (\<forall>f. firing f \<longrightarrow> f \<le> t \<or> t + second \<le> f)"
    using q by (smt (verit, ccfv_threshold))
  finally show ?thesis .
qed

theorem window_open_iff_recent_firing_witness:
  "is_open (periodic_lib (24 * hour))
     \<lparr>w_cron = ''0 0 * * *'', w_tz = ''UTC'', w_override_until = None, w_global_override = False,
      w_tolerance = hour\<rparr> (24 * hour + 5) = Inr True \<longleftrightarrow>
   (\<exists>f. 24 * hour dvd f \<and> 24 * hour + 5 - hour \<le> f \<and> f \<le> 24 * hour + 5) \<and>
   (\<forall>f. 24 * hour dvd f \<longrightarrow> f \<le> 24 * hour + 5 \<or> 24 * hour + 5 + second \<le> f)"
  using window_open_iff_recent_firing [OF periodic_lib_prev [of "24 * hour"],
      of "\<lparr>w_cron = ''0 0 * * *'', w_tz = ''UTC'', w_override_until = None, w_global_override = False,
           w_tolerance = hour\<rparr>" "24 * hour + 5" "24 * hour + 5"]
  by (simp add: periodic_lib_def)

text \<open>
  The time a closed window is parked until is the next firing of the expression converted to
  UTC, whatever override is set: whenever \<open>override_until\<close> lies in the future the window is
  already open, so it is never among the candidates.
\<close>

theorem next_open_is_next_firing:
  "next_open lib w now =
     (case is_open lib w now of
        Inl e \<Rightarrow> Inl e
      | Inr opn \<Rightarrow>
          Inr (if opn then now
               else to_utc lib (w_tz w) (get_next lib (w_cron w) (to_local lib (w_tz w) now))))"
proof (cases "is_open lib w now")
  case (Inr b)
  show ?thesis
  proof (cases b)
    case False
    then have "\<And>u. w_override_until w = Some u \<Longrightarrow> u \<le> now"
      using is_open_False_no_override [of lib w now] Inr by auto
    then show ?thesis
      using Inr False by (cases "w_override_until w") (simp_all add: next_open_def Let_def)
  qed (simp add: next_open_def Inr)
qed (simp add: next_open_def)

end
