(* ===== verification/MigrationStore.thy ===== *)
theory MigrationStore
  imports Prelude "HOL-Library.Char_ord" "HOL-Library.List_Lexorder"
begin

text \<open>
  The Postgres job queue of infra/runners/migration_runner/db.py: the tables it touches, one
  action per method of \<open>JobStore\<close>, and the transaction of \<open>JobStore.cursor\<close>.

  The SQL of each method is read as a transformation of the tables \<open>tenant_migration_jobs\<close> and
  \<open>tenants\<close>. SQL's \<open>now()\<close>, the start time of the transaction, is an argument; so is the list
  of job rows that other open transactions have locked when \<open>claim_next_job\<close> runs. A lost
  connection is not modelled. Times are microseconds.
\<close>

section \<open>Tables\<close>

datatype job_status = Queued | Blocked | Running | Skipped | Done | Failed | Timedout | Cancelled

record migration_job =
  mj_id :: string
  mj_tenant_id :: string
  mj_target_sha :: string
  mj_timeout_minutes :: int
  mj_retry_count :: int
  mj_status :: job_status
  mj_enqueued_at :: int
  mj_blocked_until :: "int option"
  mj_started_at :: "int option"
  mj_heartbeat_at :: "int option"
  mj_finished_at :: "int option"
  mj_runner_host :: "string option"
  mj_error_excerpt :: "string option"
  mj_snapshot_id :: "string option"
  mj_dry_run :: "bool option"

record tenant =
  tn_id :: string
  tn_slug :: string
  tn_db_name :: string
  tn_window :: string
  tn_tz :: string
  tn_last_sha :: "string option"
  tn_wave :: "string option"
  tn_override_until :: "int option"
  tn_updated_at :: int

record audit_event =
  ev_actor_kind :: string
  ev_actor :: string
  ev_action :: string
  ev_target_kind :: string
  ev_target :: string
  ev_sha :: "string option"
  ev_reason :: string
  ev_payload :: json

record control_db =
  jobs :: "migration_job list"
  tenants :: "tenant list"
  audit :: "audit_event list"

text \<open>The snapshot of a claimed row that the runner works from.\<close>

record JobRow =
  job_id :: string
  job_tenant_id :: string
  tenant_slug :: string
  tenant_db_name :: string
  target_sha :: string
  timeout_minutes :: int
  retry_count :: int
  maintenance_window :: string
  job_tz :: string
  last_migrated_sha :: "string option"
  job_wave :: "string option"
  window_override_until :: "int option"
  migration_dry_run :: bool

abbreviation get_job :: "string \<Rightarrow> control_db \<Rightarrow> migration_job option" where
  "get_job i db \<equiv> row_get mj_id i (jobs db)"

abbreviation get_tenant :: "string \<Rightarrow> control_db \<Rightarrow> tenant option" where
  "get_tenant i db \<equiv> row_get tn_id i (tenants db)"

abbreviation job_status_of :: "string \<Rightarrow> control_db \<Rightarrow> job_status option" where
  "job_status_of i db \<equiv> map_option mj_status (get_job i db)"

text \<open>\<open>UPDATE ... SET ... WHERE id = ...\<close> on either table.\<close>

definition update_job :: "string \<Rightarrow> (migration_job \<Rightarrow> migration_job) \<Rightarrow> control_db \<Rightarrow> control_db" where
  "update_job i f db = db\<lparr>jobs := row_upd mj_id i f (jobs db)\<rparr>"

definition update_tenant :: "string \<Rightarrow> (tenant \<Rightarrow> tenant) \<Rightarrow> control_db \<Rightarrow> control_db" where
  "update_tenant i f db = db\<lparr>tenants := row_upd tn_id i f (tenants db)\<rparr>"

section \<open>Transactions\<close>

text \<open>
  \<open>JobStore.cursor\<close>: the body's changes are committed when it returns and rolled back when it
  raises; the exception is re-raised.
\<close>

definition with_cursor :: "('s, 'e, 'a) act \<Rightarrow> ('s, 'e, 'a) act" where
  "with_cursor body = (\<lambda>s. case body s of (Inl e, s') \<Rightarrow> (Inl e, s) | (Inr x, s') \<Rightarrow> (Inr x, s'))"

section \<open>Claiming\<close>

text \<open>The \<open>WHERE\<close> clause of the claiming query, on a job joined with its tenant.\<close>

definition claimable :: "int \<Rightarrow> migration_job \<Rightarrow> tenant \<Rightarrow> bool" where
  "claimable now j t \<longleftrightarrow>
     (mj_status j = Queued \<or>
      mj_status j = Blocked \<and> (case mj_blocked_until j of None \<Rightarrow> True | Some b \<Rightarrow> b \<le> now)) \<and>
     (case tn_wave t of None \<Rightarrow> ''canary'' | Some w \<Rightarrow> w) \<noteq> ''paused'' \<and>
     mj_enqueued_at j \<le> now"

definition eligible :: "int \<Rightarrow> string list \<Rightarrow> control_db \<Rightarrow> migration_job \<Rightarrow> bool" where
  "eligible now locked db j \<longleftrightarrow>
     (case get_tenant (mj_tenant_id j) db of None \<Rightarrow> False | Some t \<Rightarrow> claimable now j t) \<and>
     mj_id j \<notin> set locked"

text \<open>\<open>ORDER BY enqueued_at ASC, id ASC LIMIT 1\<close>.\<close>

definition job_le :: "migration_job \<Rightarrow> migration_job \<Rightarrow> bool" where
  "job_le a b \<longleftrightarrow>
     mj_enqueued_at a < mj_enqueued_at b \<or> mj_enqueued_at a = mj_enqueued_at b \<and> mj_id a \<le> mj_id b"

fun first_job :: "migration_job list \<Rightarrow> migration_job option" where
  "first_job [] = None"
| "first_job (j # js) =
     (case first_job js of None \<Rightarrow> Some j | Some k \<Rightarrow> Some (if job_le j k then j else k))"

definition job_row :: "migration_job \<Rightarrow> tenant \<Rightarrow> JobRow" where
  "job_row j t =
     \<lparr>job_id = mj_id j, job_tenant_id = mj_tenant_id j, tenant_slug = tn_slug t,
      tenant_db_name = tn_db_name t, target_sha = mj_target_sha j,
      timeout_minutes = mj_timeout_minutes j, retry_count = mj_retry_count j,
      maintenance_window = tn_window t, job_tz = tn_tz t, last_migrated_sha = tn_last_sha t,
      job_wave = tn_wave t, window_override_until = tn_override_until t,
      migration_dry_run = (case mj_dry_run j of None \<Rightarrow> False | Some b \<Rightarrow> b)\<rparr>"

lemma job_row_simps [simp]:
  "job_id (job_row j t) = mj_id j" "job_tenant_id (job_row j t) = mj_tenant_id j"
  by (simp_all add: job_row_def)

definition claim_next_job ::
  "string \<Rightarrow> int \<Rightarrow> string list \<Rightarrow> control_db \<Rightarrow> JobRow option \<times> control_db" where
  "claim_next_job host now locked db =
    (case first_job (filter (eligible now locked db) (jobs db)) of
       None \<Rightarrow> (None, db)
     | Some j \<Rightarrow>
         (case get_tenant (mj_tenant_id j) db of
            None \<Rightarrow> (None, db)
          | Some t \<Rightarrow>
              (Some (job_row j t),
               update_job (mj_id j)
                 (\<lambda>r. r\<lparr>mj_status := Running, mj_started_at := Some now,
                        mj_heartbeat_at := Some now, mj_runner_host := Some host\<rparr>) db)))"

section \<open>Transitions of a claimed row\<close>

definition transition_to_blocked :: "string \<Rightarrow> int option \<Rightarrow> control_db \<Rightarrow> control_db" where
  "transition_to_blocked i blocked_until =
     update_job i (\<lambda>r. r\<lparr>mj_status := Blocked, mj_started_at := None, mj_heartbeat_at := None,
                         mj_finished_at := None, mj_blocked_until := blocked_until\<rparr>)"

definition transition_to_skipped :: "int \<Rightarrow> string \<Rightarrow> control_db \<Rightarrow> control_db" where
  "transition_to_skipped now i =
     update_job i (\<lambda>r. r\<lparr>mj_status := Skipped, mj_finished_at := Some now\<rparr>)"

definition finalize_done :: "int \<Rightarrow> string \<Rightarrow> string \<Rightarrow> string \<Rightarrow> control_db \<Rightarrow> control_db" where
  "finalize_done now i tid sha db =
     update_tenant tid (\<lambda>t. t\<lparr>tn_last_sha := Some sha, tn_updated_at := now\<rparr>)
       (update_job i (\<lambda>r. r\<lparr>mj_status := Done, mj_finished_at := Some now, mj_heartbeat_at := None\<rparr>) db)"

datatype store_error = AssertionError

definition finalize_failed ::
  "int \<Rightarrow> string \<Rightarrow> string \<Rightarrow> job_status \<Rightarrow> string \<Rightarrow> (control_db, store_error, unit) act" where
  "finalize_failed now i tid st err =
     (if st \<notin> set [Failed, Timedout] then act_raise AssertionError
      else act_modify (\<lambda>db.
        update_tenant tid (\<lambda>t. t\<lparr>tn_wave := Some ''paused'', tn_updated_at := now\<rparr>)
          (update_job i (\<lambda>r. r\<lparr>mj_status := st, mj_finished_at := Some now, mj_heartbeat_at := None,
                               mj_error_excerpt := Some err\<rparr>) db)))"

definition retry_transient :: "int \<Rightarrow> string \<Rightarrow> int \<Rightarrow> string \<Rightarrow> control_db \<Rightarrow> control_db" where
  "retry_transient now i backoff_seconds err =
     update_job i (\<lambda>r. r\<lparr>mj_status := Queued, mj_started_at := None, mj_finished_at := None,
                         mj_heartbeat_at := None, mj_retry_count := mj_retry_count r + 1,
                         mj_error_excerpt := Some err,
                         mj_enqueued_at := now + backoff_seconds * 1000000\<rparr>)"

definition record_heartbeat :: "int \<Rightarrow> string \<Rightarrow> control_db \<Rightarrow> job_status option \<times> control_db" where
  "record_heartbeat now i db =
     (let db' = update_job i (\<lambda>r. r\<lparr>mj_heartbeat_at := Some now\<rparr>) db
      in (job_status_of i db', db'))"

definition write_snapshot_id :: "string \<Rightarrow> string \<Rightarrow> control_db \<Rightarrow> control_db" where
  "write_snapshot_id i snap = update_job i (\<lambda>r. r\<lparr>mj_snapshot_id := Some snap\<rparr>)"

section \<open>The contract the transitions share\<close>

text \<open>
  Every transition of a claimed row rewrites the one row it is about, keeps its key, and leaves
  the keys of the tenants alone.
\<close>

locale job_transition =
  fixes op :: "control_db \<Rightarrow> control_db" and jid :: string and f :: "migration_job \<Rightarrow> migration_job"
  assumes jobs_op: "jobs (op db) = row_upd mj_id jid f (jobs db)"
    and keeps_id: "mj_id (f r) = mj_id r"
    and keeps_tenants: "map tn_id (tenants (op db)) = map tn_id (tenants db)"
begin

lemma job_after: "get_job jid (op db) = map_option f (get_job jid db)"
  by (simp add: jobs_op row_get_upd_same keeps_id)

lemma other_job_after: "i \<noteq> jid \<Longrightarrow> get_job i (op db) = get_job i db"
  by (simp add: jobs_op row_get_upd_other keeps_id)

lemma job_ids_after: "map mj_id (jobs (op db)) = map mj_id (jobs db)"
  by (simp add: jobs_op map_key_row_upd keeps_id)

lemma status_of_after: "job_status_of jid (op db) = map_option (\<lambda>r. mj_status (f r)) (get_job jid db)"
  by (simp add: job_after option.map_comp comp_def)

lemma status_after: "(\<And>r. mj_status (f r) = st) \<Longrightarrow> get_job jid db \<noteq> None \<Longrightarrow> job_status_of jid (op db) = Some st"
  by (auto simp: job_after)

lemma job_of_id_after: "j \<in> set (jobs (op db)) \<Longrightarrow> mj_id j = jid \<Longrightarrow> \<exists>r. j = f r"
  unfolding jobs_op row_upd_def by (auto split: if_splits)

lemma jobs_after_cases: "j \<in> set (jobs (op db)) \<Longrightarrow> j \<in> set (jobs db) \<or> (\<exists>r \<in> set (jobs db). mj_id r = jid \<and> j = f r)"
  by (auto simp: jobs_op row_upd_def)

end

lemmas job_op_defs =
  update_job_def update_tenant_def transition_to_blocked_def transition_to_skipped_def
  finalize_done_def retry_transient_def write_snapshot_id_def record_heartbeat_def

text \<open>The update that \<open>finalize_failed\<close> makes once its assertion holds.\<close>

definition fail_job :: "int \<Rightarrow> string \<Rightarrow> string \<Rightarrow> job_status \<Rightarrow> string \<Rightarrow> control_db \<Rightarrow> control_db" where
  "fail_job now i tid st err db = snd (finalize_failed now i tid st err db)"

lemma fail_job_eq:
  "st \<in> {Failed, Timedout} \<Longrightarrow> fail_job now i tid st err db =
     update_tenant tid (\<lambda>t. t\<lparr>tn_wave := Some ''paused'', tn_updated_at := now\<rparr>)
       (update_job i (\<lambda>r. r\<lparr>mj_status := st, mj_finished_at := Some now, mj_heartbeat_at := None,
                            mj_error_excerpt := Some err\<rparr>) db)"
  by (auto simp: fail_job_def finalize_failed_def)

lemma finalize_failed_run:
  "st \<in> {Failed, Timedout} \<Longrightarrow> finalize_failed now i tid st err db = (Inr (), fail_job now i tid st err db)"
  by (auto simp: fail_job_def finalize_failed_def)

interpretation blocked: job_transition "transition_to_blocked i until" i
  "\<lambda>r. r\<lparr>mj_status := Blocked, mj_started_at := None, mj_heartbeat_at := None,
         mj_finished_at := None, mj_blocked_until := until\<rparr>" for i until
  by unfold_locales (simp_all add: job_op_defs)

interpretation skipped: job_transition "transition_to_skipped now i" i
  "\<lambda>r. r\<lparr>mj_status := Skipped, mj_finished_at := Some now\<rparr>" for now i
  by unfold_locales (simp_all add: job_op_defs)

interpretation done_op: job_transition "finalize_done now i tid sha" i
  "\<lambda>r. r\<lparr>mj_status := Done, mj_finished_at := Some now, mj_heartbeat_at := None\<rparr>" for now i tid sha
  by unfold_locales (simp_all add: job_op_defs map_key_row_upd)

interpretation failed_op: job_transition "fail_job now i tid Failed err" i
  "\<lambda>r. r\<lparr>mj_status := Failed, mj_finished_at := Some now, mj_heartbeat_at := None,
         mj_error_excerpt := Some err\<rparr>" for now i tid err
  by unfold_locales (simp_all add: fail_job_eq job_op_defs map_key_row_upd)

interpretation timedout_op: job_transition "fail_job now i tid Timedout err" i
  "\<lambda>r. r\<lparr>mj_status := Timedout, mj_finished_at := Some now, mj_heartbeat_at := None,
         mj_error_excerpt := Some err\<rparr>" for now i tid err
  by unfold_locales (simp_all add: fail_job_eq job_op_defs map_key_row_upd)

interpretation retried: job_transition "retry_transient now i backoff err" i
  "\<lambda>r. r\<lparr>mj_status := Queued, mj_started_at := None, mj_finished_at := None,
         mj_heartbeat_at := None, mj_retry_count := mj_retry_count r + 1,
         mj_error_excerpt := Some err, mj_enqueued_at := now + backoff * 1000000\<rparr>" for now i backoff err
  by unfold_locales (simp_all add: job_op_defs)

interpretation beaten: job_transition "\<lambda>db. snd (record_heartbeat now i db)" i
  "\<lambda>r. r\<lparr>mj_heartbeat_at := Some now\<rparr>" for now i
  by unfold_locales (simp_all add: job_op_defs)

interpretation snapped: job_transition "write_snapshot_id i snap" i
  "\<lambda>r. r\<lparr>mj_snapshot_id := Some snap\<rparr>" for i snap
  by unfold_locales (simp_all add: job_op_defs)

lemma record_heartbeat_status: "fst (record_heartbeat now i db) = job_status_of i db"
  by (simp add: record_heartbeat_def Let_def update_job_def row_get_upd_same option.map_comp comp_def)

section \<open>The claim\<close>

lemma job_le_refl: "job_le j j"
  by (simp add: job_le_def)

lemma job_le_trans: "job_le a b \<Longrightarrow> job_le b c \<Longrightarrow> job_le a c"
  by (auto simp: job_le_def)

lemma job_le_total: "\<not> job_le a b \<Longrightarrow> job_le b a"
  by (auto simp: job_le_def)

lemma first_job_None: "first_job js = None \<longleftrightarrow> js = []"
  by (cases js) (auto split: option.splits)

lemma first_job_Some: "first_job js = Some j \<Longrightarrow> j \<in> set js \<and> (\<forall>k \<in> set js. job_le j k)"
proof (induction js arbitrary: j)
  case (Cons a js)
  show ?case
  proof (cases "first_job js")
    case None
    with Cons.prems show ?thesis by (simp add: first_job_None job_le_refl)
  next
    case (Some b)
    with Cons.IH have b: "b \<in> set js" "\<forall>k \<in> set js. job_le b k" by auto
    with Cons.prems Some show ?thesis
      by (auto simp: job_le_refl dest: job_le_total split: if_splits) (blast intro: job_le_trans)
  qed
qed simp

lemma claim_NoneD:
  "claim_next_job host now locked db = (None, db') \<Longrightarrow>
   db' = db \<and> (\<forall>j \<in> set (jobs db). \<not> eligible now locked db j)"
  by (auto simp: claim_next_job_def eligible_def first_job_None filter_empty_conv
      split: option.splits dest!: first_job_Some)

text \<open>The row that a claim rewrites.\<close>

abbreviation claim_upd :: "string \<Rightarrow> int \<Rightarrow> migration_job \<Rightarrow> migration_job" where
  "claim_upd host now r \<equiv>
     r\<lparr>mj_status := Running, mj_started_at := Some now, mj_heartbeat_at := Some now,
       mj_runner_host := Some host\<rparr>"

lemma claim_SomeE:
  assumes "claim_next_job host now locked db = (Some row, db')"
  obtains j t where "j \<in> set (jobs db)" "eligible now locked db j"
    "\<And>k. k \<in> set (jobs db) \<Longrightarrow> eligible now locked db k \<Longrightarrow> job_le j k"
    "get_tenant (mj_tenant_id j) db = Some t" "claimable now j t" "row = job_row j t"
    "db' = update_job (mj_id j) (claim_upd host now) db"
proof -
  from assms obtain j t where j: "first_job (filter (eligible now locked db) (jobs db)) = Some j"
    and t: "get_tenant (mj_tenant_id j) db = Some t" and row: "row = job_row j t"
    and db': "db' = update_job (mj_id j) (claim_upd host now) db"
    by (auto simp: claim_next_job_def split: option.splits)
  from first_job_Some [OF j] have "j \<in> set (jobs db)" "eligible now locked db j"
    "\<And>k. k \<in> set (jobs db) \<Longrightarrow> eligible now locked db k \<Longrightarrow> job_le j k" by auto
  then show thesis using that t row db' by (auto simp: eligible_def)
qed

interpretation claim_row: job_transition "update_job i (claim_upd host now)" i "claim_upd host now"
  for i host now
  by unfold_locales (simp_all add: job_op_defs)

end
