(* ===== verification/MigrationSnapshot.thy ===== *)
theory MigrationSnapshot
  imports Prelude
begin

text \<open>
  The pre-migration snapshot of infra/runners/migration_runner/snapshot.py: the dispatch on the
  snapshot mode, one function per mode, and the two parsers of the tools' output.

  What a subprocess or the backup service answers is an argument (\<open>snap_env\<close>), as are the
  environment variables, the monotonic clock (microseconds) and \<open>json.loads\<close>, \<open>json.dumps\<close>
  and the HMAC.
\<close>

section \<open>The world a snapshot runs in\<close>

text \<open>What \<open>subprocess.run(..., check=True)\<close> does: returns the standard output, or raises.\<close>

datatype run_outcome =
    RunOk string
  | CalledProcessError int "string option"
  | TimeoutExpired string
  | FileNotFound string

datatype snap_error = SnapshotError string | UncaughtFileNotFound string | UncaughtAttributeError

record snap_env =
  se_environ :: "string \<Rightarrow> string option"
  se_run :: "string list \<Rightarrow> int \<Rightarrow> run_outcome"
  se_http :: "string \<Rightarrow> string \<Rightarrow> string \<Rightarrow> string + string"
  se_started :: int
  se_finished :: int
  se_loads :: "string \<Rightarrow> json option"
  se_dumps :: "json \<Rightarrow> string"
  se_hmac_hex :: "string \<Rightarrow> string \<Rightarrow> string"

record SnapshotResult =
  snapshot_id :: string
  elapsed :: int

section \<open>Parsers\<close>

definition key_marker :: string where "key_marker = ''SNAPSHOT_KEY=''"

fun scan_snapshot_key :: "string list \<Rightarrow> string option" where
  "scan_snapshot_key [] = None"
| "scan_snapshot_key (line # ls) =
     (if prefix key_marker line then Some (py_strip (drop (length key_marker) line))
      else scan_snapshot_key ls)"

definition parse_snapshot_key :: "string \<Rightarrow> string option" where
  "parse_snapshot_key out = scan_snapshot_key (rev (py_splitlines out))"

definition label_markers :: "string list" where
  "label_markers = [''new backup label = '', ''backup: label = '']"

fun find_marker :: "string list \<Rightarrow> string \<Rightarrow> string option" where
  "find_marker [] line = None"
| "find_marker (m # ms) line =
     (case py_find m line of
        Some i \<Rightarrow> Some (py_strip (drop (i + length m) line))
      | None \<Rightarrow> find_marker ms line)"

fun scan_backup_label :: "string list \<Rightarrow> string option" where
  "scan_backup_label [] = None"
| "scan_backup_label (line # ls) =
     (case find_marker label_markers line of Some l \<Rightarrow> Some l | None \<Rightarrow> scan_backup_label ls)"

definition parse_backup_label :: "string \<Rightarrow> string option" where
  "parse_backup_label out = scan_backup_label (rev (py_splitlines out))"

section \<open>The snapshot modes\<close>

definition stderr_tail :: "string option \<Rightarrow> string" where
  "stderr_tail err = py_last 2000 (py_or err [])"

definition no_label :: "string \<Rightarrow> snap_error" where
  "no_label out =
     SnapshotError (''pgbackrest produced no backup label in stdout; tail='' @ py_last 2000 out)"

definition pg_app :: "snap_env \<Rightarrow> string" where
  "pg_app e = env_get (se_environ e) ''PGBACKREST_SSH_APP'' ''odoo-saas-postgres''"

definition ssh_argv :: "snap_env \<Rightarrow> string \<Rightarrow> string list" where
  "ssh_argv e remote_cmd =
     [''flyctl'', ''ssh'', ''console'', ''--app'', pg_app e, ''--command'', remote_cmd]"

definition flyctl_missing :: snap_error where
  "flyctl_missing = SnapshotError ''flyctl not on PATH - install in migration-runner Dockerfile''"

definition snapshot_via_cli :: "snap_env \<Rightarrow> string \<Rightarrow> snap_error + string" where
  "snapshot_via_cli e stanza =
     (case se_run e [''pgbackrest'', ''--stanza='' @ stanza, ''backup'', ''--type=incr''] (15 * 60) of
        CalledProcessError rc err \<Rightarrow>
          Inl (SnapshotError (''pgbackrest exit '' @ int_str rc @ '': '' @ stderr_tail err))
      | TimeoutExpired _ \<Rightarrow> Inl (SnapshotError ''pgbackrest timed out after 15 min'')
      | FileNotFound m \<Rightarrow> Inl (UncaughtFileNotFound m)
      | RunOk out \<Rightarrow>
          let label = parse_backup_label out
          in if \<not> truthy label then Inl (no_label out) else Inr (the label))"

definition snapshot_via_ssh :: "snap_env \<Rightarrow> string \<Rightarrow> snap_error + string" where
  "snapshot_via_ssh e stanza =
     (case se_run e (ssh_argv e (''gosu postgres pgbackrest --stanza='' @ stanza @
                       '' --log-level-console=info backup --type=incr'')) (15 * 60) of
        CalledProcessError rc err \<Rightarrow>
          Inl (SnapshotError (''flyctl ssh pgbackrest exit '' @ int_str rc @ '': '' @ stderr_tail err))
      | TimeoutExpired _ \<Rightarrow> Inl (SnapshotError ''flyctl ssh pgbackrest timed out after 15 min'')
      | FileNotFound _ \<Rightarrow> Inl flyctl_missing
      | RunOk out \<Rightarrow>
          let label = parse_backup_label out
          in if \<not> truthy label then Inl (no_label out) else Inr (the label))"

definition snapshot_via_pgdump :: "snap_env \<Rightarrow> string \<Rightarrow> string \<Rightarrow> snap_error + string" where
  "snapshot_via_pgdump e slug db_name =
     (case se_run e (ssh_argv e (''/usr/local/bin/pgdump-snapshot.sh '' @ db_name @ '' '' @ slug)) (30 * 60) of
        CalledProcessError rc err \<Rightarrow>
          Inl (SnapshotError (''pgdump-snapshot exit '' @ int_str rc @ '': '' @ stderr_tail err))
      | TimeoutExpired _ \<Rightarrow> Inl (SnapshotError ''pgdump-snapshot timed out after 30 min'')
      | FileNotFound _ \<Rightarrow> Inl flyctl_missing
      | RunOk out \<Rightarrow>
          let key = parse_snapshot_key out
          in if \<not> truthy key
             then Inl (SnapshotError (''pgdump produced no SNAPSHOT_KEY line; tail='' @ py_last 2000 out))
             else Inr (the key))"

definition snapshot_via_http ::
  "snap_env \<Rightarrow> string \<Rightarrow> string \<Rightarrow> string \<Rightarrow> string \<Rightarrow> snap_error + string" where
  "snapshot_via_http e url secret slug db_name =
     (let payload = se_dumps e (JObj [(''tenant_slug'', JStr slug), (''db_name'', JStr db_name),
                                      (''reason'', JStr ''pre-migration'')]);
          signature = se_hmac_hex e secret payload
      in case se_http e (py_rstrip_char (CHR ''/'') url @ ''/snapshot'') payload signature of
           Inl exc \<Rightarrow> Inl (SnapshotError (''backup HTTP call failed: '' @ exc))
         | Inr body \<Rightarrow>
             (case se_loads e body of
                None \<Rightarrow> Inl (SnapshotError (''backup service returned non-JSON: '' @ py_first 200 body))
              | Some (JObj kvs) \<Rightarrow>
                  (case map_of kvs ''snapshot_id'' of
                     Some (JStr sid) \<Rightarrow>
                       if sid = []
                       then Inl (SnapshotError (''backup service response missing snapshot_id: '' @ py_first 200 body))
                       else Inr sid
                   | _ \<Rightarrow> Inl (SnapshotError (''backup service response missing snapshot_id: '' @ py_first 200 body)))
              | Some _ \<Rightarrow> Inl UncaughtAttributeError))"

section \<open>The dispatch\<close>

definition sentinel_prefix :: string where "sentinel_prefix = ''no-snapshot-''"

definition timed :: "snap_env \<Rightarrow> snap_error + string \<Rightarrow> snap_error + SnapshotResult" where
  "timed e r =
     (case r of Inl x \<Rightarrow> Inl x
      | Inr sid \<Rightarrow> Inr \<lparr>snapshot_id = sid, elapsed = se_finished e - se_started e\<rparr>)"

definition take_snapshot ::
  "snap_env \<Rightarrow> string \<Rightarrow> string \<Rightarrow> string option \<Rightarrow> string option \<Rightarrow> string option \<Rightarrow> string option
   \<Rightarrow> snap_error + SnapshotResult" where
  "take_snapshot e slug db_name mode_arg hmac_secret backup_service_url pgbackrest_stanza =
     (let mode = py_or mode_arg (env_get (se_environ e) ''SNAPSHOT_MODE'' ''skip'')
      in if mode = ''skip''
         then Inr \<lparr>snapshot_id = sentinel_prefix @ int_str (se_started e div 1000000), elapsed = 0\<rparr>
         else if mode = ''cli''
         then timed e (snapshot_via_cli e
                (py_or pgbackrest_stanza (env_get (se_environ e) ''PGBACKREST_STANZA'' db_name)))
         else if mode = ''ssh''
         then timed e (snapshot_via_ssh e
                (py_or pgbackrest_stanza (env_get (se_environ e) ''PGBACKREST_STANZA'' ''shared'')))
         else if mode = ''pgdump'' then timed e (snapshot_via_pgdump e slug db_name)
         else if mode = ''http''
         then
           let url = py_or_opt backup_service_url (se_environ e ''BACKUP_SERVICE_URL'');
               secret = py_or_opt hmac_secret (se_environ e ''SAAS_BACKUP_HMAC_SECRET'')
           in if \<not> truthy url \<or> \<not> truthy secret
              then Inl (SnapshotError
                ''SNAPSHOT_MODE=http requires BACKUP_SERVICE_URL + SAAS_BACKUP_HMAC_SECRET'')
              else timed e (snapshot_via_http e (the url) (the secret) slug db_name)
         else Inl (SnapshotError (''unknown SNAPSHOT_MODE='' @ py_repr mode)))"

section \<open>Lemmas on the parsers\<close>

lemma no_break_key_marker: "c \<in> set key_marker \<Longrightarrow> \<not> py_break c"
  by (auto simp: key_marker_def py_break_def)

lemma parse_snapshot_key_last_line:
  assumes clean: "\<And>c. c \<in> set k \<Longrightarrow> \<not> py_break c" and ends: "\<not> py_space (hd k)" "\<not> py_space (last k)"
  shows "parse_snapshot_key (pre @ CHR 0x0A # key_marker @ k @ [CHR 0x0A]) = Some k"
proof -
  have "py_splitlines ((key_marker @ k) @ CHR 0x0A # []) = (key_marker @ k) # py_splitlines []"
    using clean no_break_key_marker by (intro py_splitlines_line) auto
  then have "py_splitlines (pre @ CHR 0x0A # key_marker @ k @ [CHR 0x0A]) =
      py_splitlines (pre @ [CHR 0x0A]) @ [key_marker @ k]"
    by (simp add: py_splitlines_append [of pre "key_marker @ k @ [CHR 0x0A]"])
  then show ?thesis
    using ends by (simp add: parse_snapshot_key_def py_strip_id)
qed

lemma find_marker_None:
  "find_marker ms line = None \<longleftrightarrow> (\<forall>m \<in> set ms. \<not> py_in m line)"
  by (induction ms) (auto simp: py_in_def split: option.splits)

lemma scan_backup_label_skip:
  "(\<And>l m. l \<in> set ls \<Longrightarrow> m \<in> set label_markers \<Longrightarrow> \<not> py_in m l) \<Longrightarrow>
   scan_backup_label (ls @ rest) = scan_backup_label rest"
  by (induction ls) (auto simp: find_marker_None [THEN iffD2])

section \<open>Properties\<close>

text \<open>
  Whatever the dump wrapper printed before, its final \<open>SNAPSHOT_KEY=\<close> line is the snapshot
  id that \<open>_snapshot_via_pgdump\<close> returns.
\<close>

theorem pgdump_key_roundtrip:
  assumes "k \<noteq> []" and "\<forall>c \<in> set k. \<not> py_break c" and "\<not> py_space (hd k)" and "\<not> py_space (last k)"
    and "se_run e (ssh_argv e (''/usr/local/bin/pgdump-snapshot.sh '' @ db_name @ '' '' @ slug)) (30 * 60)
         = RunOk (pre @ CHR 0x0A # key_marker @ k @ [CHR 0x0A])"
  shows "snapshot_via_pgdump e slug db_name = Inr k"
  using assms parse_snapshot_key_last_line [of k pre]
  by (simp add: snapshot_via_pgdump_def Let_def truthy_def)

definition demo_snap_env :: "string \<Rightarrow> snap_env" where
  "demo_snap_env out =
     \<lparr>se_environ = Map.empty, se_run = (\<lambda>_ _. RunOk out), se_http = (\<lambda>_ _ _. Inl ''refused''),
      se_started = 7000000, se_finished = 9000000, se_loads = (\<lambda>_. None), se_dumps = (\<lambda>_. ''{}''),
      se_hmac_hex = (\<lambda>_ _. ''00'')\<rparr>"

theorem pgdump_key_roundtrip_witness:
  "snapshot_via_pgdump
     (demo_snap_env (''SNAPSHOT_KEY=old'' @ CHR 0x0A # key_marker @ ''pgdump/acme/1.dump'' @ [CHR 0x0A]))
     ''acme'' ''acme_db'' = Inr ''pgdump/acme/1.dump''"
  by (rule pgdump_key_roundtrip) (simp_all add: demo_snap_env_def py_break_def py_space_def)

text \<open>
  The backup label read from pgBackRest's output is the one announced by the last line that
  carries a marker, here a \<open>new backup label\<close> line; other lines after it, such as the
  \<open>last backup label\<close> of the prior backup, and everything before it, do not matter.
\<close>

theorem backup_label_of_this_run:
  assumes "\<forall>c \<in> set (w @ lbl). \<not> py_break c" and "\<not> py_space (hd lbl)" and "\<not> py_space (last lbl)"
    and "py_find ''new backup label = '' (w @ ''new backup label = '' @ lbl) = Some (length w)"
    and "\<forall>l \<in> set (py_splitlines post). \<forall>m \<in> set label_markers. \<not> py_in m l"
  shows "parse_backup_label (pre @ CHR 0x0A # w @ ''new backup label = '' @ lbl @ CHR 0x0A # post) = Some lbl"
proof -
  define m :: string where "m = ''new backup label = ''"
  let ?line = "w @ m @ lbl"
  have "\<forall>c \<in> set m. \<not> py_break c"
    by (simp add: m_def py_break_def)
  then have "py_splitlines (?line @ CHR 0x0A # post) = ?line # py_splitlines post"
    using assms(1) by (intro py_splitlines_line) auto
  then have "rev (py_splitlines (pre @ CHR 0x0A # w @ m @ lbl @ CHR 0x0A # post)) =
      rev (py_splitlines post) @ ?line # rev (py_splitlines (pre @ [CHR 0x0A]))"
    by (simp add: py_splitlines_append [of pre "w @ m @ lbl @ CHR 0x0A # post"])
  moreover have "find_marker label_markers ?line = Some lbl"
    using assms(2-4) by (simp add: label_markers_def py_strip_id flip: m_def)
  moreover have "scan_backup_label (rev (py_splitlines post) @ rest) = scan_backup_label rest" for rest
    using assms(5) by (intro scan_backup_label_skip) auto
  ultimately show ?thesis by (simp add: parse_backup_label_def flip: m_def)
qed

theorem backup_label_of_this_run_witness:
  "parse_backup_label
     (''x'' @ CHR 0x0A # ''INFO: '' @ ''new backup label = '' @ ''20260524F'' @
      CHR 0x0A # ''INFO: last backup label = 20260523F'') = Some ''20260524F''"
proof (rule backup_label_of_this_run)
  show "\<forall>l \<in> set (py_splitlines ''INFO: last backup label = 20260523F''). \<forall>m \<in> set label_markers. \<not> py_in m l"
    by code_simp
  show "py_find ''new backup label = '' (''INFO: '' @ ''new backup label = '' @ ''20260524F'') = Some (length ''INFO: '')"
    by code_simp
qed (simp_all add: py_break_def py_space_def)

end
