(* ===== verification/MigrationRunner.thy ===== *)
theory MigrationRunner
  imports MigrationWindow MigrationStore MigrationSnapshot
begin

text \<open>
  The queue consumer of infra/runners/migration_runner/runner.py and the heartbeat thread of
  heartbeat.py, over the store, the window and the snapshot of the other theories.

  One iteration runs in a world of three parts: the control-plane database, the databases of the
  tenant cluster, and the list of databases \<open>odoo -u all\<close> was started on. What the iteration
  meets on its way (clocks, locks, the answers of subprocesses, what other processes do to the
  tables while Odoo runs) is a \<open>run_env\<close>. Log lines are left out.
\<close>

section \<open>Outcomes\<close>

datatype outcome = OIdle | OSkipped | OBlocked | ODone | OFailed | OTimedout | OCancelled | ORetry

record RunResult =
  res_job :: "string option"
  res_status :: outcome

datatype run_exn =
  WindowRaised window_error | SnapshotRaised snap_error | StoreRaised store_error | CloneFailed string

definition compute_backoff_seconds :: "int \<Rightarrow> int" where
  "compute_backoff_seconds n = (n + 1) * (n + 1) * 300"

definition transient_exit_codes :: "int list" where
  "transient_exit_codes = [143, 137]"

definition classify_exit :: "int \<Rightarrow> int \<Rightarrow> int \<Rightarrow> outcome" where
  "classify_exit exit_code n max_retries =
     (if exit_code = 0 then ODone
      else if n + 1 \<ge> max_retries then OFailed
      else if exit_code \<in> set transient_exit_codes then ORetry
      else OFailed)"

section \<open>The heartbeat thread\<close>

text \<open>
  One pass of the loop: what other processes did to the tables since the last pass, the time of
  the transaction, and whether the transaction raised. The list ends when \<open>stop()\<close> is called.
\<close>

record hb_tick =
  tk_others :: "control_db \<Rightarrow> control_db"
  tk_now :: int
  tk_raises :: bool

fun heartbeat_run :: "string \<Rightarrow> hb_tick list \<Rightarrow> control_db \<Rightarrow> bool \<times> control_db" where
  "heartbeat_run i [] db = (False, db)"
| "heartbeat_run i (t # ts) db =
     (let db1 = tk_others t db;
          (status, db2) = (if tk_raises t then (None, db1) else record_heartbeat (tk_now t) i db1)
      in if status = Some Cancelled then (True, fold tk_others ts db2)
         else heartbeat_run i ts db2)"

section \<open>The world of an iteration\<close>

record run_world =
  rw_db :: control_db
  rw_dbs :: "string list"
  rw_runs :: "string list"

text \<open>\<open>ProcTimedOut\<close>: \<open>communicate\<close> timed out and the process was terminated or killed.\<close>

datatype proc_outcome =
  SpawnNotFound string | ProcExited int string | ProcTimedOut int string

record run_env =
  re_cron :: cron_lib
  re_utcnow :: int
  re_tx_now :: "nat \<Rightarrow> int"
  re_locked :: "string list"
  re_global_override :: "string option"
  re_snapshot :: "string \<Rightarrow> string \<Rightarrow> snap_error + SnapshotResult"
  re_create_ok :: "string \<Rightarrow> string \<Rightarrow> bool"
  re_drop_ok :: "string \<Rightarrow> bool"
  re_proc :: proc_outcome
  re_ticks :: "hb_tick list"
  re_late :: "control_db \<Rightarrow> control_db"

text \<open>A \<open>with self._store.cursor()\<close> block whose body does not raise.\<close>

definition commit :: "(control_db \<Rightarrow> control_db) \<Rightarrow> (run_world, run_exn, unit) act" where
  "commit f = with_cursor (act_modify (\<lambda>w. w\<lparr>rw_db := f (rw_db w)\<rparr>))"

text \<open>\<open>finalize_failed\<close> inside a cursor block.\<close>

definition lift_failed ::
  "int \<Rightarrow> JobRow \<Rightarrow> job_status \<Rightarrow> string \<Rightarrow> (run_world, run_exn, unit) act" where
  "lift_failed now job st err = (\<lambda>w.
     case finalize_failed now (job_id job) (job_tenant_id job) st err (rw_db w) of
       (Inl x, db) \<Rightarrow> (Inl (StoreRaised x), w\<lparr>rw_db := db\<rparr>)
     | (Inr u, db) \<Rightarrow> (Inr u, w\<lparr>rw_db := db\<rparr>))"

definition commit_failed ::
  "int \<Rightarrow> JobRow \<Rightarrow> job_status \<Rightarrow> string \<Rightarrow> (run_world, run_exn, unit) act" where
  "commit_failed now job st err = with_cursor (lift_failed now job st err)"

abbreviation result :: "JobRow \<Rightarrow> outcome \<Rightarrow> (run_world, run_exn, RunResult) act" where
  "result job st \<equiv> act_return \<lparr>res_job = Some (job_id job), res_status = st\<rparr>"

section \<open>Dry-run clones\<close>

text \<open>
  Whether Postgres accepts a \<open>CREATE DATABASE\<close> is an answer of the environment (it refuses one
  inside a transaction). The failure is recorded in the transaction that the statement has failed
  in and whose body then raises; whatever that recording does, it is undone.
\<close>

definition clone_name :: "JobRow \<Rightarrow> string" where
  "clone_name job =
     (let short = py_first 8 (filter (\<lambda>c. c \<noteq> CHR ''-'') (job_id job));
          slug40 = py_first 40 (tenant_slug job)
      in slug40 @ ''__dryrun_'' @ short)"

definition make_dryrun_clone :: "run_env \<Rightarrow> JobRow \<Rightarrow> (run_world, run_exn, string) act" where
  "make_dryrun_clone e job =
     (let clone = clone_name job
      in act_seq
           (with_cursor (\<lambda>w.
              if re_create_ok e clone (tenant_db_name job)
              then (Inr (), w\<lparr>rw_dbs := clone # rw_dbs w\<rparr>)
              else act_seq (lift_failed (re_tx_now e 2) job Failed ''dry-run clone failed; see runner logs'')
                     (act_raise (CloneFailed clone)) w))
           (act_return clone))"

definition drop_dryrun_clone :: "run_env \<Rightarrow> string \<Rightarrow> (run_world, run_exn, unit) act" where
  "drop_dryrun_clone e clone = (\<lambda>w.
     if re_drop_ok e clone then (Inr (), w\<lparr>rw_dbs := removeAll clone (rw_dbs w)\<rparr>) else (Inr (), w))"

section \<open>Running Odoo\<close>

abbreviation newline :: string where "newline \<equiv> [CHR 0x0A]"

definition finish_run ::
  "run_env \<Rightarrow> JobRow \<Rightarrow> string \<Rightarrow> bool \<Rightarrow> bool \<Rightarrow> int \<Rightarrow> string \<Rightarrow> (run_world, run_exn, RunResult) act" where
  "finish_run e job target_db observed_cancel timed_out exit_code stderr_text =
     (let stderr = py_last 50000 stderr_text;
          timeout_seconds = timeout_minutes job * 60;
          now = re_tx_now e 3
      in if observed_cancel then result job OCancelled
         else if timed_out
         then act_seq (commit_failed now job Timedout
                 (py_first 50000 (''timed out after '' @ int_str timeout_seconds @ ''s'' @ newline @ stderr)))
                (result job OTimedout)
         else
           (case classify_exit exit_code (retry_count job) 3 of
              ODone \<Rightarrow>
                if migration_dry_run job
                then act_seq (commit (transition_to_skipped now (job_id job)))
                       (act_seq (drop_dryrun_clone e target_db) (result job ODone))
                else act_seq (commit (finalize_done now (job_id job) (job_tenant_id job) (target_sha job)))
                       (result job ODone)
            | ORetry \<Rightarrow>
                act_seq (commit (retry_transient now (job_id job) (compute_backoff_seconds (retry_count job))
                          (py_first 50000 (''transient exit='' @ int_str exit_code @ newline @ stderr))))
                  (result job ORetry)
            | _ \<Rightarrow>
                act_seq (commit_failed now job Failed
                          (py_first 50000 (''exit='' @ int_str exit_code @ newline @ stderr)))
                  (result job OFailed)))"

text \<open>The process and the heartbeat thread run together; then what others do before the last write.\<close>

definition while_running :: "run_env \<Rightarrow> JobRow \<Rightarrow> (run_world, run_exn, bool) act" where
  "while_running e job = (\<lambda>w.
     case heartbeat_run (job_id job) (re_ticks e) (rw_db w) of
       (cancelled, db) \<Rightarrow> (Inr cancelled, w\<lparr>rw_db := re_late e db\<rparr>))"

definition invoke_odoo :: "run_env \<Rightarrow> JobRow \<Rightarrow> string \<Rightarrow> (run_world, run_exn, RunResult) act" where
  "invoke_odoo e job target_db =
     (case re_proc e of
        SpawnNotFound exc \<Rightarrow>
          act_seq (commit_failed (re_tx_now e 3) job Failed (''odoo binary missing: '' @ exc))
            (result job OFailed)
      | ProcExited code err \<Rightarrow>
          act_seq (act_modify (\<lambda>w. w\<lparr>rw_runs := rw_runs w @ [target_db]\<rparr>))
            (act_bind (while_running e job)
              (\<lambda>cancelled. finish_run e job target_db cancelled False code err))
      | ProcTimedOut code err \<Rightarrow>
          act_seq (act_modify (\<lambda>w. w\<lparr>rw_runs := rw_runs w @ [target_db]\<rparr>))
            (act_bind (while_running e job)
              (\<lambda>cancelled. finish_run e job target_db cancelled True code err)))"

definition run_odoo :: "run_env \<Rightarrow> JobRow \<Rightarrow> (run_world, run_exn, RunResult) act" where
  "run_odoo e job =
     act_bind (if migration_dry_run job then make_dryrun_clone e job else act_return (tenant_db_name job))
       (invoke_odoo e job)"

section \<open>One job, one iteration, the loop\<close>

definition default_window :: "run_env \<Rightarrow> JobRow \<Rightarrow> window_error + window_evaluator" where
  "default_window e job =
     window_init (re_cron e) (maintenance_window job) (job_tz job) (window_override_until job)
       (py_lower (case re_global_override e of None \<Rightarrow> [] | Some v \<Rightarrow> v) \<in> set [''1'', ''true'', ''yes''])"

definition process_job :: "run_env \<Rightarrow> JobRow \<Rightarrow> (run_world, run_exn, RunResult) act" where
  "process_job e job =
     (if last_migrated_sha job = Some (target_sha job)
      then act_seq (commit (transition_to_skipped (re_tx_now e 1) (job_id job))) (result job OSkipped)
      else
        case default_window e job of
          Inl x \<Rightarrow> act_raise (WindowRaised x)
        | Inr evaluator \<Rightarrow>
            (case is_open (re_cron e) evaluator (re_utcnow e) of
               Inl x \<Rightarrow> act_raise (WindowRaised x)
             | Inr False \<Rightarrow>
                 (case next_open (re_cron e) evaluator (re_utcnow e) of
                    Inl x \<Rightarrow> act_raise (WindowRaised x)
                  | Inr blocked_until \<Rightarrow>
                      act_seq (commit (transition_to_blocked (job_id job) (Some blocked_until)))
                        (result job OBlocked))
             | Inr True \<Rightarrow>
                 (case re_snapshot e (tenant_slug job) (tenant_db_name job) of
                    Inl (SnapshotError exc) \<Rightarrow>
                      act_seq (commit_failed (re_tx_now e 1) job Failed
                                (py_first 50000 (''snapshot failed: '' @ exc)))
                        (result job OFailed)
                  | Inl x \<Rightarrow> act_raise (SnapshotRaised x)
                  | Inr snap \<Rightarrow>
                      act_seq (commit (write_snapshot_id (job_id job) (snapshot_id snap)))
                        (run_odoo e job))))"

definition run_once :: "string \<Rightarrow> run_env \<Rightarrow> (run_world, run_exn, RunResult) act" where
  "run_once host e = (\<lambda>w.
     case claim_next_job host (re_tx_now e 0) (re_locked e) (rw_db w) of
       (None, db) \<Rightarrow> (Inr \<lparr>res_job = None, res_status = OIdle\<rparr>, w\<lparr>rw_db := db\<rparr>)
     | (Some job, db) \<Rightarrow> process_job e job (w\<lparr>rw_db := db\<rparr>))"

text \<open>
  \<open>run_forever\<close> for as many iterations as the list has environments: the flags say after which
  iterations the daemon sleeps.
\<close>

fun run_forever :: "string \<Rightarrow> run_env list \<Rightarrow> run_world \<Rightarrow> bool list \<times> run_world" where
  "run_forever host [] w = ([], w)"
| "run_forever host (e # es) w =
     (case run_once host e w of
        (Inl _, w') \<Rightarrow> (case run_forever host es w' of (zs, w'') \<Rightarrow> (True # zs, w''))
      | (Inr r, w') \<Rightarrow>
          (case run_forever host es w' of
             (zs, w'') \<Rightarrow> ((res_status r = OIdle \<or> res_status r = OBlocked) # zs, w'')))"

section \<open>What an iteration does to the tables\<close>

lemma commit_run [simp]: "commit f w = (Inr (), w\<lparr>rw_db := f (rw_db w)\<rparr>)"
  by (simp add: commit_def with_cursor_def)

lemma commit_failed_run [simp]:
  "st \<in> {Failed, Timedout} \<Longrightarrow> commit_failed now job st err w =
     (Inr (), w\<lparr>rw_db := fail_job now (job_id job) (job_tenant_id job) st err (rw_db w)\<rparr>)"
  by (auto simp: commit_failed_def with_cursor_def lift_failed_def finalize_failed_run)

lemma drop_clone_run [simp]:
  "drop_dryrun_clone e clone w =
     (Inr (), w\<lparr>rw_dbs := if re_drop_ok e clone then removeAll clone (rw_dbs w) else rw_dbs w\<rparr>)"
  by (simp add: drop_dryrun_clone_def)

lemma make_clone_run:
  "make_dryrun_clone e job w =
     (if re_create_ok e (clone_name job) (tenant_db_name job)
      then (Inr (clone_name job), w\<lparr>rw_dbs := clone_name job # rw_dbs w\<rparr>)
      else (Inl (CloneFailed (clone_name job)), w))"
  by (simp add: make_dryrun_clone_def with_cursor_def lift_failed_def finalize_failed_run Let_def)

text \<open>Others may change rows while Odoo runs but do not delete the job or the tenant.\<close>

definition keeps_rows :: "(control_db \<Rightarrow> control_db) \<Rightarrow> bool" where
  "keeps_rows f \<longleftrightarrow>
     (\<forall>db. mj_id ` set (jobs (f db)) = mj_id ` set (jobs db) \<and> tn_id ` set (tenants (f db)) = tn_id ` set (tenants db))"

definition rows_present :: "JobRow \<Rightarrow> control_db \<Rightarrow> bool" where
  "rows_present job db \<longleftrightarrow> get_job (job_id job) db \<noteq> None \<and> get_tenant (job_tenant_id job) db \<noteq> None"

lemma rows_present_keys:
  "rows_present job db \<longleftrightarrow> job_id job \<in> mj_id ` set (jobs db) \<and> job_tenant_id job \<in> tn_id ` set (tenants db)"
  by (simp add: rows_present_def row_get_None)

lemma keeps_rows_present: "keeps_rows f \<Longrightarrow> rows_present job db \<Longrightarrow> rows_present job (f db)"
  by (auto simp: keeps_rows_def rows_present_keys)

lemma fold_keeps_rows:
  "(\<And>t. t \<in> set ts \<Longrightarrow> keeps_rows (tk_others t)) \<Longrightarrow> rows_present job db \<Longrightarrow> rows_present job (fold tk_others ts db)"
  by (induction ts arbitrary: db) (auto simp: keeps_rows_present)

lemma set_eq_of_map: "map k xs = map k ys \<Longrightarrow> k ` set xs = k ` set ys"
  by (metis list.set_map)

lemma heartbeat_present: "rows_present job db \<Longrightarrow> rows_present job (snd (record_heartbeat now i db))"
  using set_eq_of_map [OF beaten.job_ids_after [of now i db]]
    set_eq_of_map [OF beaten.keeps_tenants [of now i db]]
  by (simp add: rows_present_keys)

lemma snapshot_present: "rows_present job db \<Longrightarrow> rows_present job (write_snapshot_id i s db)"
  using set_eq_of_map [OF snapped.job_ids_after [of i s db]] set_eq_of_map [OF snapped.keeps_tenants [of i s db]]
  by (simp add: rows_present_keys)

lemma heartbeat_run_present:
  "(\<And>t. t \<in> set ts \<Longrightarrow> keeps_rows (tk_others t)) \<Longrightarrow> rows_present job db \<Longrightarrow>
   rows_present job (snd (heartbeat_run i ts db))"
proof (induction ts arbitrary: db)
  case (Cons t ts)
  have p1: "rows_present job (tk_others t db)"
    using Cons.prems by (simp add: keeps_rows_present)
  obtain st db2 where b: "(if tk_raises t then (None, tk_others t db)
      else record_heartbeat (tk_now t) i (tk_others t db)) = (st, db2)" by fastforce
  then have "rows_present job db2"
    using p1 heartbeat_present [OF p1, of "tk_now t" i] by (auto split: if_splits)
  with b Cons show ?case by (auto simp: Let_def fold_keeps_rows)
qed simp

section \<open>The recorded outcome\<close>

definition outcome_recorded :: "JobRow \<Rightarrow> outcome \<Rightarrow> control_db \<Rightarrow> bool" where
  "outcome_recorded job st db =
     (let status = job_status_of (job_id job) db; tn = get_tenant (job_tenant_id job) db
      in case st of
           OIdle \<Rightarrow> True
         | OCancelled \<Rightarrow> True
         | OSkipped \<Rightarrow> status = Some Skipped
         | OBlocked \<Rightarrow> status = Some Blocked
         | ORetry \<Rightarrow> status = Some Queued
         | OFailed \<Rightarrow> status = Some Failed \<and> map_option tn_wave tn = Some (Some ''paused'')
         | OTimedout \<Rightarrow> status = Some Timedout \<and> map_option tn_wave tn = Some (Some ''paused'')
         | ODone \<Rightarrow>
             if migration_dry_run job then status = Some Skipped
             else status = Some Done \<and> map_option tn_last_sha tn = Some (Some (target_sha job)))"

lemma fail_job_tenant:
  "st \<in> {Failed, Timedout} \<Longrightarrow>
   get_tenant tid (fail_job now i tid st err db) =
     map_option (\<lambda>t. t\<lparr>tn_wave := Some ''paused'', tn_updated_at := now\<rparr>) (get_tenant tid db)"
  by (auto simp: fail_job_eq update_tenant_def update_job_def row_get_upd_same)

lemma failed_recorded:
  assumes "rows_present job db"
  shows "outcome_recorded job OFailed (fail_job now (job_id job) (job_tenant_id job) Failed err db)"
    "outcome_recorded job OTimedout (fail_job now (job_id job) (job_tenant_id job) Timedout err db)"
  using assms by (auto simp: outcome_recorded_def Let_def rows_present_def fail_job_tenant
      failed_op.job_after timedout_op.job_after)

lemma done_recorded:
  assumes "rows_present job db" "\<not> migration_dry_run job"
  shows "outcome_recorded job ODone (finalize_done now (job_id job) (job_tenant_id job) (target_sha job) db)"
proof -
  have "map_option tn_last_sha (get_tenant (job_tenant_id job)
      (finalize_done now (job_id job) (job_tenant_id job) (target_sha job) db)) = Some (Some (target_sha job))"
    using assms by (auto simp: rows_present_def finalize_done_def update_tenant_def update_job_def row_get_upd_same)
  then show ?thesis
    using assms by (auto simp: outcome_recorded_def Let_def rows_present_def done_op.job_after)
qed

lemma skipped_recorded:
  "rows_present job db \<Longrightarrow> job_status_of (job_id job) (transition_to_skipped now (job_id job) db) = Some Skipped"
  by (auto simp: rows_present_def skipped.job_after)

lemma blocked_recorded:
  "rows_present job db \<Longrightarrow> outcome_recorded job OBlocked (transition_to_blocked (job_id job) u db)"
  by (auto simp: rows_present_def outcome_recorded_def blocked.job_after)

lemma retry_recorded:
  "rows_present job db \<Longrightarrow> outcome_recorded job ORetry (retry_transient now (job_id job) b err db)"
  by (auto simp: rows_present_def outcome_recorded_def retried.job_after)

lemma classify_exit_range: "classify_exit c n m \<in> {ODone, OFailed, ORetry}"
  by (simp add: classify_exit_def)

lemma finish_run_recorded:
  assumes "rows_present job (rw_db w)"
  shows "\<exists>st w'. finish_run e job tgt cancelled timed_out code err w =
      (Inr \<lparr>res_job = Some (job_id job), res_status = st\<rparr>, w') \<and> outcome_recorded job st (rw_db w')"
proof -
  consider "cancelled" | "\<not> cancelled" "timed_out" | "\<not> cancelled" "\<not> timed_out" by blast
  then show ?thesis
  proof cases
    case 1
    then show ?thesis by (simp add: finish_run_def outcome_recorded_def)
  next
    case 2
    with assms show ?thesis by (simp add: finish_run_def Let_def failed_recorded)
  next
    case 3
    with assms show ?thesis
      using classify_exit_range [of code "retry_count job" 3]
      by (auto simp: finish_run_def Let_def failed_recorded done_recorded retry_recorded)
        (auto simp: outcome_recorded_def skipped_recorded)
  qed
qed

lemma while_running_run:
  "while_running e job w =
     (Inr (fst (heartbeat_run (job_id job) (re_ticks e) (rw_db w))),
      w\<lparr>rw_db := re_late e (snd (heartbeat_run (job_id job) (re_ticks e) (rw_db w)))\<rparr>)"
  by (simp add: while_running_def split: prod.split)

definition others_keep_rows :: "run_env \<Rightarrow> bool" where
  "others_keep_rows e \<longleftrightarrow> (\<forall>t \<in> set (re_ticks e). keeps_rows (tk_others t)) \<and> keeps_rows (re_late e)"

text \<open>What \<open>invoke_odoo\<close> comes to: a missing binary, or \<open>finish_run\<close> after the others' changes.\<close>

definition after_run :: "run_env \<Rightarrow> JobRow \<Rightarrow> string \<Rightarrow> run_world \<Rightarrow> run_world" where
  "after_run e job tgt w =
     w\<lparr>rw_runs := rw_runs w @ [tgt],
       rw_db := re_late e (snd (heartbeat_run (job_id job) (re_ticks e) (rw_db w)))\<rparr>"

lemma invoke_odoo_cases:
  assumes "invoke_odoo e job tgt w = (x, w')"
  obtains (missing) exc where "re_proc e = SpawnNotFound exc" "x = Inr \<lparr>res_job = Some (job_id job), res_status = OFailed\<rparr>"
      "w' = w\<lparr>rw_db := fail_job (re_tx_now e 3) (job_id job) (job_tenant_id job) Failed
                (''odoo binary missing: '' @ exc) (rw_db w)\<rparr>"
    | (ran) t code err where "re_proc e \<in> {ProcExited code err, ProcTimedOut code err}"
      "finish_run e job tgt (fst (heartbeat_run (job_id job) (re_ticks e) (rw_db w))) t code err
         (after_run e job tgt w) = (x, w')"
proof (cases "re_proc e")
  case (SpawnNotFound exc)
  with assms missing show thesis by (simp add: invoke_odoo_def)
next
  case (ProcExited code err)
  with assms ran [of code err False] show thesis
    by (simp add: invoke_odoo_def while_running_run after_run_def)
next
  case (ProcTimedOut code err)
  with assms ran [of code err True] show thesis
    by (simp add: invoke_odoo_def while_running_run after_run_def)
qed

lemma run_odoo_cases:
  assumes "run_odoo e job w = (x, w')"
  obtains (clone_fails) "migration_dry_run job" "x = Inl (CloneFailed (clone_name job))" "w' = w"
    | (dry) "migration_dry_run job"
      "invoke_odoo e job (clone_name job) (w\<lparr>rw_dbs := clone_name job # rw_dbs w\<rparr>) = (x, w')"
    | (real) "\<not> migration_dry_run job" "invoke_odoo e job (tenant_db_name job) w = (x, w')"
proof (cases "migration_dry_run job")
  case True
  with assms clone_fails dry show thesis
    by (cases "re_create_ok e (clone_name job) (tenant_db_name job)") (simp_all add: run_odoo_def make_clone_run)
next
  case False
  with assms real show thesis by (simp add: run_odoo_def)
qed

lemma invoke_odoo_recorded:
  assumes "rows_present job (rw_db w)" "others_keep_rows e" "invoke_odoo e job tgt w = (Inr r, w')"
  shows "res_job r = Some (job_id job) \<and> outcome_recorded job (res_status r) (rw_db w')"
  using assms(3)
proof (cases rule: invoke_odoo_cases)
  case (missing exc)
  then show ?thesis using assms(1) by (simp add: failed_recorded)
next
  case (ran t code err)
  have late: "keeps_rows (re_late e)" and ticks: "\<And>t. t \<in> set (re_ticks e) \<Longrightarrow> keeps_rows (tk_others t)"
    using assms(2) by (simp_all add: others_keep_rows_def)
  have "rows_present job (rw_db (after_run e job tgt w))"
    using keeps_rows_present [OF late heartbeat_run_present [OF ticks assms(1)]] by (simp add: after_run_def)
  from finish_run_recorded [OF this, of e tgt "fst (heartbeat_run (job_id job) (re_ticks e) (rw_db w))" t code err]
  obtain st v where fin: "finish_run e job tgt (fst (heartbeat_run (job_id job) (re_ticks e) (rw_db w))) t code err
      (after_run e job tgt w) = (Inr \<lparr>res_job = Some (job_id job), res_status = st\<rparr>, v)"
    and st: "outcome_recorded job st (rw_db v)" by blast
  from fin ran(2) have "r = \<lparr>res_job = Some (job_id job), res_status = st\<rparr>" "w' = v" by simp_all
  with st show ?thesis by simp
qed

lemma run_odoo_recorded:
  assumes "rows_present job (rw_db w)" "others_keep_rows e" "run_odoo e job w = (Inr r, w')"
  shows "res_job r = Some (job_id job) \<and> outcome_recorded job (res_status r) (rw_db w')"
  using assms(3)
proof (cases rule: run_odoo_cases)
  case dry
  show ?thesis by (rule invoke_odoo_recorded [OF _ assms(2) dry(2)]) (simp add: assms(1))
next
  case real
  show ?thesis by (rule invoke_odoo_recorded [OF assms(1,2) real(2)])
qed simp

lemma default_window_tz: "default_window e job = Inr w \<Longrightarrow> w_cron w = maintenance_window job \<and> w_tz w = job_tz job"
  by (auto simp: default_window_def window_init_def window_post_init_def split: if_splits)

lemma process_job_recorded:
  assumes "rows_present job (rw_db w)" "others_keep_rows e" "process_job e job w = (Inr r, w')"
  shows "res_job r = Some (job_id job) \<and> outcome_recorded job (res_status r) (rw_db w')"
proof (cases "last_migrated_sha job = Some (target_sha job)")
  case True
  with assms show ?thesis
    by (auto simp: process_job_def outcome_recorded_def skipped_recorded)
next
  case stale: False
  show ?thesis
  proof (cases "default_window e job")
    case (Inr ev)
    note window = this
    show ?thesis
    proof (cases "is_open (re_cron e) ev (re_utcnow e)")
      case (Inr open_now)
      note opn = this
      show ?thesis
      proof (cases open_now)
        case False
        with assms stale window opn show ?thesis
          by (cases "next_open (re_cron e) ev (re_utcnow e)") (auto simp: process_job_def blocked_recorded)
      next
        case True
        show ?thesis
        proof (cases "re_snapshot e (tenant_slug job) (tenant_db_name job)")
          case (Inl x)
          with assms stale window opn True show ?thesis
            by (cases x) (auto simp: process_job_def failed_recorded)
        next
          case (Inr snap)
          with assms stale window opn True
          have "run_odoo e job (w\<lparr>rw_db := write_snapshot_id (job_id job) (snapshot_id snap) (rw_db w)\<rparr>) = (Inr r, w')"
            by (simp add: process_job_def)
          from run_odoo_recorded [OF _ assms(2) this] assms(1) show ?thesis by (simp add: snapshot_present)
        qed
      qed
    qed (use assms stale window in \<open>simp add: process_job_def\<close>)
  qed (use assms stale in \<open>simp add: process_job_def\<close>)
qed

lemma claim_rows_present:
  assumes "claim_next_job host now locked db = (Some job, db')"
  shows "rows_present job db'"
proof -
  from assms obtain j t where j: "j \<in> set (jobs db)" "get_tenant (mj_tenant_id j) db = Some t"
    "job = job_row j t" "db' = update_job (mj_id j) (claim_upd host now) db" by (rule claim_SomeE)
  then have "rows_present job db" by (simp add: rows_present_def row_get_None)
  then show ?thesis
    using set_eq_of_map [OF claim_row.job_ids_after [of "mj_id j" host now db]] j
    by (simp add: rows_present_keys update_job_def)
qed

section \<open>Worlds used by the witnesses\<close>

definition calm_env :: "proc_outcome \<Rightarrow> run_env" where
  "calm_env pr =
     \<lparr>re_cron = periodic_lib (60 * second), re_utcnow = 0, re_tx_now = (\<lambda>k. int k), re_locked = [],
      re_global_override = Some ''TRUE'', re_snapshot = (\<lambda>_ _. Inr \<lparr>snapshot_id = ''s'', elapsed = 0\<rparr>),
      re_create_ok = (\<lambda>_ _. True), re_drop_ok = (\<lambda>_. True), re_proc = pr, re_ticks = [], re_late = id\<rparr>"

definition calm_job :: "bool \<Rightarrow> int \<Rightarrow> migration_job" where
  "calm_job dry n =
     \<lparr>mj_id = ''aaaa-bbbb-cc'', mj_tenant_id = ''t1'', mj_target_sha = ''sha2'', mj_timeout_minutes = 30,
      mj_retry_count = n, mj_status = Queued, mj_enqueued_at = 0, mj_blocked_until = None,
      mj_started_at = None, mj_heartbeat_at = None, mj_finished_at = None, mj_runner_host = None,
      mj_error_excerpt = None, mj_snapshot_id = None, mj_dry_run = Some dry\<rparr>"

definition calm_tenant :: tenant where
  "calm_tenant =
     \<lparr>tn_id = ''t1'', tn_slug = ''acme'', tn_db_name = ''acme_db'', tn_window = ''* * * * *'',
      tn_tz = ''UTC'', tn_last_sha = Some ''sha1'', tn_wave = None, tn_override_until = None,
      tn_updated_at = 0\<rparr>"

definition calm_world :: "bool \<Rightarrow> int \<Rightarrow> run_world" where
  "calm_world dry n =
     \<lparr>rw_db = \<lparr>jobs = [calm_job dry n], tenants = [calm_tenant], audit = []\<rparr>, rw_dbs = [''acme_db''], rw_runs = []\<rparr>"

definition calm_row :: "bool \<Rightarrow> int \<Rightarrow> JobRow" where
  "calm_row dry n = job_row (calm_job dry n) calm_tenant"

lemmas calm_defs = calm_env_def calm_job_def calm_tenant_def calm_world_def calm_row_def

lemma calm_keeps: "others_keep_rows (calm_env pr)"
  by (simp add: others_keep_rows_def calm_env_def keeps_rows_def)

lemma calm_claim:
  "claim_next_job ''h'' 0 [] (rw_db (calm_world dry n)) =
     (Some (calm_row dry n), update_job ''aaaa-bbbb-cc'' (claim_upd ''h'' 0) (rw_db (calm_world dry n)))"
  by (simp add: claim_next_job_def calm_defs eligible_def claimable_def row_simps)

lemma calm_present: "rows_present (calm_row dry n) (rw_db (calm_world dry n))"
  by (simp add: rows_present_def calm_defs job_row_def row_simps)

section \<open>Properties\<close>



definition only_pause :: "tenant list \<Rightarrow> tenant list \<Rightarrow> bool" where
  "only_pause ts ts' \<longleftrightarrow> map tn_last_sha ts' = map tn_last_sha ts \<and> map tn_db_name ts' = map tn_db_name ts"

lemma only_pause_fail: "st \<in> {Failed, Timedout} \<Longrightarrow> only_pause (tenants db) (tenants (fail_job now i tid st err db))"
  by (auto simp: only_pause_def fail_job_eq update_tenant_def update_job_def row_upd_def)

lemma only_pause_refl: "only_pause ts ts"
  by (simp add: only_pause_def)

lemma finish_run_dry:
  assumes "migration_dry_run job" "finish_run e job tgt c t code err w = (x, w')"
  shows "rw_runs w' = rw_runs w \<and> only_pause (tenants (rw_db w)) (tenants (rw_db w'))"
  using assms classify_exit_range [of code "retry_count job" 3]
  by (auto simp: finish_run_def Let_def only_pause_refl only_pause_fail split: if_splits)
    (auto simp: transition_to_skipped_def retry_transient_def update_job_def only_pause_refl)

text \<open>
  A dry-run job never runs Odoo on the tenant's own database and never moves the tenant's
  revision: every run it starts is on the clone, and of the tenant row only the pause flag and
  its time stamp can change.
\<close>

theorem dry_run_spares_tenant:
  assumes dry: "migration_dry_run job" and run: "run_odoo e job w = (x, w')"
    and others: "\<And>db. tenants (re_late e (snd (heartbeat_run (job_id job) (re_ticks e) db))) = tenants db"
  shows "set (rw_runs w') \<subseteq> insert (clone_name job) (set (rw_runs w)) \<and>
    only_pause (tenants (rw_db w)) (tenants (rw_db w'))"
  using run
proof (cases rule: run_odoo_cases)
  case clone_fails
  then show ?thesis by (auto simp: only_pause_refl)
next
  case dry_clone: dry
  show ?thesis
    using dry_clone(2)
  proof (cases rule: invoke_odoo_cases)
    case (missing exc)
    then show ?thesis by (auto simp: only_pause_fail)
  next
    case (ran t code err)
    from finish_run_dry [OF dry ran(2)] show ?thesis by (auto simp: after_run_def others)
  qed
qed (simp add: dry)

theorem dry_run_spares_tenant_witness:
  "set (rw_runs (snd (run_odoo (calm_env (ProcExited 1 [])) (calm_row True 0) (calm_world True 0))))
     \<subseteq> insert ''acme__dryrun_aaaabbbb'' {}"
proof -
  have dry: "migration_dry_run (calm_row True 0)" by (simp add: calm_defs job_row_def)
  have clone: "clone_name (calm_row True 0) = ''acme__dryrun_aaaabbbb''"
    by (simp add: clone_name_def py_first_def calm_defs job_row_def)
  show ?thesis
    using dry_run_spares_tenant [OF dry, of "calm_env (ProcExited 1 [])" "calm_world True 0", OF prod.collapse [symmetric]]
    by (simp add: clone calm_env_def) (simp add: calm_world_def)
qed

text \<open>
  When the clone of a dry run cannot be created, the failure that the handler records is
  rolled back with the transaction it is written in: the job stays running, nothing is marked
  failed and the tenant is not paused.
\<close>

theorem clone_failure_leaves_job_running:
  assumes "migration_dry_run job" and "\<not> re_create_ok e (clone_name job) (tenant_db_name job)"
    and "claim_next_job host now locked db = (Some job, rw_db w)"
  shows "run_odoo e job w = (Inl (CloneFailed (clone_name job)), w) \<and>
    job_status_of (job_id job) (rw_db w) = Some Running"
proof -
  from assms(3) obtain j t where j: "j \<in> set (jobs db)" "job = job_row j t"
    "rw_db w = update_job (mj_id j) (claim_upd host now) db" by (rule claim_SomeE)
  have "get_job (mj_id j) db \<noteq> None" using j(1) by (simp add: row_get_None)
  then have "job_status_of (job_id job) (rw_db w) = Some Running"
    by (auto simp: j(2,3) claim_row.job_after)
  then show ?thesis using assms(1,2) by (simp add: run_odoo_def make_clone_run)
qed

theorem clone_failure_leaves_job_running_witness:
  "run_odoo (calm_env (ProcExited 0 [])\<lparr>re_create_ok := \<lambda>_ _. False\<rparr>) (calm_row True 0)
     ((calm_world True 0)\<lparr>rw_db := update_job ''aaaa-bbbb-cc'' (claim_upd ''h'' 0) (rw_db (calm_world True 0))\<rparr>) =
   (Inl (CloneFailed (clone_name (calm_row True 0))),
    (calm_world True 0)\<lparr>rw_db := update_job ''aaaa-bbbb-cc'' (claim_upd ''h'' 0) (rw_db (calm_world True 0))\<rparr>)"
proof -
  have dry: "migration_dry_run (calm_row True 0)" by (simp add: calm_defs job_row_def)
  show ?thesis
    using clone_failure_leaves_job_running [OF dry, of "calm_env (ProcExited 0 [])\<lparr>re_create_ok := \<lambda>_ _. False\<rparr>"
        "''h''" 0 "[]" "rw_db (calm_world True 0)"] calm_claim [of True 0]
    by simp
qed

lemma finish_run_keeps_dbs:
  assumes "finish_run e job tgt c t code err w = (Inr r, w')" "res_status r \<noteq> ODone"
  shows "rw_dbs w' = rw_dbs w"
  using assms classify_exit_range [of code "retry_count job" 3]
  by (auto simp: finish_run_def Let_def split: if_splits)

text \<open>
  A dry-run clone is dropped only when Odoo succeeds: after any other outcome of the run it
  still exists, so the next attempt at the same job (a retry keeps the job's id and so the clone's
  name) cannot create it and raises.
\<close>

theorem dry_run_clone_survives:
  assumes "migration_dry_run job" and "run_odoo e job w = (Inr r, w')" and "res_status r \<noteq> ODone"
    and "\<And>c d. re_create_ok e2 c d \<longleftrightarrow> c \<notin> set (rw_dbs w')"
  shows "clone_name job \<in> set (rw_dbs w') \<and> run_odoo e2 job w' = (Inl (CloneFailed (clone_name job)), w')"
proof -
  from assms(2) have "clone_name job \<in> set (rw_dbs w')"
  proof (cases rule: run_odoo_cases)
    case dry
    show ?thesis
      using dry(2)
    proof (cases rule: invoke_odoo_cases)
      case (ran t code err)
      from finish_run_keeps_dbs [OF ran(2) assms(3)] show ?thesis by (simp add: after_run_def)
    qed simp
  qed (simp_all add: assms(1))
  then show ?thesis using assms(1,4) by (simp add: run_odoo_def make_clone_run)
qed

lemma calm_dry_retry:
  "run_odoo (calm_env (ProcExited 143 [])) (calm_row True 0) (calm_world True 0) =
     (Inr \<lparr>res_job = Some ''aaaa-bbbb-cc'', res_status = ORetry\<rparr>,
      snd (run_odoo (calm_env (ProcExited 143 [])) (calm_row True 0) (calm_world True 0)))"
  by (simp add: run_odoo_def invoke_odoo_def make_clone_run while_running_run finish_run_def classify_exit_def
      transient_exit_codes_def calm_defs job_row_def)

theorem dry_run_clone_survives_witness:
  "clone_name (calm_row True 0) \<in>
     set (rw_dbs (snd (run_odoo (calm_env (ProcExited 143 [])) (calm_row True 0) (calm_world True 0))))"
proof -
  let ?w = "snd (run_odoo (calm_env (ProcExited 143 [])) (calm_row True 0) (calm_world True 0))"
  have dry: "migration_dry_run (calm_row True 0)" by (simp add: calm_defs job_row_def)
  show ?thesis
    using dry_run_clone_survives [OF dry calm_dry_retry, of "calm_env (ProcExited 143 [])\<lparr>re_create_ok := \<lambda>c _. c \<notin> set (rw_dbs ?w)\<rparr>"]
    by simp
qed

definition counts :: "control_db \<Rightarrow> (string \<times> int) list" where
  "counts db = map (\<lambda>j. (mj_id j, mj_retry_count j)) (jobs db)"

definition counts_ok :: "(string \<times> int) list \<Rightarrow> bool" where
  "counts_ok cs \<longleftrightarrow> distinct (map fst cs) \<and> (\<forall>c \<in> set cs. 0 \<le> snd c \<and> snd c \<le> 2)"

definition others_keep_counts :: "run_env \<Rightarrow> bool" where
  "others_keep_counts e \<longleftrightarrow>
     (\<forall>t \<in> set (re_ticks e). \<forall>db. counts (tk_others t db) = counts db) \<and> (\<forall>db. counts (re_late e db) = counts db)"

context job_transition
begin

lemma counts_after: "(\<And>r. mj_retry_count (f r) = mj_retry_count r) \<Longrightarrow> counts (op db) = counts db"
  by (simp add: counts_def jobs_op row_upd_def keeps_id)

end

lemma counts_simps [simp]:
  "counts (transition_to_blocked i u db) = counts db" "counts (transition_to_skipped now i db) = counts db"
  "counts (finalize_done now i tid sha db) = counts db" "counts (write_snapshot_id i s db) = counts db"
  "counts (snd (record_heartbeat now i db)) = counts db" "counts (update_job i (claim_upd h now) db) = counts db"
  by (simp_all add: blocked.counts_after skipped.counts_after done_op.counts_after snapped.counts_after
      beaten.counts_after claim_row.counts_after)

lemma counts_fail [simp]: "st \<in> {Failed, Timedout} \<Longrightarrow> counts (fail_job now i tid st err db) = counts db"
  using failed_op.counts_after timedout_op.counts_after by auto

lemma counts_fold:
  "(\<And>t db. t \<in> set ts \<Longrightarrow> counts (tk_others t db) = counts db) \<Longrightarrow> counts (fold tk_others ts db) = counts db"
  by (induction ts arbitrary: db) simp_all

lemma counts_heartbeat_run:
  "(\<And>t db. t \<in> set ts \<Longrightarrow> counts (tk_others t db) = counts db) \<Longrightarrow> counts (snd (heartbeat_run i ts db)) = counts db"
proof (induction ts arbitrary: db)
  case (Cons t ts)
  have rest: "counts (fold tk_others ts d) = counts d" for d
    using Cons.prems by (intro counts_fold) simp
  have tick: "counts (tk_others t db) = counts db" using Cons.prems by simp
  have beat: "counts (snd (heartbeat_run i ts d)) = counts d" for d
    using Cons by simp
  have touch: "counts d' = counts d" if "record_heartbeat n i d = (st, d')" for n d d' st
    using counts_simps(5) [of n i d] that by simp
  show ?case
    using tick rest beat by (auto simp: Let_def touch split: prod.splits)
qed simp

lemma retry_counts_ok:
  assumes "counts_ok (counts db)" "(i, n) \<in> set (counts db)" "n \<le> 1"
  shows "counts_ok (counts (retry_transient now i b err db))"
proof -
  have "counts (retry_transient now i b err db) = map (\<lambda>c. if fst c = i then (i, snd c + 1) else c) (counts db)"
    by (simp add: counts_def retried.jobs_op row_upd_def)
  moreover have "snd c = n" if "c \<in> set (counts db)" "fst c = i" for c
    using assms(1,2) that eq_key_imp_eq_value [of "counts db" i n "snd c"] by (auto simp: counts_ok_def)
  ultimately show ?thesis using assms(1,3) by (fastforce simp: counts_ok_def comp_def if_distrib cong: if_cong)
qed

text \<open>The job whose iteration runs appears in the table with the retry count it was claimed with.\<close>

definition count_entry :: "JobRow \<Rightarrow> control_db \<Rightarrow> bool" where
  "count_entry job db \<longleftrightarrow> counts_ok (counts db) \<and> (job_id job, retry_count job) \<in> set (counts db)"

lemma count_entry_cong: "counts db = counts db' \<Longrightarrow> count_entry job db \<longleftrightarrow> count_entry job db'"
  by (simp add: count_entry_def)

lemma finish_run_counts:
  assumes "count_entry job (rw_db w)" "finish_run e job tgt c t code err w = (x, w')"
  shows "counts_ok (counts (rw_db w'))"
proof -
  have retry: "counts_ok (counts (retry_transient now (job_id job) b er (rw_db w)))"
    if "classify_exit code (retry_count job) 3 = ORetry" for now b er
    using assms(1) that by (intro retry_counts_ok [of _ _ "retry_count job"])
      (auto simp: count_entry_def classify_exit_def split: if_splits)
  show ?thesis
    using assms retry classify_exit_range [of code "retry_count job" 3]
    by (auto simp: finish_run_def Let_def count_entry_def split: if_splits)
qed

lemma invoke_odoo_counts:
  assumes "count_entry job (rw_db w)" "others_keep_counts e" "invoke_odoo e job tgt w = (x, w')"
  shows "counts_ok (counts (rw_db w'))"
  using assms(3)
proof (cases rule: invoke_odoo_cases)
  case (missing exc)
  then show ?thesis using assms(1) by (simp add: count_entry_def)
next
  case (ran t code err)
  have "counts (rw_db (after_run e job tgt w)) = counts (rw_db w)"
    using assms(2) counts_heartbeat_run [of "re_ticks e" "job_id job" "rw_db w"]
    by (simp add: others_keep_counts_def after_run_def)
  then have "count_entry job (rw_db (after_run e job tgt w))"
    using assms(1) by (simp add: count_entry_def)
  from finish_run_counts [OF this ran(2)] show ?thesis .
qed

lemma run_odoo_counts:
  assumes "count_entry job (rw_db w)" "others_keep_counts e" "run_odoo e job w = (x, w')"
  shows "counts_ok (counts (rw_db w'))"
  using assms(3)
proof (cases rule: run_odoo_cases)
  case clone_fails
  then show ?thesis using assms(1) by (simp add: count_entry_def)
next
  case dry
  show ?thesis by (rule invoke_odoo_counts [OF _ assms(2) dry(2)]) (simp add: assms(1))
next
  case real
  show ?thesis by (rule invoke_odoo_counts [OF assms(1,2) real(2)])
qed

text \<open>The ways through \<open>process_job\<close>.\<close>

lemma process_job_cases:
  assumes "process_job e job w = (x, w')"
  obtains (raised) "w' = w"
    | (skip) "w' = w\<lparr>rw_db := transition_to_skipped (re_tx_now e 1) (job_id job) (rw_db w)\<rparr>"
    | (block) u where "w' = w\<lparr>rw_db := transition_to_blocked (job_id job) u (rw_db w)\<rparr>"
    | (snap_failed) err where
        "w' = w\<lparr>rw_db := fail_job (re_tx_now e 1) (job_id job) (job_tenant_id job) Failed err (rw_db w)\<rparr>"
    | (run) s where "run_odoo e job (w\<lparr>rw_db := write_snapshot_id (job_id job) s (rw_db w)\<rparr>) = (x, w')"
proof (cases "last_migrated_sha job = Some (target_sha job)")
  case True
  with assms skip show thesis by (simp add: process_job_def)
next
  case stale: False
  show thesis
  proof (cases "default_window e job")
    case (Inl y)
    with assms stale raised show thesis by (simp add: process_job_def)
  next
    case (Inr ev)
    note window = this
    consider y where "is_open (re_cron e) ev (re_utcnow e) = Inl y"
      | "is_open (re_cron e) ev (re_utcnow e) = Inr False" | "is_open (re_cron e) ev (re_utcnow e) = Inr True"
      by (cases "is_open (re_cron e) ev (re_utcnow e)") auto
    then show thesis
    proof cases
      case 1
      with assms stale window raised show thesis by (simp add: process_job_def)
    next
      case 2
      with assms stale window raised block show thesis
        by (cases "next_open (re_cron e) ev (re_utcnow e)") (auto simp: process_job_def)
    next
      case 3
      show thesis
      proof (cases "re_snapshot e (tenant_slug job) (tenant_db_name job)")
        case (Inl y)
        with assms stale window 3 raised snap_failed show thesis by (cases y) (auto simp: process_job_def)
      next
        case (Inr snap)
        with assms stale window 3 run show thesis by (simp add: process_job_def)
      qed
    qed
  qed
qed

lemma process_job_counts:
  assumes "count_entry job (rw_db w)" "others_keep_counts e" "process_job e job w = (x, w')"
  shows "counts_ok (counts (rw_db w'))"
  using assms(3)
proof (cases rule: process_job_cases)
  case (run s)
  show ?thesis
    by (rule run_odoo_counts [OF _ assms(2) run]) (use assms(1) in \<open>simp add: count_entry_def\<close>)
qed (use assms(1) in \<open>simp_all add: count_entry_def\<close>)

lemma run_once_counts:
  assumes "counts_ok (counts (rw_db w))" "others_keep_counts e"
  shows "counts_ok (counts (rw_db (snd (run_once host e w))))"
proof -
  obtain c db where c: "claim_next_job host (re_tx_now e 0) (re_locked e) (rw_db w) = (c, db)" by fastforce
  show ?thesis
  proof (cases c)
    case None
    with c assms claim_NoneD [of host "re_tx_now e 0" "re_locked e" "rw_db w" db] show ?thesis
      by (simp add: run_once_def)
  next
    case (Some job)
    from c [unfolded Some] obtain j t where j: "j \<in> set (jobs (rw_db w))" "job = job_row j t"
      "db = update_job (mj_id j) (claim_upd host (re_tx_now e 0)) (rw_db w)" by (rule claim_SomeE)
    then have "(job_id job, retry_count job) \<in> set (counts (rw_db w))"
      by (auto simp: counts_def job_row_def)
    then have "count_entry job db" using j assms(1) by (simp add: count_entry_def)
    then show ?thesis
      using c Some process_job_counts [OF _ assms(2), of job "w\<lparr>rw_db := db\<rparr>"]
      by (simp add: run_once_def) (metis prod.collapse)
  qed
qed

lemma snd_run_forever_Cons:
  "snd (run_forever host (e # es) w) = snd (run_forever host es (snd (run_once host e w)))"
  by (auto split: prod.splits sum.splits)

text \<open>
  The runner never retries a job more than twice. If every retry count lies between 0 and 2
  and nobody else edits it, this still holds after any number of iterations of the daemon.
\<close>

theorem retries_bounded:
  assumes "counts_ok (counts (rw_db w))" and "\<And>e. e \<in> set es \<Longrightarrow> others_keep_counts e"
  shows "\<forall>j \<in> set (jobs (rw_db (snd (run_forever host es w)))). mj_retry_count j \<le> 2"
proof -
  from assms have "counts_ok (counts (rw_db (snd (run_forever host es w))))"
  proof (induction es arbitrary: w)
    case (Cons e es)
    have "counts_ok (counts (rw_db (snd (run_once host e w))))"
      using Cons.prems by (intro run_once_counts) auto
    with Cons.IH Cons.prems(2) show ?case by (simp add: snd_run_forever_Cons del: run_forever.simps)
  qed simp
  then show ?thesis by (force simp: counts_ok_def counts_def)
qed

theorem retries_bounded_witness:
  "list_all (\<lambda>j. mj_retry_count j \<le> 2)
     (jobs (rw_db (snd (run_forever ''h'' [calm_env (ProcExited 143 []), calm_env (ProcExited 143 [])] (calm_world False 0)))))"
  unfolding list_all_iff
  by (rule retries_bounded)
    (auto simp: counts_ok_def counts_def others_keep_counts_def calm_defs)

text \<open>
  A run is retried only after exit code 143 or 137 and only on the first two attempts, so the
  pauses between attempts are 5 and 20 minutes; a process that a signal killed, which Python
  reports as a negative code, is never retried.
\<close>

theorem retry_policy:
  assumes "0 \<le> n"
  shows "(classify_exit code n 3 = ORetry \<longleftrightarrow> code \<in> {143, 137} \<and> n \<in> {0, 1}) \<and>
    (n \<in> {0, 1} \<longrightarrow> compute_backoff_seconds n \<in> {5 * 60, 20 * 60}) \<and>
    (signal_number > 0 \<longrightarrow> classify_exit (- signal_number) n 3 = OFailed)"
  using assms by (auto simp: classify_exit_def transient_exit_codes_def compute_backoff_seconds_def)

theorem retry_policy_witness:
  "classify_exit 137 1 3 = ORetry \<and> compute_backoff_seconds 1 = 20 * 60 \<and> classify_exit (- 9) 0 3 = OFailed"
  using retry_policy [of 1 137 9] retry_policy [of 0 137 9] by (simp add: compute_backoff_seconds_def)

lemma heartbeat_sees_cancel:
  assumes "\<And>db. job_status_of i (tk_others t db) = Some Cancelled" "\<not> tk_raises t"
  shows "fst (heartbeat_run i (ts1 @ t # ts2) db)"
proof (induction ts1 arbitrary: db)
  case Nil
  obtain st db2 where b: "record_heartbeat (tk_now t) i (tk_others t db) = (st, db2)" by fastforce
  then have "st = Some Cancelled"
    using record_heartbeat_status [of "tk_now t" i "tk_others t db"] assms(1) by simp
  with b assms(2) show ?case by simp
next
  case (Cons u us)
  then show ?case by (auto simp: Let_def split: prod.splits)
qed

text \<open>
  If an operator cancels the job while Odoo runs and a later heartbeat goes through, the run
  ends as cancelled and the runner writes nothing more to the tables.
\<close>

theorem operator_cancel_stops_run:
  assumes "re_ticks e = ts1 @ t # ts2" and "\<And>db. job_status_of (job_id job) (tk_others t db) = Some Cancelled"
    and "\<not> tk_raises t" and "\<not> migration_dry_run job" and "\<And>m. re_proc e \<noteq> SpawnNotFound m"
  shows "run_odoo e job w =
    (Inr \<lparr>res_job = Some (job_id job), res_status = OCancelled\<rparr>, after_run e job (tenant_db_name job) w)"
proof -
  have c: "fst (heartbeat_run (job_id job) (re_ticks e) (rw_db w))"
    unfolding assms(1) by (rule heartbeat_sees_cancel [OF assms(2,3)])
  then have "finish_run e job tgt (fst (heartbeat_run (job_id job) (re_ticks e) (rw_db w))) b code err v =
      (Inr \<lparr>res_job = Some (job_id job), res_status = OCancelled\<rparr>, v)" for tgt b code err v
    by (simp add: finish_run_def)
  note finished = this
  show ?thesis
  proof (cases "re_proc e")
    case (SpawnNotFound m)
    with assms(5) show ?thesis by blast
  qed (use finished assms(4) in \<open>simp_all add: run_odoo_def invoke_odoo_def while_running_run after_run_def\<close>)
qed

theorem operator_cancel_stops_run_witness:
  "fst (run_odoo (calm_env (ProcExited (- 15) [])\<lparr>re_ticks :=
       [\<lparr>tk_others = (\<lambda>db. db\<lparr>jobs := [(calm_job False 0)\<lparr>mj_status := Cancelled\<rparr>]\<rparr>), tk_now = 5, tk_raises = False\<rparr>]\<rparr>)
     (calm_row False 0) (calm_world False 0)) = Inr \<lparr>res_job = Some ''aaaa-bbbb-cc'', res_status = OCancelled\<rparr>"
proof -
  let ?t = "\<lparr>tk_others = (\<lambda>db. db\<lparr>jobs := [(calm_job False 0)\<lparr>mj_status := Cancelled\<rparr>]\<rparr>), tk_now = 5, tk_raises = False\<rparr>"
  have "re_ticks (calm_env (ProcExited (- 15) [])\<lparr>re_ticks := [?t]\<rparr>) = [] @ ?t # []" by simp
  from operator_cancel_stops_run [OF this, of "calm_row False 0" "calm_world False 0"] show ?thesis
    by (simp add: calm_defs job_row_def row_simps)
qed

text \<open>
  The last write looks at no status: a cancellation that comes after the last heartbeat is
  overwritten when Odoo exits with code 0, and the tenant's revision is bumped all the same.
\<close>

theorem late_cancel_overwritten:
  assumes "re_proc e = ProcExited 0 err" and "re_ticks e = []" and "re_late e = update_job (job_id job) (\<lambda>r. r\<lparr>mj_status := Cancelled\<rparr>)"
    and "\<not> migration_dry_run job" and "rows_present job (rw_db w)"
  shows "\<exists>w'. run_odoo e job w = (Inr \<lparr>res_job = Some (job_id job), res_status = ODone\<rparr>, w') \<and>
    job_status_of (job_id job) (rw_db w') = Some Done \<and>
    map_option tn_last_sha (get_tenant (job_tenant_id job) (rw_db w')) = Some (Some (target_sha job))"
proof -
  let ?w = "w\<lparr>rw_runs := rw_runs w @ [tenant_db_name job], rw_db := re_late e (rw_db w)\<rparr>"
  have p: "rows_present job (rw_db ?w)"
    using assms(5) by (auto simp: assms(3) rows_present_def update_job_def row_get_upd_same)
  obtain w' where run: "run_odoo e job w = (Inr \<lparr>res_job = Some (job_id job), res_status = ODone\<rparr>, w')"
    and w': "rw_db w' = finalize_done (re_tx_now e 3) (job_id job) (job_tenant_id job) (target_sha job) (rw_db ?w)"
    using assms(1,2,4) by (simp add: run_odoo_def invoke_odoo_def while_running_run finish_run_def classify_exit_def)
  from done_recorded [OF p assms(4)] w' run assms(4) show ?thesis
    by (auto simp: outcome_recorded_def Let_def)
qed

theorem late_cancel_overwritten_witness:
  "\<exists>w'. run_odoo (calm_env (ProcExited 0 [])\<lparr>re_late := update_job ''aaaa-bbbb-cc'' (\<lambda>r. r\<lparr>mj_status := Cancelled\<rparr>)\<rparr>)
       (calm_row False 0) (calm_world False 0) = (Inr \<lparr>res_job = Some ''aaaa-bbbb-cc'', res_status = ODone\<rparr>, w')"
  using late_cancel_overwritten [of "calm_env (ProcExited 0 [])\<lparr>re_late := update_job ''aaaa-bbbb-cc'' (\<lambda>r. r\<lparr>mj_status := Cancelled\<rparr>)\<rparr>"
      "[]" "calm_row False 0" "calm_world False 0"] calm_present [of False 0]
  by (auto simp: calm_defs job_row_def)

end
