(* ===== verification/MigrationRollback.thy ===== *)
theory MigrationRollback
  imports MigrationRunner
begin

text \<open>
  The rollback of infra/runners/migration_runner/rollback.py: the restore of a tenant database
  from the snapshot a job recorded, and the command-line entry point around it.

  The environment variables, the answers of \<open>flyctl\<close> and the time of the last transaction are a
  \<open>rb_env\<close>. The state is the control-plane database and the commands started so far; a command
  is recorded when it is started, whatever it answers. A job id that is no uuid, and a lost
  connection, are not modelled. Log lines are left out.
\<close>

section \<open>Plans and results\<close>

record RollbackPlan =
  plan_job :: string
  plan_tenant :: string
  plan_db_name :: string
  plan_snapshot :: string
  plan_previous_sha :: string
  plan_reason :: string
  plan_actor :: string

datatype rb_status = RbOk | SnapshotMissing | RestoreFailed

record RollbackResult =
  rr_job :: string
  rr_snapshot :: string
  rr_status :: rb_status

datatype rb_exn = RollbackError string | RbFileNotFound string | RbTimeoutExpired string

record rb_env =
  rb_environ :: "string \<Rightarrow> string option"
  rb_answer :: "string list \<Rightarrow> int \<Rightarrow> run_outcome"
  rb_now :: int

record rb_world =
  rb_db :: control_db
  rb_cmds :: "string list list"

abbreviation plan_result :: "RollbackPlan \<Rightarrow> rb_status \<Rightarrow> RollbackResult" where
  "plan_result plan st \<equiv> \<lparr>rr_job = plan_job plan, rr_snapshot = plan_snapshot plan, rr_status = st\<rparr>"

text \<open>\<open>subprocess_runner(argv, check=True, ...)\<close>.\<close>

definition rb_call :: "rb_env \<Rightarrow> string list \<Rightarrow> int \<Rightarrow> (rb_world, rb_exn, run_outcome) act" where
  "rb_call e argv limit = (\<lambda>w. (Inr (rb_answer e argv limit), w\<lparr>rb_cmds := rb_cmds w @ [argv]\<rparr>))"

section \<open>Command lines\<close>

definition rb_ssh :: "rb_env \<Rightarrow> string \<Rightarrow> string list" where
  "rb_ssh e remote_cmd =
     [''flyctl'', ''ssh'', ''console'', ''--app'',
      env_get (rb_environ e) ''PGBACKREST_SSH_APP'' ''odoo-saas-postgres'', ''--command'', remote_cmd]"

definition pgrestore_argv :: "rb_env \<Rightarrow> string \<Rightarrow> string \<Rightarrow> string list" where
  "pgrestore_argv e snapshot_key db_name =
     rb_ssh e (''/usr/local/bin/pgrestore-snapshot.sh '' @ snapshot_key @ '' '' @ db_name)"

fun py_join :: "string \<Rightarrow> string list \<Rightarrow> string" where
  "py_join sep [] = []"
| "py_join sep [x] = x"
| "py_join sep (x # y # ys) = x @ sep @ py_join sep (y # ys)"

definition pgbackrest_argv :: "rb_env \<Rightarrow> string list \<Rightarrow> string list" where
  "pgbackrest_argv e args = rb_ssh e (''gosu postgres pgbackrest '' @ py_join '' '' args)"

section \<open>The restore\<close>

definition rollback_via_pgrestore ::
  "rb_env \<Rightarrow> RollbackPlan \<Rightarrow> bool \<Rightarrow> (rb_world, rb_exn, RollbackResult) act" where
  "rollback_via_pgrestore e plan dry_run =
     (if dry_run then act_return (plan_result plan RbOk)
      else act_bind (rb_call e (pgrestore_argv e (plan_snapshot plan) (plan_db_name plan)) (2 * 60 * 60))
        (\<lambda>r. case r of
           RunOk _ \<Rightarrow> act_return (plan_result plan RbOk)
         | CalledProcessError _ _ \<Rightarrow> act_return (plan_result plan RestoreFailed)
         | TimeoutExpired m \<Rightarrow> act_raise (RollbackError (''pg_restore timed out after 2h: '' @ m))
         | FileNotFound m \<Rightarrow> act_raise (RbFileNotFound m)))"

definition rb_dry_run :: "rb_env \<Rightarrow> bool" where
  "rb_dry_run e \<longleftrightarrow>
     py_lower (env_get (rb_environ e) ''PGBACKREST_DRY_RUN'' []) \<in> set [''1'', ''true'', ''yes'']"

definition is_sentinel :: "string \<Rightarrow> bool" where
  "is_sentinel snapshot \<longleftrightarrow> prefix ''no-snapshot-'' snapshot"

definition restore_args :: "string \<Rightarrow> RollbackPlan \<Rightarrow> string option \<Rightarrow> string list" where
  "restore_args stanza plan target_time =
     [''--stanza='' @ stanza, ''--delta''] @
     (if is_sentinel (plan_snapshot plan)
      then [''--type=time'', ''--target='' @ (case target_time of None \<Rightarrow> ''None'' | Some t \<Rightarrow> t)]
      else [''--set'', plan_snapshot plan]) @ [''restore'']"

definition restore_step ::
  "rb_env \<Rightarrow> string \<Rightarrow> RollbackPlan \<Rightarrow> string option \<Rightarrow> (rb_world, rb_exn, RollbackResult) act" where
  "restore_step e stanza plan target_time =
     (if rb_dry_run e then act_return (plan_result plan RbOk)
      else act_bind (rb_call e (pgbackrest_argv e (restore_args stanza plan target_time)) (2 * 60 * 60))
        (\<lambda>r. case r of
           RunOk _ \<Rightarrow> act_return (plan_result plan RbOk)
         | CalledProcessError _ _ \<Rightarrow> act_return (plan_result plan RestoreFailed)
         | TimeoutExpired m \<Rightarrow> act_raise (RollbackError (''pgbackrest restore timed out after 2h: '' @ m))
         | FileNotFound m \<Rightarrow> act_raise (RbFileNotFound m)))"

definition rb_run ::
  "rb_env \<Rightarrow> RollbackPlan \<Rightarrow> string option \<Rightarrow> (rb_world, rb_exn, RollbackResult) act" where
  "rb_run e plan pgbackrest_stanza =
     (let stanza = py_or pgbackrest_stanza (env_get (rb_environ e) ''PGBACKREST_STANZA'' ''shared'');
          sentinel = is_sentinel (plan_snapshot plan);
          target_time = (if sentinel then rb_environ e ''ROLLBACK_TARGET_TIME'' else None)
      in if prefix ''pgdump/'' (plan_snapshot plan) then rollback_via_pgrestore e plan (rb_dry_run e)
         else if sentinel \<and> \<not> truthy target_time then act_return (plan_result plan SnapshotMissing)
         else act_bind (rb_call e (pgbackrest_argv e [''--stanza='' @ stanza, ''info'', ''--output=json'']) 120)
           (\<lambda>r. case r of
              CalledProcessError rc err \<Rightarrow>
                act_raise (RollbackError (''pgbackrest info exit '' @ int_str rc @ '': '' @ stderr_tail err))
            | FileNotFound _ \<Rightarrow>
                act_raise (RollbackError ''flyctl not on PATH - install in migration-runner Dockerfile'')
            | TimeoutExpired m \<Rightarrow> act_raise (RbTimeoutExpired m)
            | RunOk out \<Rightarrow>
                if \<not> sentinel \<and> \<not> py_in (plan_snapshot plan) out
                then act_return (plan_result plan SnapshotMissing)
                else restore_step e stanza plan target_time))"

section \<open>The command-line entry point\<close>

definition lookup_plan :: "control_db \<Rightarrow> string \<Rightarrow> string \<Rightarrow> string \<Rightarrow> rb_exn + RollbackPlan" where
  "lookup_plan db jid previous_sha actor =
     (case get_job jid db of
        None \<Rightarrow> Inl (RollbackError (''job '' @ jid @ '' not found''))
      | Some j \<Rightarrow>
          (case get_tenant (mj_tenant_id j) db of
             None \<Rightarrow> Inl (RollbackError (''job '' @ jid @ '' not found''))
           | Some t \<Rightarrow>
               if \<not> truthy (mj_snapshot_id j)
               then Inl (RollbackError (''job '' @ jid @ '' has no snapshot_id - cannot restore from pgbackrest''))
               else Inr \<lparr>plan_job = jid, plan_tenant = mj_tenant_id j, plan_db_name = tn_db_name t,
                         plan_snapshot = the (mj_snapshot_id j), plan_previous_sha = previous_sha,
                         plan_reason = ''operator rollback to '' @ py_first 7 previous_sha,
                         plan_actor = actor\<rparr>))"

definition rollback_event :: "RollbackPlan \<Rightarrow> audit_event" where
  "rollback_event plan =
     \<lparr>ev_actor_kind = ''human'', ev_actor = plan_actor plan, ev_action = ''tenant.migration_rolled_back'',
      ev_target_kind = ''tenant'', ev_target = plan_tenant plan, ev_sha = Some (plan_previous_sha plan),
      ev_reason = plan_reason plan,
      ev_payload = JObj [(''job_id'', JStr (plan_job plan)), (''snapshot_id'', JStr (plan_snapshot plan)),
                         (''previous_sha'', JStr (plan_previous_sha plan)), (''outcome'', JStr ''ok'')]\<rparr>"

definition finalize_ok :: "int \<Rightarrow> RollbackPlan \<Rightarrow> control_db \<Rightarrow> control_db" where
  "finalize_ok now plan db =
     (let db1 = update_tenant (plan_tenant plan)
                  (\<lambda>t. t\<lparr>tn_last_sha := Some (plan_previous_sha plan), tn_updated_at := now\<rparr>) db;
          db2 = update_job (plan_job plan)
                  (\<lambda>r. r\<lparr>mj_status := Cancelled, mj_finished_at := Some now,
                         mj_error_excerpt := Some (''rolled back to '' @ py_first 7 (plan_previous_sha plan) @
                           '' by '' @ plan_actor plan)\<rparr>) db1
      in db2\<lparr>audit := audit db2 @ [rollback_event plan]\<rparr>)"

definition rb_actor :: "rb_env \<Rightarrow> string" where
  "rb_actor e = py_or (rb_environ e ''ROLLBACK_ACTOR'') (env_get (rb_environ e) ''GITHUB_ACTOR'' ''unknown'')"

definition rb_cli :: "rb_env \<Rightarrow> string list \<Rightarrow> (rb_world, rb_exn, int) act" where
  "rb_cli e argv =
     (case argv of
        [jid, previous_sha] \<Rightarrow>
          if \<not> truthy (rb_environ e ''CONTROL_PLANE_PG_DSN'') then act_return 1
          else (\<lambda>w.
            case lookup_plan (rb_db w) jid previous_sha (rb_actor e) of
              Inl _ \<Rightarrow> (Inr 2, w)
            | Inr plan \<Rightarrow>
                act_bind (rb_run e plan None)
                  (\<lambda>r. case rr_status r of
                     SnapshotMissing \<Rightarrow> act_return 4
                   | RestoreFailed \<Rightarrow> act_return 3
                   | RbOk \<Rightarrow> act_seq (act_modify (\<lambda>w. w\<lparr>rb_db := finalize_ok (rb_now e) plan (rb_db w)\<rparr>))
                              (act_return 0)) w)
      | _ \<Rightarrow> act_return 1)"

section \<open>Lemmas\<close>

lemmas rb_defs = rb_run_def rollback_via_pgrestore_def restore_step_def rb_call_def

lemma rb_run_db: "rb_run e plan st w = (x, w') \<Longrightarrow> rb_db w' = rb_db w"
  by (auto simp: rb_defs Let_def split: if_splits run_outcome.splits)

lemma lookup_planE:
  assumes "lookup_plan db jid sha actor = Inr plan"
  obtains j t where "get_job jid db = Some j" "get_tenant (mj_tenant_id j) db = Some t" "plan_job plan = jid"
    "plan_tenant plan = mj_tenant_id j" "plan_db_name plan = tn_db_name t" "mj_snapshot_id j = Some (plan_snapshot plan)"
    "plan_previous_sha plan = sha"
  using assms by (auto simp: lookup_plan_def truthy_def split: option.splits if_splits)

interpretation rolled_back: job_transition "finalize_ok now plan" "plan_job plan"
  "\<lambda>r. r\<lparr>mj_status := Cancelled, mj_finished_at := Some now,
         mj_error_excerpt := Some (''rolled back to '' @ py_first 7 (plan_previous_sha plan) @
           '' by '' @ plan_actor plan)\<rparr>" for now plan
  by unfold_locales (simp_all add: finalize_ok_def job_op_defs map_key_row_upd Let_def)

lemma finalize_ok_tenant:
  "get_tenant (plan_tenant plan) (finalize_ok now plan db) =
     map_option (\<lambda>t. t\<lparr>tn_last_sha := Some (plan_previous_sha plan), tn_updated_at := now\<rparr>)
       (get_tenant (plan_tenant plan) db)"
  by (simp add: finalize_ok_def update_tenant_def update_job_def Let_def row_get_upd_same)

lemma finalize_ok_audit: "audit (finalize_ok now plan db) = audit db @ [rollback_event plan]"
  by (simp add: finalize_ok_def update_tenant_def update_job_def Let_def)

text \<open>What the tables show after a finished rollback.\<close>

definition rollback_recorded :: "RollbackPlan \<Rightarrow> control_db \<Rightarrow> control_db \<Rightarrow> bool" where
  "rollback_recorded plan db db' \<longleftrightarrow>
     job_status_of (plan_job plan) db' = Some Cancelled \<and>
     map_option tn_last_sha (get_tenant (plan_tenant plan) db') = Some (Some (plan_previous_sha plan)) \<and>
     audit db' = audit db @ [rollback_event plan] \<and>
     (\<forall>i. i \<noteq> plan_job plan \<longrightarrow> get_job i db' = get_job i db) \<and>
     (\<forall>i. i \<noteq> plan_tenant plan \<longrightarrow> get_tenant i db' = get_tenant i db)"

lemma finalize_ok_recorded:
  assumes "lookup_plan db jid sha actor = Inr plan"
  shows "rollback_recorded plan db (finalize_ok now plan db)"
proof -
  from assms obtain j t where j: "get_job (plan_job plan) db = Some j" "get_tenant (plan_tenant plan) db = Some t"
    by (rule lookup_planE) auto
  have other: "get_tenant i (finalize_ok now plan db) = get_tenant i db" if "i \<noteq> plan_tenant plan" for i
    using that by (simp add: finalize_ok_def update_tenant_def update_job_def Let_def row_get_upd_other)
  show ?thesis
    using j other
    by (simp add: rollback_recorded_def finalize_ok_tenant finalize_ok_audit rolled_back.job_after
        rolled_back.other_job_after)
qed

lemma rb_cli_cases:
  assumes "rb_cli e argv w = (x, w')"
  obtains (usage) "x = Inr 1" "w' = w"
    | (unknown) "x = Inr 2" "w' = w"
    | (ran) jid sha plan y v where "argv = [jid, sha]" "lookup_plan (rb_db w) jid sha (rb_actor e) = Inr plan"
        "rb_run e plan None w = (y, v)" "rb_db v = rb_db w"
        "(x, w') = (case y of Inl exc \<Rightarrow> (Inl exc, v)
           | Inr r \<Rightarrow> (case rr_status r of SnapshotMissing \<Rightarrow> (Inr 4, v) | RestoreFailed \<Rightarrow> (Inr 3, v)
               | RbOk \<Rightarrow> (Inr 0, v\<lparr>rb_db := finalize_ok (rb_now e) plan (rb_db v)\<rparr>)))"
proof -
  consider (a) "x = Inr 1" "w' = w" | (b) jid sha where "argv = [jid, sha]"
      "(case lookup_plan (rb_db w) jid sha (rb_actor e) of
          Inl _ \<Rightarrow> (Inr 2, w)
        | Inr plan \<Rightarrow>
            act_bind (rb_run e plan None)
              (\<lambda>r. case rr_status r of
                 SnapshotMissing \<Rightarrow> act_return 4
               | RestoreFailed \<Rightarrow> act_return 3
               | RbOk \<Rightarrow> act_seq (act_modify (\<lambda>w. w\<lparr>rb_db := finalize_ok (rb_now e) plan (rb_db w)\<rparr>))
                          (act_return 0)) w) = (x, w')"
    using assms unfolding rb_cli_def by (auto split: list.splits if_splits)
  then show thesis
  proof cases
    case a
    then show thesis by (rule usage)
  next
    case b
    show thesis
    proof (cases "lookup_plan (rb_db w) jid sha (rb_actor e)")
      case (Inl y)
      with b unknown show thesis by simp
    next
      case (Inr plan)
      obtain y v where run: "rb_run e plan None w = (y, v)" by fastforce
      then have "rb_db v = rb_db w" by (rule rb_run_db)
      with b Inr run show thesis
        by (intro ran [of jid sha plan y v]) (auto split: sum.splits rb_status.splits)
    qed
  qed
qed

section \<open>Properties\<close>

definition demo_rb_job :: "string \<Rightarrow> migration_job" where
  "demo_rb_job snap = (calm_job False 0)\<lparr>mj_status := Done, mj_snapshot_id := Some snap\<rparr>"

definition demo_rb_world :: "string \<Rightarrow> rb_world" where
  "demo_rb_world snap =
     \<lparr>rb_db = \<lparr>jobs = [demo_rb_job snap], tenants = [calm_tenant], audit = []\<rparr>, rb_cmds = []\<rparr>"

definition demo_rb_env :: "(string \<rightharpoonup> string) \<Rightarrow> run_outcome \<Rightarrow> rb_env" where
  "demo_rb_env env out =
     \<lparr>rb_environ = env(''CONTROL_PLANE_PG_DSN'' \<mapsto> ''dsn''), rb_answer = (\<lambda>_ _. out), rb_now = 9\<rparr>"

lemma demo_lookup:
  "snap \<noteq> [] \<Longrightarrow> lookup_plan (rb_db (demo_rb_world snap)) ''aaaa-bbbb-cc'' sha actor =
     Inr \<lparr>plan_job = ''aaaa-bbbb-cc'', plan_tenant = ''t1'', plan_db_name = ''acme_db'',
          plan_snapshot = snap, plan_previous_sha = sha,
          plan_reason = ''operator rollback to '' @ py_first 7 sha, plan_actor = actor\<rparr>"
  by (simp add: lookup_plan_def demo_rb_world_def demo_rb_job_def calm_job_def calm_tenant_def row_simps truthy_def)

text \<open>
  C3: The entry point changes the tables only when it exits with code 0, and then all at once:
  the job is cancelled, its tenant is back at the previous revision, one audit event is added and
  no other row changes. After any other exit code, or an exception that escapes, the tables are
  as before.
\<close>

theorem rollback_all_or_nothing:
  assumes "rb_cli e argv w = (x, w')"
  shows "if x = Inr 0
    then \<exists>jid sha plan. argv = [jid, sha] \<and> lookup_plan (rb_db w) jid sha (rb_actor e) = Inr plan \<and>
           rollback_recorded plan (rb_db w) (rb_db w')
    else rb_db w' = rb_db w"
  using assms
proof (cases rule: rb_cli_cases)
  case (ran jid sha plan y v)
  then show ?thesis
    using finalize_ok_recorded [OF ran(2)] by (auto split: sum.splits rb_status.splits)
qed simp_all

theorem rollback_all_or_nothing_witness:
  "rb_db (snd (rb_cli (demo_rb_env Map.empty (CalledProcessError 1 None)) [''aaaa-bbbb-cc'', ''sha1'']
      (demo_rb_world ''pgdump/acme/1''))) = rb_db (demo_rb_world ''pgdump/acme/1'')"
proof -
  let ?e = "demo_rb_env Map.empty (CalledProcessError 1 None)" and ?w = "demo_rb_world ''pgdump/acme/1''"
  have dsn: "truthy (rb_environ ?e ''CONTROL_PLANE_PG_DSN'')" by (simp add: demo_rb_env_def truthy_def)
  have "fst (rb_cli ?e [''aaaa-bbbb-cc'', ''sha1''] ?w) = Inr 3"
    by (simp add: rb_cli_def dsn demo_lookup rb_defs Let_def rb_dry_run_def env_get_def py_lower_def)
      (simp add: demo_rb_env_def)
  then have "rb_cli ?e [''aaaa-bbbb-cc'', ''sha1''] ?w = (Inr 3, snd (rb_cli ?e [''aaaa-bbbb-cc'', ''sha1''] ?w))"
    by (metis prod.collapse)
  from rollback_all_or_nothing [OF this] show ?thesis by simp
qed

text \<open>
  A per-tenant snapshot never leads to the cluster-wide restore: the only command a rollback
  from a \<open>pgdump/\<close> key starts is the restore of that key into that tenant's database.
\<close>

theorem per_tenant_rollback_commands:
  assumes "prefix ''pgdump/'' (plan_snapshot plan)" and "rb_run e plan stanza w = (x, w')"
  shows "rb_cmds w' = rb_cmds w @
    (if rb_dry_run e then [] else [pgrestore_argv e (plan_snapshot plan) (plan_db_name plan)])"
  using assms by (auto simp: rb_defs split: if_splits run_outcome.splits)

theorem per_tenant_rollback_commands_witness:
  "rb_cmds (snd (rb_run (demo_rb_env Map.empty (RunOk []))
      \<lparr>plan_job = ''j'', plan_tenant = ''t1'', plan_db_name = ''acme_db'', plan_snapshot = ''pgdump/acme/1'',
       plan_previous_sha = ''s'', plan_reason = [], plan_actor = []\<rparr> None (demo_rb_world [])))
    = [pgrestore_argv (demo_rb_env Map.empty (RunOk [])) ''pgdump/acme/1'' ''acme_db'']"
  using per_tenant_rollback_commands [of "\<lparr>plan_job = ''j'', plan_tenant = ''t1'', plan_db_name = ''acme_db'', plan_snapshot = ''pgdump/acme/1'',
       plan_previous_sha = ''s'', plan_reason = [], plan_actor = []\<rparr>" "demo_rb_env Map.empty (RunOk [])" None
       "demo_rb_world []", OF _ prod.collapse [symmetric]]
  by (simp add: rb_dry_run_def env_get_def py_lower_def) (simp add: demo_rb_env_def demo_rb_world_def)

text \<open>
  A drill is recorded as a rollback. With \<open>PGBACKREST_DRY_RUN\<close> set, the entry point starts
  no restore of a per-tenant snapshot, and yet exits with code 0, puts the tenant's revision
  back and writes the audit event.
\<close>

theorem drill_recorded_as_rollback:
  assumes "rb_dry_run e" and "truthy (rb_environ e ''CONTROL_PLANE_PG_DSN'')"
    and "lookup_plan (rb_db w) jid sha (rb_actor e) = Inr plan" and "prefix ''pgdump/'' (plan_snapshot plan)"
  shows "\<exists>w'. rb_cli e [jid, sha] w = (Inr 0, w') \<and> rb_cmds w' = rb_cmds w \<and>
    rollback_recorded plan (rb_db w) (rb_db w')"
  using assms finalize_ok_recorded [OF assms(3)] by (simp add: rb_cli_def rb_defs)

theorem drill_recorded_as_rollback_witness:
  "\<exists>w'. rb_cli (demo_rb_env [''PGBACKREST_DRY_RUN'' \<mapsto> ''true''] (RunOk [])) [''aaaa-bbbb-cc'', ''sha1'']
      (demo_rb_world ''pgdump/acme/1'') = (Inr 0, w') \<and> rb_cmds w' = []"
  using drill_recorded_as_rollback [of "demo_rb_env [''PGBACKREST_DRY_RUN'' \<mapsto> ''true''] (RunOk [])"
      "demo_rb_world ''pgdump/acme/1''" "''aaaa-bbbb-cc''" "''sha1''", OF _ _ demo_lookup]
  by (auto simp: rb_dry_run_def env_get_def py_lower_def py_lower_char_def demo_rb_env_def truthy_def)
    (auto simp: demo_rb_world_def)

end
