(* ===== verification/MigrationRecovery.thy ===== *)
theory MigrationRecovery
  imports MigrationRunner MigrationRollback
begin

text \<open>
  The migration runner, its snapshots and the rollback together
  (infra/runners/migration_runner: runner.py, snapshot.py, rollback.py): what an upgrade leaves
  for a later rollback, and that healthy iterations empty the queue.
\<close>

section \<open>The snapshot stays with the job\<close>

text \<open>The row of the job carries the snapshot, and its tenant still owns the same database.\<close>

definition points_to :: "JobRow \<Rightarrow> string \<Rightarrow> control_db \<Rightarrow> bool" where
  "points_to job s db \<longleftrightarrow>
     (\<exists>j t. get_job (job_id job) db = Some j \<and> mj_snapshot_id j = Some s \<and> mj_tenant_id j = job_tenant_id job \<and>
        get_tenant (job_tenant_id job) db = Some t \<and> tn_db_name t = tenant_db_name job)"

definition keeps_snapshots :: "(control_db \<Rightarrow> control_db) \<Rightarrow> bool" where
  "keeps_snapshots f \<longleftrightarrow> (\<forall>job s db. points_to job s db \<longrightarrow> points_to job s (f db))"

definition others_keep_snapshots :: "run_env \<Rightarrow> bool" where
  "others_keep_snapshots e \<longleftrightarrow> (\<forall>t \<in> set (re_ticks e). keeps_snapshots (tk_others t)) \<and> keeps_snapshots (re_late e)"

lemma heartbeat_tenants: "tenants (snd (record_heartbeat now i db)) = tenants db"
  by (simp add: record_heartbeat_def Let_def update_job_def)

lemma heartbeat_keeps_snapshots: "keeps_snapshots (\<lambda>db. snd (record_heartbeat now i db))"
proof -
  have "points_to job s (snd (record_heartbeat now i db))" if "points_to job s db" for job s db
    using that
    by (cases "job_id job = i") (auto simp: points_to_def heartbeat_tenants beaten.job_after beaten.other_job_after)
  then show ?thesis by (simp add: keeps_snapshots_def)
qed

lemma fold_keeps_snapshots:
  "(\<And>t. t \<in> set ts \<Longrightarrow> keeps_snapshots (tk_others t)) \<Longrightarrow> points_to job s db \<Longrightarrow> points_to job s (fold tk_others ts db)"
  by (induction ts arbitrary: db) (auto simp: keeps_snapshots_def)

lemma heartbeat_run_points:
  "(\<And>t. t \<in> set ts \<Longrightarrow> keeps_snapshots (tk_others t)) \<Longrightarrow> points_to job s db \<Longrightarrow>
   points_to job s (snd (heartbeat_run i ts db))"
proof (induction ts arbitrary: db)
  case (Cons t ts)
  have p1: "points_to job s (tk_others t db)" using Cons.prems by (auto simp: keeps_snapshots_def)
  obtain st db2 where b: "(if tk_raises t then (None, tk_others t db)
      else record_heartbeat (tk_now t) i (tk_others t db)) = (st, db2)" by fastforce
  then have "points_to job s db2"
    using p1 heartbeat_keeps_snapshots [of "tk_now t" i]
    by (auto simp: keeps_snapshots_def split: if_splits) (metis snd_conv)
  with b Cons show ?case by (auto simp: Let_def fold_keeps_snapshots)
qed simp

lemma finalize_done_points:
  assumes "points_to job s db"
  shows "points_to job s (finalize_done now (job_id job) (job_tenant_id job) sha db)"
proof -
  from assms obtain j t where j: "get_job (job_id job) db = Some j" "mj_snapshot_id j = Some s" "mj_tenant_id j = job_tenant_id job"
    "get_tenant (job_tenant_id job) db = Some t" "tn_db_name t = tenant_db_name job" by (auto simp: points_to_def)
  have "get_tenant (job_tenant_id job) (finalize_done now (job_id job) (job_tenant_id job) sha db)
      = Some (t\<lparr>tn_last_sha := Some sha, tn_updated_at := now\<rparr>)"
    using j(4) by (simp add: finalize_done_def update_tenant_def update_job_def row_get_upd_same)
  with j show ?thesis by (simp add: points_to_def done_op.job_after)
qed

lemma write_snapshot_points:
  assumes "get_job (job_id job) db = Some j" "mj_tenant_id j = job_tenant_id job"
    and "get_tenant (job_tenant_id job) db = Some t" "tn_db_name t = tenant_db_name job"
  shows "points_to job s (write_snapshot_id (job_id job) s db)"
  using assms by (simp add: points_to_def snapped.job_after) (simp add: write_snapshot_id_def update_job_def)

lemma finish_run_done:
  assumes "finish_run e job tgt cancelled b code err w = (Inr \<lparr>res_job = Some i, res_status = ODone\<rparr>, w')" "\<not> migration_dry_run job"
  shows "rw_db w' = finalize_done (re_tx_now e 3) (job_id job) (job_tenant_id job) (target_sha job) (rw_db w)"
  using assms classify_exit_range [of code "retry_count job" 3]
  by (auto simp: finish_run_def Let_def split: if_splits outcome.splits)

lemma run_odoo_points:
  assumes "run_odoo e job w = (Inr \<lparr>res_job = Some i, res_status = ODone\<rparr>, w')" "\<not> migration_dry_run job"
    and "points_to job s (rw_db w)" "others_keep_snapshots e"
  shows "points_to job s (rw_db w')"
  using assms(1)
proof (cases rule: run_odoo_cases)
  case real
  from real(2) show ?thesis
  proof (cases rule: invoke_odoo_cases)
    case (ran t code err)
    have "points_to job s (rw_db (after_run e job (tenant_db_name job) w))"
      using assms(3,4) heartbeat_run_points [of "re_ticks e" job s "rw_db w" "job_id job"]
      by (auto simp: after_run_def others_keep_snapshots_def keeps_snapshots_def)
    then show ?thesis using finish_run_done [OF ran(2) assms(2)] by (simp add: finalize_done_points)
  qed simp
qed (use assms(2) in simp_all)

lemma process_job_points:
  assumes "process_job e job w = (Inr \<lparr>res_job = Some i, res_status = ODone\<rparr>, w')" "\<not> migration_dry_run job"
    and "get_job (job_id job) (rw_db w) = Some j" "mj_tenant_id j = job_tenant_id job"
    and "get_tenant (job_tenant_id job) (rw_db w) = Some t" "tn_db_name t = tenant_db_name job"
    and "others_keep_snapshots e"
  shows "\<exists>snap. re_snapshot e (tenant_slug job) (tenant_db_name job) = Inr snap \<and> points_to job (snapshot_id snap) (rw_db w')"
proof -
  from assms(1) obtain snap where snap: "re_snapshot e (tenant_slug job) (tenant_db_name job) = Inr snap"
    and run: "run_odoo e job (w\<lparr>rw_db := write_snapshot_id (job_id job) (snapshot_id snap) (rw_db w)\<rparr>)
        = (Inr \<lparr>res_job = Some i, res_status = ODone\<rparr>, w')"
    by (auto simp: process_job_def split: if_splits sum.splits bool.splits snap_error.splits)
  from run_odoo_points [OF run assms(2) _ assms(7)] write_snapshot_points [OF assms(3-6)] snap show ?thesis by simp
qed

lemma claimed_rows:
  assumes "claim_next_job host now locked db = (Some job, db')" "distinct (map mj_id (jobs db))"
  shows "\<exists>j t. get_job (job_id job) db' = Some j \<and> mj_tenant_id j = job_tenant_id job \<and>
    get_tenant (job_tenant_id job) db' = Some t \<and> tn_db_name t = tenant_db_name job"
proof -
  from assms(1) obtain j t where j: "j \<in> set (jobs db)" "get_tenant (mj_tenant_id j) db = Some t"
    "job = job_row j t" "db' = update_job (mj_id j) (claim_upd host now) db" by (rule claim_SomeE)
  have "get_job (mj_id j) db' = Some (claim_upd host now j)"
    using row_get_distinct [OF assms(2) j(1)] j(4) claim_row.job_after [of "mj_id j" host now db] by simp
  moreover have "tenants db' = tenants db" using j(4) by (simp add: update_job_def)
  ultimately show ?thesis using j(2,3) by (simp add: job_row_def)
qed

section \<open>Draining the queue\<close>

text \<open>
  An iteration that meets no obstacle: nobody interferes, the windows of the schedules in S are
  open, Odoo exits with 0.
\<close>

type_synonym schedule = "string \<times> string \<times> int option"

definition schedule :: "tenant \<Rightarrow> schedule" where
  "schedule t = (tn_window t, tn_tz t, tn_override_until t)"

definition healthy :: "int \<Rightarrow> schedule set \<Rightarrow> run_env \<Rightarrow> bool" where
  "healthy now S e \<longleftrightarrow>
     re_tx_now e 0 = now \<and> re_locked e = [] \<and> re_ticks e = [] \<and> re_late e = id \<and> (\<exists>err. re_proc e = ProcExited 0 err) \<and>
     (\<forall>job. (maintenance_window job, job_tz job, window_override_until job) \<in> S \<longrightarrow>
        (\<exists>ev. default_window e job = Inr ev \<and> is_open (re_cron e) ev (re_utcnow e) = Inr True)) \<and>
     (\<forall>slug db. \<exists>snap. re_snapshot e slug db = Inr snap) \<and> (\<forall>a b. re_create_ok e a b)"

text \<open>The jobs that are still to be done.\<close>

definition waiting :: "control_db \<Rightarrow> string set" where
  "waiting db = {i. \<exists>j t. get_job i db = Some j \<and> mj_status j \<in> {Queued, Blocked} \<and>
     get_tenant (mj_tenant_id j) db = Some t \<and> tn_wave t \<noteq> Some ''paused''}"

definition due :: "int \<Rightarrow> schedule set \<Rightarrow> control_db \<Rightarrow> bool" where
  "due now S db \<longleftrightarrow> distinct (map mj_id (jobs db)) \<and>
     (\<forall>k t. get_tenant k db = Some t \<longrightarrow> schedule t \<in> S) \<and>
     (\<forall>j \<in> set (jobs db). mj_status j \<in> {Queued, Blocked} \<longrightarrow>
        mj_enqueued_at j \<le> now \<and> (case mj_blocked_until j of None \<Rightarrow> True | Some b \<Rightarrow> b \<le> now))"

lemma eligible_waiting:
  assumes "due now S db" "j \<in> set (jobs db)"
  shows "eligible now [] db j \<longleftrightarrow> mj_id j \<in> waiting db"
proof -
  have g: "get_job (mj_id j) db = Some j" using row_get_distinct [where key = mj_id, OF _ assms(2)] assms(1) by (simp add: due_def)
  show ?thesis
    using assms(1,2) unfolding waiting_def due_def eligible_def claimable_def mem_Collect_eq g
    by (auto split: option.splits)
qed

text \<open>What a finished job leaves: one row settled, everything else about the queue as it was.\<close>

definition same_queue_but :: "string \<Rightarrow> control_db \<Rightarrow> control_db \<Rightarrow> bool" where
  "same_queue_but i db db' \<longleftrightarrow>
     map mj_id (jobs db') = map mj_id (jobs db) \<and> (\<forall>k. k \<noteq> i \<longrightarrow> get_job k db' = get_job k db) \<and>
     (\<forall>k. map_option (\<lambda>t. (tn_wave t, schedule t)) (get_tenant k db') = map_option (\<lambda>t. (tn_wave t, schedule t)) (get_tenant k db))"

lemma same_queue_trans: "same_queue_but i a b \<Longrightarrow> same_queue_but i b c \<Longrightarrow> same_queue_but i a c"
  by (simp add: same_queue_but_def)

lemma same_queue_ops:
  "same_queue_but i db (update_job i (claim_upd host now) db)"
  "same_queue_but i db (write_snapshot_id i s db)"
  "same_queue_but i db (transition_to_skipped now i db)"
  "same_queue_but i db (finalize_done now i tid sha db)"
proof -
  have "map_option (\<lambda>t. (tn_wave t, schedule t)) (get_tenant k (finalize_done now i tid sha db)) = map_option (\<lambda>t. (tn_wave t, schedule t)) (get_tenant k db)" for k
    by (cases "k = tid")
      (simp_all add: finalize_done_def update_tenant_def update_job_def row_get_upd_same row_get_upd_other option.map_comp comp_def schedule_def)
  then show "same_queue_but i db (finalize_done now i tid sha db)"
    by (simp add: same_queue_but_def done_op.other_job_after done_op.job_ids_after)
qed (simp_all add: same_queue_but_def claim_row.other_job_after claim_row.job_ids_after snapped.other_job_after
    snapped.job_ids_after skipped.other_job_after skipped.job_ids_after, simp_all add: job_op_defs)

definition settled :: "string \<Rightarrow> control_db \<Rightarrow> bool" where
  "settled i db \<longleftrightarrow> job_status_of i db \<in> {Some Done, Some Skipped}"

lemma healthy_process:
  assumes "healthy now S e" "rows_present job (rw_db w)" "(maintenance_window job, job_tz job, window_override_until job) \<in> S"
  shows "\<exists>r w'. process_job e job w = (Inr r, w') \<and> res_status r \<in> {OSkipped, ODone} \<and>
    same_queue_but (job_id job) (rw_db w) (rw_db w') \<and> settled (job_id job) (rw_db w')"
proof (cases "last_migrated_sha job = Some (target_sha job)")
  case True
  then show ?thesis
    using skipped_recorded [OF assms(2), of "re_tx_now e 1"] by (simp add: process_job_def same_queue_ops settled_def)
next
  case stale: False
  have "\<exists>ev. default_window e job = Inr ev \<and> is_open (re_cron e) ev (re_utcnow e) = Inr True"
    using assms(1,3) unfolding healthy_def by blast
  then obtain ev where ev: "default_window e job = Inr ev" "is_open (re_cron e) ev (re_utcnow e) = Inr True" by blast
  from assms(1) obtain snap err where snap: "re_snapshot e (tenant_slug job) (tenant_db_name job) = Inr snap"
    and pr: "re_proc e = ProcExited 0 err" and cr: "\<And>a b. re_create_ok e a b"
    and quiet: "re_ticks e = []" "re_late e = id" unfolding healthy_def by blast
  let ?w1 = "w\<lparr>rw_db := write_snapshot_id (job_id job) (snapshot_id snap) (rw_db w)\<rparr>"
  have p1: "rows_present job (rw_db ?w1)" using assms(2) by (simp add: snapshot_present)
  have run: "process_job e job w = run_odoo e job ?w1" using stale ev snap by (simp add: process_job_def)
  have wr: "while_running e job v = (Inr False, v)" for v by (simp add: while_running_run quiet)
  let ?s = "transition_to_skipped (re_tx_now e 3) (job_id job) (rw_db ?w1)"
  let ?d = "finalize_done (re_tx_now e 3) (job_id job) (job_tenant_id job) (target_sha job) (rw_db ?w1)"
  have "\<exists>w'. run_odoo e job ?w1 = (Inr \<lparr>res_job = Some (job_id job), res_status = ODone\<rparr>, w') \<and>
      rw_db w' = (if migration_dry_run job then ?s else ?d)"
    using pr cr by (simp add: run_odoo_def make_clone_run invoke_odoo_def wr finish_run_def classify_exit_def Let_def)
  then obtain w' where w': "run_odoo e job ?w1 = (Inr \<lparr>res_job = Some (job_id job), res_status = ODone\<rparr>, w')"
    "rw_db w' = (if migration_dry_run job then ?s else ?d)" by blast
  have "same_queue_but (job_id job) (rw_db ?w1) (rw_db w')" unfolding w'(2) by (simp add: same_queue_ops)
  moreover have "same_queue_but (job_id job) (rw_db w) (rw_db ?w1)" by (simp add: same_queue_ops)
  moreover have "settled (job_id job) (rw_db w')"
    unfolding w'(2) settled_def using skipped_recorded [OF p1] p1
    by (auto simp: rows_present_def done_op.job_after)
  ultimately show ?thesis using run w'(1) same_queue_trans by (intro exI conjI) (assumption | simp | blast)+
qed

lemma waiting_after:
  assumes "same_queue_but i db db'" "settled i db'"
  shows "waiting db' = waiting db - {i}"
proof -
  have "k \<in> waiting db' \<longleftrightarrow> k \<in> waiting db \<and> k \<noteq> i" for k
  proof (cases "k = i")
    case True
    with assms(2) show ?thesis by (auto simp: waiting_def settled_def)
  next
    case False
    have w: "(\<exists>t. get_tenant tid db' = Some t \<and> tn_wave t \<noteq> Some ''paused'') \<longleftrightarrow>
        (\<exists>t. get_tenant tid db = Some t \<and> tn_wave t \<noteq> Some ''paused'')" for tid
    proof -
      have "map_option (\<lambda>t. (tn_wave t, schedule t)) (get_tenant tid db') = map_option (\<lambda>t. (tn_wave t, schedule t)) (get_tenant tid db)"
        using assms(1) by (simp add: same_queue_but_def)
      then show ?thesis by (cases "get_tenant tid db"; cases "get_tenant tid db'") auto
    qed
    have "get_job k db' = get_job k db" using assms(1) False by (simp add: same_queue_but_def)
    then show ?thesis using w False unfolding waiting_def by auto
  qed
  then show ?thesis by blast
qed

lemma due_after:
  assumes "same_queue_but i db db'" "settled i db'" "due now S db"
  shows "due now S db'"
proof -
  have d: "distinct (map mj_id (jobs db'))" using assms(1,3) by (simp add: same_queue_but_def due_def)
  have sch: "schedule t \<in> S" if "get_tenant k db' = Some t" for k t
  proof -
    have "map_option (\<lambda>t. (tn_wave t, schedule t)) (get_tenant k db') = map_option (\<lambda>t. (tn_wave t, schedule t)) (get_tenant k db)"
      using assms(1) by (simp add: same_queue_but_def)
    with that show ?thesis using assms(3) by (cases "get_tenant k db") (auto simp: due_def)
  qed
  have rows: "mj_enqueued_at j \<le> now \<and> (case mj_blocked_until j of None \<Rightarrow> True | Some b \<Rightarrow> b \<le> now)"
    if j: "j \<in> set (jobs db')" "mj_status j \<in> {Queued, Blocked}" for j
  proof -
    have g: "get_job (mj_id j) db' = Some j" using row_get_distinct [where key = mj_id, OF d j(1)] .
    with assms(2) j(2) have "mj_id j \<noteq> i" by (auto simp: settled_def)
    with assms(1) g have "get_job (mj_id j) db = Some j" by (simp add: same_queue_but_def)
    then have "j \<in> set (jobs db)" by (auto dest: row_get_in_set)
    with assms(3) j(2) show ?thesis by (auto simp: due_def)
  qed
  from d sch rows show ?thesis by (simp add: due_def)
qed

lemma healthy_iteration:
  assumes "healthy now S e" "due now S (rw_db w)" "waiting (rw_db w) \<noteq> {}"
  shows "\<exists>i \<in> waiting (rw_db w). same_queue_but i (rw_db w) (rw_db (snd (run_once host e w))) \<and>
    settled i (rw_db (snd (run_once host e w)))"
proof -
  have e: "re_tx_now e 0 = now" "re_locked e = []" using assms(1) by (simp_all add: healthy_def)
  obtain c db where c: "claim_next_job host now [] (rw_db w) = (c, db)" by fastforce
  from assms(3) obtain i j t where j: "get_job i (rw_db w) = Some j" "i \<in> waiting (rw_db w)" by (auto simp: waiting_def)
  then have "j \<in> set (jobs (rw_db w))" "mj_id j = i" by (auto dest: row_get_in_set)
  with eligible_waiting [OF assms(2)] j have "eligible now [] (rw_db w) j" by simp
  with c claim_NoneD [of host now "[]" "rw_db w" db] \<open>j \<in> _\<close> obtain job where job: "c = Some job" by (cases c) auto
  from c [unfolded job] obtain k t where k: "k \<in> set (jobs (rw_db w))" "eligible now [] (rw_db w) k" "get_tenant (mj_tenant_id k) (rw_db w) = Some t"
    "job = job_row k t"     "db = update_job (mj_id k) (claim_upd host now) (rw_db w)" by (rule claim_SomeE)
  then have i: "job_id job \<in> waiting (rw_db w)" using eligible_waiting [OF assms(2) k(1)] by simp
  then have sch: "(maintenance_window job, job_tz job, window_override_until job) \<in> S"
    using assms(2) k(3,4) by (simp add: due_def schedule_def job_row_def)
  have "same_queue_but (job_id job) (rw_db w) db" using k(4,5) by (simp add: same_queue_ops)
  moreover obtain r w' where w': "process_job e job (w\<lparr>rw_db := db\<rparr>) = (Inr r, w')"
    "same_queue_but (job_id job) db (rw_db w')" "settled (job_id job) (rw_db w')"
    using healthy_process [OF assms(1) _ sch, of "w\<lparr>rw_db := db\<rparr>"] claim_rows_present [OF c [unfolded job]] by auto
  moreover have "run_once host e w = (Inr r, w')" using c job e w'(1) by (simp add: run_once_def)
  ultimately show ?thesis using i same_queue_trans by (metis snd_conv)
qed

lemma finite_waiting: "finite (waiting db)"
proof -
  have "waiting db \<subseteq> mj_id ` set (jobs db)" by (auto simp: waiting_def dest!: row_get_in_set)
  then show ?thesis by (rule finite_subset) simp
qed

lemma idle_iteration:
  assumes "healthy now S e" "due now S (rw_db w)" "waiting (rw_db w) = {}"
  shows "rw_db (snd (run_once host e w)) = rw_db w"
proof -
  have e: "re_tx_now e 0 = now" "re_locked e = []" using assms(1) by (simp_all add: healthy_def)
  obtain c db where c: "claim_next_job host now [] (rw_db w) = (c, db)" by fastforce
  have "c = None"
  proof (rule ccontr)
    assume "c \<noteq> None"
    then obtain job where job: "c = Some job" by blast
    from c [unfolded job] obtain k t where "k \<in> set (jobs (rw_db w))" "eligible now [] (rw_db w) k" by (rule claim_SomeE)
    with eligible_waiting [OF assms(2)] assms(3) show False by simp
  qed
  with c e show ?thesis using claim_NoneD [of host now "[]" "rw_db w" db] by (simp add: run_once_def)
qed

lemma settled_stays:
  assumes "settled i db" "same_queue_but k db db'" "settled k db'"
  shows "settled i db'"
  using assms by (cases "i = k") (auto simp: settled_def same_queue_but_def)

section \<open>Properties\<close>

text \<open>
  C17: The queue drains. As long as no iteration meets an obstacle (the windows are open, the snapshot is
  taken, Odoo exits with 0, nobody else writes), the daemon needs at most as many iterations as
  there are jobs waiting: afterwards none is waiting, every one of them is done or skipped, and
  more iterations change nothing about that.
\<close>

theorem queue_drains:
  assumes "\<And>e. e \<in> set es \<Longrightarrow> healthy now S e" "due now S (rw_db w)" "card (waiting (rw_db w)) \<le> length es"
  shows "waiting (rw_db (snd (run_forever host es w))) = {} \<and>
    (\<forall>i. i \<in> waiting (rw_db w) \<longrightarrow> settled i (rw_db (snd (run_forever host es w))))"
proof -
  have "(\<forall>i. settled i (rw_db w) \<longrightarrow> settled i (rw_db (snd (run_forever host es w)))) \<and>
      waiting (rw_db (snd (run_forever host es w))) = {} \<and>
      (\<forall>i \<in> waiting (rw_db w). settled i (rw_db (snd (run_forever host es w))))"
    using assms
  proof (induction es arbitrary: w)
    case Nil
    then show ?case using finite_waiting [of "rw_db w"] by simp
  next
    case (Cons e es)
    let ?w = "snd (run_once host e w)"
    have h: "healthy now S e" using Cons.prems(1) by simp
    show ?case
    proof (cases "waiting (rw_db w) = {}")
      case True
      from idle_iteration [OF h Cons.prems(2) True] have "rw_db ?w = rw_db w" .
      with Cons.IH [of ?w] Cons.prems True have "(\<forall>i. settled i (rw_db w) \<longrightarrow> settled i (rw_db (snd (run_forever host es ?w)))) \<and>
          waiting (rw_db (snd (run_forever host es ?w))) = {}" by simp
      then show ?thesis using True unfolding snd_run_forever_Cons by blast
    next
      case False
      from healthy_iteration [OF h Cons.prems(2) False] obtain i where i: "i \<in> waiting (rw_db w)"
        "same_queue_but i (rw_db w) (rw_db ?w)" "settled i (rw_db ?w)" by blast
      have w: "waiting (rw_db ?w) = waiting (rw_db w) - {i}" by (rule waiting_after [OF i(2,3)])
      have "due now S (rw_db ?w)" by (rule due_after [OF i(2,3) Cons.prems(2)])
      moreover have "card (waiting (rw_db ?w)) \<le> length es"
        using Cons.prems(3) i(1) finite_waiting [of "rw_db w"] unfolding w by (simp add: card_Diff_singleton)
      ultimately have "(\<forall>i. settled i (rw_db ?w) \<longrightarrow> settled i (rw_db (snd (run_forever host es ?w)))) \<and>
          waiting (rw_db (snd (run_forever host es ?w))) = {} \<and>
          (\<forall>i \<in> waiting (rw_db ?w). settled i (rw_db (snd (run_forever host es ?w))))"
        using Cons.IH [of ?w] Cons.prems(1) by simp
      then show ?thesis
        using i settled_stays [OF _ i(2,3)] unfolding snd_run_forever_Cons w by blast
    qed
  qed
  then show ?thesis by blast
qed

text \<open>
  An upgrade can be rolled back when its snapshot is a per-tenant dump: after an iteration that
  reports it done, the entry point of the rollback for that job starts exactly the restore of the
  snapshot that was taken before Odoo ran into the database of the tenant, and exits with 0 with
  the tenant at the revision asked for. With no snapshot, the default mode, and no target time,
  it exits with 4, starts no command and changes nothing.
\<close>

theorem upgrade_then_rollback:
  assumes "run_once host e w = (Inr \<lparr>res_job = Some jid, res_status = ODone\<rparr>, w')"
    and "claim_next_job host (re_tx_now e 0) (re_locked e) (rw_db w) = (Some job, db1)" "\<not> migration_dry_run job"
    and "distinct (map mj_id (jobs (rw_db w)))" "others_keep_snapshots e"
    and "truthy (rb_environ b ''CONTROL_PLANE_PG_DSN'')" "\<not> rb_dry_run b"
  shows "\<exists>snap. re_snapshot e (tenant_slug job) (tenant_db_name job) = Inr snap \<and>
    (prefix ''pgdump/'' (snapshot_id snap) \<and> rb_answer b (pgrestore_argv b (snapshot_id snap) (tenant_db_name job)) 7200 = RunOk out \<longrightarrow>
      (\<exists>v. rb_cli b [job_id job, sha] \<lparr>rb_db = rw_db w', rb_cmds = []\<rparr> = (Inr 0, v) \<and>
         rb_cmds v = [pgrestore_argv b (snapshot_id snap) (tenant_db_name job)] \<and>
         map_option tn_last_sha (get_tenant (job_tenant_id job) (rb_db v)) = Some (Some sha))) \<and>
    (is_sentinel (snapshot_id snap) \<and> \<not> truthy (rb_environ b ''ROLLBACK_TARGET_TIME'') \<longrightarrow>
      rb_cli b [job_id job, sha] \<lparr>rb_db = rw_db w', rb_cmds = []\<rparr> = (Inr 4, \<lparr>rb_db = rw_db w', rb_cmds = []\<rparr>))"
proof -
  let ?v = "\<lparr>rb_db = rw_db w', rb_cmds = []\<rparr>"
  from claimed_rows [OF assms(2,4)] obtain j t where j: "get_job (job_id job) db1 = Some j" "mj_tenant_id j = job_tenant_id job"
    "get_tenant (job_tenant_id job) db1 = Some t" "tn_db_name t = tenant_db_name job" by blast
  have "process_job e job (w\<lparr>rw_db := db1\<rparr>) = (Inr \<lparr>res_job = Some jid, res_status = ODone\<rparr>, w')"
    using assms(1,2) by (simp add: run_once_def)
  from process_job_points [OF this assms(3) _ j(2) _ j(4) assms(5)] j obtain snap where
    snap: "re_snapshot e (tenant_slug job) (tenant_db_name job) = Inr snap" and p: "points_to job (snapshot_id snap) (rw_db w')" by auto
  have plan: "\<exists>plan. lookup_plan (rw_db w') (job_id job) sha (rb_actor b) = Inr plan \<and> plan_snapshot plan = snapshot_id snap \<and>
      plan_db_name plan = tenant_db_name job \<and> plan_tenant plan = job_tenant_id job \<and> plan_previous_sha plan = sha"
    if "snapshot_id snap \<noteq> []"
    using p that by (auto simp: points_to_def lookup_plan_def truthy_def)
  have "\<exists>v. rb_cli b [job_id job, sha] ?v = (Inr 0, v) \<and> rb_cmds v = [pgrestore_argv b (snapshot_id snap) (tenant_db_name job)] \<and>
      map_option tn_last_sha (get_tenant (job_tenant_id job) (rb_db v)) = Some (Some sha)"
    if dump: "prefix ''pgdump/'' (snapshot_id snap)" "rb_answer b (pgrestore_argv b (snapshot_id snap) (tenant_db_name job)) 7200 = RunOk out"
  proof -
    from dump(1) have "snapshot_id snap \<noteq> []" by auto
    from plan [OF this] obtain plan where plan: "lookup_plan (rw_db w') (job_id job) sha (rb_actor b) = Inr plan"
      "plan_snapshot plan = snapshot_id snap" "plan_db_name plan = tenant_db_name job" "plan_tenant plan = job_tenant_id job"
      "plan_previous_sha plan = sha" by blast
    from finalize_ok_recorded [OF plan(1), of "rb_now b"] plan(4,5)
    have "map_option tn_last_sha (get_tenant (job_tenant_id job) (finalize_ok (rb_now b) plan (rw_db w'))) = Some (Some sha)"
      by (simp add: rollback_recorded_def)
    then show ?thesis
      using assms(6,7) plan dump by (simp add: rb_cli_def rb_defs)
  qed
  moreover have "rb_cli b [job_id job, sha] ?v = (Inr 4, ?v)"
    if s: "is_sentinel (snapshot_id snap)" "\<not> truthy (rb_environ b ''ROLLBACK_TARGET_TIME'')"
  proof -
    from s(1) obtain rest where id: "snapshot_id snap = ''no-snapshot-'' @ rest" by (auto simp: is_sentinel_def prefix_def)
    then have np: "snapshot_id snap \<noteq> []" "\<not> prefix ''pgdump/'' (snapshot_id snap)" by auto
    from plan [OF np(1)] obtain plan where "lookup_plan (rw_db w') (job_id job) sha (rb_actor b) = Inr plan"
      "plan_snapshot plan = snapshot_id snap" by blast
    then show ?thesis using assms(6) s np(2) by (simp add: rb_cli_def rb_run_def Let_def)
  qed
  ultimately show ?thesis using snap by blast
qed

section \<open>Witnesses\<close>

lemma calm_healthy: "healthy 0 {schedule calm_tenant} (calm_env (ProcExited 0 []))"
proof -
  have "\<exists>ev. default_window (calm_env (ProcExited 0 [])) job = Inr ev \<and> is_open (re_cron (calm_env (ProcExited 0 []))) ev 0 = Inr True"
    if "(maintenance_window job, job_tz job, window_override_until job) \<in> {schedule calm_tenant}" for job
    using that by (simp add: schedule_def default_window_def window_init_def window_post_init_def is_open_def
        calm_defs periodic_lib_def py_lower_def py_lower_char_def)
  then show ?thesis unfolding healthy_def by (simp add: calm_env_def)
qed

lemma calm_due: "due 0 {schedule calm_tenant} (rw_db (calm_world False 0))"
  by (auto simp: due_def calm_defs row_simps split: if_splits)

lemma calm_waiting: "waiting (rw_db (calm_world False 0)) = {''aaaa-bbbb-cc''}"
  by (auto simp: waiting_def calm_defs row_simps split: if_splits)

theorem queue_drains_witness:
  "waiting (rw_db (snd (run_forever ''h'' [calm_env (ProcExited 0 [])] (calm_world False 0)))) = {} \<and>
   settled ''aaaa-bbbb-cc'' (rw_db (snd (run_forever ''h'' [calm_env (ProcExited 0 [])] (calm_world False 0))))"
proof -
  have "waiting (rw_db (calm_world False 0)) = {''aaaa-bbbb-cc''}" by (rule calm_waiting)
  then show ?thesis
    using queue_drains [of "[calm_env (ProcExited 0 [])]" 0 "{schedule calm_tenant}" "calm_world False 0" "''h''"]
      calm_healthy calm_due by simp
qed

text \<open>The calm environment with a dump as the snapshot, and a rollback that restores it.\<close>

definition dump_env :: run_env where
  "dump_env = (calm_env (ProcExited 0 []))\<lparr>re_snapshot := (\<lambda>_ _. Inr \<lparr>snapshot_id = ''pgdump/acme/1'', elapsed = 0\<rparr>)\<rparr>"

theorem upgrade_then_rollback_witness:
  "\<exists>v. rb_cli (demo_rb_env Map.empty (RunOk [])) [''aaaa-bbbb-cc'', ''sha1'']
         \<lparr>rb_db = rw_db (snd (run_once ''h'' dump_env (calm_world False 0))), rb_cmds = []\<rparr> = (Inr 0, v) \<and>
       map_option tn_last_sha (get_tenant ''t1'' (rb_db v)) = Some (Some ''sha1'')"
proof -
  let ?b = "demo_rb_env Map.empty (RunOk [])" and ?w' = "snd (run_once ''h'' dump_env (calm_world False 0))"
  have "fst (run_once ''h'' dump_env (calm_world False 0)) = Inr \<lparr>res_job = Some ''aaaa-bbbb-cc'', res_status = ODone\<rparr>"
    using calm_claim [of False 0]
    by (simp add: dump_env_def run_once_def process_job_def default_window_def window_init_def window_post_init_def
        is_open_def run_odoo_def invoke_odoo_def while_running_run finish_run_def classify_exit_def calm_defs job_row_def
        periodic_lib_def py_lower_def py_lower_char_def)
  then have run: "run_once ''h'' dump_env (calm_world False 0) = (Inr \<lparr>res_job = Some ''aaaa-bbbb-cc'', res_status = ODone\<rparr>, ?w')"
    by (metis prod.collapse)
  have claim: "claim_next_job ''h'' (re_tx_now dump_env 0) (re_locked dump_env) (rw_db (calm_world False 0))
      = (Some (calm_row False 0), update_job ''aaaa-bbbb-cc'' (claim_upd ''h'' 0) (rw_db (calm_world False 0)))"
    using calm_claim [of False 0] by (simp add: dump_env_def calm_env_def)
  have others: "others_keep_snapshots dump_env"
    by (simp add: others_keep_snapshots_def dump_env_def calm_env_def keeps_snapshots_def)
  have "distinct (map mj_id (jobs (rw_db (calm_world False 0))))" "\<not> migration_dry_run (calm_row False 0)"
    "truthy (rb_environ ?b ''CONTROL_PLANE_PG_DSN'')" "\<not> rb_dry_run ?b"
    by (simp_all add: calm_defs job_row_def demo_rb_env_def truthy_def rb_dry_run_def env_get_def py_lower_def py_lower_char_def)
  from upgrade_then_rollback [OF run claim this(2,1) others this(3,4), of "[]" "''sha1''"] show ?thesis
    by (auto simp: dump_env_def demo_rb_env_def calm_defs job_row_def)
qed

end
