(* ===== verification/FilestoreFormat.thy ===== *)
theory FilestoreFormat
  imports Prelude "HOL-Library.Word"
begin

text \<open>
  The encrypted file formats of the filestore backup
  (custom-addons/saas_filestore_backup/models/filestore_backup.py): the one-shot format v1 with
  its nonce and tag kept elsewhere, the self-contained chunked format v2, and the decoder of v2
  that the addon's tests give as the reference for restore tools.

  AES-GCM is a pair of functions, with what its documentation promises as the predicate
  \<open>aead\<close>. Files are byte lists.
\<close>

type_synonym bytes = "8 word list"

section \<open>\<open>struct.pack\<close> and \<open>struct.unpack\<close>, big-endian\<close>

fun pack_be :: "nat \<Rightarrow> nat \<Rightarrow> bytes" where
  "pack_be 0 n = []"
| "pack_be (Suc k) n = pack_be k (n div 256) @ [of_nat (n mod 256)]"

definition unpack_be :: "bytes \<Rightarrow> nat" where
  "unpack_be bs = foldl (\<lambda>a b. a * 256 + unat b) 0 bs"

datatype format_error =
    StructError
  | CounterExhausted
  | BadMagic
  | TruncatedHeader
  | ChunkTooLong nat
  | ChunkTruncated nat
  | InvalidTag

definition pack_u32 :: "nat \<Rightarrow> format_error + bytes" where
  "pack_u32 n = (if n < 2 ^ 32 then Inr (pack_be 4 n) else Inl StructError)"

lemma length_pack_be [simp]: "length (pack_be k n) = k"
  by (induction k arbitrary: n) auto

lemma unpack_be_snoc: "unpack_be (bs @ [b]) = unpack_be bs * 256 + unat b"
  by (simp add: unpack_be_def)

lemma unat_byte: "unat (of_nat (n mod 256) :: 8 word) = n mod 256"
  by (simp add: unat_of_nat)

lemma unpack_pack_be: "n < 256 ^ k \<Longrightarrow> unpack_be (pack_be k n) = n"
proof (induction k arbitrary: n)
  case 0
  then show ?case by (simp add: unpack_be_def)
next
  case (Suc k)
  then have "n div 256 < 256 ^ k" by (simp add: less_mult_imp_div_less mult.commute)
  with Suc.IH show ?case by (simp only: pack_be.simps unpack_be_snoc unat_byte) simp
qed

lemma pack_be_inj: "m < 256 ^ k \<Longrightarrow> n < 256 ^ k \<Longrightarrow> pack_be k m = pack_be k n \<Longrightarrow> m = n"
  by (metis unpack_pack_be)

section \<open>The cipher\<close>

type_synonym seal = "bytes \<Rightarrow> bytes \<Rightarrow> bytes \<Rightarrow> bytes"
type_synonym unseal = "bytes \<Rightarrow> bytes \<Rightarrow> bytes \<Rightarrow> bytes option"

definition tag_len :: nat where "tag_len = 16"

definition aead :: "seal \<Rightarrow> unseal \<Rightarrow> bool" where
  "aead enc dec \<longleftrightarrow>
     (\<forall>key nonce pt. length (enc key nonce pt) = length pt + tag_len \<and> dec key nonce (enc key nonce pt) = Some pt)"

text \<open>\<open>s[:-16]\<close> and \<open>s[-16:]\<close>.\<close>

definition split_tag :: "bytes \<Rightarrow> bytes \<times> bytes" where
  "split_tag s = (take (length s - tag_len) s, drop (length s - tag_len) s)"

lemma split_tag_append [simp]: "fst (split_tag s) @ snd (split_tag s) = s"
  by (simp add: split_tag_def)

section \<open>Encryption\<close>

definition write_chunk :: nat where "write_chunk = 2 ^ 20"

text \<open>The slices \<open>b[i:i + width]\<close> for \<open>i\<close> in \<open>range(0, len(b), width)\<close>.\<close>

function slices :: "nat \<Rightarrow> bytes \<Rightarrow> bytes list" where
  "slices width b = (if width = 0 \<or> b = [] then [] else take width b # slices width (drop width b))"
  by pat_completeness auto
termination
  by (relation "measure (\<lambda>(width, b). length b)") auto

declare slices.simps [simp del]

lemma slices_Nil [simp]: "slices width [] = []"
  by (simp add: slices.simps)

text \<open>The nonce, the tag, and the file; the hash that is returned is that of the file.\<close>

definition encrypt_file_v1 :: "seal \<Rightarrow> bytes \<Rightarrow> bytes \<Rightarrow> bytes \<Rightarrow> bytes \<times> bytes \<times> bytes" where
  "encrypt_file_v1 enc dek nonce plaintext =
     (case split_tag (enc dek nonce plaintext) of
        (ciphertext, tag) \<Rightarrow> (nonce, tag, concat (slices write_chunk ciphertext)))"

definition v2_magic :: bytes where "v2_magic = [0x47, 0x4C, 0x54, 0x32]"

definition v2_nonce_len :: nat where "v2_nonce_len = 12"

definition v2_default_chunk :: nat where "v2_default_chunk = 2 ^ 20"

definition v1_oneshot_cap :: nat where "v1_oneshot_cap = 256 * 1024 * 1024"

definition chunk_nonce :: "bytes \<Rightarrow> nat \<Rightarrow> bytes" where
  "chunk_nonce base_nonce chunk_index = take 4 base_nonce @ pack_be 8 chunk_index"

text \<open>The loop over \<open>src.read(chunk_size)\<close>; it ends at the first empty read.\<close>

function encrypt_chunks ::
  "seal \<Rightarrow> bytes \<Rightarrow> bytes \<Rightarrow> nat \<Rightarrow> nat \<Rightarrow> bytes \<Rightarrow> format_error + bytes" where
  "encrypt_chunks enc dek base_nonce chunk_size chunk_index src =
     (let pt = take chunk_size src
      in if pt = [] then Inr []
         else
           case pack_u32 (length pt) of
             Inl x \<Rightarrow> Inl x
           | Inr len \<Rightarrow>
               (case split_tag (enc dek (chunk_nonce base_nonce chunk_index) pt) of
                  (ct, tag) \<Rightarrow>
                    if chunk_index + 1 \<ge> 2 ^ 32 then Inl CounterExhausted
                    else
                      case encrypt_chunks enc dek base_nonce chunk_size (chunk_index + 1) (drop chunk_size src) of
                        Inl x \<Rightarrow> Inl x
                      | Inr rest \<Rightarrow> Inr (len @ ct @ tag @ rest)))"
  by pat_completeness auto
termination
  by (relation "measure (\<lambda>(enc, dek, base, width, i, src). length src)") auto

declare encrypt_chunks.simps [simp del]

lemma encrypt_chunks_Nil [simp]: "encrypt_chunks enc dek base k i [] = Inr []"
  by (simp add: encrypt_chunks.simps)

definition encrypt_file_v2 ::
  "seal \<Rightarrow> bytes \<Rightarrow> bytes \<Rightarrow> nat \<Rightarrow> bytes \<Rightarrow> format_error + bytes \<times> bytes \<times> bytes" where
  "encrypt_file_v2 enc dek base_nonce chunk_size plaintext =
     (case pack_u32 chunk_size of
        Inl x \<Rightarrow> Inl x
      | Inr field \<Rightarrow>
          (case encrypt_chunks enc dek base_nonce chunk_size 0 plaintext of
             Inl x \<Rightarrow> Inl x
           | Inr body \<Rightarrow> Inr (base_nonce, [], v2_magic @ base_nonce @ field @ body)))"

definition encrypt_file :: "seal \<Rightarrow> bytes \<Rightarrow> bytes \<Rightarrow> bytes \<Rightarrow> format_error + bytes \<times> bytes \<times> bytes" where
  "encrypt_file enc dek nonce plaintext =
     (if length plaintext \<le> v1_oneshot_cap then Inr (encrypt_file_v1 enc dek nonce plaintext)
      else encrypt_file_v2 enc dek nonce v2_default_chunk plaintext)"

section \<open>Decryption\<close>

text \<open>The reference decoder of v2: a read at the end of the file is short.\<close>

function decrypt_chunks ::
  "unseal \<Rightarrow> bytes \<Rightarrow> bytes \<Rightarrow> nat \<Rightarrow> nat \<Rightarrow> bytes \<Rightarrow> format_error + bytes" where
  "decrypt_chunks dec dek base_nonce chunk_size chunk_index fh =
     (if fh = [] then Inr []
      else if length (take 4 fh) \<noteq> 4 then Inl TruncatedHeader
      else
        let pt_len = unpack_be (take 4 fh);
            ct = take pt_len (drop 4 fh);
            tag = take 16 (drop pt_len (drop 4 fh))
        in if pt_len > chunk_size then Inl (ChunkTooLong chunk_index)
           else if length ct \<noteq> pt_len \<or> length tag \<noteq> 16 then Inl (ChunkTruncated chunk_index)
           else
             case dec dek (chunk_nonce base_nonce chunk_index) (ct @ tag) of
               None \<Rightarrow> Inl InvalidTag
             | Some pt \<Rightarrow>
                 (case decrypt_chunks dec dek base_nonce chunk_size (chunk_index + 1)
                         (drop 16 (drop pt_len (drop 4 fh))) of
                    Inl x \<Rightarrow> Inl x
                  | Inr rest \<Rightarrow> Inr (pt @ rest)))"
  by pat_completeness auto
termination
  by (relation "measure (\<lambda>(dec, dek, base, width, i, fh). length fh)") auto

declare decrypt_chunks.simps [simp del]

lemma decrypt_chunks_Nil [simp]: "decrypt_chunks dec dek base k i [] = Inr []"
  by (simp add: decrypt_chunks.simps)

definition decrypt_v2 :: "unseal \<Rightarrow> bytes \<Rightarrow> bytes \<Rightarrow> format_error + bytes" where
  "decrypt_v2 dec dek fh =
     (if take 4 fh \<noteq> v2_magic then Inl BadMagic
      else
        let base_nonce = take 12 (drop 4 fh);
            field = take 4 (drop 16 fh)
        in if length field \<noteq> 4 then Inl StructError
           else decrypt_chunks dec dek base_nonce (unpack_be field) 0 (drop 20 fh))"

section \<open>Lemmas\<close>

lemma concat_slices: "0 < width \<Longrightarrow> concat (slices width b) = b"
proof (induction width b rule: slices.induct)
  case (1 width b)
  then show ?case by (cases "b = []") (simp_all add: slices.simps [of width b])
qed

lemma split_tag_lengths:
  assumes "length s = n + tag_len"
  shows "length (fst (split_tag s)) = n" "length (snd (split_tag s)) = 16"
  using assms by (simp_all add: split_tag_def tag_len_def)

lemma take_empty: "take n xs = [] \<Longrightarrow> 0 < n \<Longrightarrow> xs = []"
  by (cases xs; cases n) auto

text \<open>How many chunks a file has, and how long its frames are together.\<close>

definition chunk_count :: "nat \<Rightarrow> nat \<Rightarrow> nat" where
  "chunk_count chunk_size len = (len + chunk_size - 1) div chunk_size"

lemma chunk_count_step:
  "0 < k \<Longrightarrow> 0 < n \<Longrightarrow> chunk_count k n = Suc (chunk_count k (n - k))"
proof -
  assume k: "0 < k" and n: "0 < n"
  show ?thesis
  proof (cases "n \<le> k")
    case True
    with k n have "(n + k - 1) div k = 1" by (intro div_nat_eqI) auto
    with True k show ?thesis by (simp add: chunk_count_def)
  next
    case False
    then have e: "n + k - 1 = (n - k + k - 1) + k" by simp
    have "chunk_count k n = ((n - k + k - 1) + k) div k" unfolding chunk_count_def using e by (rule arg_cong)
    also have "\<dots> = Suc ((n - k + k - 1) div k)" using k by (simp only: div_add_self2)
    finally show ?thesis unfolding chunk_count_def .
  qed
qed

lemma chunks_roundtrip:
  assumes "aead enc dec" "0 < k" "k < 2 ^ 32" "i + chunk_count k (length src) < 2 ^ 32"
  shows "\<exists>body. encrypt_chunks enc dek base k i src = Inr body \<and>
     length body = length src + 20 * chunk_count k (length src) \<and>
     decrypt_chunks dec dek base k i body = Inr src"
  using assms(4)
proof (induction "length src" arbitrary: i src rule: less_induct)
  case less
  show ?case
  proof (cases "src = []")
    case True
    with assms(2) show ?thesis
by (simp add: chunk_count_def)
  next
    case False
    let ?pt = "take k src" and ?n = "chunk_nonce base i"
    let ?s = "enc dek ?n ?pt"
    have pt: "?pt \<noteq> []" "length ?pt \<le> k" "length ?pt < 2 ^ 32" using False assms(2,3) by (auto simp: min_def)
    have len: "length ?s = length ?pt + tag_len" "dec dek ?n ?s = Some ?pt" using assms(1) by (simp_all add: aead_def)
    obtain ct tag where split: "split_tag ?s = (ct, tag)" by fastforce
    with split_tag_lengths [OF len(1)] split_tag_append [of ?s]
    have ct: "length ct = length ?pt" "length tag = 16" "ct @ tag = ?s" by simp_all
    have count: "chunk_count k (length src) = Suc (chunk_count k (length (drop k src)))"
      using False assms(2) by (simp add: chunk_count_step)
    obtain rest where rest: "encrypt_chunks enc dek base k (i + 1) (drop k src) = Inr rest"
      "length rest = length (drop k src) + 20 * chunk_count k (length (drop k src))"
      "decrypt_chunks dec dek base k (i + 1) rest = Inr (drop k src)"
      using less.hyps [of "drop k src" "i + 1"] less.prems count False assms(2) by auto
    let ?body = "pack_be 4 (length ?pt) @ ct @ tag @ rest"
    have enc: "encrypt_chunks enc dek base k i src = Inr ?body"
      using pt split rest(1) less.prems count
      by (simp add: encrypt_chunks.simps [of enc dek base k i src] pack_u32_def Let_def)
    have "length ?pt < 256 ^ 4" using pt(3) by simp
    then have hdr: "unpack_be (pack_be 4 (length ?pt)) = length ?pt" by (rule unpack_pack_be)
    have parts: "take 4 ?body = pack_be 4 (length ?pt)" "drop 4 ?body = ct @ tag @ rest" "?body \<noteq> []"
      using length_pack_be [of 4 "length ?pt"] ct(2) by auto
    have "tag \<noteq> []" using ct(2) by auto
    have "decrypt_chunks dec dek base k i ?body = Inr (?pt @ drop k src)"
      using parts hdr ct len(2) pt(2) rest(3) \<open>tag \<noteq> []\<close>
      by (subst decrypt_chunks.simps) (simp add: Let_def del: length_take)
    moreover have "length ?body = length src + 20 * chunk_count k (length src)"
      using ct(1,2) rest(2) count by simp
    ultimately show ?thesis using enc by auto
  qed
qed

lemma encrypt_small:
  assumes "encrypt_file enc dek n content = Inr (nonce, tag, ct)" "length content \<le> v1_oneshot_cap" "aead enc dec"
  shows "nonce = n" "length tag = 16" "length ct = length content" "ct @ tag = enc dek n content"
proof -
  have len: "length (enc dek n content) = length content + tag_len" using assms(3) by (simp add: aead_def)
  obtain a b where ab: "split_tag (enc dek n content) = (a, b)" by fastforce
  with assms(1,2) have eqs: "nonce = n" "tag = b" "ct = a"
    by (auto simp: encrypt_file_def encrypt_file_v1_def concat_slices write_chunk_def)
  with split_tag_lengths [OF len] ab split_tag_append [of "enc dek n content"]
  show "nonce = n" "length tag = 16" "length ct = length content" "ct @ tag = enc dek n content" by simp_all
qed

lemma encrypt_large:
  assumes "encrypt_file enc dek n content = Inr (nonce, tag, ct)" "v1_oneshot_cap < length content" "aead enc dec"
    and "length content < 2 ^ 51"
  shows "nonce = n" "tag = []" "length content < length ct"
proof -
  have "chunk_count v2_default_chunk (length content) < 2 ^ 32"
    using assms(4) by (simp add: chunk_count_def v2_default_chunk_def div_less_iff_less_mult)
  then obtain body where "encrypt_chunks enc dek n v2_default_chunk 0 content = Inr body" "length content \<le> length body"
    using chunks_roundtrip [OF assms(3), of v2_default_chunk 0 content dek n] by (auto simp: v2_default_chunk_def)
  with assms(1,2) show "nonce = n" "tag = []" "length content < length ct"
    by (auto simp: encrypt_file_def encrypt_file_v2_def v2_magic_def pack_u32_def v2_default_chunk_def)
qed

text \<open>The nonces of a file never repeat.\<close>

lemma chunk_nonce_inj:
  assumes "i < 2 ^ 32" "j < 2 ^ 32" "chunk_nonce base i = chunk_nonce base j"
  shows "i = j"
proof -
  have "(2 :: nat) ^ 32 \<le> 256 ^ 8" by simp
  with assms show ?thesis by (intro pack_be_inj [of i 8 j]) (simp_all add: chunk_nonce_def)
qed

section \<open>Properties\<close>

text \<open>
  What the chunked encryption writes is read back by the reference decoder, for every content
  that needs fewer than 2^32 chunks, and the file is longer than the content by the header of 20
  bytes and 20 bytes for each chunk. No two chunks of a file share a nonce.
\<close>

theorem v2_roundtrip:
  assumes "aead enc dec" "length base_nonce = 12" "0 < chunk_size" "chunk_size < 2 ^ 32"
    and "chunk_count chunk_size (length content) < 2 ^ 32"
  shows "\<exists>file. encrypt_file_v2 enc dek base_nonce chunk_size content = Inr (base_nonce, [], file) \<and>
     decrypt_v2 dec dek file = Inr content \<and>
     length file = 20 + length content + 20 * chunk_count chunk_size (length content) \<and>
     (\<forall>i j. i < 2 ^ 32 \<and> j < 2 ^ 32 \<and> chunk_nonce base_nonce i = chunk_nonce base_nonce j \<longrightarrow> i = j)"
proof -
  from chunks_roundtrip [OF assms(1,3,4), of 0 content dek base_nonce] assms(5)
  obtain body where body: "encrypt_chunks enc dek base_nonce chunk_size 0 content = Inr body"
    "length body = length content + 20 * chunk_count chunk_size (length content)"
    "decrypt_chunks dec dek base_nonce chunk_size 0 body = Inr content" by auto
  let ?hdr = "v2_magic @ base_nonce @ pack_be 4 chunk_size"
  have len: "length v2_magic = 4" "length ?hdr = 20" using assms(2) by (simp_all add: v2_magic_def)
  have parts: "take 4 (?hdr @ body) = v2_magic" "take 12 (drop 4 (?hdr @ body)) = base_nonce"
    "take 4 (drop 16 (?hdr @ body)) = pack_be 4 chunk_size" "drop 20 (?hdr @ body) = body"
    using len assms(2) by (simp_all add: v2_magic_def)
  have "unpack_be (pack_be 4 chunk_size) = chunk_size" using assms(4) by (intro unpack_pack_be) simp
  then have "decrypt_v2 dec dek (?hdr @ body) = Inr content"
    using parts body(3) by (simp add: decrypt_v2_def Let_def del: append_assoc)
  then show ?thesis
    using assms(4) body(1,2) len chunk_nonce_inj [of _ _ base_nonce]
    by (auto simp: encrypt_file_v2_def pack_u32_def)
qed

definition example_seal :: seal where
  "example_seal key nonce pt = pt @ replicate tag_len 7"

definition example_unseal :: unseal where
  "example_unseal key nonce s = Some (take (length s - tag_len) s)"

lemma example_aead: "aead example_seal example_unseal"
  by (simp add: aead_def example_seal_def example_unseal_def)

lemma v2_roundtrip_witness:
  "\<exists>file. encrypt_file_v2 example_seal [] (replicate 12 0) 2 [1, 2, 3] = Inr (replicate 12 0, [], file) \<and>
     decrypt_v2 example_unseal [] file = Inr [1, 2, 3] \<and> length file = 63"
  using v2_roundtrip [OF example_aead, of "replicate 12 0" 2 "[1, 2, 3]" "[]"] by (simp add: chunk_count_def) blast

end
