(* ===== verification/PyJson.thy ===== *)
theory PyJson
  imports Prelude
begin

text \<open>
  Reading decoded JSON the way Python code does: \<open>d.get(k, default)\<close>, \<open>a or b\<close>, truth values,
  merging of dicts, and the string functions the payload code uses.

  A field that the sender documents as a string or an object and that arrives as something else
  ends the handler with \<open>ShapeError\<close> (Python raises \<open>AttributeError\<close> or \<open>TypeError\<close>, or
  formats the value). Numbers with a fraction do not occur in the payloads that are read.
\<close>

datatype py_exn =
    ShapeError
  | JSONDecodeError
  | KeyError string
  | ApiError string
  | UnicodeEncodeError
  | CompareTypeError
  | RuntimeErr string
  | ValueErr string
  | LibError string

section \<open>Results\<close>

definition res_bind :: "'e + 'a \<Rightarrow> ('a \<Rightarrow> 'e + 'b) \<Rightarrow> 'e + 'b" where
  "res_bind r k = (case r of Inl e \<Rightarrow> Inl e | Inr x \<Rightarrow> k x)"

text \<open>A computation without effects, and a look at the state, as actions.\<close>

definition act_lift :: "'e + 'a \<Rightarrow> ('s, 'e, 'a) act" where
  "act_lift r = (\<lambda>s. (r, s))"

definition act_read :: "('s \<Rightarrow> 'a) \<Rightarrow> ('s, 'e, 'a) act" where
  "act_read g = (\<lambda>s. (Inr (g s), s))"

lemma act_read_run [simp]: "act_read g s = (Inr (g s), s)"
  by (simp add: act_read_def)

lemma res_bind_simps [simp]: "res_bind (Inl e) k = Inl e" "res_bind (Inr x) k = k x"
  by (simp_all add: res_bind_def)

lemma res_bind_Inr: "res_bind r k = Inr y \<longleftrightarrow> (\<exists>x. r = Inr x \<and> k x = Inr y)"
  by (cases r) auto

lemma act_lift_run [simp]: "act_lift r s = (r, s)"
  by (simp add: act_lift_def)

fun res_map :: "('a \<Rightarrow> 'e + 'b) \<Rightarrow> 'a list \<Rightarrow> 'e + 'b list" where
  "res_map f [] = Inr []"
| "res_map f (x # xs) = res_bind (f x) (\<lambda>y. res_bind (res_map f xs) (\<lambda>ys. Inr (y # ys)))"

section \<open>Values\<close>

fun j_true :: "json \<Rightarrow> bool" where
  "j_true JNull = False"
| "j_true (JBool b) = b"
| "j_true (JNum n) = (n \<noteq> 0)"
| "j_true (JStr s) = (s \<noteq> [])"
| "j_true (JList l) = (l \<noteq> [])"
| "j_true (JObj kvs) = (kvs \<noteq> [])"

definition j_or :: "json \<Rightarrow> json \<Rightarrow> json" where
  "j_or a b = (if j_true a then a else b)"

fun j_get :: "json \<Rightarrow> string \<Rightarrow> json \<Rightarrow> py_exn + json" where
  "j_get (JObj kvs) k d = Inr (case map_of kvs k of None \<Rightarrow> d | Some v \<Rightarrow> v)"
| "j_get _ k d = Inl ShapeError"

fun j_str :: "json \<Rightarrow> py_exn + string" where
  "j_str (JStr s) = Inr s"
| "j_str _ = Inl ShapeError"

fun j_num :: "json \<Rightarrow> py_exn + int" where
  "j_num (JNum n) = Inr n"
| "j_num _ = Inl ShapeError"

fun j_list :: "json \<Rightarrow> py_exn + json list" where
  "j_list (JList l) = Inr l"
| "j_list _ = Inl ShapeError"

definition get_str :: "json \<Rightarrow> string \<Rightarrow> string \<Rightarrow> py_exn + string" where
  "get_str j k d = res_bind (j_get j k (JStr d)) j_str"

text \<open>\<open>d.get(k) or {}\<close>.\<close>

definition get_obj :: "json \<Rightarrow> string \<Rightarrow> py_exn + json" where
  "get_obj j k = res_bind (j_get j k JNull) (\<lambda>v. Inr (j_or v (JObj [])))"

text \<open>\<open>k in d\<close> and \<open>d[k] = v\<close>.\<close>

fun j_has :: "json \<Rightarrow> string \<Rightarrow> py_exn + bool" where
  "j_has (JObj kvs) k = Inr (map_of kvs k \<noteq> None)"
| "j_has _ k = Inl ShapeError"

fun j_set :: "string \<Rightarrow> json \<Rightarrow> json \<Rightarrow> py_exn + json" where
  "j_set k v (JObj kvs) = Inr (JObj (if map_of kvs k = None then kvs @ [(k, v)] else map (\<lambda>(a, b). if a = k then (a, v) else (a, b)) kvs))"
| "j_set k v _ = Inl ShapeError"

section \<open>Texts of values\<close>

text \<open>\<open>repr\<close> and \<open>str\<close> of a decoded value.\<close>

fun join_with :: "string \<Rightarrow> string list \<Rightarrow> string" where
  "join_with sep [] = []"
| "join_with sep [s] = s"
| "join_with sep (s # t # rest) = s @ sep @ join_with sep (t # rest)"

fun j_repr :: "json \<Rightarrow> string" where
  "j_repr JNull = ''None''"
| "j_repr (JBool b) = (if b then ''True'' else ''False'')"
| "j_repr (JNum n) = int_str n"
| "j_repr (JStr s) = py_repr s"
| "j_repr (JList l) = ''['' @ join_with '', '' (map j_repr l) @ '']''"
| "j_repr (JObj kvs) = ''{'' @ join_with '', '' (map (\<lambda>(k, v). py_repr k @ '': '' @ j_repr v) kvs) @ ''}''"

definition j_format :: "json \<Rightarrow> string" where
  "j_format j = (case j of JStr s \<Rightarrow> s | _ \<Rightarrow> j_repr j)"

text \<open>\<open>json.dumps(v, separators=(',', ':'))\<close>.\<close>

definition dump_char :: "char \<Rightarrow> string" where
  "dump_char c =
     (let n = of_char c :: nat
      in if n = 34 \<or> n = 92 then [CHR 0x5C, c]
         else if n = 10 then [CHR 0x5C, CHR ''n'']
         else if n = 13 then [CHR 0x5C, CHR ''r'']
         else if n = 9 then [CHR 0x5C, CHR ''t'']
         else if n = 12 then [CHR 0x5C, CHR ''f'']
         else if n = 8 then [CHR 0x5C, CHR ''b'']
         else if n < 32 \<or> 126 < n
         then [CHR 0x5C, CHR ''u'', CHR ''0'', CHR ''0'', hex_digit (n div 16), hex_digit (n mod 16)]
         else [c])"

definition dump_str :: "string \<Rightarrow> string" where
  "dump_str s = [CHR 0x22] @ concat (map dump_char s) @ [CHR 0x22]"

fun j_dumps :: "json \<Rightarrow> string" where
  "j_dumps JNull = ''null''"
| "j_dumps (JBool b) = (if b then ''true'' else ''false'')"
| "j_dumps (JNum n) = int_str n"
| "j_dumps (JStr s) = dump_str s"
| "j_dumps (JList l) = ''['' @ join_with '','' (map j_dumps l) @ '']''"
| "j_dumps (JObj kvs) = ''{'' @ join_with '','' (map (\<lambda>(k, v). dump_str k @ '':'' @ j_dumps v) kvs) @ ''}''"

end
