(* ===== verification/Regex.thy ===== *)
theory Regex
  imports Prelude
begin

text \<open>
  The part of Python's \<open>re\<close> that the sources use: character classes with greedy repetition,
  groups, alternatives, \<open>\b\<close> and the case-insensitive flag, with \<open>re.search\<close> and
  \<open>re.sub\<close> for a constant replacement without backslashes. Backtracking is the list of all ways
  to match, the preferred one first. A subject is what precedes the position, reversed, and what
  follows it.
\<close>

datatype regex =
    Chars "char \<Rightarrow> bool" nat "nat option"
  | Boundary
  | Empty
  | Seq regex regex
  | Alt regex regex

section \<open>Character classes\<close>

text \<open>\<open>\w\<close>, \<open>\d\<close> and \<open>\s\<close> on code points up to U+00FF.\<close>

definition word_char :: "char \<Rightarrow> bool" where
  "word_char c \<longleftrightarrow>
     (let n = of_char c :: nat
      in 48 \<le> n \<and> n \<le> 57 \<or> 65 \<le> n \<and> n \<le> 90 \<or> n = 95 \<or> 97 \<le> n \<and> n \<le> 122 \<or>
         n \<in> set [170, 178, 179, 181, 185, 186, 188, 189, 190] \<or> 192 \<le> n \<and> n \<le> 255 \<and> n \<noteq> 215 \<and> n \<noteq> 247)"

definition digit_char :: "char \<Rightarrow> bool" where
  "digit_char c \<longleftrightarrow> (let n = of_char c :: nat in 48 \<le> n \<and> n \<le> 57)"

definition any_of :: "string \<Rightarrow> char \<Rightarrow> bool" where
  "any_of cs c \<longleftrightarrow> c \<in> set cs"

abbreviation one :: "(char \<Rightarrow> bool) \<Rightarrow> regex" where "one p \<equiv> Chars p 1 (Some 1)"
abbreviation many1 :: "(char \<Rightarrow> bool) \<Rightarrow> regex" where "many1 p \<equiv> Chars p 1 None"
abbreviation opt :: "(char \<Rightarrow> bool) \<Rightarrow> regex" where "opt p \<equiv> Chars p 0 (Some 1)"

text \<open>A literal word, and a literal word under \<open>(?i)\<close>.\<close>

definition lit :: "string \<Rightarrow> regex" where
  "lit s = foldr (\<lambda>c r. Seq (one (\<lambda>d. d = c)) r) s Empty"

definition ilit :: "string \<Rightarrow> regex" where
  "ilit s = foldr (\<lambda>c r. Seq (one (\<lambda>d. py_lower_char d = py_lower_char c)) r) s Empty"

fun alts :: "regex list \<Rightarrow> regex" where
  "alts [] = Chars (\<lambda>_. False) 1 (Some 1)"
| "alts [r] = r"
| "alts (r # s # rs) = Alt r (alts (s # rs))"

section \<open>Matching\<close>

type_synonym subject = "string \<times> string"

fun advance :: "nat \<Rightarrow> subject \<Rightarrow> subject" where
  "advance n (pre, s) = (rev (take n s) @ pre, drop n s)"

text \<open>The lengths a repeated class can take at a position, the longest first.\<close>

definition run_lengths :: "(char \<Rightarrow> bool) \<Rightarrow> nat \<Rightarrow> nat option \<Rightarrow> string \<Rightarrow> nat list" where
  "run_lengths p lo hi s =
     (let k = length (takeWhile p s);
          top = (case hi of None \<Rightarrow> k | Some h \<Rightarrow> min h k)
      in rev [lo ..< Suc top])"

definition at_boundary :: "subject \<Rightarrow> bool" where
  "at_boundary x =
     ((case fst x of [] \<Rightarrow> False | c # _ \<Rightarrow> word_char c) \<noteq> (case snd x of [] \<Rightarrow> False | c # _ \<Rightarrow> word_char c))"

fun matches :: "regex \<Rightarrow> subject \<Rightarrow> subject list" where
  "matches (Chars p lo hi) x = map (\<lambda>n. advance n x) (run_lengths p lo hi (snd x))"
| "matches Boundary x = (if at_boundary x then [x] else [])"
| "matches Empty x = [x]"
| "matches (Seq r s) x = concat (map (matches s) (matches r x))"
| "matches (Alt r s) x = matches r x @ matches s x"

fun search_from :: "regex \<Rightarrow> string \<Rightarrow> string \<Rightarrow> bool" where
  "search_from r pre s =
     (matches r (pre, s) \<noteq> [] \<or> (case s of [] \<Rightarrow> False | c # cs \<Rightarrow> search_from r (c # pre) cs))"

declare search_from.simps [simp del]

definition re_search :: "regex \<Rightarrow> string \<Rightarrow> bool" where
  "re_search r s = search_from r [] s"

text \<open>
  \<open>re.sub\<close> for a pattern without empty matches: the leftmost match is replaced and the search
  goes on behind it.
\<close>

function sub_from :: "regex \<Rightarrow> string \<Rightarrow> string \<Rightarrow> string \<Rightarrow> string" where
  "sub_from r repl pre s =
     (case s of
        [] \<Rightarrow> []
      | c # cs \<Rightarrow>
          (case matches r (pre, s) of
             [] \<Rightarrow> c # sub_from r repl (c # pre) cs
           | (pre', s') # _ \<Rightarrow>
               if length s' < length s then repl @ sub_from r repl pre' s'
               else c # sub_from r repl (c # pre) cs))"
  by pat_completeness auto
termination
  by (relation "measure (\<lambda>(r, repl, pre, s). length s)") auto

declare sub_from.simps [simp del]

definition re_sub :: "regex \<Rightarrow> string \<Rightarrow> string \<Rightarrow> string" where
  "re_sub r repl s = sub_from r repl [] s"

section \<open>The language of a pattern without boundaries\<close>

fun no_boundary :: "regex \<Rightarrow> bool" where
  "no_boundary Boundary = False"
| "no_boundary (Seq r s) = (no_boundary r \<and> no_boundary s)"
| "no_boundary (Alt r s) = (no_boundary r \<and> no_boundary s)"
| "no_boundary _ = True"

fun lang :: "regex \<Rightarrow> string set" where
  "lang (Chars p lo hi) = {u. list_all p u \<and> lo \<le> length u \<and> (case hi of None \<Rightarrow> True | Some h \<Rightarrow> length u \<le> h)}"
| "lang Boundary = {}"
| "lang Empty = {[]}"
| "lang (Seq r s) = {u @ v | u v. u \<in> lang r \<and> v \<in> lang s}"
| "lang (Alt r s) = lang r \<union> lang s"

lemma takeWhile_length_ge:
  "list_all p (take n s) \<and> n \<le> length s \<longleftrightarrow> n \<le> length (takeWhile p s)"
proof (induction s arbitrary: n)
  case (Cons c s)
  show ?case
  proof (cases n)
    case (Suc m)
    with Cons [of m] show ?thesis by auto
  qed simp
qed auto

lemma run_lengths_iff:
  "n \<in> set (run_lengths p lo hi s) \<longleftrightarrow> n \<le> length s \<and> take n s \<in> lang (Chars p lo hi)"
  using takeWhile_length_ge [of p n s]
  by (cases hi) (auto simp: run_lengths_def Let_def)

lemma matches_lang:
  "no_boundary r \<Longrightarrow> (\<exists>pre'. (pre', s') \<in> set (matches r (pre, s))) \<longleftrightarrow> (\<exists>u \<in> lang r. s = u @ s')"
proof (induction r arbitrary: pre s s')
  case (Chars p lo hi)
  show ?case
  proof
    assume "\<exists>pre'. (pre', s') \<in> set (matches (Chars p lo hi) (pre, s))"
    then obtain n where "n \<in> set (run_lengths p lo hi s)" "s' = drop n s" by auto
    then have "take n s \<in> lang (Chars p lo hi)" "s = take n s @ s'"
      by (simp_all add: run_lengths_iff del: lang.simps)
    then show "\<exists>u \<in> lang (Chars p lo hi). s = u @ s'" by blast
  next
    assume "\<exists>u \<in> lang (Chars p lo hi). s = u @ s'"
    then obtain u where u: "u \<in> lang (Chars p lo hi)" "s = u @ s'" by blast
    then have "length u \<in> set (run_lengths p lo hi s)"
      by (simp add: run_lengths_iff del: lang.simps)
    then have "advance (length u) (pre, s) \<in> set (matches (Chars p lo hi) (pre, s))" by simp
    then show "\<exists>pre'. (pre', s') \<in> set (matches (Chars p lo hi) (pre, s))" using u(2) by auto
  qed
next
  case (Seq r1 r2)
  show ?case
  proof
    assume "\<exists>pre'. (pre', s') \<in> set (matches (Seq r1 r2) (pre, s))"
    then obtain q t pre' where 1: "(q, t) \<in> set (matches r1 (pre, s))" "(pre', s') \<in> set (matches r2 (q, t))"
      by auto
    from 1(1) Seq obtain u where u: "u \<in> lang r1" "s = u @ t" by (metis no_boundary.simps(2))
    from 1(2) Seq obtain v where v: "v \<in> lang r2" "t = v @ s'" by (metis no_boundary.simps(2))
    from u v have "u @ v \<in> lang (Seq r1 r2)" "s = (u @ v) @ s'" by auto
    then show "\<exists>u \<in> lang (Seq r1 r2). s = u @ s'" by blast
  next
    assume "\<exists>u \<in> lang (Seq r1 r2). s = u @ s'"
    then obtain u v where uv: "u \<in> lang r1" "v \<in> lang r2" "s = u @ v @ s'" by auto
    from uv(1,3) Seq obtain q where q: "(q, v @ s') \<in> set (matches r1 (pre, s))" by (metis no_boundary.simps(2))
    from uv(2) Seq obtain q' where "(q', s') \<in> set (matches r2 (q, v @ s'))" by (metis no_boundary.simps(2))
    with q show "\<exists>pre'. (pre', s') \<in> set (matches (Seq r1 r2) (pre, s))" by force
  qed
next
  case (Alt r1 r2)
  have "(\<exists>pre'. (pre', s') \<in> set (matches (Alt r1 r2) (pre, s))) \<longleftrightarrow>
      (\<exists>pre'. (pre', s') \<in> set (matches r1 (pre, s))) \<or> (\<exists>pre'. (pre', s') \<in> set (matches r2 (pre, s)))"
    by auto
  also have "\<dots> \<longleftrightarrow> (\<exists>u \<in> lang r1. s = u @ s') \<or> (\<exists>u \<in> lang r2. s = u @ s')"
    using Alt by simp
  finally show ?case by auto
qed auto

text \<open>A text contains a match when some part of it is in the language.\<close>

definition contains_lang :: "string set \<Rightarrow> string \<Rightarrow> bool" where
  "contains_lang L s \<longleftrightarrow> (\<exists>a u b. s = a @ u @ b \<and> u \<in> L)"

lemma matches_nonempty:
  assumes "no_boundary r"
  shows "matches r (pre, s) \<noteq> [] \<longleftrightarrow> (\<exists>u b. s = u @ b \<and> u \<in> lang r)"
proof
  assume "matches r (pre, s) \<noteq> []"
  then obtain q t where "(q, t) \<in> set (matches r (pre, s))" by (cases "matches r (pre, s)") auto
  with matches_lang [OF assms, of t pre s] show "\<exists>u b. s = u @ b \<and> u \<in> lang r" by blast
next
  assume "\<exists>u b. s = u @ b \<and> u \<in> lang r"
  then obtain u b where "u \<in> lang r" "s = u @ b" by blast
  with matches_lang [OF assms, of b pre s] obtain q where "(q, b) \<in> set (matches r (pre, s))" by blast
  then show "matches r (pre, s) \<noteq> []" by auto
qed

lemma contains_lang_Cons:
  "contains_lang L (c # s) \<longleftrightarrow> (\<exists>u b. c # s = u @ b \<and> u \<in> L) \<or> contains_lang L s"
proof
  assume "contains_lang L (c # s)"
  then obtain a u b where *: "c # s = a @ u @ b" "u \<in> L" by (auto simp: contains_lang_def)
  then show "(\<exists>u b. c # s = u @ b \<and> u \<in> L) \<or> contains_lang L s"
    by (cases a) (auto simp: contains_lang_def)
next
  assume "(\<exists>u b. c # s = u @ b \<and> u \<in> L) \<or> contains_lang L s"
  then show "contains_lang L (c # s)"
  proof
    assume "\<exists>u b. c # s = u @ b \<and> u \<in> L"
    then obtain u b where "c # s = [] @ u @ b" "u \<in> L" by auto
    then show ?thesis unfolding contains_lang_def by blast
  next
    assume "contains_lang L s"
    then obtain a u b where "c # s = (c # a) @ u @ b" "u \<in> L" by (auto simp: contains_lang_def)
    then show ?thesis unfolding contains_lang_def by blast
  qed
qed

lemma search_from_lang:
  "no_boundary r \<Longrightarrow> search_from r pre s \<longleftrightarrow> contains_lang (lang r) s"
proof (induction s arbitrary: pre)
  case Nil
  then show ?case by (simp add: search_from.simps [of r pre "[]"] matches_nonempty contains_lang_def)
next
  case (Cons c s)
  then show ?case
    by (simp add: search_from.simps [of r pre "c # s"] matches_nonempty contains_lang_Cons)
qed

lemma re_search_lang: "no_boundary r \<Longrightarrow> re_search r s \<longleftrightarrow> contains_lang (lang r) s"
  by (simp add: re_search_def search_from_lang)

section \<open>What a replacement leaves behind\<close>

lemma matches_suffix: "(pre', s') \<in> set (matches r (pre, s)) \<Longrightarrow> suffix s' s"
proof (induction r arbitrary: pre s pre' s')
  case (Seq r1 r2)
  from Seq.prems obtain q t where "(q, t) \<in> set (matches r1 (pre, s))" "(pre', s') \<in> set (matches r2 (q, t))"
    by auto
  with Seq.IH have "suffix t s" "suffix s' t" by blast+
  then show ?case by (rule suffix_order.order_trans [rotated])
qed (auto simp: suffix_drop split: if_splits)

abbreviation hit :: "regex \<Rightarrow> string \<Rightarrow> string \<Rightarrow> bool" where
  "hit r pre s \<equiv> matches r (pre, s) \<noteq> [] \<and> length (snd (hd (matches r (pre, s)))) < length s"

lemma sub_from_Nil: "sub_from r repl pre [] = []"
  by (subst sub_from.simps) simp

lemma sub_from_hit:
  "matches r (pre, s) = (pre', s') # ms \<Longrightarrow> length s' < length s \<Longrightarrow>
   sub_from r repl pre s = repl @ sub_from r repl pre' s'"
  by (subst sub_from.simps) (auto split: list.split)

lemma sub_from_miss:
  "s = c # cs \<Longrightarrow> \<not> hit r pre s \<Longrightarrow> sub_from r repl pre s = c # sub_from r repl (c # pre) cs"
  by (subst sub_from.simps) (auto split: list.splits prod.splits)

lemma contains_lang_suffix: "contains_lang L t \<Longrightarrow> suffix t s \<Longrightarrow> contains_lang L s"
  unfolding contains_lang_def suffix_def by (metis append.assoc)

lemma prefix_before:
  "u @ b = xs @ d # ys \<Longrightarrow> d \<notin> set u \<Longrightarrow> prefix u xs"
proof (induction xs arbitrary: u)
  case Nil
  then show ?case by (cases u) auto
next
  case (Cons x xs)
  then show ?case by (cases u) auto
qed

text \<open>A letter that no word of the language has splits the search.\<close>

lemma contains_split:
  assumes "[] \<notin> L" "\<And>u. u \<in> L \<Longrightarrow> d \<notin> set u"
  shows "contains_lang L (xs @ d # ys) \<longleftrightarrow> contains_lang L xs \<or> contains_lang L ys"
proof (induction xs)
  case Nil
  have "\<not> (\<exists>u b. d # ys = u @ b \<and> u \<in> L)"
  proof
    assume "\<exists>u b. d # ys = u @ b \<and> u \<in> L"
    then obtain u b where "d # ys = u @ b" "u \<in> L" by blast
    moreover from this have "d \<notin> set u" by (intro assms(2))
    ultimately show False using assms(1) by (cases u) auto
  qed
  moreover have "\<not> contains_lang L []" using assms(1) by (simp add: contains_lang_def)
  ultimately show ?case unfolding append_Nil contains_lang_Cons [of L d ys] by blast
next
  case (Cons x xs)
  have "(\<exists>u b. x # xs @ d # ys = u @ b \<and> u \<in> L) \<longleftrightarrow> (\<exists>u b. x # xs = u @ b \<and> u \<in> L)"
  proof
    assume "\<exists>u b. x # xs @ d # ys = u @ b \<and> u \<in> L"
    then obtain u b where u: "u @ b = (x # xs) @ d # ys" "u \<in> L" by auto
    with assms(2) have "prefix u (x # xs)" by (intro prefix_before)
    with u(2) show "\<exists>u b. x # xs = u @ b \<and> u \<in> L" unfolding prefix_def by blast
  next
    assume "\<exists>u b. x # xs = u @ b \<and> u \<in> L"
    then show "\<exists>u b. x # xs @ d # ys = u @ b \<and> u \<in> L" by (metis append.assoc append_Cons)
  qed
  with Cons show ?case by (simp add: contains_lang_Cons)
qed

text \<open>A text in angle brackets, put in for a match: words without brackets cannot reach into it.\<close>

definition bracketed :: "string \<Rightarrow> string" where
  "bracketed mid = CHR ''<'' # mid @ [CHR ''>'']"

lemma sub_from_prefix:
  "prefix u (sub_from r (bracketed mid) pre s) \<Longrightarrow> CHR ''<'' \<notin> set u \<Longrightarrow> prefix u s"
proof (induction r "bracketed mid" pre s arbitrary: u rule: sub_from.induct)
  case (1 r pre s)
  show ?case
  proof (cases s)
    case Nil
    with "1.prems" show ?thesis by (simp add: sub_from_Nil)
  next
    case (Cons c cs)
    show ?thesis
    proof (cases "hit r pre s")
      case True
      then obtain pre' s' ms where "matches r (pre, s) = (pre', s') # ms" "length s' < length s"
        by (cases "matches r (pre, s)") auto
      then have "hd (sub_from r (bracketed mid) pre s) = CHR ''<''" "sub_from r (bracketed mid) pre s \<noteq> []"
        by (simp_all add: sub_from_hit bracketed_def)
      with "1.prems" have "u = []" by (cases u; cases "sub_from r (bracketed mid) pre s") auto
      then show ?thesis by simp
    next
      case False
      then have "sub_from r (bracketed mid) pre s = c # sub_from r (bracketed mid) (c # pre) cs"
        by (rule sub_from_miss [OF Cons])
      moreover have "prefix v (sub_from r (bracketed mid) (c # pre) cs) \<Longrightarrow> CHR ''<'' \<notin> set v \<Longrightarrow> prefix v cs" for v
        using "1.hyps"(1) [OF Cons] "1.hyps"(3) [OF Cons] False Cons
        by (cases "matches r (pre, s)") (auto split: prod.splits)
      ultimately show ?thesis using "1.prems" Cons by (cases u) auto
    qed
  qed
qed

lemma sub_from_contains:
  assumes "[] \<notin> L" "\<And>u. u \<in> L \<Longrightarrow> CHR ''<'' \<notin> set u \<and> CHR ''>'' \<notin> set u" "\<not> contains_lang L mid"
    and "contains_lang L (sub_from r (bracketed mid) pre s)"
  shows "contains_lang L s \<and> (lang r = L \<and> no_boundary r \<longrightarrow> False)"
  using assms(4)
proof (induction r "bracketed mid" pre s rule: sub_from.induct)
  case (1 r pre s)
  show ?case
  proof (cases s)
    case Nil
    with "1.prems" assms(1) show ?thesis by (simp add: sub_from_Nil contains_lang_def)
  next
    case (Cons c cs)
    show ?thesis
    proof (cases "hit r pre s")
      case True
      then obtain pre' s' ms where m: "matches r (pre, s) = (pre', s') # ms" "length s' < length s"
        by (cases "matches r (pre, s)") auto
      then have out: "sub_from r (bracketed mid) pre s = bracketed mid @ sub_from r (bracketed mid) pre' s'"
        by (rule sub_from_hit)
      have suf: "suffix s' s" using m(1) by (intro matches_suffix [of pre' s' r pre]) simp
      have "contains_lang L (CHR ''<'' # mid @ CHR ''>'' # sub_from r (bracketed mid) pre' s')"
        using "1.prems" out by (simp add: bracketed_def)
      then have "contains_lang L (sub_from r (bracketed mid) pre' s')"
        using assms(1-3) contains_split [of L "CHR ''<''" "[]"] contains_split [of L "CHR ''>''" mid]
        by (auto simp: contains_lang_def [of _ "[]"])
      with "1.hyps"(2) [OF Cons m(1)] m(2) Cons show ?thesis using contains_lang_suffix [OF _ suf] by simp
    next
      case False
      then have out: "sub_from r (bracketed mid) pre s = c # sub_from r (bracketed mid) (c # pre) cs"
        by (rule sub_from_miss [OF Cons])
      have IH: "contains_lang L (sub_from r (bracketed mid) (c # pre) cs) \<Longrightarrow>
          contains_lang L cs \<and> (lang r = L \<and> no_boundary r \<longrightarrow> False)"
      proof (cases "matches r (pre, s)")
        case Nil
        then show "contains_lang L (sub_from r (bracketed mid) (c # pre) cs) \<Longrightarrow>
          contains_lang L cs \<and> (lang r = L \<and> no_boundary r \<longrightarrow> False)"
          using "1.hyps"(1) [OF Cons] by blast
      next
        case ms: (Cons x ms)
        obtain p q where x: "x = (p, q)" by fastforce
        with ms False have "\<not> length q < length s" by simp
        then show "contains_lang L (sub_from r (bracketed mid) (c # pre) cs) \<Longrightarrow>
          contains_lang L cs \<and> (lang r = L \<and> no_boundary r \<longrightarrow> False)"
          using "1.hyps"(3) [OF Cons ms x [symmetric]] by blast
      qed
      show ?thesis
      proof (cases "contains_lang L (sub_from r (bracketed mid) (c # pre) cs)")
        case True
        with IH Cons show ?thesis by (simp add: contains_lang_Cons)
      next
        case outside: False
        with "1.prems" out obtain u b where u: "sub_from r (bracketed mid) pre s = u @ b" "u \<in> L"
          by (auto simp: contains_lang_Cons)
        then have "prefix u s" using assms(2) sub_from_prefix [of u r mid pre s] by auto
        then obtain b' where b': "s = u @ b'" by (auto simp: prefix_def)
        then have "contains_lang L s" using u(2) unfolding contains_lang_def by (metis append_Nil)
        moreover have "\<not> (lang r = L \<and> no_boundary r)"
        proof
          assume L: "lang r = L \<and> no_boundary r"
          have "matches r (pre, s) \<noteq> []" using L u(2) b' matches_nonempty by blast
          moreover have "length (snd x) < length s" if "x \<in> set (matches r (pre, s))" for x
          proof -
            obtain p q where x: "x = (p, q)" by fastforce
            then have "\<exists>v \<in> lang r. s = v @ q" using that L matches_lang [of r q pre s] by blast
            then obtain v where "v \<in> L" "s = v @ q" using L by blast
            then show ?thesis using assms(1) x by (cases v) auto
          qed
          ultimately show False using False hd_in_set by blast
        qed
        ultimately show ?thesis by simp
      qed
    qed
  qed
qed

lemma re_sub_contains:
  assumes "[] \<notin> L" "\<And>u. u \<in> L \<Longrightarrow> CHR ''<'' \<notin> set u \<and> CHR ''>'' \<notin> set u" "\<not> contains_lang L mid"
  shows "contains_lang L (re_sub r (bracketed mid) s) \<Longrightarrow> contains_lang L s"
    "lang r = L \<Longrightarrow> no_boundary r \<Longrightarrow> \<not> contains_lang L (re_sub r (bracketed mid) s)"
  using sub_from_contains [OF assms, of r "[]" s] by (auto simp: re_sub_def)

text \<open>The letters a pattern can take.\<close>

fun accepts :: "regex \<Rightarrow> char \<Rightarrow> bool" where
  "accepts (Chars p lo hi) c = p c"
| "accepts (Seq r s) c = (accepts r c \<or> accepts s c)"
| "accepts (Alt r s) c = (accepts r c \<or> accepts s c)"
| "accepts _ c = False"

lemma lang_accepts: "u \<in> lang r \<Longrightarrow> c \<in> set u \<Longrightarrow> accepts r c"
proof (induction r arbitrary: u)
  case (Seq r1 r2)
  then obtain v w where "u = v @ w" "v \<in> lang r1" "w \<in> lang r2" by auto
  with Seq show ?case by auto
qed (auto simp: list_all_iff)

lemma lang_one: "lang (one p) = {[c] | c. p c}"
  by (auto simp: length_Suc_conv le_Suc_eq)

end
