(* ===== verification/Signing.thy ===== *)
theory Signing
  imports PyJson Regex
begin

text \<open>
  What the signed entry points of the repository share: reading a time stamp with \<open>int\<close>, and
  \<open>hmac.compare_digest\<close>.
\<close>

text \<open>\<open>int(s)\<close> of a text: surrounding space, a sign, digits with single underscores between them.\<close>

fun int_digits :: "bool \<Rightarrow> nat \<Rightarrow> string \<Rightarrow> nat option" where
  "int_digits after_digit acc [] = (if after_digit then Some acc else None)"
| "int_digits after_digit acc (c # cs) =
     (if digit_char c then int_digits True (acc * 10 + (of_char c - 48)) cs
      else if c = CHR ''_'' \<and> after_digit then int_digits False acc cs
      else None)"

definition py_int :: "string \<Rightarrow> int option" where
  "py_int s =
     (case py_strip s of
        [] \<Rightarrow> None
      | c # cs \<Rightarrow>
          if c = CHR ''-'' then map_option (\<lambda>n. - int n) (int_digits False 0 cs)
          else if c = CHR ''+'' then map_option int (int_digits False 0 cs)
          else map_option int (int_digits False 0 (c # cs)))"

definition ascii :: "string \<Rightarrow> bool" where
  "ascii s \<longleftrightarrow> list_all (\<lambda>c. (of_char c :: nat) < 128) s"

text \<open>\<open>hmac.compare_digest\<close> on two texts refuses characters beyond ASCII.\<close>

definition compare_digest :: "string \<Rightarrow> string \<Rightarrow> py_exn + bool" where
  "compare_digest a b = (if ascii a \<and> ascii b then Inr (a = b) else Inl CompareTypeError)"

lemma compare_digest_True: "compare_digest a b = Inr True \<longleftrightarrow> a = b \<and> ascii a"
  by (auto simp: compare_digest_def)

text \<open>\<open>str(n)\<close> is read back by \<open>int\<close>.\<close>

definition digits_value :: "nat \<Rightarrow> string \<Rightarrow> nat" where
  "digits_value acc s = foldl (\<lambda>a c. a * 10 + (of_char c - 48)) acc s"

lemma int_digits_value:
  "list_all digit_char s \<Longrightarrow> int_digits b acc s = (if b \<or> s \<noteq> [] then Some (digits_value acc s) else None)"
  by (induction s arbitrary: b acc) (auto simp: digits_value_def)

lemma digit_of_nat:
  fixes n :: nat
  assumes "n < 10"
  shows "digit_char (char_of (48 + n))" "of_char (char_of (48 + n)) - 48 = n"
proof -
  have "(48 + n) mod 256 = 48 + n" using assms by simp
  then show "digit_char (char_of (48 + n))" "of_char (char_of (48 + n)) - 48 = n"
    using assms by (simp_all add: digit_char_def Let_def)
qed

lemma nat_digits_value: "list_all digit_char (nat_digits n) \<and> nat_digits n \<noteq> [] \<and> digits_value 0 (nat_digits n) = n"
proof (induction n rule: nat_digits.induct)
  case (1 n)
  show ?case
  proof (cases "n < 10")
    case True
    then show ?thesis using digit_of_nat [OF True] by (simp add: nat_digits.simps [of n] digits_value_def)
  next
    case False
    have d: "digit_char (char_of (48 + n mod 10))" "of_char (char_of (48 + n mod 10)) - 48 = n mod 10"
      using digit_of_nat [of "n mod 10"] by simp_all
    with 1 [OF False] False show ?thesis by (simp add: nat_digits.simps [of n] digits_value_def)
  qed
qed

lemma digit_not_space: "digit_char c \<Longrightarrow> \<not> py_space c \<and> c \<noteq> CHR ''-'' \<and> c \<noteq> CHR ''+''"
  by (auto simp: digit_char_def py_space_def Let_def)

lemma py_int_str: "py_int (int_str (int n)) = Some (int n)"
proof -
  obtain c cs where s: "nat_digits n = c # cs" using nat_digits_value [of n] by (cases "nat_digits n") auto
  have all: "list_all digit_char (c # cs)" and v: "digits_value 0 (c # cs) = n" using nat_digits_value [of n] s by simp_all
  have "py_strip (c # cs) = c # cs"
    using all digit_not_space last_in_set [of "c # cs"] by (intro py_strip_id) (auto simp: list_all_iff)
  moreover have "c \<noteq> CHR ''-''" "c \<noteq> CHR ''+''" using all digit_not_space [of c] by auto
  moreover have "int_digits False 0 (c # cs) = Some n" using int_digits_value [OF all] v by simp
  ultimately show ?thesis by (simp add: py_int_def int_str_def s del: int_digits.simps)
qed

end
