(* ===== verification/LicenseGate.thy ===== *)
theory LicenseGate
  imports Signing
begin

text \<open>
  The license gate of custom-addons/saas_license_gate: the hourly check against the license
  authority (models/license_gate.py), the verdict it caches in \<open>ir.config_parameter\<close>, and the
  guard on the create and write methods of three models (models/enforcement.py); and the seat
  cap of custom-addons/saas_tenant_gate/models/res_users.py.

  The environment variables, the clock (microseconds), the answer of the authority, the key file,
  \<open>json\<close>, the HMAC and the Ed25519 check are arguments. Log lines are left out.
\<close>

section \<open>Parameters\<close>

type_synonym params = "string \<rightharpoonup> string"

text \<open>\<open>set_param\<close>: \<open>None\<close> and \<open>False\<close> delete the parameter.\<close>

definition set_param :: "string \<Rightarrow> string option \<Rightarrow> params \<Rightarrow> params" where
  "set_param k v p = p(k := v)"

definition cfg_status :: string where "cfg_status = ''saas.license.status''"
definition cfg_checked_at :: string where "cfg_checked_at = ''saas.license.checked_at''"
definition cfg_payload :: string where "cfg_payload = ''saas.license.payload''"
definition cfg_machine_id :: string where "cfg_machine_id = ''saas.license.machine_id''"

lemma cfg_distinct [simp]:
  "cfg_status \<noteq> cfg_checked_at" "cfg_status \<noteq> cfg_payload" "cfg_checked_at \<noteq> cfg_payload"
  "cfg_status \<noteq> cfg_machine_id" "cfg_checked_at \<noteq> cfg_machine_id" "cfg_payload \<noteq> cfg_machine_id"
  "cfg_checked_at \<noteq> cfg_status" "cfg_payload \<noteq> cfg_status" "cfg_payload \<noteq> cfg_checked_at"
  "cfg_machine_id \<noteq> cfg_status" "cfg_machine_id \<noteq> cfg_checked_at" "cfg_machine_id \<noteq> cfg_payload"
  by (simp_all add: cfg_status_def cfg_checked_at_def cfg_payload_def cfg_machine_id_def)

section \<open>The hourly check\<close>

datatype http_answer = HttpOk string | HttpError int | UrlError string | HttpRaises string

datatype public_key = NoKey | OtherKey | Ed25519Key "string \<Rightarrow> string \<Rightarrow> bool"

record license_env =
  le_environ :: "string \<Rightarrow> string option"
  le_now :: int
  le_dumps :: "json \<Rightarrow> string"
  le_loads :: "string \<Rightarrow> json option"
  le_str :: "json \<Rightarrow> string"
  le_hmac_hex :: "string \<Rightarrow> string \<Rightarrow> string"
  le_post :: "string \<Rightarrow> string \<Rightarrow> string \<Rightarrow> string \<Rightarrow> http_answer"
  le_machine_file :: "string option"
  le_uuid :: string
  le_pubkey :: public_key
  le_fromhex :: "string \<Rightarrow> string option"

abbreviation env_strip :: "license_env \<Rightarrow> string \<Rightarrow> string" where
  "env_strip e k \<equiv> py_strip (py_or (le_environ e k) [])"

definition st_active :: string where "st_active = ''active''"
definition st_grace :: string where "st_grace = ''grace''"
definition st_network_failed :: string where "st_network_failed = ''network-failed''"
definition st_bad_signature :: string where "st_bad_signature = ''bad-signature''"
definition st_stale :: string where "st_stale = ''stale''"

definition stale_threshold_seconds :: int where "stale_threshold_seconds = 14 * 86400"

definition record_failure :: "string \<Rightarrow> int \<Rightarrow> params \<Rightarrow> params" where
  "record_failure status ts p =
     set_param cfg_checked_at (Some (int_str ts)) (set_param cfg_status (Some status) p)"

definition record_success :: "string option \<Rightarrow> int \<Rightarrow> string \<Rightarrow> params \<Rightarrow> params" where
  "record_success status ts payload_str p =
     set_param cfg_payload (Some payload_str)
       (set_param cfg_checked_at (Some (int_str ts)) (set_param cfg_status status p))"

definition get_or_create_machine_id :: "license_env \<Rightarrow> params \<Rightarrow> string \<times> params" where
  "get_or_create_machine_id e p =
     (case p cfg_machine_id of
        Some (c # cs) \<Rightarrow> (c # cs, p)
      | _ \<Rightarrow>
          let from_file = (case le_machine_file e of None \<Rightarrow> [] | Some s \<Rightarrow> py_strip s);
              candidate = (if from_file = [] then le_uuid e else from_file)
          in (candidate, set_param cfg_machine_id (Some candidate) p))"

definition verify_signature :: "license_env \<Rightarrow> json \<Rightarrow> json \<Rightarrow> py_exn + bool" where
  "verify_signature e payload_str signature_hex =
     (case le_pubkey e of
        NoKey \<Rightarrow> Inr False
      | OtherKey \<Rightarrow> Inr False
      | Ed25519Key verify \<Rightarrow>
          (case signature_hex of
             JStr sig \<Rightarrow>
               (case le_fromhex e sig of
                  None \<Rightarrow> Inr False
                | Some sig_bytes \<Rightarrow>
                    (case payload_str of JStr s \<Rightarrow> Inr (verify sig_bytes s) | _ \<Rightarrow> Inl ShapeError))
           | _ \<Rightarrow> Inr False))"

text \<open>\<open>str(v)\<close> of a parameter value, with \<open>None\<close> and \<open>False\<close> kept apart.\<close>

fun param_value :: "license_env \<Rightarrow> json \<Rightarrow> string option" where
  "param_value e JNull = None"
| "param_value e (JBool False) = None"
| "param_value e (JStr s) = Some s"
| "param_value e j = Some (le_str e j)"

type_synonym 'a gate = "(params, py_exn, 'a) act"

definition fail_check :: "string \<Rightarrow> int \<Rightarrow> bool gate" where
  "fail_check status ts = act_seq (act_modify (record_failure status ts)) (act_return False)"

text \<open>What is done with the body of the answer.\<close>

definition accept_envelope ::
  "license_env \<Rightarrow> string \<Rightarrow> string \<Rightarrow> string \<Rightarrow> int \<Rightarrow> string \<Rightarrow> bool gate" where
  "accept_envelope e license_id machine_id image_digest ts raw =
     (case le_loads e raw of
        Some (JObj envelope) \<Rightarrow>
          (case (map_of envelope ''payload'', map_of envelope ''signature'') of
             (Some payload_str, Some signature_hex) \<Rightarrow>
               act_bind (act_lift (verify_signature e payload_str signature_hex)) (\<lambda>ok.
                 if \<not> ok then fail_check st_bad_signature ts
                 else
                   act_bind (act_lift (j_str payload_str)) (\<lambda>text.
                     case le_loads e text of
                       None \<Rightarrow> fail_check st_bad_signature ts
                     | Some payload \<Rightarrow>
                         act_bind (act_lift (j_get payload ''license_id'' JNull)) (\<lambda>lid.
                           if lid \<noteq> JStr license_id then fail_check st_bad_signature ts
                           else act_bind (act_lift (j_get payload ''machine_id'' JNull)) (\<lambda>mid.
                             if mid \<noteq> JStr machine_id then fail_check st_bad_signature ts
                             else act_bind (act_lift (get_str payload ''image_sha256'' [])) (\<lambda>image.
                               act_bind (act_lift (j_get payload ''status'' (JStr st_bad_signature))) (\<lambda>status.
                                 act_seq (act_modify (record_success (param_value e status) ts text))
                                   (act_return True)))))))
           | _ \<Rightarrow> fail_check st_bad_signature ts)
      | _ \<Rightarrow> fail_check st_bad_signature ts)"

definition configured :: "license_env \<Rightarrow> bool" where
  "configured e \<longleftrightarrow> env_strip e ''LICENSE_ID'' \<noteq> [] \<and>
     py_rstrip_char (CHR ''/'') (env_strip e ''LICENSE_AUTHORITY_URL'') \<noteq> [] \<and>
     env_strip e ''SAAS_PROVISIONING_SECRET'' \<noteq> [] \<and> py_lower (env_strip e ''ODOO_IMAGE_DIGEST'') \<noteq> []"

definition run_check :: "license_env \<Rightarrow> bool gate" where
  "run_check e =
     (let license_id = env_strip e ''LICENSE_ID'';
          authority = py_rstrip_char (CHR ''/'') (env_strip e ''LICENSE_AUTHORITY_URL'');
          secret = env_strip e ''SAAS_PROVISIONING_SECRET'';
          image_digest = py_lower (env_strip e ''ODOO_IMAGE_DIGEST'');
          ts = le_now e div 1000000
      in if \<not> configured e then act_return False
         else (\<lambda>p0.
           case get_or_create_machine_id e p0 of (machine_id, p) \<Rightarrow>
             let body = le_dumps e (JObj [(''image_sha256'', JStr image_digest), (''license_id'', JStr license_id),
                                          (''machine_id'', JStr machine_id), (''timestamp'', JNum ts)]);
                 signature_hdr = ''sha256='' @ le_hmac_hex e secret (int_str ts @ ''.'' @ body)
             in (case le_post e (authority @ ''/api/internal/license/check'') body signature_hdr (int_str ts) of
                   HttpError _ \<Rightarrow> fail_check st_network_failed ts p
                 | UrlError _ \<Rightarrow> fail_check st_network_failed ts p
                 | HttpRaises m \<Rightarrow> act_raise (ApiError m) p
                 | HttpOk raw \<Rightarrow> accept_envelope e license_id machine_id image_digest ts raw p)))"

section \<open>The cached verdict\<close>

definition checked_at_of :: "params \<Rightarrow> int" where
  "checked_at_of p = (case py_int (py_or (p cfg_checked_at) ''0'') of None \<Rightarrow> 0 | Some n \<Rightarrow> n)"

definition is_stale :: "int \<Rightarrow> params \<Rightarrow> bool" where
  "is_stale now p \<longleftrightarrow>
     checked_at_of p \<noteq> 0 \<and> now - checked_at_of p * 1000000 > stale_threshold_seconds * 1000000"

definition current_status :: "license_env \<Rightarrow> int \<Rightarrow> params \<Rightarrow> string \<times> json option" where
  "current_status e now p =
     (let status = py_or (p cfg_status) st_bad_signature
      in if is_stale now p then (st_stale, None)
         else (status, case p cfg_payload of
                         Some (c # cs) \<Rightarrow> le_loads e (c # cs)
                       | _ \<Rightarrow> None))"

definition currently_valid :: "license_env \<Rightarrow> int \<Rightarrow> params \<Rightarrow> bool" where
  "currently_valid e now p \<longleftrightarrow> fst (current_status e now p) \<in> set [st_active, st_grace]"

definition currently_in_grace :: "license_env \<Rightarrow> int \<Rightarrow> params \<Rightarrow> bool" where
  "currently_in_grace e now p \<longleftrightarrow> fst (current_status e now p) = st_grace"

definition allowed_modules :: "license_env \<Rightarrow> int \<Rightarrow> params \<Rightarrow> py_exn + json" where
  "allowed_modules e now p =
     (case snd (current_status e now p) of
        None \<Rightarrow> Inr (JList [])
      | Some payload \<Rightarrow>
          if \<not> j_true payload then Inr (JList [])
          else res_bind (j_get payload ''allowed_modules'' JNull) (\<lambda>v. Inr (j_or v (JList []))))"

section \<open>The guard on writes\<close>

datatype guarded_model = AccountMove | SaleOrder | StockPicking

fun grace_writable :: "guarded_model \<Rightarrow> bool" where
  "grace_writable AccountMove = True"
| "grace_writable SaleOrder = False"
| "grace_writable StockPicking = False"

datatype guard_exn = LicenseInvalid string

definition check_license_write_allowed :: "license_env \<Rightarrow> int \<Rightarrow> params \<Rightarrow> guarded_model \<Rightarrow> guard_exn + unit" where
  "check_license_write_allowed e now p mdl =
     (let status = fst (current_status e now p)
      in if status = st_active then Inr ()
         else if status = st_grace \<and> grace_writable mdl then Inr ()
         else Inl (LicenseInvalid status))"

text \<open>\<open>create\<close> and \<open>write\<close> of a guarded model: the check, then the method of the parent class.\<close>

definition guarded_call ::
  "license_env \<Rightarrow> int \<Rightarrow> params \<Rightarrow> guarded_model \<Rightarrow> ('s, guard_exn, 'a) act \<Rightarrow> ('s, guard_exn, 'a) act" where
  "guarded_call e now p mdl super = (\<lambda>s.
     case check_license_write_allowed e now p mdl of
       Inl x \<Rightarrow> (Inl x, s)
     | Inr _ \<Rightarrow> super s)"

section \<open>The install hook\<close>

datatype install_error = RuntimeError string

definition pre_init_check :: "(string \<Rightarrow> string option) \<Rightarrow> bool \<Rightarrow> install_error + unit" where
  "pre_init_check environ pubkey_is_file =
     (if py_strip (py_or (environ ''LICENSE_ID'') []) = [] then Inl (RuntimeError ''LICENSE_ID'')
      else if py_strip (py_or (environ ''LICENSE_AUTHORITY_URL'') []) = [] then Inl (RuntimeError ''LICENSE_AUTHORITY_URL'')
      else if \<not> pubkey_is_file then Inl (RuntimeError ''no signing public key'')
      else Inr ())"

section \<open>The seat cap\<close>

record user_row =
  us_share :: bool
  us_active :: bool

record user_vals =
  uv_share :: bool
  uv_active :: bool

datatype seat_exn = SeatCapReached int int int

record seat_world =
  sw_users :: "user_row list"
  sw_audit :: "(int \<times> int \<times> int) list"

definition internal_active :: "user_row list \<Rightarrow> nat" where
  "internal_active us = length (filter (\<lambda>u. \<not> us_share u \<and> us_active u) us)"

definition seat_cap :: "params \<Rightarrow> int" where
  "seat_cap p = (case py_int (py_or (p ''saas.seat_cap'') ''0'') of None \<Rightarrow> 0 | Some n \<Rightarrow> n)"

text \<open>The rejection is written through a cursor of its own, so it survives the exception.\<close>

definition check_seat_cap :: "params \<Rightarrow> nat \<Rightarrow> (seat_world, seat_exn, unit) act" where
  "check_seat_cap p new_count = (\<lambda>w.
     let cap = seat_cap p
     in if cap \<le> 0 then (Inr (), w)
        else
          let current = int (internal_active (sw_users w));
              projected = current + int new_count
          in if projected > cap
             then (Inl (SeatCapReached cap current (int new_count)),
                   w\<lparr>sw_audit := sw_audit w @ [(current, cap, int new_count)]\<rparr>)
             else (Inr (), w))"

text \<open>\<open>res.users.create\<close>; \<open>orm_create\<close> is the row that Odoo makes of the values.\<close>

definition users_create ::
  "(user_vals \<Rightarrow> user_row) \<Rightarrow> params \<Rightarrow> user_vals list \<Rightarrow> (seat_world, seat_exn, unit) act" where
  "users_create orm_create p vals_list =
     (let new_internal = filter (\<lambda>v. \<not> uv_share v) vals_list
      in act_seq (if new_internal \<noteq> [] then check_seat_cap p (length new_internal) else act_return ())
           (act_modify (\<lambda>w. w\<lparr>sw_users := sw_users w @ map orm_create vals_list\<rparr>)))"

section \<open>Lemmas\<close>

lemma fail_check_run: "fail_check status ts p = (Inr False, record_failure status ts p)"
  by (simp add: fail_check_def)

lemma record_status:
  "record_failure status ts p cfg_status = Some status" "record_success st ts t p cfg_status = st"
  by (simp_all add: record_failure_def record_success_def set_param_def)

lemma guard_blocks:
  "py_or (p cfg_status) st_bad_signature \<notin> {st_active, st_grace} \<Longrightarrow> \<exists>s. check_license_write_allowed e now p mdl = Inl (LicenseInvalid s)"
  by (auto simp: check_license_write_allowed_def current_status_def st_stale_def st_active_def st_grace_def)

lemma accept_envelope_True:
  shows "accept_envelope e lid mid img ts raw p = (Inr True, p') \<longleftrightarrow>
     (\<exists>envelope body sig payload kvs image status.
        le_loads e raw = Some (JObj envelope) \<and> map_of envelope ''payload'' = Some (JStr body) \<and>
        map_of envelope ''signature'' = Some sig \<and> verify_signature e (JStr body) sig = Inr True \<and>
        le_loads e body = Some payload \<and> payload = JObj kvs \<and>
        map_of kvs ''license_id'' = Some (JStr lid) \<and> map_of kvs ''machine_id'' = Some (JStr mid) \<and>
        get_str payload ''image_sha256'' [] = Inr image \<and>
        j_get payload ''status'' (JStr st_bad_signature) = Inr status \<and>
        p' = record_success (param_value e status) ts body p)"
  (is "?l \<longleftrightarrow> ?r")
proof
  assume ?l
  then obtain envelope where env: "le_loads e raw = Some (JObj envelope)"
    by (auto simp: accept_envelope_def fail_check_run split: option.splits json.splits)
  from \<open>?l\<close> env obtain ps sig where ps: "map_of envelope ''payload'' = Some ps" "map_of envelope ''signature'' = Some sig"
    by (auto simp: accept_envelope_def fail_check_run split: option.splits)
  from \<open>?l\<close> env ps have ver: "verify_signature e ps sig = Inr True"
    by (auto simp: accept_envelope_def fail_check_run split: sum.splits if_splits)
  from \<open>?l\<close> env ps ver obtain body where bd: "ps = JStr body"
    by (cases ps) (auto simp: accept_envelope_def)
  from \<open>?l\<close> env ps ver bd obtain payload where pl: "le_loads e body = Some payload"
    by (auto simp: accept_envelope_def fail_check_run split: option.splits)
  from \<open>?l\<close> env ps ver bd pl obtain kvs where kvs: "payload = JObj kvs"
    by (cases payload) (auto simp: accept_envelope_def)
  show ?r
    using \<open>?l\<close> env ps ver bd pl kvs
    by (auto simp: accept_envelope_def fail_check_run split: sum.splits if_splits option.splits)
next
  assume ?r
  then show ?l by (auto simp: accept_envelope_def)
qed

lemma accept_envelope_False:
  "accept_envelope e lid mid img ts raw p = (Inr False, p') \<Longrightarrow> p' = record_failure st_bad_signature ts p"
  by (auto simp: accept_envelope_def fail_check_run split: option.splits json.splits sum.splits if_splits)

definition check_time :: "license_env \<Rightarrow> int" where
  "check_time e = le_now e div 1000000"

text \<open>The signature and the parameter values depend on the key and the decoders only.\<close>

lemma verify_signature_env: "verify_signature (e\<lparr>le_environ := environ, le_now := now\<rparr>) = verify_signature e"
  by (intro ext) (simp add: verify_signature_def split: public_key.split json.split option.split)

lemma param_value_env: "param_value (e\<lparr>le_environ := environ, le_now := now\<rparr>) j = param_value e j"
  by (cases "(e, j)" rule: param_value.cases) auto

lemma accept_envelope_again:
  assumes "accept_envelope e lid mid img ts raw p = (Inr True, p')"
  shows "\<exists>body status. p' = record_success (param_value e status) ts body p \<and>
    (\<forall>img' ts' q. accept_envelope (e\<lparr>le_environ := environ, le_now := now\<rparr>) lid mid img' ts' raw q =
       (Inr True, record_success (param_value e status) ts' body q))"
  using assms unfolding accept_envelope_True
  by (clarsimp simp: accept_envelope_def verify_signature_env param_value_env) blast

text \<open>The four ways a configured check ends.\<close>

lemma run_check_cases:
  assumes "configured e" "run_check e p = (r, p')"
  obtains (network) q where "r = Inr False" "p' = record_failure st_network_failed (check_time e) q"
    | (raised) m where "r = Inl (ApiError m)"
    | (answered) raw q where "accept_envelope e (env_strip e ''LICENSE_ID'') (fst (get_or_create_machine_id e p))
        (py_lower (env_strip e ''ODOO_IMAGE_DIGEST'')) (check_time e) raw q = (r, p')"
  using assms
  by (auto simp: run_check_def Let_def fail_check_run check_time_def split: prod.splits http_answer.splits)

lemma is_stale_after:
  "p cfg_checked_at = Some (int_str ts) \<Longrightarrow> 0 < ts \<Longrightarrow>
   is_stale now p \<longleftrightarrow> now - ts * 1000000 > stale_threshold_seconds * 1000000"
proof -
  assume "p cfg_checked_at = Some (int_str ts)" "0 < ts"
  moreover have "int_str ts \<noteq> []" using \<open>0 < ts\<close> nat_digits_value [of "nat ts"] by (simp add: int_str_def)
  moreover have "py_int (int_str ts) = Some ts" using py_int_str [of "nat ts"] \<open>0 < ts\<close> by simp
  ultimately show ?thesis by (simp add: is_stale_def checked_at_of_def py_or_def)
qed

lemma write_allowed_iff:
  "check_license_write_allowed e now p mdl = Inr () \<longleftrightarrow>
     \<not> is_stale now p \<and> (p cfg_status = Some st_active \<or> p cfg_status = Some st_grace \<and> mdl = AccountMove)"
  by (cases "p cfg_status"; cases mdl)
     (auto simp: check_license_write_allowed_def current_status_def st_stale_def st_active_def st_grace_def
        st_bad_signature_def py_or_def Let_def)

section \<open>Properties\<close>

text \<open>
  C8: After a check that ended without an exception, a guarded write is allowed only on a payload that
  the key of the image verifies and that names this license and this machine, whose status is active,
  or grace and the model is \<open>account.move\<close>, and for fourteen days from the check.
\<close>

theorem writes_need_signed_verdict:
  assumes "configured e" "run_check e p = (Inr b, p')" "1000000 \<le> le_now e"
    and "check_license_write_allowed e' now p' mdl = Inr ()"
  shows "\<exists>body sig kvs status.
     verify_signature e (JStr body) sig = Inr True \<and> le_loads e body = Some (JObj kvs) \<and>
     map_of kvs ''license_id'' = Some (JStr (env_strip e ''LICENSE_ID'')) \<and>
     map_of kvs ''machine_id'' = Some (JStr (fst (get_or_create_machine_id e p))) \<and>
     j_get (JObj kvs) ''status'' (JStr st_bad_signature) = Inr status \<and>
     (param_value e status = Some st_active \<or> param_value e status = Some st_grace \<and> mdl = AccountMove) \<and>
     now - check_time e * 1000000 \<le> stale_threshold_seconds * 1000000"
proof -
  from assms(4) have ns: "\<not> is_stale now p'"
    and st: "p' cfg_status = Some st_active \<or> p' cfg_status = Some st_grace \<and> mdl = AccountMove"
    by (simp_all add: write_allowed_iff)
  have ts: "0 < check_time e" using assms(3) by (simp add: check_time_def pos_imp_zdiv_pos_iff)
  from assms(1,2) show ?thesis
  proof (cases rule: run_check_cases)
    case (network q)
    with st show ?thesis by (simp add: record_status st_active_def st_grace_def st_network_failed_def)
  next
    case (raised m)
    then show ?thesis by simp
  next
    case (answered raw q)
    show ?thesis
    proof (cases b)
      case False
      with answered accept_envelope_False st show ?thesis
        by (fastforce simp: record_status st_active_def st_grace_def st_bad_signature_def)
    next
      case True
      with answered obtain body sig kvs status where
        "verify_signature e (JStr body) sig = Inr True" "le_loads e body = Some (JObj kvs)"
        "map_of kvs ''license_id'' = Some (JStr (env_strip e ''LICENSE_ID''))"
        "map_of kvs ''machine_id'' = Some (JStr (fst (get_or_create_machine_id e p)))"
        "j_get (JObj kvs) ''status'' (JStr st_bad_signature) = Inr status"
        and p': "p' = record_success (param_value e status) (check_time e) body q"
        by (auto simp: accept_envelope_True)
      moreover have "now - check_time e * 1000000 \<le> stale_threshold_seconds * 1000000"
        using ns is_stale_after [of p' "check_time e" now] ts p' by (simp add: record_success_def set_param_def)
      ultimately show ?thesis using st p' by (metis record_status(2))
    qed
  qed
qed

text \<open>
  A check whose request fails, whether the authority answers with an error or cannot be
  reached, blocks every guarded write from then on, those on \<open>account.move\<close> included, and keeps the
  last good payload; the table of the enforcement module has such writes allowed.
\<close>

theorem network_failure_blocks_writes:
  assumes "configured e" "\<And>url body sig ts. le_post e url body sig ts \<in> range HttpError \<union> range UrlError"
  shows "\<exists>p'. run_check e p = (Inr False, p') \<and> p' cfg_payload = p cfg_payload \<and>
     (\<exists>st. guarded_call e' now p' mdl super s = (Inl (LicenseInvalid st), s))"
proof -
  let ?q = "snd (get_or_create_machine_id e p)"
  have no_answer: "le_post e url body sig ts \<noteq> HttpOk raw" "le_post e url body sig ts \<noteq> HttpRaises m" for url body sig ts raw m
    using assms(2) [of url body sig ts] by auto
  have "run_check e p = (Inr False, record_failure st_network_failed (check_time e) ?q)"
    using assms(1) no_answer by (auto simp: run_check_def Let_def fail_check_run check_time_def split: prod.split http_answer.split)
  moreover have "?q cfg_payload = p cfg_payload"
    by (auto simp: get_or_create_machine_id_def set_param_def Let_def split: option.splits list.splits)
  moreover have "\<exists>st. check_license_write_allowed e' now (record_failure st_network_failed (check_time e) ?q) mdl = Inl (LicenseInvalid st)"
    by (rule guard_blocks) (simp add: record_status py_or_def st_network_failed_def st_active_def st_grace_def)
  ultimately show ?thesis by (auto simp: guarded_call_def record_failure_def set_param_def)
qed

text \<open>
  An answer of the authority that was accepted once is accepted by every later check of the
  same license on the same machine, whatever the time and the digest of the image, and its old
  status becomes fresh again: the signed payload is bound to neither.
\<close>

theorem verdict_replayable:
  assumes "run_check e p = (Inr True, p')" "\<And>url body sig ts. le_post e url body sig ts = HttpOk raw"
    and "env_strip (e\<lparr>le_environ := environ, le_now := now\<rparr>) ''LICENSE_ID'' = env_strip e ''LICENSE_ID''"
    and "configured (e\<lparr>le_environ := environ, le_now := now\<rparr>)"
    and "fst (get_or_create_machine_id e q) = fst (get_or_create_machine_id e p)"
  shows "\<exists>q'. run_check (e\<lparr>le_environ := environ, le_now := now\<rparr>) q = (Inr True, q') \<and>
     q' cfg_status = p' cfg_status \<and> q' cfg_payload = p' cfg_payload \<and>
     q' cfg_checked_at = Some (int_str (now div 1000000))"
proof -
  let ?e = "e\<lparr>le_environ := environ, le_now := now\<rparr>"
  have conf: "configured e" using assms(1) by (auto simp: run_check_def Let_def split: if_splits)
  from conf assms(1) obtain q0 where acc: "accept_envelope e (env_strip e ''LICENSE_ID'') (fst (get_or_create_machine_id e p))
        (py_lower (env_strip e ''ODOO_IMAGE_DIGEST'')) (check_time e) raw q0 = (Inr True, p')"
    by (auto simp: run_check_def Let_def check_time_def assms(2) split: prod.splits)
  have mid: "get_or_create_machine_id ?e q = get_or_create_machine_id e q"
    by (simp add: get_or_create_machine_id_def Let_def split: option.split list.split)
  from accept_envelope_again [OF acc] obtain body status where
    "accept_envelope ?e (env_strip e ''LICENSE_ID'') (fst (get_or_create_machine_id e p)) (py_lower (env_strip ?e ''ODOO_IMAGE_DIGEST''))
       (now div 1000000) raw (snd (get_or_create_machine_id e q)) = (Inr True, record_success (param_value e status) (now div 1000000) body (snd (get_or_create_machine_id e q)))"
    and "p' = record_success (param_value e status) (check_time e) body q0"
    by blast
  moreover have "run_check ?e q = accept_envelope ?e (env_strip ?e ''LICENSE_ID'') (fst (get_or_create_machine_id e q))
      (py_lower (env_strip ?e ''ODOO_IMAGE_DIGEST'')) (now div 1000000) raw (snd (get_or_create_machine_id e q))"
    using assms(4) mid by (simp add: run_check_def Let_def assms(2) split: prod.splits)
  ultimately show ?thesis using assms(3,5) by (simp add: record_success_def set_param_def)
qed

text \<open>
  Creating users never takes the active internal users over a positive cap, and a refused call
  creates none and leaves one audit row.
\<close>

theorem seat_cap_holds:
  assumes "0 < seat_cap p" "users_create orm_create p vals_list w = (r, w')"
    and "\<And>v. uv_share v \<Longrightarrow> us_share (orm_create v)"
    and "int (internal_active (sw_users w)) \<le> seat_cap p"
  shows "int (internal_active (sw_users w')) \<le> seat_cap p \<and>
    (r \<noteq> Inr () \<longrightarrow> sw_users w' = sw_users w \<and> length (sw_audit w') = length (sw_audit w) + 1)"
proof -
  have "internal_active (map orm_create vals_list) \<le> length (filter (\<lambda>v. \<not> uv_share v) vals_list)"
    by (induction vals_list) (auto simp: internal_active_def dest: assms(3))
  moreover have "internal_active (us @ vs) = internal_active us + internal_active vs" for us vs
    by (simp add: internal_active_def)
  ultimately show ?thesis
    using assms(1,2,4) by (auto simp: users_create_def check_seat_cap_def Let_def split: if_splits)
qed

section \<open>Witnesses\<close>

definition example_license :: license_env where
  "example_license =
     \<lparr>le_environ = (\<lambda>k. Some ''x''), le_now = 5000000, le_dumps = (\<lambda>j. ''{}''),
      le_loads = [''A'' \<mapsto> JObj [(''payload'', JStr ''B''), (''signature'', JStr ''00'')],
                  ''B'' \<mapsto> JObj [(''license_id'', JStr ''x''), (''machine_id'', JStr ''m''), (''status'', JStr ''active'')]],
      le_str = (\<lambda>j. ''?''), le_hmac_hex = (\<lambda>k b. ''0''), le_post = (\<lambda>u b s t. HttpOk ''A''),
      le_machine_file = Some ''m'', le_uuid = ''u'', le_pubkey = Ed25519Key (\<lambda>sig body. sig = ''00'' \<and> body = ''B''),
      le_fromhex = Some\<rparr>"

lemma example_fields:
  "py_strip ''x'' = ''x''" "py_strip ''m'' = ''m''" "py_rstrip_char (CHR ''/'') ''x'' = ''x''" "py_lower ''x'' = ''x''"
  by code_simp+

lemma example_configured: "configured example_license"
  by (simp add: configured_def example_license_def example_fields py_or_def)

lemma example_check:
  "run_check example_license Map.empty =
     (Inr True, record_success (Some st_active) 5 ''B'' [cfg_machine_id \<mapsto> ''m''])"
  using example_configured
  by (simp add: run_check_def Let_def example_license_def example_fields py_or_def get_or_create_machine_id_def set_param_def
      accept_envelope_def verify_signature_def get_str_def st_active_def)

lemma writes_need_signed_verdict_witness:
  "\<exists>body sig. verify_signature example_license (JStr body) sig = Inr True"
proof -
  have ns: "\<not> is_stale 6000000 (record_success (Some st_active) 5 ''B'' [cfg_machine_id \<mapsto> ''m''])"
    by (subst is_stale_after [of _ 5]) (simp_all add: record_success_def set_param_def stale_threshold_seconds_def)
  have t: "1000000 \<le> le_now example_license" by (simp add: example_license_def)
  have "check_license_write_allowed example_license 6000000
      (record_success (Some st_active) 5 ''B'' [cfg_machine_id \<mapsto> ''m'']) SaleOrder = Inr ()"
    using ns by (simp add: write_allowed_iff record_status)
  from writes_need_signed_verdict [OF example_configured example_check t this] show ?thesis by blast
qed

lemma network_failure_blocks_writes_witness:
  "\<exists>p'. run_check (example_license\<lparr>le_post := \<lambda>u b s t. HttpError 503\<rparr>) Map.empty = (Inr False, p') \<and>
     (\<exists>st. guarded_call example_license 6000000 p' AccountMove (act_return ()) () = (Inl (LicenseInvalid st), ()))"
proof -
  have "configured (example_license\<lparr>le_post := \<lambda>u b s t. HttpError 503\<rparr>)"
    using example_configured by (simp add: configured_def)
  from network_failure_blocks_writes [OF this, of Map.empty example_license 6000000 AccountMove "act_return ()" "()"]
  show ?thesis by auto
qed

lemma verdict_replayable_witness:
  "\<exists>q'. run_check (example_license\<lparr>le_environ := le_environ example_license, le_now := 9000000000000\<rparr>) Map.empty = (Inr True, q') \<and>
     q' cfg_status = Some st_active"
proof -
  have "configured (example_license\<lparr>le_environ := le_environ example_license, le_now := 9000000000000\<rparr>)"
    using example_configured by (simp add: configured_def)
  from verdict_replayable [OF example_check, where raw = "''A''" and environ = "le_environ example_license"
      and now = 9000000000000 and q = Map.empty] this
  show ?thesis by (simp add: example_license_def record_status) blast
qed

lemma seat_cap_holds_witness:
  "int (internal_active (sw_users (snd (users_create (\<lambda>v. \<lparr>us_share = uv_share v, us_active = uv_active v\<rparr>)
     [''saas.seat_cap'' \<mapsto> ''2''] [\<lparr>uv_share = False, uv_active = True\<rparr>, \<lparr>uv_share = False, uv_active = True\<rparr>]
     \<lparr>sw_users = [\<lparr>us_share = False, us_active = True\<rparr>], sw_audit = []\<rparr>)))) \<le> 2"
proof -
  have "seat_cap [''saas.seat_cap'' \<mapsto> ''2''] = 2" by (simp add: seat_cap_def py_or_def) code_simp
  then show ?thesis
    using seat_cap_holds [of "[''saas.seat_cap'' \<mapsto> ''2'']" "\<lambda>v. \<lparr>us_share = uv_share v, us_active = uv_active v\<rparr>"
      "[\<lparr>uv_share = False, uv_active = True\<rparr>, \<lparr>uv_share = False, uv_active = True\<rparr>]"
      "\<lparr>sw_users = [\<lparr>us_share = False, us_active = True\<rparr>], sw_audit = []\<rparr>", OF _ prod.collapse [symmetric]]
    by (simp add: internal_active_def)
qed

end
