(* ===== verification/ActionRules.thy ===== *)
theory ActionRules
  imports PyJson
begin

text \<open>
  Rules to follow an action through its branches: \<open>valid P R m\<close> says that from a state with
  \<open>P\<close> the action \<open>m\<close>, whether it returns or raises, ends in a state that \<open>R\<close> relates to
  the first.
\<close>

named_theorems valid_intros \<open>one rule per way to build an action\<close>

definition valid :: "('s \<Rightarrow> bool) \<Rightarrow> ('s \<Rightarrow> 's \<Rightarrow> bool) \<Rightarrow> ('s, 'e, 'a) act \<Rightarrow> bool" where
  "valid P R m \<longleftrightarrow> (\<forall>w. P w \<longrightarrow> R w (snd (m w)))"

lemma validI: "(\<And>w. P w \<Longrightarrow> R w (snd (m w))) \<Longrightarrow> valid P R m"
  by (simp add: valid_def)

lemma validD: "valid P R m \<Longrightarrow> P w \<Longrightarrow> m w = (x, w') \<Longrightarrow> R w w'"
  unfolding valid_def by (metis snd_conv)

lemma valid_weaken: "valid P R m \<Longrightarrow> (\<And>w. P' w \<Longrightarrow> P w) \<Longrightarrow> (\<And>w w'. P' w \<Longrightarrow> R w w' \<Longrightarrow> R' w w') \<Longrightarrow> valid P' R' m"
  by (simp add: valid_def)

lemma valid_return [valid_intros]: "(\<And>w. P w \<Longrightarrow> R w w) \<Longrightarrow> valid P R (act_return x)"
  by (simp add: valid_def)

lemma valid_raise [valid_intros]: "(\<And>w. P w \<Longrightarrow> R w w) \<Longrightarrow> valid P R (act_raise x)"
  by (simp add: valid_def)

lemma valid_if [valid_intros]:
  "(b \<Longrightarrow> valid P R m) \<Longrightarrow> (\<not> b \<Longrightarrow> valid P R n) \<Longrightarrow> valid P R (if b then m else n)"
  by simp

lemma valid_option [valid_intros]:
  "(x = None \<Longrightarrow> valid P R m) \<Longrightarrow> (\<And>y. x = Some y \<Longrightarrow> valid P R (f y)) \<Longrightarrow>
   valid P R (case x of None \<Rightarrow> m | Some y \<Rightarrow> f y)"
  by (cases x) auto

lemma valid_list [valid_intros]:
  "(x = [] \<Longrightarrow> valid P R m) \<Longrightarrow> (\<And>y ys. x = y # ys \<Longrightarrow> valid P R (f y ys)) \<Longrightarrow>
   valid P R (case x of [] \<Rightarrow> m | y # ys \<Rightarrow> f y ys)"
  by (cases x) auto

lemma valid_bind_lift [valid_intros]:
  "(\<And>w. P w \<Longrightarrow> R w w) \<Longrightarrow> (\<And>x. r = Inr x \<Longrightarrow> valid P R (k x)) \<Longrightarrow> valid P R (act_bind (act_lift r) k)"
  by (cases r) (simp_all add: valid_def)

lemma valid_bind_return [valid_intros]:
  "valid P R (k x) \<Longrightarrow> valid P R (act_bind (act_return x) k)"
  by (simp add: valid_def)

lemma valid_bind_read [valid_intros]:
  "(\<And>w. P w \<Longrightarrow> valid (\<lambda>v. v = w) R (k (g w))) \<Longrightarrow> valid P R (act_bind (act_read g) k)"
  by (simp add: valid_def)

lemma valid_bind_if [valid_intros]:
  "(b \<Longrightarrow> valid P R (act_bind m k)) \<Longrightarrow> (\<not> b \<Longrightarrow> valid P R (act_bind n k)) \<Longrightarrow>
   valid P R (act_bind (if b then m else n) k)"
  by simp

lemma valid_let [valid_intros]: "valid P R (f x) \<Longrightarrow> valid P R (let y = x in f y)"
  by simp

text \<open>A step that changes the state: what follows starts from a state that \<open>Q\<close> describes.\<close>

lemma valid_bind:
  assumes "\<And>w x w'. P w \<Longrightarrow> m w = (x, w') \<Longrightarrow> R w w' \<and> Q w'"
    and "\<And>w x w'. P w \<Longrightarrow> m w = (Inr x, w') \<Longrightarrow> valid Q R (k x)"
    and "\<And>a b c. R a b \<Longrightarrow> R b c \<Longrightarrow> R a c"
  shows "valid P R (act_bind m k)"
proof (rule validI)
  fix w
  assume P: "P w"
  obtain x w' where m: "m w = (x, w')" by fastforce
  have step: "R w w'" "Q w'" using assms(1) [OF P m] by auto
  show "R w (snd (act_bind m k w))"
  proof (cases x)
    case (Inl err)
    with m step show ?thesis by simp
  next
    case (Inr y)
    have "R w' (snd (k y w'))" using assms(2) [OF P m [unfolded Inr]] step(2) by (simp add: valid_def)
    with assms(3) [OF step(1)] m Inr show ?thesis by simp
  qed
qed

end
