(* ===== verification/SaasEndpoints.thy ===== *)
theory SaasEndpoints
  imports LicenseGate ActionRules "HOL-Library.List_Lexorder" "HOL-Library.Char_ord"
begin

text \<open>
  The endpoints the control plane calls: health, telemetry and its secret's rotation
  (custom-addons/saas_tenant_gate/controllers), database creation, the filestore backup on demand
  and the closed database manager (custom-addons/saas_provisioning_gateway/controllers).

  The cluster is a map from database names to tenants. HMAC, the JSON decoder, the texts of
  exceptions and what Odoo itself does (probing, creating and initialising a database, loading a
  registry, running the backup) are arguments; times are microseconds. Log lines are left out.
\<close>

section \<open>Tenants, requests and responses\<close>

record tenant =
  tn_name :: string
  tn_params :: params
  tn_users :: "user_row list"
  tn_modules :: "(string \<times> string) list"
  tn_backup_addon :: bool

type_synonym cluster = "string \<rightharpoonup> tenant"

record request =
  rq_headers :: "string \<rightharpoonup> string"
  rq_body :: string

datatype response = Resp int json

record saas_env =
  se_environ :: "string \<Rightarrow> string option"
  se_now :: int
  se_hmac_hex :: "string \<Rightarrow> string \<Rightarrow> string"
  se_loads :: "string \<Rightarrow> py_exn + json"
  se_str :: "py_exn \<Rightarrow> string"
  se_repr :: "py_exn \<Rightarrow> string"
  se_db_exist :: "string \<Rightarrow> cluster \<Rightarrow> py_exn + bool"
  se_create_empty :: "string \<Rightarrow> (cluster, py_exn, unit) act"
  se_initialize :: "string \<Rightarrow> bool \<Rightarrow> json \<Rightarrow> string \<Rightarrow> json \<Rightarrow> json \<Rightarrow> json \<Rightarrow> (cluster, py_exn, unit) act"
  se_drop_fails :: "string \<Rightarrow> cluster \<Rightarrow> bool"
  se_registry :: "string \<Rightarrow> cluster \<Rightarrow> py_exn + unit"
  se_run_backup :: "(tenant, py_exn, bool) act"

definition header :: "request \<Rightarrow> string \<Rightarrow> string" where
  "header rq k = (case rq_headers rq k of None \<Rightarrow> [] | Some v \<Rightarrow> v)"

text \<open>\<open>config.get_param(k, default)\<close>.\<close>

definition get_param :: "params \<Rightarrow> string \<Rightarrow> string \<Rightarrow> string" where
  "get_param p k d = py_or (p k) d"

definition response_ok :: "(string \<times> json) list \<Rightarrow> response" where
  "response_ok payload = Resp 200 (JObj ((''ok'', JBool True) # payload))"

definition response_reject :: "int \<Rightarrow> string \<Rightarrow> response" where
  "response_reject status reason = Resp status (JObj [(''ok'', JBool False), (''error'', JStr reason)])"

definition telemetry_reject :: "int \<Rightarrow> string \<Rightarrow> response" where
  "telemetry_reject status reason = Resp status (JObj [(''error'', JStr reason)])"

section \<open>The signed envelope\<close>

definition max_drift_seconds :: int where "max_drift_seconds = 300"

definition sign :: "saas_env \<Rightarrow> string \<Rightarrow> string \<Rightarrow> string \<Rightarrow> string" where
  "sign e secret timestamp body = ''sha256='' @ se_hmac_hex e secret (timestamp @ ''.'' @ body)"

text \<open>The checks every endpoint repeats after it has found a secret.\<close>

definition signed_envelope ::
  "saas_env \<Rightarrow> (int \<Rightarrow> string \<Rightarrow> response) \<Rightarrow> string \<Rightarrow> request \<Rightarrow> ('s, py_exn, response) act \<Rightarrow> ('s, py_exn, response) act" where
  "signed_envelope e reject secret rq accepted =
     (let sig = header rq ''X-SaaS-Signature'';
          ts_h = header rq ''X-SaaS-Timestamp''
      in if sig = [] \<or> ts_h = [] then act_return (reject 401 ''missing-signature-headers'')
         else (case py_int ts_h of
             None \<Rightarrow> act_return (reject 401 ''bad-timestamp'')
           | Some ts \<Rightarrow>
               if \<bar>se_now e - ts * 1000000\<bar> > max_drift_seconds * 1000000
               then act_return (reject 410 ''timestamp-drift'')
               else act_bind (act_lift (compare_digest sig (sign e secret ts_h (rq_body rq)))) (\<lambda>ok.
                      if \<not> ok then act_return (reject 401 ''bad-signature'') else accepted)))"

definition provisioning_secret :: "saas_env \<Rightarrow> string" where
  "provisioning_secret e = py_strip (case se_environ e ''SAAS_PROVISIONING_SECRET'' of None \<Rightarrow> [] | Some s \<Rightarrow> s)"

text \<open>\<open>json.loads(body or b'{}')\<close>, where only a decoding error of JSON itself is answered.\<close>

definition with_payload ::
  "saas_env \<Rightarrow> request \<Rightarrow> (json \<Rightarrow> ('s, py_exn, response) act) \<Rightarrow> ('s, py_exn, response) act" where
  "with_payload e rq k =
     (case se_loads e (if rq_body rq = [] then ''{}'' else rq_body rq) of
        Inr payload \<Rightarrow> k payload
      | Inl JSONDecodeError \<Rightarrow> act_return (response_reject 400 (''bad-json: '' @ se_str e JSONDecodeError))
      | Inl x \<Rightarrow> act_raise x)"

text \<open>\<open>payload.get(k) or ''\<close>, read as a text.\<close>

definition get_or_empty :: "json \<Rightarrow> string \<Rightarrow> py_exn + string" where
  "get_or_empty j k = res_bind (j_get j k JNull) (\<lambda>v. j_str (j_or v (JStr [])))"

section \<open>Health and telemetry\<close>

definition health :: "(tenant, py_exn, response) act" where
  "health = act_read (\<lambda>t. Resp 200 (JObj [(''ok'', JBool True), (''database'', JStr (tn_name t)),
     (''tenant_id'', JStr (get_param (tn_params t) ''saas.tenant_id'' ''unset''))]))"

definition telemetry_secret_param :: string where "telemetry_secret_param = ''saas.telemetry_secret''"

definition collect_telemetry :: "saas_env \<Rightarrow> tenant \<Rightarrow> json" where
  "collect_telemetry e t =
     (let installed = filter (\<lambda>(name, state). state = ''installed'') (tn_modules t)
      in JObj [(''tenant_id'', JStr (get_param (tn_params t) ''saas.tenant_id'' ''unset'')),
               (''plan_code'', JStr (get_param (tn_params t) ''saas.plan_code'' ''unset'')),
               (''database'', JStr (tn_name t)),
               (''seat_count'', JNum (int (internal_active (tn_users t)))),
               (''installed_modules'', JList (map JStr (sort (map fst installed)))),
               (''observed_at'', JNum (se_now e div 1000000))])"

definition telemetry :: "saas_env \<Rightarrow> request \<Rightarrow> (tenant, py_exn, response) act" where
  "telemetry e rq =
     act_bind (act_read (\<lambda>t. get_param (tn_params t) telemetry_secret_param [])) (\<lambda>secret.
       if secret = [] \<or> secret = ''unset'' then act_return (telemetry_reject 503 ''telemetry-secret-unset'')
       else signed_envelope e telemetry_reject secret rq
              (act_read (\<lambda>t. Resp 200 (collect_telemetry e t))))"

definition rotate_telemetry :: "saas_env \<Rightarrow> request \<Rightarrow> (tenant, py_exn, response) act" where
  "rotate_telemetry e rq =
     (if provisioning_secret e = [] then act_return (response_reject 503 ''provisioning-secret-unset'')
      else signed_envelope e response_reject (provisioning_secret e) rq
        (with_payload e rq (\<lambda>payload.
           act_bind (act_lift (get_or_empty payload ''new_secret'')) (\<lambda>s.
             let new_secret = py_strip s
             in if new_secret = [] \<or> length new_secret < 32
                then act_return (response_reject 400 ''new-secret-too-short'')
                else
                  act_bind (act_read (\<lambda>t. get_param (tn_params t) telemetry_secret_param [])) (\<lambda>previous.
                  act_seq (act_modify (\<lambda>t. t\<lparr>tn_params := set_param telemetry_secret_param (Some new_secret) (tn_params t)\<rparr>))
                    (act_read (\<lambda>t. response_ok [(''database'', JStr (tn_name t)),
                       (''rotated_at'', JNum (se_now e div 1000000)),
                       (''previous_was_set'', JBool (previous \<noteq> [] \<and> previous \<noteq> ''unset''))])))))))"

section \<open>Creating a database\<close>

text \<open>\<open>^[a-z][a-z0-9_-]{1,62}$\<close>; \<open>$\<close> also matches before a last line feed.\<close>

definition lower_letter :: "char \<Rightarrow> bool" where
  "lower_letter c \<longleftrightarrow> (let n = of_char c :: nat in 97 \<le> n \<and> n \<le> 122)"

definition db_name_pattern :: "string \<Rightarrow> bool" where
  "db_name_pattern s =
     (case (if s \<noteq> [] \<and> last s = CHR 0x0A then butlast s else s) of
        [] \<Rightarrow> False
      | c # cs \<Rightarrow> lower_letter c \<and> 1 \<le> length cs \<and> length cs \<le> 62 \<and>
          list_all (\<lambda>d. lower_letter d \<or> digit_char d \<or> d = CHR ''_'' \<or> d = CHR ''-'') cs)"

definition db_exists :: "saas_env \<Rightarrow> string \<Rightarrow> cluster \<Rightarrow> bool" where
  "db_exists e db c = (case se_db_exist e db c of Inl _ \<Rightarrow> False | Inr b \<Rightarrow> b)"

definition drop_db_quietly :: "saas_env \<Rightarrow> string \<Rightarrow> (cluster, py_exn, unit) act" where
  "drop_db_quietly e db = act_modify (\<lambda>c. if se_drop_fails e db c then c else c(db := None))"

definition create_database ::
  "saas_env \<Rightarrow> string \<Rightarrow> bool \<Rightarrow> json \<Rightarrow> string \<Rightarrow> json \<Rightarrow> json \<Rightarrow> json \<Rightarrow> (cluster, py_exn, response) act" where
  "create_database e db demo language password login country phone = (\<lambda>c.
     case act_seq (se_create_empty e db) (se_initialize e db demo language password login country phone) c of
       (Inr _, c') \<Rightarrow> (Inr (response_ok [(''db_name'', JStr db), (''created'', JBool True), (''already_existed'', JBool False)]), c')
     | (Inl x, c') \<Rightarrow>
         act_seq (drop_db_quietly e db)
           (act_return (response_reject 500
              (''create-failed: '' @ (if se_str e x \<noteq> [] then se_str e x else se_repr e x)))) c')"

definition provision :: "saas_env \<Rightarrow> request \<Rightarrow> (cluster, py_exn, response) act" where
  "provision e rq =
     (if provisioning_secret e = [] then act_return (response_reject 503 ''provisioning-secret-unset'')
      else signed_envelope e response_reject (provisioning_secret e) rq
        (with_payload e rq (\<lambda>payload.
           act_bind (act_lift (get_or_empty payload ''db_name'')) (\<lambda>name.
             let db = py_strip name
             in if \<not> db_name_pattern db then act_return (response_reject 400 ''bad-db-name'')
                else
                  act_bind (act_lift (get_or_empty payload ''admin_password'')) (\<lambda>password.
                    if password = [] \<or> length password < 8
                    then act_return (response_reject 400 ''admin-password-too-short'')
                    else
                      act_bind (act_lift (j_get payload ''admin_login'' JNull)) (\<lambda>login.
                      act_bind (act_lift (j_get payload ''lang'' JNull)) (\<lambda>language.
                      act_bind (act_lift (j_get payload ''country_code'' JNull)) (\<lambda>country.
                      act_bind (act_lift (j_get payload ''phone'' JNull)) (\<lambda>phone.
                      act_bind (act_lift (j_get payload ''demo'' (JBool False))) (\<lambda>demo.
                      act_bind (act_read (db_exists e db)) (\<lambda>exists.
                        if exists
                        then act_return (response_ok [(''db_name'', JStr db), (''created'', JBool False), (''already_existed'', JBool True)])
                        else create_database e db (j_true demo) (j_or language (JStr ''en_US'')) password
                               (j_or login (JStr ''admin'')) (j_or country JNull) (j_or phone JNull)))))))))))) "

section \<open>The filestore backup on demand\<close>

text \<open>The registry's cursor commits at the end; an exception leaves the tenant as it was.\<close>

definition filestore_backup_now :: "saas_env \<Rightarrow> request \<Rightarrow> (cluster, py_exn, response) act" where
  "filestore_backup_now e rq =
     (if provisioning_secret e = [] then act_return (response_reject 503 ''provisioning-secret-unset'')
      else signed_envelope e response_reject (provisioning_secret e) rq
        (with_payload e rq (\<lambda>payload.
           act_bind (act_lift (get_or_empty payload ''db_name'')) (\<lambda>name.
             let db = py_strip name
             in if \<not> db_name_pattern db then act_return (response_reject 400 ''bad-db-name'')
                else (\<lambda>c. case (se_registry e db c, c db) of
                    (Inl x, _) \<Rightarrow> (Inr (response_reject 404 (''db-not-found: '' @ se_str e x)), c)
                  | (Inr _, None) \<Rightarrow> (Inr (response_reject 500 (''run-backup-failed: '' @ take 500 (se_str e (KeyError db)))), c)
                  | (Inr _, Some t) \<Rightarrow>
                      if \<not> tn_backup_addon t
                      then (Inr (response_reject 500 ''addon-not-installed: saas_filestore_backup''), c)
                      else (case se_run_backup e t of
                          (Inr result, t') \<Rightarrow> (Inr (response_ok [(''db_name'', JStr db), (''backed_up'', JBool result)]), c(db \<mapsto> t'))
                        | (Inl x, _) \<Rightarrow> (Inr (response_reject 500 (''run-backup-failed: '' @ take 500 (se_str e x))), c)))))))"

section \<open>The closed database manager\<close>

datatype lock_answer = NotFound | AccessDenied | EmptyList | Stock

definition lockdown :: "string \<Rightarrow> lock_answer" where
  "lockdown path =
     (if path \<in> set [''/web/database/manager'', ''/web/database/selector''] then NotFound
      else if path \<in> set [''/web/database/duplicate'', ''/web/database/drop'', ''/web/database/backup'',
                           ''/web/database/restore'', ''/web/database/change_password''] then AccessDenied
      else if path = ''/web/database/list'' then EmptyList
      else Stock)"

section \<open>What every signed endpoint promises\<close>

definition authentic :: "saas_env \<Rightarrow> string \<Rightarrow> request \<Rightarrow> bool" where
  "authentic e secret rq \<longleftrightarrow>
     secret \<noteq> [] \<and> header rq ''X-SaaS-Signature'' \<noteq> [] \<and>
     (case py_int (header rq ''X-SaaS-Timestamp'') of
        None \<Rightarrow> False
      | Some ts \<Rightarrow> \<bar>se_now e - ts * 1000000\<bar> \<le> max_drift_seconds * 1000000) \<and>
     header rq ''X-SaaS-Signature'' = sign e secret (header rq ''X-SaaS-Timestamp'') (rq_body rq) \<and>
     ascii (header rq ''X-SaaS-Signature'')"

definition answered_ok :: "py_exn + response \<Rightarrow> bool" where
  "answered_ok r = (case r of Inr (Resp status _) \<Rightarrow> status = 200 | Inl _ \<Rightarrow> False)"

lemma answered_ok_simps [simp]:
  "answered_ok (Inl x) = False" "answered_ok (Inr (Resp status j)) = (status = 200)"
  "answered_ok (Inr (response_reject status reason)) = (status = 200)"
  "answered_ok (Inr (telemetry_reject status reason)) = (status = 200)"
  "answered_ok (Inr (response_ok kvs)) = True"
  by (simp_all add: answered_ok_def response_reject_def telemetry_reject_def response_ok_def)

lemma authentic_timestamp: "authentic e secret rq \<Longrightarrow> header rq ''X-SaaS-Timestamp'' \<noteq> []"
  by (auto simp: authentic_def py_int_def py_strip_def py_lstrip_def py_rstrip_def)

text \<open>The envelope, once and for all: it passes an authentic request on and refuses any other.\<close>

lemma signed_envelope_accepts:
  "authentic e secret rq \<Longrightarrow> signed_envelope e reject secret rq k s = k s"
  using authentic_timestamp [of e secret rq]
  by (auto simp: authentic_def signed_envelope_def compare_digest_def Let_def split: option.splits)

lemma signed_envelope_refuses:
  assumes "\<not> authentic e secret rq" "secret \<noteq> []"
    and "\<And>st reason. st \<noteq> 200 \<Longrightarrow> \<not> answered_ok (Inr (reject st reason))"
  shows "\<exists>r. signed_envelope e reject secret rq k s = (r, s) \<and> \<not> answered_ok r"
  using assms
  by (auto simp: authentic_def signed_envelope_def compare_digest_True compare_digest_def Let_def split: option.splits)

text \<open>An endpoint with its secret: whatever is not authentic is refused and changes nothing.\<close>

locale signed_endpoint =
  fixes env :: saas_env
    and secret_of :: "'s \<Rightarrow> string"
    and endpoint :: "request \<Rightarrow> ('s, py_exn, response) act"
  assumes refuses: "\<not> authentic env (secret_of s) rq \<Longrightarrow> \<exists>r. endpoint rq s = (r, s) \<and> \<not> answered_ok r"
begin

lemma acts_only_if_authentic:
  "endpoint rq s = (r, s') \<Longrightarrow> s' \<noteq> s \<or> answered_ok r \<Longrightarrow> authentic env (secret_of s) rq"
  using refuses [of s rq] by auto

lemma forged_requests_change_nothing:
  "list_all (\<lambda>rq. \<not> authentic env (secret_of s) rq) rqs \<Longrightarrow> fold (\<lambda>rq s. snd (endpoint rq s)) rqs s = s"
proof (induction rqs)
  case Nil
  then show ?case by simp
next
  case (Cons rq rqs)
  then show ?case using refuses [of s rq] by auto
qed

end

definition telemetry_secret :: "tenant \<Rightarrow> string" where
  "telemetry_secret t =
     (let secret = get_param (tn_params t) telemetry_secret_param []
      in if secret = ''unset'' then [] else secret)"

interpretation telemetry_endpoint: signed_endpoint e telemetry_secret "telemetry e" for e
proof unfold_locales
  fix t rq
  assume "\<not> authentic e (telemetry_secret t) rq"
  then show "\<exists>r. telemetry e rq t = (r, t) \<and> \<not> answered_ok r"
    using signed_envelope_refuses [of e "telemetry_secret t" rq telemetry_reject]
    by (cases "telemetry_secret t = []") (auto simp: telemetry_def telemetry_secret_def Let_def split: if_splits)
qed

text \<open>The three endpoints of the provisioning secret share the argument.\<close>

lemma provisioning_refuses:
  assumes "\<not> authentic e (provisioning_secret e) rq"
  shows "\<exists>r. (if provisioning_secret e = [] then act_return (response_reject 503 reason)
      else signed_envelope e response_reject (provisioning_secret e) rq k) s = (r, s) \<and> \<not> answered_ok r"
  using assms signed_envelope_refuses [of e "provisioning_secret e" rq response_reject k s] by auto

interpretation rotate_endpoint: signed_endpoint e "\<lambda>_. provisioning_secret e" "rotate_telemetry e" for e
  by unfold_locales (unfold rotate_telemetry_def, rule provisioning_refuses)

interpretation provision_endpoint: signed_endpoint e "\<lambda>_. provisioning_secret e" "provision e" for e
  by unfold_locales (unfold provision_def, rule provisioning_refuses)

interpretation backup_endpoint: signed_endpoint e "\<lambda>_. provisioning_secret e" "filestore_backup_now e" for e
  by unfold_locales (unfold filestore_backup_now_def, rule provisioning_refuses)

section \<open>Properties\<close>

text \<open>
  C9: Whatever changes a tenant or the cluster, or is answered with 200, carries a fresh signature
  under the secret of its endpoint: the tenant's telemetry secret for telemetry, the
  provisioning secret for rotation, database creation and the backup on demand.
\<close>

theorem saas_requests_need_secret:
  "(telemetry e rq t = (r, t') \<and> (t' \<noteq> t \<or> answered_ok r) \<longrightarrow> authentic e (telemetry_secret t) rq) \<and>
   (rotate_telemetry e rq t = (r, t') \<and> (t' \<noteq> t \<or> answered_ok r) \<longrightarrow> authentic e (provisioning_secret e) rq) \<and>
   (provision e rq c = (r2, c') \<and> (c' \<noteq> c \<or> answered_ok r2) \<longrightarrow> authentic e (provisioning_secret e) rq) \<and>
   (filestore_backup_now e rq c = (r2, c') \<and> (c' \<noteq> c \<or> answered_ok r2) \<longrightarrow> authentic e (provisioning_secret e) rq)"
  using telemetry_endpoint.acts_only_if_authentic rotate_endpoint.acts_only_if_authentic
    provision_endpoint.acts_only_if_authentic backup_endpoint.acts_only_if_authentic by metis

text \<open>
  A rotation that is answered with 200 stores the trimmed new secret of its payload, of at least
  32 characters, and touches nothing else; from then on telemetry answers exactly the requests
  signed with that secret, and no longer those signed with the old one.
\<close>

theorem rotated_secret_opens_telemetry:
  assumes "rotate_telemetry e rq t = (r, t')" "answered_ok r"
  shows "\<exists>payload s. se_loads e (if rq_body rq = [] then ''{}'' else rq_body rq) = Inr payload \<and>
     get_or_empty payload ''new_secret'' = Inr s \<and> 32 \<le> length (py_strip s) \<and>
     telemetry_secret t' = py_strip s \<and>
     t' = t\<lparr>tn_params := (tn_params t)(telemetry_secret_param \<mapsto> py_strip s)\<rparr> \<and>
     (authentic e' (py_strip s) rq' \<longrightarrow> telemetry e' rq' t' = (Inr (Resp 200 (collect_telemetry e' t')), t')) \<and>
     (\<not> authentic e' (py_strip s) rq' \<longrightarrow> \<not> answered_ok (fst (telemetry e' rq' t')))"
proof -
  from rotate_endpoint.acts_only_if_authentic [OF assms(1)] assms(2)
  have auth: "authentic e (provisioning_secret e) rq" by simp
  then have "provisioning_secret e \<noteq> []" by (simp add: authentic_def)
  with assms auth obtain payload s where p: "se_loads e (if rq_body rq = [] then ''{}'' else rq_body rq) = Inr payload"
    "get_or_empty payload ''new_secret'' = Inr s" and l: "32 \<le> length (py_strip s)"
    and t': "t' = t\<lparr>tn_params := set_param telemetry_secret_param (Some (py_strip s)) (tn_params t)\<rparr>"
    by (auto simp: rotate_telemetry_def signed_envelope_accepts with_payload_def Let_def
        split: sum.splits py_exn.splits if_splits)
  from l have ns: "py_strip s \<noteq> []" "py_strip s \<noteq> ''unset''" by auto
  with t' have ts: "get_param (tn_params t') telemetry_secret_param [] = py_strip s" "telemetry_secret t' = py_strip s"
    by (simp_all add: telemetry_secret_def get_param_def set_param_def py_or_def)
  have "telemetry e' rq' t' = (Inr (Resp 200 (collect_telemetry e' t')), t')" if "authentic e' (py_strip s) rq'"
    using that ns ts by (simp add: telemetry_def signed_envelope_accepts)
  moreover have "\<not> answered_ok (fst (telemetry e' rq' t'))" if "\<not> authentic e' (py_strip s) rq'"
    using telemetry_endpoint.refuses [of e' t' rq'] that ts by fastforce
  ultimately show ?thesis using p l t' ts by (auto simp: set_param_def)
qed

text \<open>The path of a well-formed request to create a database.\<close>

definition asks_for :: "saas_env \<Rightarrow> request \<Rightarrow> string \<Rightarrow> bool" where
  "asks_for e rq db \<longleftrightarrow>
     (case se_loads e (if rq_body rq = [] then ''{}'' else rq_body rq) of
        Inr (JObj kvs) \<Rightarrow>
          (case (get_or_empty (JObj kvs) ''db_name'', get_or_empty (JObj kvs) ''admin_password'') of
             (Inr name, Inr password) \<Rightarrow> py_strip name = db \<and> db_name_pattern db \<and> 8 \<le> length password
           | _ \<Rightarrow> False)
      | _ \<Rightarrow> False)"

lemma provision_run:
  assumes "authentic e (provisioning_secret e) rq" "asks_for e rq db"
  shows "\<exists>demo lng password login country phone. provision e rq c =
    (if db_exists e db c
     then (Inr (response_ok [(''db_name'', JStr db), (''created'', JBool False), (''already_existed'', JBool True)]), c)
     else create_database e db demo lng password login country phone c)"
proof -
  from assms(1) have sec: "provisioning_secret e \<noteq> []" by (simp add: authentic_def)
  from assms(2) obtain kvs where body: "se_loads e (if rq_body rq = [] then ''{}'' else rq_body rq) = Inr (JObj kvs)"
    by (simp add: asks_for_def split: sum.splits json.splits)
  with assms(2) obtain name password where fields: "get_or_empty (JObj kvs) ''db_name'' = Inr name"
      "get_or_empty (JObj kvs) ''admin_password'' = Inr password"
    and ok: "py_strip name = db" "db_name_pattern db" "8 \<le> length password"
    by (simp add: asks_for_def split: sum.splits)
  have pw: "\<not> (password = [] \<or> length password < 8)" using ok(3) by auto
  show ?thesis
  proof (cases "db_exists e db c")
    case True
    then show ?thesis
      by (simp add: provision_def signed_envelope_accepts [OF assms(1)] sec with_payload_def body fields ok pw)
  next
    case False
    show ?thesis
      by (simp add: provision_def signed_envelope_accepts [OF assms(1)] sec with_payload_def body fields ok pw False)
        (intro exI, rule refl)
  qed
qed

text \<open>
  When the probe for an existing database raises, a signed request for a database that does
  exist ends with that database dropped: the probe's error counts as absence, creation is refused
  by the server, and the cleanup of the failed creation drops it.
\<close>

theorem failed_probe_drops_database:
  assumes "authentic e (provisioning_secret e) rq" "asks_for e rq db" "c db = Some t"
    and "se_db_exist e db c = Inl x" "se_create_empty e db c = (Inl y, c)" "\<not> se_drop_fails e db c"
  shows "\<exists>reason. provision e rq c = (Inr (response_reject 500 reason), c(db := None))"
proof -
  have "\<exists>reason. create_database e db demo lng password login country phone c =
      (Inr (response_reject 500 reason), c(db := None))" for demo lng password login country phone
    using assms(5,6) by (cases "se_str e y = []") (auto simp: create_database_def drop_db_quietly_def)
  moreover have "\<not> db_exists e db c" using assms(4) by (simp add: db_exists_def)
  ultimately show ?thesis using provision_run [OF assms(1,2), of c] by auto
qed

text \<open>What an operation on one database does to the others.\<close>

definition keeps_others :: "string \<Rightarrow> (cluster, py_exn, 'a) act \<Rightarrow> cluster \<Rightarrow> bool" where
  "keeps_others db m c \<longleftrightarrow> (\<forall>d. d \<noteq> db \<longrightarrow> snd (m c) d = c d)"

lemma create_database_keeps_others:
  assumes "\<And>c. keeps_others db (se_create_empty e db) c"
    and "\<And>c. keeps_others db (se_initialize e db demo lng password login country phone) c"
  shows "keeps_others db (create_database e db demo lng password login country phone) c"
proof -
  obtain r1 c1 where 1: "se_create_empty e db c = (r1, c1)" by fastforce
  obtain r2 c2 where 2: "se_initialize e db demo lng password login country phone c1 = (r2, c2)" by fastforce
  show ?thesis
    using assms(1) [of c] assms(2) [of c1] 1 2
    by (cases r1; cases r2) (simp_all add: keeps_others_def create_database_def drop_db_quietly_def)
qed

lemma valid_signed_envelope:
  "(\<And>w. P w \<Longrightarrow> R w w) \<Longrightarrow> valid P R k \<Longrightarrow> valid P R (signed_envelope e reject secret rq k)"
  unfolding signed_envelope_def by (intro valid_intros) auto

lemma valid_with_payload:
  assumes "\<And>w. P w \<Longrightarrow> R w w" "\<And>payload. valid P R (k payload)"
  shows "valid P R (with_payload e rq k)"
  using assms by (auto simp: with_payload_def valid_def split: sum.splits py_exn.splits)

text \<open>
  As long as the probe tells the truth, no request to create a database changes or removes a
  database that exists, whatever creation and initialisation do to the database they are asked for.
\<close>

theorem honest_probe_keeps_databases:
  assumes "provision e rq c = (r, c')" "c db = Some t"
    and "\<And>db. se_db_exist e db c = Inr (c db \<noteq> None)"
    and "\<And>db' c0. keeps_others db' (se_create_empty e db') c0"
    and "\<And>db' demo lng password login country phone c0.
       keeps_others db' (se_initialize e db' demo lng password login country phone) c0"
  shows "c' db = Some t"
proof -
  have create: "c db' = None \<Longrightarrow> c d = Some y \<Longrightarrow> snd (create_database e db' demo lng password login country phone c) d = Some y"
    for d y db' demo lng password login country phone
    using create_database_keeps_others [OF assms(4,5), of db'] by (cases "d = db'") (simp_all add: keeps_others_def)
  have "valid (\<lambda>c0. c0 = c) (\<lambda>c0 c1. c0 \<subseteq>\<^sub>m c1) (provision e rq)"
    unfolding provision_def
    by (intro valid_intros valid_signed_envelope valid_with_payload)
      (auto simp: valid_def map_le_def create db_exists_def assms(3))
  from validD [OF this _ assms(1)] assms(2) show ?thesis by (force simp: map_le_def)
qed

section \<open>Witnesses\<close>

definition example_tenant :: tenant where
  "example_tenant = \<lparr>tn_name = ''acme'', tn_params = [telemetry_secret_param \<mapsto> ''unset''], tn_users = [],
     tn_modules = [], tn_backup_addon = True\<rparr>"

text \<open>The secret is x, the time 5 s; three bodies are decoded.\<close>

definition example_saas :: saas_env where
  "example_saas =
     \<lparr>se_environ = (\<lambda>k. Some ''x''), se_now = 5000000, se_hmac_hex = (\<lambda>k b. k),
      se_loads = (\<lambda>b. Inr (JObj [(''new_secret'', JStr (replicate 32 (CHR ''a''))), (''db_name'', JStr ''acme''),
                                   (''admin_password'', JStr ''longenough'')])),
      se_str = (\<lambda>x. ''error''), se_repr = (\<lambda>x. ''error''), se_db_exist = (\<lambda>db c. Inr (c db \<noteq> None)),
      se_create_empty = (\<lambda>db c. if c db = None then (Inr (), c(db \<mapsto> example_tenant\<lparr>tn_name := db\<rparr>)) else (Inl (ApiError db), c)),
      se_initialize = (\<lambda>db demo lng password login country phone c. (Inr (), c)), se_drop_fails = (\<lambda>db c. False),
      se_registry = (\<lambda>db c. Inr ()), se_run_backup = (\<lambda>t. (Inr True, t))\<rparr>"

definition example_request :: request where
  "example_request = \<lparr>rq_headers = [''X-SaaS-Signature'' \<mapsto> ''sha256=x'', ''X-SaaS-Timestamp'' \<mapsto> ''5''], rq_body = ''{}''\<rparr>"

lemma example_values:
  "py_strip ''x'' = ''x''" "py_int ''5'' = Some 5" "ascii ''sha256=x''" "db_name_pattern ''acme''" "py_strip ''acme'' = ''acme''"
  "py_strip (replicate 32 (CHR ''a'')) = replicate 32 (CHR ''a'')"
  by code_simp+

lemma example_secret: "provisioning_secret (example_saas\<lparr>se_db_exist := probe\<rparr>) = ''x''" "provisioning_secret example_saas = ''x''"
  by (simp_all add: provisioning_secret_def example_saas_def example_values)

lemma example_authentic:
  "authentic (example_saas\<lparr>se_db_exist := probe\<rparr>) ''x'' example_request" "authentic example_saas ''x'' example_request"
  by (simp_all add: authentic_def header_def example_request_def example_values example_saas_def max_drift_seconds_def sign_def)

lemma example_asks: "asks_for (example_saas\<lparr>se_db_exist := probe\<rparr>) example_request ''acme''"
  by (simp add: asks_for_def example_saas_def get_or_empty_def j_or_def example_values)

lemma example_rotation:
  "rotate_telemetry example_saas example_request example_tenant =
     (Inr (response_ok [(''database'', JStr ''acme''), (''rotated_at'', JNum 5), (''previous_was_set'', JBool False)]),
      example_tenant\<lparr>tn_params := (tn_params example_tenant)(telemetry_secret_param \<mapsto> replicate 32 (CHR ''a''))\<rparr>)"
proof -
  have "se_loads example_saas b = Inr (JObj [(''new_secret'', JStr (replicate 32 (CHR ''a''))), (''db_name'', JStr ''acme''),
      (''admin_password'', JStr ''longenough'')])" "se_now example_saas = 5000000" for b
    by (simp_all add: example_saas_def)
  then show ?thesis
    by (simp add: rotate_telemetry_def example_secret signed_envelope_accepts example_authentic with_payload_def
        get_or_empty_def j_or_def example_values get_param_def set_param_def py_or_def example_tenant_def Let_def)
qed

lemma saas_requests_need_secret_witness: "authentic example_saas (provisioning_secret example_saas) example_request"
proof -
  have "answered_ok (fst (rotate_telemetry example_saas example_request example_tenant))" by (simp add: example_rotation)
  with saas_requests_need_secret show ?thesis by (metis prod.collapse)
qed

lemma rotated_secret_opens_telemetry_witness:
  "32 \<le> length (telemetry_secret (snd (rotate_telemetry example_saas example_request example_tenant)))"
proof -
  obtain t' where t': "t' = snd (rotate_telemetry example_saas example_request example_tenant)" by simp
  have "rotate_telemetry example_saas example_request example_tenant =
      (fst (rotate_telemetry example_saas example_request example_tenant), t')" by (simp add: t')
  from rotated_secret_opens_telemetry [OF this] show ?thesis
    unfolding t' by (simp only: example_rotation fst_conv answered_ok_simps) (metis snd_conv)
qed

lemma failed_probe_drops_database_witness:
  "\<exists>reason. provision (example_saas\<lparr>se_db_exist := \<lambda>db c. Inl (ApiError db)\<rparr>) example_request [''acme'' \<mapsto> example_tenant]
     = (Inr (response_reject 500 reason), Map.empty)"
proof -
  let ?e = "example_saas\<lparr>se_db_exist := \<lambda>db c. Inl (ApiError db)\<rparr>"
  have "se_create_empty ?e ''acme'' [''acme'' \<mapsto> example_tenant] = (Inl (ApiError ''acme''), [''acme'' \<mapsto> example_tenant])"
    "\<not> se_drop_fails ?e ''acme'' [''acme'' \<mapsto> example_tenant]" "se_db_exist ?e ''acme'' [''acme'' \<mapsto> example_tenant] = Inl (ApiError ''acme'')"
    by (simp_all add: example_saas_def)
  with failed_probe_drops_database [of ?e example_request "''acme''" "[''acme'' \<mapsto> example_tenant]" example_tenant]
  show ?thesis by (simp add: example_secret example_authentic example_asks)
qed

lemma honest_probe_keeps_databases_witness:
  "snd (provision example_saas example_request [''beta'' \<mapsto> example_tenant]) ''beta'' = Some example_tenant"
  by (rule honest_probe_keeps_databases [OF prod.collapse [symmetric]])
    (simp_all add: example_saas_def keeps_others_def)

end
