(* ===== verification/FilestoreTransfer.thy ===== *)
theory FilestoreTransfer
  imports FilestoreFormat SaasEndpoints
begin

text \<open>
  The way of a filestore from one tenant to another: the backup run of
  custom-addons/saas_filestore_backup/models/filestore_backup.py and the restore endpoint of
  custom-addons/saas_provisioning_gateway/controllers/filestore_restore.py.

  A host has directory trees by path, the files of /tmp, and what it has sent. The encrypted
  formats are those of \<open>FilestoreFormat\<close>; the cipher, SHA-256, tar, the answers of the control
  plane and of S3 are arguments, with what they promise as \<open>file_laws\<close>.
\<close>

section \<open>Hosts\<close>

datatype node = File bytes | Dir "(string \<times> node) list"

datatype sent =
    Post string string string string
  | Put string nat bytes

datatype 'a reply = Reply int 'a | HttpError int string | UrlError string

record host =
  ho_dirs :: "string \<rightharpoonup> node"
  ho_temp :: "string \<rightharpoonup> bytes"
  ho_sent :: "sent list"

record file_env =
  fe_saas :: saas_env
  fe_db :: string
  fe_params :: params
  fe_filestore :: string
  fe_data_dir :: string
  fe_temp_file :: "string \<Rightarrow> string \<Rightarrow> (string \<rightharpoonup> bytes) \<Rightarrow> string"
  fe_temp_dir :: "string \<Rightarrow> (string \<rightharpoonup> node) \<Rightarrow> string"
  fe_unlink_fails :: "string \<Rightarrow> bool"
  fe_tar :: "string \<Rightarrow> node \<Rightarrow> py_exn + bytes"
  fe_untar :: "bytes \<Rightarrow> py_exn + (string \<times> node) list"
  fe_move_error :: "string \<Rightarrow> py_exn option"
  fe_token :: "nat \<Rightarrow> bytes"
  fe_seal :: seal
  fe_unseal :: unseal
  fe_sha256 :: "bytes \<Rightarrow> bytes"
  fe_post :: "string \<Rightarrow> string \<Rightarrow> string reply"
  fe_put :: "string \<Rightarrow> bytes \<Rightarrow> unit reply"
  fe_get :: "string \<Rightarrow> bytes reply"

section \<open>Hexadecimal texts\<close>

text \<open>\<open>bytes.hex()\<close> and \<open>bytes.fromhex\<close>, which skips space between two digits.\<close>

definition hex_of :: "bytes \<Rightarrow> string" where
  "hex_of bs = concat (map (\<lambda>b. [hex_digit (unat b div 16), hex_digit (unat b mod 16)]) bs)"

definition hex_value :: "char \<Rightarrow> nat option" where
  "hex_value c =
     (let n = of_char c :: nat
      in if 48 \<le> n \<and> n \<le> 57 then Some (n - 48)
         else if 97 \<le> n \<and> n \<le> 102 then Some (n - 87)
         else if 65 \<le> n \<and> n \<le> 70 then Some (n - 55)
         else None)"

definition ascii_space :: "char \<Rightarrow> bool" where
  "ascii_space c \<longleftrightarrow> (of_char c :: nat) \<in> set [9, 10, 11, 12, 13, 32]"

fun from_hex :: "string \<Rightarrow> bytes option" where
  "from_hex [] = Some []"
| "from_hex [c] = (if ascii_space c then Some [] else None)"
| "from_hex (c # d # cs) =
     (if ascii_space c then from_hex (d # cs)
      else case (hex_value c, hex_value d) of
          (Some m, Some n) \<Rightarrow> map_option (Cons (of_nat (16 * m + n))) (from_hex cs)
        | _ \<Rightarrow> None)"

section \<open>Files\<close>

text \<open>\<open>m\<close> with \<open>f\<close> as its \<open>finally\<close>.\<close>

definition act_finally :: "('s, 'e, 'a) act \<Rightarrow> ('s, 'e, unit) act \<Rightarrow> ('s, 'e, 'a) act" where
  "act_finally m f = (\<lambda>s.
     case m s of (r, s') \<Rightarrow> (case f s' of (Inl x, s'') \<Rightarrow> (Inl x, s'') | (Inr _, s'') \<Rightarrow> (r, s'')))"

type_synonym 'a file_act = "(host, py_exn, 'a) act"

definition write_file :: "string \<Rightarrow> bytes \<Rightarrow> unit file_act" where
  "write_file path b = act_modify (\<lambda>h. h\<lparr>ho_temp := (ho_temp h)(path \<mapsto> b)\<rparr>)"

definition read_file :: "string \<Rightarrow> bytes file_act" where
  "read_file path = (\<lambda>h. case ho_temp h path of None \<Rightarrow> (Inl (LibError path), h) | Some b \<Rightarrow> (Inr b, h))"

text \<open>\<open>NamedTemporaryFile(delete=False)\<close> leaves an empty file under a new name.\<close>

definition temp_file :: "file_env \<Rightarrow> string \<Rightarrow> string \<Rightarrow> string file_act" where
  "temp_file e pre suf =
     act_bind (act_read (\<lambda>h. fe_temp_file e pre suf (ho_temp h))) (\<lambda>path.
       act_seq (write_file path []) (act_return path))"

definition try_unlink :: "file_env \<Rightarrow> string \<Rightarrow> unit file_act" where
  "try_unlink e path =
     act_modify (\<lambda>h. if fe_unlink_fails e path then h else h\<lparr>ho_temp := (ho_temp h)(path := None)\<rparr>)"

definition send :: "sent \<Rightarrow> unit file_act" where
  "send x = act_modify (\<lambda>h. h\<lparr>ho_sent := ho_sent h @ [x]\<rparr>)"

section \<open>Backup\<close>

text \<open>What is made of the answer to a signed request.\<close>

definition post_answer :: "file_env \<Rightarrow> string \<Rightarrow> string reply \<Rightarrow> json file_act" where
  "post_answer e url answer =
     (case answer of
        HttpError code detail \<Rightarrow> act_raise (RuntimeErr (url @ '' HTTP '' @ int_str code @ '': '' @ take 500 detail))
      | UrlError reason \<Rightarrow> act_raise (RuntimeErr (url @ '' network error: '' @ reason))
      | Reply status raw \<Rightarrow>
          (case se_loads (fe_saas e) (if raw = [] then ''{}'' else raw) of
             Inl JSONDecodeError \<Rightarrow> act_raise (RuntimeErr (url @ '' returned non-JSON body''))
           | Inl x \<Rightarrow> act_raise x
           | Inr payload \<Rightarrow>
               act_bind (act_lift (j_get payload ''ok'' JNull)) (\<lambda>accepted.
                 if \<not> j_true accepted
                 then act_bind (act_lift (j_get payload ''error'' JNull)) (\<lambda>err.
                        act_raise (RuntimeErr (url @ '' rejected: '' @ j_format err)))
                 else act_return payload)))"

definition signed_post :: "file_env \<Rightarrow> string \<Rightarrow> string \<Rightarrow> json \<Rightarrow> json file_act" where
  "signed_post e url secret body_obj =
     (let body = j_dumps body_obj;
          ts = int_str (se_now (fe_saas e) div 1000000);
          sig = ''sha256='' @ se_hmac_hex (fe_saas e) secret (ts @ ''.'' @ body)
      in act_seq (send (Post url ts sig body))
        (post_answer e url (fe_post e url body)))"

definition issue_credentials :: "file_env \<Rightarrow> string \<Rightarrow> string \<Rightarrow> string \<Rightarrow> json file_act" where
  "issue_credentials e endpoint secret tenant_slug =
     signed_post e (py_rstrip_char (CHR ''/'') endpoint @ ''/issue-credentials'') secret
       (JObj [(''tenant_slug'', JStr tenant_slug)])"

definition complete :: "file_env \<Rightarrow> string \<Rightarrow> string \<Rightarrow> (string \<times> json) list \<Rightarrow> unit file_act" where
  "complete e endpoint secret body_fields =
     act_seq (signed_post e (py_rstrip_char (CHR ''/'') endpoint @ ''/complete'') secret (JObj body_fields))
       (act_return ())"

definition put_to_s3 :: "file_env \<Rightarrow> string \<Rightarrow> string \<Rightarrow> unit file_act" where
  "put_to_s3 e url src_path =
     act_bind (read_file src_path) (\<lambda>data.
     act_seq (send (Put url (length data) data))
       (case fe_put e url data of
          Reply status _ \<Rightarrow>
            if status \<ge> 300 then act_raise (RuntimeErr (''S3 PUT returned HTTP '' @ int_str status)) else act_return ()
        | HttpError code body \<Rightarrow> act_raise (RuntimeErr (''S3 PUT failed HTTP '' @ int_str code @ '': '' @ take 500 body))
        | UrlError reason \<Rightarrow> act_raise (RuntimeErr (''S3 PUT network error: '' @ reason))))"

definition tar_filestore :: "file_env \<Rightarrow> node \<Rightarrow> string \<Rightarrow> unit file_act" where
  "tar_filestore e tree dest = act_bind (act_lift (fe_tar e (fe_db e) tree)) (write_file dest)"

definition format_exn :: "format_error \<Rightarrow> py_exn" where
  "format_exn x =
     (case x of
        CounterExhausted \<Rightarrow> RuntimeErr ''saas_filestore_backup: per-DEK chunk counter exhausted''
      | _ \<Rightarrow> LibError ''struct.error'')"

text \<open>Encryption from one file to another; the nonce, the tag and the hash of what was written.\<close>

definition encrypt_to :: "file_env \<Rightarrow> string \<Rightarrow> string \<Rightarrow> bytes \<Rightarrow> (bytes \<times> bytes \<times> string) file_act" where
  "encrypt_to e src_path dest_path dek =
     act_bind (read_file src_path) (\<lambda>plaintext.
       case encrypt_file (fe_seal e) dek (fe_token e 12) plaintext of
         Inl x \<Rightarrow> act_raise (format_exn x)
       | Inr (nonce, tag, ciphertext) \<Rightarrow>
           act_seq (write_file dest_path ciphertext)
             (act_return (nonce, tag, hex_of (fe_sha256 e ciphertext))))"

text \<open>\<open>creds[k]\<close>.\<close>

definition j_item :: "json \<Rightarrow> string \<Rightarrow> py_exn + json" where
  "j_item j k = res_bind (j_has j k) (\<lambda>b. if b then j_get j k JNull else Inl (KeyError k))"

definition dek_of :: "json \<Rightarrow> py_exn + bytes" where
  "dek_of creds =
     res_bind (j_item creds ''dekHex'') (\<lambda>v.
     res_bind (j_str v) (\<lambda>h.
       case from_hex h of
         None \<Rightarrow> Inl (ValueErr ''non-hexadecimal number found in fromhex() arg'')
       | Some dek \<Rightarrow>
           if length dek \<noteq> 32
           then Inl (ValueErr (''unexpected DEK length: '' @ int_str (int (length dek)) @ '' (want 32)''))
           else Inr dek))"

definition catalog_fields :: "string \<Rightarrow> json \<Rightarrow> nat \<Rightarrow> string \<Rightarrow> bytes \<Rightarrow> bytes \<Rightarrow> nat \<Rightarrow> json \<Rightarrow> (string \<times> json) list" where
  "catalog_fields db s3_key size_bytes sha nonce tag plaintext_bytes arn =
     [(''tenant_slug'', JStr db), (''s3_key'', s3_key), (''size_bytes'', JNum (int size_bytes)), (''sha256_hex'', JStr sha),
      (''nonce_hex'', JStr (hex_of nonce)), (''tag_hex'', JStr (hex_of tag)),
      (''plaintext_bytes'', JNum (int plaintext_bytes)), (''kms_cmk_arn'', arn)]"

text \<open>Steps 3 to 5: encrypt, upload, tell the control plane.\<close>

definition ship :: "file_env \<Rightarrow> string \<Rightarrow> string \<Rightarrow> json \<Rightarrow> bytes \<Rightarrow> string \<Rightarrow> nat \<Rightarrow> string \<Rightarrow> unit file_act" where
  "ship e endpoint secret creds dek plaintext_path plaintext_size ciphertext_path =
     act_bind (encrypt_to e plaintext_path ciphertext_path dek) (\<lambda>(nonce, tag, sha).
     act_bind (read_file ciphertext_path) (\<lambda>ciphertext.
     act_bind (act_lift (res_bind (j_item creds ''putUrl'') j_str)) (\<lambda>url.
     act_seq (put_to_s3 e url ciphertext_path)
     (act_bind (act_lift (j_item creds ''s3Key'')) (\<lambda>s3_key.
      act_bind (act_lift (j_item creds ''kmsCmkArn'')) (\<lambda>arn.
        complete e endpoint secret
          (catalog_fields (fe_db e) s3_key (length ciphertext) sha nonce tag plaintext_size arn)))))))"

definition temp_prefix :: "file_env \<Rightarrow> string" where
  "temp_prefix e = ''saas-filestore-'' @ fe_db e @ ''-''"

definition run_backup :: "file_env \<Rightarrow> bool file_act" where
  "run_backup e =
     (let secret = provisioning_secret (fe_saas e);
          tenant_id = get_param (fe_params e) ''saas.tenant_id'' [];
          endpoint = get_param (fe_params e) ''saas.filestore_backup_endpoint'' []
      in if secret = [] then act_return False
         else if tenant_id = [] \<or> tenant_id = ''unset'' then act_return False
         else if endpoint = [] then act_return False
         else
           act_bind (act_read (\<lambda>h. ho_dirs h (fe_filestore e))) (\<lambda>found.
             case found of
               Some (Dir kids) \<Rightarrow>
                 if fe_filestore e = [] then act_return False
                 else
                   act_bind (temp_file e (temp_prefix e) ''.tar'') (\<lambda>plaintext_path.
                     act_seq
                       (act_finally
                         (act_seq (tar_filestore e (Dir kids) plaintext_path)
                         (act_bind (read_file plaintext_path) (\<lambda>plaintext.
                          act_bind (issue_credentials e endpoint secret (fe_db e)) (\<lambda>creds.
                          act_bind (act_lift (dek_of creds)) (\<lambda>dek.
                          act_bind (temp_file e (temp_prefix e) ''.gcm'') (\<lambda>ciphertext_path.
                            act_finally
                              (ship e endpoint secret creds dek plaintext_path (length plaintext) ciphertext_path)
                              (try_unlink e ciphertext_path)))))))
                         (try_unlink e plaintext_path))
                       (act_return True))
             | _ \<Rightarrow> act_return False))"

section \<open>Restore\<close>

definition seqs :: "regex list \<Rightarrow> regex" where
  "seqs rs = foldr Seq rs Empty"

text \<open>\<open>re.match\<close> of \<open>^...$\<close>; \<open>$\<close> also matches before a last line feed.\<close>

definition re_whole :: "regex \<Rightarrow> string \<Rightarrow> bool" where
  "re_whole r s = list_ex (\<lambda>x. snd x = [] \<or> snd x = [CHR 0x0A]) (matches r ([], s))"

definition hex_char :: "char \<Rightarrow> bool" where
  "hex_char c \<longleftrightarrow> (let n = of_char c :: nat in 48 \<le> n \<and> n \<le> 57 \<or> 97 \<le> n \<and> n \<le> 102)"

definition hex_pattern :: "nat \<Rightarrow> regex" where
  "hex_pattern n = Chars hex_char n (Some n)"

definition s3_url_pattern :: regex where
  "s3_url_pattern = seqs
     [lit ''s3://'', Chars (\<lambda>c. lower_letter c \<or> digit_char c \<or> c = CHR ''.'' \<or> c = CHR ''-'') 1 None,
      lit ''/tenants/'', Chars (\<lambda>c. hex_char c \<or> c = CHR ''-'') 1 None,
      lit ''/filestore/'', Chars digit_char 4 (Some 4), lit ''-'', Chars digit_char 2 (Some 2), lit ''-'',
      Chars digit_char 2 (Some 2), lit ''.tar.gcm'']"

definition os_join :: "string \<Rightarrow> string \<Rightarrow> string" where
  "os_join a b =
     (if prefix ''/'' b then b else if a = [] \<or> last a = CHR ''/'' then a @ b else a @ ''/'' @ b)"

definition download :: "file_env \<Rightarrow> string \<Rightarrow> json \<Rightarrow> string \<Rightarrow> unit file_act" where
  "download e s3_url presigned_get_url dest_path =
     (if \<not> j_true presigned_get_url
      then act_raise (RuntimeErr ''filestore-restore: presigned_get_url required (no AWS SDK in Odoo container)'')
      else
        act_bind (act_lift (j_str presigned_get_url)) (\<lambda>url.
          case fe_get e url of
            Reply status content \<Rightarrow> write_file dest_path content
          | HttpError code detail \<Rightarrow>
              act_raise (RuntimeErr (''filestore-restore: S3 GET '' @ s3_url @ '' failed HTTP '' @ int_str code @ '': '' @ take 500 detail))
          | UrlError reason \<Rightarrow> act_raise (RuntimeErr (''filestore-restore: S3 GET network error: '' @ reason))))"

definition max_plaintext_bytes :: nat where "max_plaintext_bytes = 256 * 1024 * 1024"

definition decrypt_to :: "file_env \<Rightarrow> string \<Rightarrow> string \<Rightarrow> bytes \<Rightarrow> bytes \<Rightarrow> bytes \<Rightarrow> unit file_act" where
  "decrypt_to e ct_path pt_path dek nonce tag =
     act_bind (read_file ct_path) (\<lambda>ct.
       if length ct > max_plaintext_bytes
       then act_raise (RuntimeErr ''filestore-restore: ciphertext > 256 MiB; switch to streaming AEAD'')
       else
         case fe_unseal e dek nonce (ct @ tag) of
           None \<Rightarrow> act_raise (LibError ''InvalidTag'')
         | Some plaintext \<Rightarrow> write_file pt_path plaintext)"

definition set_dir :: "string \<Rightarrow> node option \<Rightarrow> host \<Rightarrow> host" where
  "set_dir path tree h = h\<lparr>ho_dirs := (ho_dirs h)(path := tree)\<rparr>"

text \<open>\<open>os.rename\<close> replaces nothing but an empty directory.\<close>

definition rename_dir :: "string \<Rightarrow> string \<Rightarrow> unit file_act" where
  "rename_dir src dst = (\<lambda>h.
     if ho_dirs h dst = None \<or> ho_dirs h dst = Some (Dir [])
     then (Inr (), set_dir src None (set_dir dst (ho_dirs h src) h))
     else (Inl (LibError dst), h))"

definition staged_name :: "file_env \<Rightarrow> string \<Rightarrow> string" where
  "staged_name e target_dir = target_dir @ ''.old.'' @ int_str (se_now (fe_saas e) div 1000000)"

text \<open>
  \<open>shutil.move\<close> to a path that is free; when it fails, it leaves no tree there.
\<close>

definition install_filestore :: "file_env \<Rightarrow> string \<Rightarrow> string \<Rightarrow> unit file_act" where
  "install_filestore e extract_root target_dir =
     act_bind (act_read (\<lambda>h. case ho_dirs h extract_root of Some (Dir kids) \<Rightarrow> kids | _ \<Rightarrow> [])) (\<lambda>children.
       case children of
         [(name, inner)] \<Rightarrow>
           (case inner of
              File _ \<Rightarrow> act_raise (RuntimeErr (''filestore-restore: tar root '' @ os_join extract_root name @ '' is not a directory''))
            | Dir _ \<Rightarrow>
                act_seq (\<lambda>h. if ho_dirs h target_dir \<noteq> None then rename_dir target_dir (staged_name e target_dir) h else (Inr (), h))
                  (case fe_move_error e target_dir of
                     Some x \<Rightarrow> act_raise x
                   | None \<Rightarrow>
                       act_seq (act_modify (set_dir target_dir (Some inner)))
                         (act_modify (set_dir extract_root (Some (Dir []))))))
       | _ \<Rightarrow> act_raise (RuntimeErr (''filestore-restore: expected exactly 1 dir in tar, got '' @ j_repr (JList (map (JStr \<circ> fst) children)))))"

definition extract_and_install :: "file_env \<Rightarrow> string \<Rightarrow> string \<Rightarrow> unit file_act" where
  "extract_and_install e tar_path filestore_dir =
     act_bind (act_read (\<lambda>h. fe_temp_dir e ''saas-filestore-extract-'' (ho_dirs h))) (\<lambda>tmp_extract.
       act_seq (act_modify (set_dir tmp_extract (Some (Dir []))))
         (act_finally
           (act_bind (read_file tar_path) (\<lambda>content.
            act_bind (act_lift (fe_untar e content)) (\<lambda>members.
            act_seq (act_modify (set_dir tmp_extract (Some (Dir members))))
              (install_filestore e tmp_extract filestore_dir))))
           (act_modify (set_dir tmp_extract None))))"

definition filestore_dir_of :: "file_env \<Rightarrow> string \<Rightarrow> string" where
  "filestore_dir_of e db = os_join (os_join (fe_data_dir e) ''filestore'') db"

text \<open>From the download on, once the payload has been checked.\<close>

definition restore_from :: "file_env \<Rightarrow> string \<Rightarrow> string \<Rightarrow> bytes \<Rightarrow> bytes \<Rightarrow> bytes \<Rightarrow> string option \<Rightarrow> json \<Rightarrow> response file_act" where
  "restore_from e db s3_url dek nonce tag expected presigned_get_url =
     act_bind (temp_file e ''saas-filestore-restore-'' ''.gcm'') (\<lambda>ct_path.
       act_finally
         (act_seq (download e s3_url presigned_get_url ct_path)
         (act_bind (read_file ct_path) (\<lambda>ct.
           let actual = hex_of (fe_sha256 e ct)
           in if expected \<noteq> None \<and> expected \<noteq> Some actual
              then act_return (response_reject 422 (''sha256-mismatch got='' @ actual @ '' expected='' @ the expected))
              else
                act_seq
                  (act_finally
                    (act_seq (decrypt_to e ct_path (ct_path @ ''.tar'') dek nonce tag)
                      (extract_and_install e (ct_path @ ''.tar'') (filestore_dir_of e db)))
                    (try_unlink e (ct_path @ ''.tar'')))
                  (act_return (response_ok [(''db_name'', JStr db), (''restored'', JBool True), (''s3_url'', JStr s3_url)])))))
         (try_unlink e ct_path))"

definition expected_sha :: "json \<Rightarrow> py_exn + string option" where
  "expected_sha v = (case v of JNull \<Rightarrow> Inr None | _ \<Rightarrow> res_bind (j_str v) (\<lambda>s. Inr (Some s)))"

definition bytes_of_hex :: "string \<Rightarrow> bytes" where
  "bytes_of_hex s = (case from_hex s of None \<Rightarrow> [] | Some b \<Rightarrow> b)"

definition filestore_restore :: "file_env \<Rightarrow> request \<Rightarrow> response file_act" where
  "filestore_restore e rq =
     (if provisioning_secret (fe_saas e) = [] then act_return (response_reject 503 ''provisioning-secret-unset'')
      else signed_envelope (fe_saas e) response_reject (provisioning_secret (fe_saas e)) rq
        (with_payload (fe_saas e) rq (\<lambda>payload.
           act_bind (act_lift (get_or_empty payload ''db_name'')) (\<lambda>name.
             if \<not> db_name_pattern (py_strip name) then act_return (response_reject 400 ''bad-db-name'')
             else
               act_bind (act_lift (get_or_empty payload ''s3_url'')) (\<lambda>url.
                 if \<not> re_whole s3_url_pattern (py_strip url) then act_return (response_reject 400 ''bad-s3-url'')
                 else
                   act_bind (act_lift (get_or_empty payload ''dek_hex'')) (\<lambda>dek.
                   act_bind (act_lift (get_or_empty payload ''nonce_hex'')) (\<lambda>nonce.
                   act_bind (act_lift (get_or_empty payload ''tag_hex'')) (\<lambda>tag.
                     if \<not> (re_whole (hex_pattern 64) (py_strip dek) \<and> re_whole (hex_pattern 24) (py_strip nonce) \<and>
                            re_whole (hex_pattern 32) (py_strip tag))
                     then act_return (response_reject 400 ''bad-crypto-params'')
                     else
                       act_bind (act_lift (j_get payload ''sha256'' JNull)) (\<lambda>sha.
                       act_bind (act_lift (expected_sha sha)) (\<lambda>expected.
                         if expected \<noteq> None \<and> \<not> re_whole (hex_pattern 64) (the expected)
                         then act_return (response_reject 400 ''bad-sha256'')
                         else
                           act_bind (act_lift (j_get payload ''presigned_get_url'' JNull)) (\<lambda>presigned.
                             restore_from e (py_strip name) (py_strip url) (bytes_of_hex (py_strip dek))
                               (bytes_of_hex (py_strip nonce)) (bytes_of_hex (py_strip tag)) expected presigned)))))))))))"

section \<open>Lemmas on hexadecimal texts\<close>

lemma hex_digit_facts:
  assumes "n < 16"
  shows "hex_char (hex_digit n)" "hex_value (hex_digit n) = Some n" "\<not> ascii_space (hex_digit n)"
  using assms unfolding hex_digit_def hex_char_def hex_value_def ascii_space_def
  by (auto simp: Let_def)

lemma byte_parts: "unat (b :: 8 word) div 16 < 16" "16 * (unat b div 16) + unat b mod 16 = unat b"
  using unsigned_less [of b, where 'a = nat] by auto

lemma hex_of_simps [simp]:
  "hex_of [] = []" "hex_of (b # bs) = hex_digit (unat b div 16) # hex_digit (unat b mod 16) # hex_of bs"
  by (simp_all add: hex_of_def)

lemma hex_of_chars: "list_all hex_char (hex_of bs)"
  by (induction bs) (simp_all add: hex_digit_facts byte_parts)

lemma length_hex_of [simp]: "length (hex_of bs) = 2 * length bs"
  by (induction bs) auto

lemma from_hex_of [simp]: "from_hex (hex_of bs) = Some bs"
proof (induction bs)
  case (Cons b bs)
  have "from_hex (hex_of (b # bs)) =
      map_option (Cons (of_nat (16 * (unat b div 16) + unat b mod 16))) (from_hex (hex_of bs))"
    by (simp add: hex_digit_facts byte_parts)
  then show ?case by (simp only: byte_parts Cons) simp
qed simp

lemma hex_char_not_space: "hex_char c \<Longrightarrow> \<not> py_space c"
  by (auto simp: hex_char_def py_space_def Let_def)

lemma strip_hex_of [simp]: "py_strip (hex_of bs) = hex_of bs"
  using hex_of_chars [of bs] by (intro py_strip_id) (auto simp: list_all_iff hex_char_not_space)

lemma hex_pattern_whole: "list_all hex_char s \<Longrightarrow> length s = n \<Longrightarrow> re_whole (hex_pattern n) s"
proof -
  assume s: "list_all hex_char s" "length s = n"
  then have "takeWhile hex_char s = s" by (simp add: list_all_iff takeWhile_eq_all_conv)
  then have "length (takeWhile hex_char s) = n" using s(2) by (rule arg_cong [THEN trans])
  with s(2) show ?thesis by (simp add: re_whole_def hex_pattern_def run_lengths_def Let_def)
qed

lemma hex_of_whole [simp]: "n = 2 * length bs \<Longrightarrow> re_whole (hex_pattern n) (hex_of bs)"
  using hex_pattern_whole hex_of_chars by simp

lemma bytes_of_hex_of [simp]: "bytes_of_hex (hex_of bs) = bs"
  by (simp add: bytes_of_hex_def)

section \<open>Lemmas on actions\<close>

lemma act_bind_Inr:
  "act_bind m k s = (Inr y, s') \<longleftrightarrow> (\<exists>x s1. m s = (Inr x, s1) \<and> k x s1 = (Inr y, s'))"
  by (auto split: prod.splits sum.splits)

lemma act_finally_Inr:
  "act_finally m f s = (Inr y, s') \<longleftrightarrow> (\<exists>s1 z. m s = (Inr y, s1) \<and> f s1 = (Inr z, s'))"
  by (auto simp: act_finally_def split: prod.splits sum.splits)

lemma act_finally_snd_cases:
  "snd (act_finally m f s) = snd (f (snd (m s)))"
  by (simp add: act_finally_def split: prod.splits sum.splits)

lemma run_steps:
  "write_file p b h = (Inr (), h\<lparr>ho_temp := (ho_temp h)(p \<mapsto> b)\<rparr>)"
  "read_file p h = (case ho_temp h p of None \<Rightarrow> (Inl (LibError p), h) | Some b \<Rightarrow> (Inr b, h))"
  "send x h = (Inr (), h\<lparr>ho_sent := ho_sent h @ [x]\<rparr>)"
  "try_unlink e p h = (Inr (), if fe_unlink_fails e p then h else h\<lparr>ho_temp := (ho_temp h)(p := None)\<rparr>)"
  by (simp_all add: write_file_def read_file_def send_def try_unlink_def)

text \<open>What the library promises about names, tar files and digests.\<close>

definition file_laws :: "file_env \<Rightarrow> bool" where
  "file_laws e \<longleftrightarrow>
     aead (fe_seal e) (fe_unseal e) \<and>
     (\<forall>db tree content. fe_tar e db tree = Inr content \<longrightarrow> fe_untar e content = Inr [(db, tree)]) \<and>
     (\<forall>n. length (fe_token e n) = n) \<and>
     (\<forall>b. length (fe_sha256 e b) = 32) \<and>
     (\<forall>a b temp. finite (dom temp) \<longrightarrow> temp (fe_temp_file e a b temp) = None) \<and>
     (\<forall>a dirs. finite (dom dirs) \<longrightarrow> dirs (fe_temp_dir e a dirs) = None) \<and>
     (\<forall>a dirs db. fe_temp_dir e a dirs \<noteq> filestore_dir_of e db \<and>
        fe_temp_dir e a dirs \<noteq> staged_name e (filestore_dir_of e db))"

definition finite_host :: "host \<Rightarrow> bool" where
  "finite_host h \<longleftrightarrow> finite (dom (ho_temp h)) \<and> finite (dom (ho_dirs h))"

section \<open>Lemmas on the backup\<close>

lemma post_answer_same: "post_answer e url answer h = (r, h') \<Longrightarrow> h' = h"
  by (auto simp: post_answer_def split: reply.splits sum.splits py_exn.splits if_splits)

lemma signed_post_sent:
  assumes "signed_post e url secret body h = (r, h')"
  shows "\<exists>ts sig. h' = h\<lparr>ho_sent := ho_sent h @ [Post url ts sig (j_dumps body)]\<rparr>"
proof -
  from assms obtain ts sig answer where
    "post_answer e url answer (h\<lparr>ho_sent := ho_sent h @ [Post url ts sig (j_dumps body)]\<rparr>) = (r, h')"
    by (simp add: signed_post_def Let_def run_steps)
  from post_answer_same [OF this] show ?thesis by blast
qed

lemma put_to_s3_sent:
  assumes "put_to_s3 e url p h = (Inr (), h')" "ho_temp h p = Some data"
  shows "h' = h\<lparr>ho_sent := ho_sent h @ [Put url (length data) data]\<rparr>"
  using assms by (auto simp: put_to_s3_def run_steps split: reply.splits if_splits)

lemma complete_sent:
  assumes "complete e endpoint secret kvs h = (Inr (), h')"
  shows "\<exists>ts sig. h' = h\<lparr>ho_sent := ho_sent h @ [Post (py_rstrip_char (CHR ''/'') endpoint @ ''/complete'') ts sig (j_dumps (JObj kvs))]\<rparr>"
  using assms signed_post_sent unfolding complete_def act_bind_Inr by (fastforce simp del: act_bind_def)

text \<open>The record of a finished backup: the object that was uploaded and the row of the catalog.\<close>

definition backed_up :: "file_env \<Rightarrow> host \<Rightarrow> host \<Rightarrow> bytes \<Rightarrow> bytes \<Rightarrow> bytes \<Rightarrow> bool" where
  "backed_up e h h' nonce tag blob \<longleftrightarrow>
     (\<exists>issue url key arn n ts sig.
        ho_sent h' = ho_sent h @
          [issue, Put url (length blob) blob,
           Post (py_rstrip_char (CHR ''/'') (get_param (fe_params e) ''saas.filestore_backup_endpoint'' []) @ ''/complete'') ts sig
             (j_dumps (JObj (catalog_fields (fe_db e) key (length blob) (hex_of (fe_sha256 e blob)) nonce tag n arn)))])"

lemma ship_sent:
  assumes "ship e endpoint secret creds dek p n ct h = (Inr (), h')" "ho_temp h p = Some content" "p \<noteq> ct"
  shows "\<exists>nonce tag blob url key arn ts sig.
     encrypt_file (fe_seal e) dek (fe_token e 12) content = Inr (nonce, tag, blob) \<and>
     ho_sent h' = ho_sent h @
       [Put url (length blob) blob,
        Post (py_rstrip_char (CHR ''/'') endpoint @ ''/complete'') ts sig
          (j_dumps (JObj (catalog_fields (fe_db e) key (length blob) (hex_of (fe_sha256 e blob)) nonce tag n arn)))]"
proof -
  from assms obtain nonce tag blob where enc: "encrypt_file (fe_seal e) dek (fe_token e 12) content = Inr (nonce, tag, blob)"
    unfolding ship_def act_bind_Inr encrypt_to_def
    by (auto simp: run_steps split: sum.splits)
  let ?h1 = "h\<lparr>ho_temp := (ho_temp h)(ct \<mapsto> blob)\<rparr>"
  have "encrypt_to e p ct dek h = (Inr (nonce, tag, hex_of (fe_sha256 e blob)), ?h1)"
    using enc assms(2) by (simp add: encrypt_to_def run_steps)
  then have "read_file ct ?h1 = (Inr blob, ?h1)" "encrypt_to e p ct dek h = (Inr (nonce, tag, hex_of (fe_sha256 e blob)), ?h1)"
    by (simp_all add: run_steps)
  then obtain url key arn h2 where put: "put_to_s3 e url ct ?h1 = (Inr (), h2)"
    and finished: "complete e endpoint secret
      (catalog_fields (fe_db e) key (length blob) (hex_of (fe_sha256 e blob)) nonce tag n arn) h2 = (Inr (), h')"
    using assms(1) unfolding ship_def act_bind_Inr by (auto simp del: act_bind_def simp: act_bind_Inr)
  from put_to_s3_sent [OF put, of blob] complete_sent [OF finished] have "\<exists>ts sig. ho_sent h' = ho_sent h @
       [Put url (length blob) blob,
        Post (py_rstrip_char (CHR ''/'') endpoint @ ''/complete'') ts sig
          (j_dumps (JObj (catalog_fields (fe_db e) key (length blob) (hex_of (fe_sha256 e blob)) nonce tag n arn)))]"
    by auto
  with enc show ?thesis by blast
qed

lemma dek_of_32: "dek_of creds = Inr dek \<Longrightarrow> length dek = 32"
  by (auto simp: dek_of_def res_bind_Inr split: option.splits if_splits)

lemma finally_unlink_sent:
  "act_finally m (try_unlink e p) h = (Inr y, h') \<Longrightarrow> \<exists>h1. m h = (Inr y, h1) \<and> ho_sent h' = ho_sent h1"
  by (auto simp: act_finally_Inr run_steps split: if_splits)

lemma run_backup_sent:
  assumes "file_laws e" "run_backup e h = (Inr True, h')" "ho_dirs h (fe_filestore e) = Some tree"
    and "finite_host h"
  shows "\<exists>content dek nonce tag blob. fe_tar e (fe_db e) tree = Inr content \<and> length dek = 32 \<and>
     encrypt_file (fe_seal e) dek (fe_token e 12) content = Inr (nonce, tag, blob) \<and> backed_up e h h' nonce tag blob"
proof -
  let ?endpoint = "get_param (fe_params e) ''saas.filestore_backup_endpoint'' []"
  let ?p = "fe_temp_file e (temp_prefix e) ''.tar'' (ho_temp h)"
  let ?h0 = "h\<lparr>ho_temp := (ho_temp h)(?p \<mapsto> [])\<rparr>"
  from assms(2,3) obtain h1 content creds dek h4 ct where
    content: "fe_tar e (fe_db e) tree = Inr content" and dek: "dek_of creds = Inr dek"
    and issue: "issue_credentials e ?endpoint (provisioning_secret (fe_saas e)) (fe_db e)
        (h\<lparr>ho_temp := (ho_temp h)(?p \<mapsto> content)\<rparr>) = (Inr creds, h1)"
    and ct: "ct = fe_temp_file e (temp_prefix e) ''.gcm'' (ho_temp h1)"
    and ship: "ship e ?endpoint (provisioning_secret (fe_saas e)) creds dek ?p (length content) ct
        (h1\<lparr>ho_temp := (ho_temp h1)(ct \<mapsto> [])\<rparr>) = (Inr (), h4)"
    and sent: "ho_sent h' = ho_sent h4"
    unfolding run_backup_def Let_def
    by (auto simp: act_bind_Inr tar_filestore_def temp_file_def run_steps dest!: finally_unlink_sent
        simp del: act_bind_def split: if_splits node.splits option.splits)
  from signed_post_sent issue obtain pst where
    h1: "h1 = h\<lparr>ho_temp := (ho_temp h)(?p \<mapsto> content), ho_sent := ho_sent h @ [pst]\<rparr>"
    unfolding issue_credentials_def by fastforce
  have "finite (dom (ho_temp h1))" using assms(4) h1 by (simp add: finite_host_def)
  then have "ho_temp h1 ct = None" using assms(1) unfolding ct file_laws_def by blast
  with h1 have "?p \<noteq> ct" by auto
  with ship_sent [OF ship, of content] h1 obtain nonce tag blob where
    "encrypt_file (fe_seal e) dek (fe_token e 12) content = Inr (nonce, tag, blob)" "backed_up e h h' nonce tag blob"
    unfolding backed_up_def sent by fastforce
  with content dek_of_32 [OF dek] show ?thesis by blast
qed

section \<open>Lemmas on the restore\<close>

text \<open>A signed restore request with the values of a catalog row and a link to the object.\<close>

definition asks_restore :: "file_env \<Rightarrow> request \<Rightarrow> string \<Rightarrow> string \<Rightarrow> string \<Rightarrow> string \<Rightarrow> string \<Rightarrow> json \<Rightarrow> string \<Rightarrow> bool" where
  "asks_restore e rq db url dek_hex nonce_hex tag_hex sha get_url \<longleftrightarrow>
     authentic (fe_saas e) (provisioning_secret (fe_saas e)) rq \<and>
     db_name_pattern db \<and> py_strip db = db \<and> re_whole s3_url_pattern url \<and> py_strip url = url \<and> get_url \<noteq> [] \<and>
     (\<exists>kvs. se_loads (fe_saas e) (if rq_body rq = [] then ''{}'' else rq_body rq) = Inr (JObj kvs) \<and>
        map_of kvs ''db_name'' = Some (JStr db) \<and> map_of kvs ''s3_url'' = Some (JStr url) \<and>
        map_of kvs ''dek_hex'' = Some (JStr dek_hex) \<and> map_of kvs ''nonce_hex'' = Some (JStr nonce_hex) \<and>
        map_of kvs ''tag_hex'' = Some (JStr tag_hex) \<and> map_of kvs ''sha256'' = Some sha \<and>
        map_of kvs ''presigned_get_url'' = Some (JStr get_url))"

lemma get_or_empty_str: "map_of kvs k = Some (JStr s) \<Longrightarrow> get_or_empty (JObj kvs) k = Inr s"
  by (simp add: get_or_empty_def j_or_def)

lemma restore_run:
  assumes "asks_restore e rq db url (hex_of dek) (hex_of nonce) (hex_of tag) (JStr (hex_of sha)) get_url"
    and "length dek = 32" "length nonce = 12" "length sha = 32"
  shows "filestore_restore e rq h =
    (if length tag = 16 then restore_from e db url dek nonce tag (Some (hex_of sha)) (JStr get_url) h
     else (Inr (response_reject 400 ''bad-crypto-params''), h))"
proof -
  from assms(1) obtain kvs where auth: "authentic (fe_saas e) (provisioning_secret (fe_saas e)) rq"
    and kvs: "se_loads (fe_saas e) (if rq_body rq = [] then ''{}'' else rq_body rq) = Inr (JObj kvs)"
    "get_or_empty (JObj kvs) ''db_name'' = Inr db" "get_or_empty (JObj kvs) ''s3_url'' = Inr url"
    "get_or_empty (JObj kvs) ''dek_hex'' = Inr (hex_of dek)" "get_or_empty (JObj kvs) ''nonce_hex'' = Inr (hex_of nonce)"
    "get_or_empty (JObj kvs) ''tag_hex'' = Inr (hex_of tag)"
    "j_get (JObj kvs) ''sha256'' JNull = Inr (JStr (hex_of sha))"
    "j_get (JObj kvs) ''presigned_get_url'' JNull = Inr (JStr get_url)"
    and ok: "db_name_pattern db" "py_strip db = db" "re_whole s3_url_pattern url" "py_strip url = url"
    unfolding asks_restore_def by (auto simp: get_or_empty_str)
  have secret: "provisioning_secret (fe_saas e) \<noteq> []" using auth by (simp add: authentic_def)
  have tag: "re_whole (hex_pattern 32) (hex_of tag) \<longleftrightarrow> length tag = 16"
  proof
    assume "re_whole (hex_pattern 32) (hex_of tag)"
    then obtain n where "n \<in> set (run_lengths hex_char 32 (Some 32) (hex_of tag))"
      and rest: "drop n (hex_of tag) = [] \<or> drop n (hex_of tag) = [CHR 0x0A]"
      by (auto simp: re_whole_def hex_pattern_def list_ex_iff)
    then have "n = 32" by (auto simp: run_lengths_def Let_def)
    with rest have "length (hex_of tag) - 32 \<le> 1" by (metis length_drop list.size(3,4) One_nat_def zero_le_one order_refl add_0)
    moreover have "32 \<le> length (hex_of tag)"
      using \<open>n \<in> _\<close> run_lengths_iff [of n hex_char 32 "Some 32" "hex_of tag"] \<open>n = 32\<close> by simp
    ultimately show "length tag = 16" by simp
  qed simp
  show ?thesis
    using assms(2-4) kvs ok secret tag
    by (simp add: filestore_restore_def signed_envelope_accepts [OF auth] with_payload_def expected_sha_def)
qed

lemma install_run:
  assumes "ho_dirs h root = Some (Dir [(name, Dir kids)])" "fe_move_error e target = None"
    and "ho_dirs h target = None \<or> ho_dirs h (staged_name e target) = None" "target \<noteq> root"
    "staged_name e target \<noteq> root"
  shows "\<exists>h'. install_filestore e root target h = (Inr (), h') \<and> ho_dirs h' target = Some (Dir kids) \<and>
    ho_dirs h' (staged_name e target) = (case ho_dirs h target of None \<Rightarrow> ho_dirs h (staged_name e target) | Some t \<Rightarrow> Some t)"
proof -
  have "staged_name e target \<noteq> target" by (simp add: staged_name_def)
  then show ?thesis
    using assms
    by (cases "ho_dirs h target") (auto simp: install_filestore_def rename_dir_def set_dir_def)
qed

lemma restore_from_run:
  assumes "file_laws e" "fe_get e get_url = Reply status blob" "get_url \<noteq> []"
    and ct: "length blob \<le> max_plaintext_bytes" "fe_unseal e dek nonce (blob @ tag) = Some content"
    and untar: "fe_untar e content = Inr [(db', Dir kids)]"
    and "fe_move_error e (filestore_dir_of e db) = None"
    and "ho_dirs h (filestore_dir_of e db) = None \<or> ho_dirs h (staged_name e (filestore_dir_of e db)) = None"
    and "finite_host h"
  shows "\<exists>h'. restore_from e db url dek nonce tag (Some (hex_of (fe_sha256 e blob))) (JStr get_url) h =
       (Inr (response_ok [(''db_name'', JStr db), (''restored'', JBool True), (''s3_url'', JStr url)]), h') \<and>
     ho_dirs h' (filestore_dir_of e db) = Some (Dir kids) \<and>
     (case ho_dirs h (filestore_dir_of e db) of None \<Rightarrow> True
      | Some old \<Rightarrow> ho_dirs h' (staged_name e (filestore_dir_of e db)) = Some old)"
proof -
  let ?target = "filestore_dir_of e db" and ?ct = "fe_temp_file e ''saas-filestore-restore-'' ''.gcm'' (ho_temp h)"
  have "?ct \<noteq> ?ct @ ''.tar''" by simp
  let ?h2 = "h\<lparr>ho_temp := (ho_temp h)(?ct \<mapsto> blob, ?ct @ ''.tar'' \<mapsto> content)\<rparr>"
  let ?x = "fe_temp_dir e ''saas-filestore-extract-'' (ho_dirs h)"
  let ?h3 = "set_dir ?x (Some (Dir [(db', Dir kids)])) ?h2"
  have fresh: "ho_dirs h ?x = None" "?x \<noteq> ?target" "?x \<noteq> staged_name e ?target"
    using assms(1,9) finite_host_def by (simp_all add: file_laws_def)
  have dirs: "ho_dirs ?h3 ?x = Some (Dir [(db', Dir kids)])" "ho_dirs ?h3 ?target = ho_dirs h ?target"
    "ho_dirs ?h3 (staged_name e ?target) = ho_dirs h (staged_name e ?target)"
    using fresh by (simp_all add: set_dir_def)
  have "ho_dirs ?h3 ?target = None \<or> ho_dirs ?h3 (staged_name e ?target) = None" using assms(8) dirs by simp
  from install_run [OF dirs(1) assms(7) this not_sym [OF fresh(2)] not_sym [OF fresh(3)]]
  obtain h4 where h4: "install_filestore e ?x ?target ?h3 = (Inr (), h4)" "ho_dirs h4 ?target = Some (Dir kids)"
    "ho_dirs h4 (staged_name e ?target) = (case ho_dirs h ?target of None \<Rightarrow> ho_dirs h (staged_name e ?target) | Some t \<Rightarrow> Some t)"
    unfolding dirs by blast
  have "extract_and_install e (?ct @ ''.tar'') ?target ?h2 = (Inr (), set_dir ?x None h4)"
    using h4(1) untar
    by (simp add: extract_and_install_def act_finally_def run_steps set_dir_def fun_upd_def cong: if_cong)
  with \<open>?ct \<noteq> _\<close> ct assms(2,3) show ?thesis
    using h4(2,3) fresh
    by (simp add: restore_from_def temp_file_def act_finally_def run_steps download_def decrypt_to_def set_dir_def
        split: option.splits)
qed

lemma decrypt_large:
  assumes "max_plaintext_bytes < length blob" "fe_get e get_url = Reply status blob"
  shows "\<exists>r h'. restore_from e db url dek nonce tag expected (JStr get_url) h = (r, h') \<and>
     \<not> answered_ok r \<and> ho_dirs h' = ho_dirs h"
proof -
  have "\<not> answered_ok (Inr (response_reject 422 x))" for x by simp
  with assms show ?thesis
    by (auto simp: restore_from_def temp_file_def act_finally_def run_steps download_def decrypt_to_def Let_def
        simp del: answered_ok_simps(3))
qed

text \<open>The signed endpoint of the restore.\<close>

interpretation restore_endpoint:
  signed_endpoint "fe_saas e" "\<lambda>_. provisioning_secret (fe_saas e)" "filestore_restore e" for e
  by unfold_locales (unfold filestore_restore_def, rule provisioning_refuses)

section \<open>No temporary file stays behind\<close>

named_theorems tidy_intros \<open>one rule per way to build an action on files\<close>

text \<open>Outside \<open>A\<close>, every temporary file is as it was, or gone.\<close>

definition tidy :: "string set \<Rightarrow> 'a file_act \<Rightarrow> bool" where
  "tidy A m \<longleftrightarrow> (\<forall>h p. p \<notin> A \<longrightarrow> ho_temp (snd (m h)) p \<in> {ho_temp h p, None})"

lemma tidyI: "(\<And>h p. p \<notin> A \<Longrightarrow> ho_temp (snd (m h)) p \<in> {ho_temp h p, None}) \<Longrightarrow> tidy A m"
  unfolding tidy_def by blast

lemma tidyD: "tidy A m \<Longrightarrow> m h = (r, h') \<Longrightarrow> p \<notin> A \<Longrightarrow> ho_temp h' p = ho_temp h p \<or> ho_temp h' p = None"
  unfolding tidy_def by (metis insertE singletonD snd_conv)

lemma tidy_same: "(\<And>h. ho_temp (snd (m h)) = ho_temp h) \<Longrightarrow> tidy A m"
  by (simp add: tidy_def)

lemma tidy_basic [tidy_intros]:
  "tidy A (act_return x)" "tidy A (act_raise y)" "tidy A (act_lift r)" "tidy A (act_read g)" "tidy A (send z)"
  "tidy A (act_modify (set_dir path tree))" "tidy A (read_file path)" "tidy A (try_unlink e path)"
  "tidy A (rename_dir src dst)"
  by (auto simp: tidy_def run_steps set_dir_def rename_dir_def split: option.splits)

lemma tidy_write [tidy_intros]: "path \<in> A \<Longrightarrow> tidy A (write_file path b)"
  by (auto simp: tidy_def run_steps)

lemma tidy_bind [tidy_intros]:
  assumes "tidy A m" "\<And>x. tidy A (k x)"
  shows "tidy A (act_bind m k)"
proof (rule tidyI)
  fix h p
  assume p: "p \<notin> A"
  obtain r h1 where m: "m h = (r, h1)" by fastforce
  show "ho_temp (snd (act_bind m k h)) p \<in> {ho_temp h p, None}"
  proof (cases r)
    case (Inr x)
    obtain r2 h2 where k: "k x h1 = (r2, h2)" by fastforce
    show ?thesis using tidyD [OF assms(1) m p] tidyD [OF assms(2) k p] m k Inr by auto
  qed (use tidyD [OF assms(1) m p] m in auto)
qed

lemma tidy_finally [tidy_intros]:
  assumes "tidy (insert path A) m" "\<not> fe_unlink_fails e path"
  shows "tidy A (act_finally m (try_unlink e path))"
proof (rule tidyI)
  fix h p
  assume p: "p \<notin> A"
  obtain r h1 where m: "m h = (r, h1)" by fastforce
  show "ho_temp (snd (act_finally m (try_unlink e path) h)) p \<in> {ho_temp h p, None}"
    using tidyD [OF assms(1) m, of p] p m assms(2) by (auto simp: act_finally_snd_cases run_steps)
qed

lemma tidy_finally_dir [tidy_intros]: "tidy A m \<Longrightarrow> tidy A (act_finally m (act_modify (set_dir path tree)))"
  by (auto simp: tidy_def act_finally_snd_cases set_dir_def)

text \<open>A temporary file, what is done with it, its removal, and what follows.\<close>

lemma tidy_temp_file [tidy_intros]:
  assumes "\<And>path. tidy (insert path A) (body path)" "\<And>path. \<not> fe_unlink_fails e path"
  shows "tidy A (act_bind (temp_file e a b) (\<lambda>path. act_finally (body path) (try_unlink e path)))"
proof (rule tidyI)
  fix h :: host and p
  assume p: "p \<notin> A"
  let ?f = "fe_temp_file e a b (ho_temp h)"
  let ?h0 = "h\<lparr>ho_temp := (ho_temp h)(?f \<mapsto> [])\<rparr>"
  obtain r h1 where m: "body ?f ?h0 = (r, h1)" by fastforce
  show "ho_temp (snd (act_bind (temp_file e a b) (\<lambda>path. act_finally (body path) (try_unlink e path)) h)) p
      \<in> {ho_temp h p, None}"
    using tidyD [OF assms(1) m, of p] p m assms(2) [of ?f]
    by (auto simp: temp_file_def run_steps act_finally_def)
qed

lemma tidy_temp_file_then [tidy_intros]:
  assumes "tidy A (act_bind (temp_file e a b) m)" "tidy A n"
  shows "tidy A (act_bind (temp_file e a b) (\<lambda>path. act_seq (m path) n))"
proof -
  have "act_bind (temp_file e a b) (\<lambda>path. act_seq (m path) n) = act_seq (act_bind (temp_file e a b) m) n"
    by (rule ext) (auto split: prod.splits sum.splits)
  with assms show ?thesis by (metis tidy_bind)
qed

lemma tidy_split [tidy_intros]:
  "(c \<Longrightarrow> tidy A m) \<Longrightarrow> (\<not> c \<Longrightarrow> tidy A n) \<Longrightarrow> tidy A (if c then m else n)"
  "tidy A (f x) \<Longrightarrow> tidy A (let y = x in f y)"
  by auto

lemma tidy_cases [tidy_intros]:
  "(\<And>y. x = Inl y \<Longrightarrow> tidy A (f1 y)) \<Longrightarrow> (\<And>y. x = Inr y \<Longrightarrow> tidy A (f2 y)) \<Longrightarrow>
     tidy A (case x of Inl y \<Rightarrow> f1 y | Inr y \<Rightarrow> f2 y)"
  "tidy A m \<Longrightarrow> (\<And>y. tidy A (g y)) \<Longrightarrow> tidy A (case z of None \<Rightarrow> m | Some y \<Rightarrow> g y)"
  "(\<And>n y. tidy A (r1 n y)) \<Longrightarrow> (\<And>n y. tidy A (r2 n y)) \<Longrightarrow> (\<And>y. tidy A (r3 y)) \<Longrightarrow>
     tidy A (case reply of Reply n y \<Rightarrow> r1 n y | HttpError n y \<Rightarrow> r2 n y | UrlError y \<Rightarrow> r3 y)"
  "(\<And>y. tidy A (n1 y)) \<Longrightarrow> (\<And>y. tidy A (n2 y)) \<Longrightarrow> tidy A (case tree of File y \<Rightarrow> n1 y | Dir y \<Rightarrow> n2 y)"
  "(\<And>y y'. tidy A (p1 y y')) \<Longrightarrow> tidy A (case pair of (y, y') \<Rightarrow> p1 y y')"
  "tidy A m \<Longrightarrow> (\<And>y ys. tidy A (l1 y ys)) \<Longrightarrow> tidy A (case rows of [] \<Rightarrow> m | y # ys \<Rightarrow> l1 y ys)"
  by (auto split: sum.splits option.splits reply.splits node.splits list.splits prod.splits)

lemma tidy_signed_post [tidy_intros]: "tidy A (signed_post e url secret body)"
  by (rule tidy_same) (use signed_post_sent in \<open>metis (no_types, lifting) host.select_convs(2) host.surjective host.update_convs(3) prod.collapse\<close>)

lemma tidy_put [tidy_intros]: "tidy A (put_to_s3 e url p)"
  unfolding put_to_s3_def by (intro tidy_intros)

lemma tidy_ship [tidy_intros]: "tidy (insert ct A) (ship e endpoint secret creds dek p n ct)"
  unfolding ship_def encrypt_to_def complete_def by (intro tidy_intros) auto

lemma tidy_run_backup:
  assumes "\<And>path. \<not> fe_unlink_fails e path"
  shows "tidy {} (run_backup e)"
  unfolding run_backup_def issue_credentials_def tar_filestore_def
  by (intro tidy_intros assms) auto

lemma tidy_install [tidy_intros]: "tidy A (install_filestore e root target)"
proof -
  have "tidy A (\<lambda>h. if ho_dirs h target \<noteq> None then rename_dir target (staged_name e target) h else (Inr (), h))"
    by (auto simp: tidy_def rename_dir_def set_dir_def)
  then show ?thesis unfolding install_filestore_def by (intro tidy_intros)
qed

lemma tidy_restore_from [tidy_intros]:
  assumes "\<And>path. \<not> fe_unlink_fails e path"
  shows "tidy A (restore_from e db url dek nonce tag expected get_url)"
  unfolding restore_from_def download_def decrypt_to_def extract_and_install_def
  by (intro tidy_intros assms) auto

lemma tidy_signed_envelope [tidy_intros]: "tidy A k \<Longrightarrow> tidy A (signed_envelope e reject secret rq k)"
  unfolding signed_envelope_def by (intro tidy_intros)

lemma tidy_with_payload [tidy_intros]: "(\<And>payload. tidy A (k payload)) \<Longrightarrow> tidy A (with_payload e rq k)"
  by (auto simp: with_payload_def tidy_def split: sum.splits py_exn.splits)

lemma tidy_restore:
  assumes "\<And>path. \<not> fe_unlink_fails e path"
  shows "tidy {} (filestore_restore e rq)"
  unfolding filestore_restore_def by (intro tidy_intros assms)

section \<open>No filestore is lost\<close>

text \<open>Every tree with content is still at its path, or aside under the name for that path.\<close>

definition kept :: "file_env \<Rightarrow> host \<Rightarrow> host \<Rightarrow> bool" where
  "kept e h h' \<longleftrightarrow>
     (\<forall>d t. ho_dirs h d = Some t \<and> t \<noteq> Dir [] \<longrightarrow> ho_dirs h' d = Some t \<or> ho_dirs h' (staged_name e d) = Some t)"

lemma kept_same: "ho_dirs h' = ho_dirs h \<Longrightarrow> kept e h h'"
  by (simp add: kept_def)

lemma extract_kept:
  assumes "file_laws e" "finite (dom (ho_dirs h))"
  shows "kept e h (snd (extract_and_install e p (filestore_dir_of e db) h))"
  unfolding kept_def
proof (intro allI impI)
  fix d t
  assume d: "ho_dirs h d = Some t \<and> t \<noteq> Dir []"
  let ?x = "fe_temp_dir e ''saas-filestore-extract-'' (ho_dirs h)" and ?target = "filestore_dir_of e db"
  have fresh: "ho_dirs h ?x = None" "?x \<noteq> ?target" "?x \<noteq> staged_name e ?target" using assms by (simp_all add: file_laws_def)
  with d have "d \<noteq> ?x" by auto
  have staged: "staged_name e ?target \<noteq> ?target" by (simp add: staged_name_def)
  let ?h1 = "\<lambda>kids. set_dir ?x (Some (Dir kids)) h"
  have inst: "ho_dirs h2 d = Some t \<or> d = ?target \<and> ho_dirs h2 (staged_name e ?target) = Some t"
    if "install_filestore e ?x ?target (?h1 kids) = (r, h2)" for kids r h2
    using that d \<open>d \<noteq> ?x\<close> fresh staged
    by (auto simp: install_filestore_def rename_dir_def set_dir_def split: list.splits node.splits option.splits if_splits)
  have again: "set_dir ?x (Some (Dir kids)) (?h1 []) = ?h1 kids" for kids by (simp add: set_dir_def)
  show "ho_dirs (snd (extract_and_install e p ?target h)) d = Some t \<or>
    ho_dirs (snd (extract_and_install e p ?target h)) (staged_name e d) = Some t"
  proof (cases "ho_temp h p")
    case None
    then show ?thesis using d \<open>d \<noteq> ?x\<close>
      by (simp add: extract_and_install_def act_finally_def run_steps set_dir_def)
  next
    case (Some content)
    show ?thesis
    proof (cases "fe_untar e content")
      case (Inl x)
      with Some show ?thesis using d \<open>d \<noteq> ?x\<close>
        by (simp add: extract_and_install_def act_finally_def run_steps set_dir_def)
    next
      case (Inr kids)
      obtain r h2 where h2: "install_filestore e ?x ?target (?h1 kids) = (r, h2)" by fastforce
      have "snd (extract_and_install e p ?target h) = set_dir ?x None h2"
        using Some Inr h2 again [of kids]
        by (auto simp: extract_and_install_def act_finally_snd_cases run_steps set_dir_def)
      with inst [OF h2] \<open>d \<noteq> ?x\<close> fresh show ?thesis by (auto simp: set_dir_def)
    qed
  qed
qed

lemma decrypt_to_dirs: "ho_dirs (snd (decrypt_to e a b dek nonce tag h)) = ho_dirs h"
  by (auto simp: decrypt_to_def run_steps split: option.splits)

lemma download_dirs: "ho_dirs (snd (download e url get_url p h)) = ho_dirs h"
  by (auto simp: download_def run_steps split: reply.splits sum.splits)

lemma unlink_dirs: "ho_dirs (snd (try_unlink e p h)) = ho_dirs h"
  by (simp add: run_steps)

lemma kept_finally: "kept e h (snd (m h)) \<Longrightarrow> kept e h (snd (act_finally m (try_unlink e' p) h))"
  by (simp add: act_finally_snd_cases kept_def unlink_dirs)

lemma kept_seq:
  assumes "ho_dirs (snd (m h)) = ho_dirs h" "\<And>h1 x. ho_dirs h1 = ho_dirs h \<Longrightarrow> kept e h (snd (k x h1))"
  shows "kept e h (snd (act_bind m k h))"
  using assms by (cases "m h"; cases "fst (m h)") (auto intro: kept_same)

lemma kept_trans_same: "ho_dirs h1 = ho_dirs h \<Longrightarrow> kept e h1 h2 \<Longrightarrow> kept e h h2"
  by (simp add: kept_def)

lemma kept_seq_return:
  assumes "kept e h (snd (m h))"
  shows "kept e h (snd (act_seq m (act_return x) h))"
  using assms by (cases "m h"; cases "fst (m h)") auto

lemma kept_return: "kept e h (snd (act_return x h))"
  by (simp add: kept_same)

lemma decrypt_and_install_kept:
  assumes "file_laws e" "finite (dom (ho_dirs h))"
  shows "kept e h (snd (act_seq (decrypt_to e ct p dek nonce tag) (extract_and_install e p (filestore_dir_of e db)) h))"
proof (rule kept_seq, rule decrypt_to_dirs)
  fix h1 :: host and x :: unit
  assume same: "ho_dirs h1 = ho_dirs h"
  with assms show "kept e h (snd (extract_and_install e p (filestore_dir_of e db) h1))"
    by (intro kept_trans_same [OF same] extract_kept) simp_all
qed

lemma restore_from_kept:
  assumes "file_laws e" "finite (dom (ho_dirs h))"
  shows "kept e h (snd (restore_from e db url dek nonce tag expected get_url h))"
  unfolding restore_from_def Let_def
proof (rule kept_seq, goal_cases)
  case 1
  then show ?case by (simp add: temp_file_def run_steps)
next
  case (2 h1 path)
  show ?case
  proof (rule kept_trans_same [OF 2], rule kept_finally, rule kept_seq, rule download_dirs, goal_cases)
    case (1 h2 _)
    show ?case
    proof (rule kept_trans_same [OF 1], rule kept_seq, goal_cases)
      case 1
      then show ?case by (simp add: run_steps split: option.split)
    next
      case (2 h3 ct)
      then have "finite (dom (ho_dirs h3))" using \<open>ho_dirs h1 = ho_dirs h\<close> 1 assms(2) by simp
      note decrypt_and_install_kept = decrypt_and_install_kept [OF assms(1) this]
      have "kept e h3 (snd ((if b then act_return x else act_seq (act_finally (act_seq (decrypt_to e path p dek nonce tag)
          (extract_and_install e p (filestore_dir_of e db))) (try_unlink e p)) (act_return y)) h3))" for b x y p
        by (cases b) (simp_all add: kept_return decrypt_and_install_kept kept_finally kept_seq_return del: act_bind_def act_return_def)
      then show ?case by (rule kept_trans_same [OF 2])
    qed
  qed
qed

text \<open>An object beyond the limit is refused whatever the request says.\<close>

definition refused :: "host \<Rightarrow> (py_exn + response) \<times> host \<Rightarrow> bool" where
  "refused h res \<longleftrightarrow> \<not> answered_ok (fst res) \<and> ho_dirs (snd res) = ho_dirs h"

lemma refused_basic:
  "st \<noteq> 200 \<Longrightarrow> refused h (act_return (response_reject st reason) h)"
  "refused h (act_raise x h)"
  by (simp_all add: refused_def)

lemma refused_lift: "(\<And>x. refused h (k x h)) \<Longrightarrow> refused h (act_bind (act_lift r) k h)"
  by (cases r) (simp_all add: refused_def)

lemma refused_if: "refused h (m h) \<Longrightarrow> refused h (n h) \<Longrightarrow> refused h ((if b then m else n) h)"
  by simp

lemma refused_envelope: "refused h (k h) \<Longrightarrow> refused h (signed_envelope e response_reject secret rq k h)"
  by (auto simp: signed_envelope_def Let_def refused_def compare_digest_def split: option.splits)

lemma refused_payload: "(\<And>payload. refused h (k payload h)) \<Longrightarrow> refused h (with_payload e rq k h)"
  by (auto simp: with_payload_def refused_def split: sum.splits py_exn.splits)

lemma restore_refuses_large:
  assumes "max_plaintext_bytes < length blob" "\<And>url. fe_get e url = Reply 200 blob"
  shows "\<not> answered_ok (fst (filestore_restore e rq h)) \<and> ho_dirs (snd (filestore_restore e rq h)) = ho_dirs h"
proof -
  have from_: "refused h (restore_from e db url dek nonce tag expected get_url h)" for db url dek nonce tag expected get_url
  proof (cases get_url)
    case (JStr u)
    with decrypt_large [OF assms(1,2)] show ?thesis unfolding refused_def by (metis fst_conv snd_conv)
  qed (auto simp: restore_from_def temp_file_def act_finally_def run_steps download_def refused_def)
  have "refused h (filestore_restore e rq h)"
    unfolding filestore_restore_def
    by (intro refused_if refused_basic refused_envelope refused_payload refused_lift from_) simp_all
  then show ?thesis by (simp add: refused_def)
qed

section \<open>Properties\<close>

text \<open>
  C14: A backup run that returns True on a filestore whose tar has at most 256 MiB has uploaded an object
  and written a catalog row with its nonce, tag and hash, and a signed restore request with
  these values, the data key and a link that serves the object puts the very tree in place on
  the other host, with what stood there before kept aside.
\<close>

theorem backup_then_restore:
  assumes "file_laws e" "run_backup e h = (Inr True, h')"
    and "ho_dirs h (fe_filestore e) = Some tree" "fe_tar e (fe_db e) tree = Inr content" "length content \<le> v1_oneshot_cap"
    and "finite_host h"
  shows "\<exists>dek nonce tag blob. backed_up e h h' nonce tag blob \<and>
     (\<forall>e' rq h2 db url get_url status.
        file_laws e' \<and> finite_host h2 \<and> fe_unseal e' = fe_unseal e \<and> fe_untar e' = fe_untar e \<and> fe_sha256 e' = fe_sha256 e \<and>
        asks_restore e' rq db url (hex_of dek) (hex_of nonce) (hex_of tag) (JStr (hex_of (fe_sha256 e blob))) get_url \<and>
        fe_get e' get_url = Reply status blob \<and> fe_move_error e' (filestore_dir_of e' db) = None \<and>
        (ho_dirs h2 (filestore_dir_of e' db) = None \<or> ho_dirs h2 (staged_name e' (filestore_dir_of e' db)) = None) \<longrightarrow>
        (\<exists>h3. filestore_restore e' rq h2 =
             (Inr (response_ok [(''db_name'', JStr db), (''restored'', JBool True), (''s3_url'', JStr url)]), h3) \<and>
           ho_dirs h3 (filestore_dir_of e' db) = Some tree \<and>
           (case ho_dirs h2 (filestore_dir_of e' db) of None \<Rightarrow> True
            | Some old \<Rightarrow> ho_dirs h3 (staged_name e' (filestore_dir_of e' db)) = Some old)))"
proof -
  from run_backup_sent [OF assms(1-3,6)] assms(4) obtain dek nonce tag blob where
    dek: "length dek = 32" and enc: "encrypt_file (fe_seal e) dek (fe_token e 12) content = Inr (nonce, tag, blob)"
    and rec: "backed_up e h h' nonce tag blob" by auto
  have aead: "aead (fe_seal e) (fe_unseal e)" using assms(1) by (simp add: file_laws_def)
  note v1 = encrypt_small [OF enc assms(5) aead]
  have "length nonce = 12" using v1(1) assms(1) by (simp add: file_laws_def)
  moreover have "length blob \<le> max_plaintext_bytes"
    using v1(3) assms(5) by (simp add: max_plaintext_bytes_def v1_oneshot_cap_def)
  moreover have "fe_unseal e dek nonce (blob @ tag) = Some content" using v1(1,4) aead by (simp add: aead_def)
  moreover obtain kids where "tree = Dir kids"
    using assms(2,3) by (cases tree) (auto simp: run_backup_def Let_def split: if_splits)
  moreover have "fe_untar e content = Inr [(fe_db e, tree)]" using assms(1,4) by (simp add: file_laws_def)
  moreover have "length (fe_sha256 e blob) = 32" using assms(1) by (simp add: file_laws_def)
  ultimately have run: "\<exists>h3. filestore_restore e' rq h2 =
        (Inr (response_ok [(''db_name'', JStr db), (''restored'', JBool True), (''s3_url'', JStr url)]), h3) \<and>
      ho_dirs h3 (filestore_dir_of e' db) = Some tree \<and>
      (case ho_dirs h2 (filestore_dir_of e' db) of None \<Rightarrow> True
       | Some old \<Rightarrow> ho_dirs h3 (staged_name e' (filestore_dir_of e' db)) = Some old)"
    if "file_laws e'" "finite_host h2" "fe_unseal e' = fe_unseal e" "fe_untar e' = fe_untar e" "fe_sha256 e' = fe_sha256 e"
      and ask: "asks_restore e' rq db url (hex_of dek) (hex_of nonce) (hex_of tag) (JStr (hex_of (fe_sha256 e blob))) get_url"
      and "fe_get e' get_url = Reply status blob" "fe_move_error e' (filestore_dir_of e' db) = None"
      "ho_dirs h2 (filestore_dir_of e' db) = None \<or> ho_dirs h2 (staged_name e' (filestore_dir_of e' db)) = None"
    for e' rq h2 db url get_url status
    using that dek v1(2) restore_run [OF ask, of h2]
      restore_from_run [of e' get_url status blob dek nonce tag content "fe_db e" kids db h2 url]
    by (simp add: asks_restore_def)
  show ?thesis
    by (rule exI [of _ dek], rule exI [of _ nonce], rule exI [of _ tag], rule exI [of _ blob],
        intro conjI rec allI impI, elim conjE, rule run)
qed

text \<open>
  A backup run of a filestore whose tar has more than 256 MiB still returns True and writes its
  catalog row, with an empty tag, but no request whatever that downloads the object it uploaded
  makes the restore endpoint answer 200 or change a directory; the request with the values of
  the catalog is refused for its tag.
\<close>

theorem large_backup_not_restorable:
  assumes "file_laws e" "run_backup e h = (Inr True, h')"
    and "ho_dirs h (fe_filestore e) = Some tree" "fe_tar e (fe_db e) tree = Inr content" "v1_oneshot_cap < length content"
    and "finite_host h" "length content < 2 ^ 51"
  shows "\<exists>dek nonce blob. backed_up e h h' nonce [] blob \<and>
     (\<forall>e' rq h2 db url get_url sha. length sha = 32 \<and>
        asks_restore e' rq db url (hex_of dek) (hex_of nonce) [] (JStr (hex_of sha)) get_url \<longrightarrow>
        filestore_restore e' rq h2 = (Inr (response_reject 400 ''bad-crypto-params''), h2)) \<and>
     (\<forall>e' rq h2. (\<forall>url. fe_get e' url = Reply 200 blob) \<longrightarrow>
        \<not> answered_ok (fst (filestore_restore e' rq h2)) \<and> ho_dirs (snd (filestore_restore e' rq h2)) = ho_dirs h2)"
proof -
  from run_backup_sent [OF assms(1-3,6)] assms(4) obtain dek nonce tag blob where
    dek: "length dek = 32" and enc: "encrypt_file (fe_seal e) dek (fe_token e 12) content = Inr (nonce, tag, blob)"
    and rec: "backed_up e h h' nonce tag blob" by auto
  have aead: "aead (fe_seal e) (fe_unseal e)" using assms(1) by (simp add: file_laws_def)
  have len: "length (fe_token e 12) = 12" using assms(1) by (simp add: file_laws_def)
  note large = encrypt_large [OF enc assms(5) aead assms(7)]
  have big: "max_plaintext_bytes < length blob"
    using large(3) assms(5) by (simp add: max_plaintext_bytes_def v1_oneshot_cap_def)
  have catalog: "filestore_restore e' rq h2 = (Inr (response_reject 400 ''bad-crypto-params''), h2)"
    if "length sha = 32" "asks_restore e' rq db url (hex_of dek) (hex_of nonce) [] (JStr (hex_of sha)) get_url"
    for e' rq h2 db url get_url sha
    using restore_run [of e' rq db url dek nonce "[]" sha get_url h2] that dek large(1) len by simp
  have any: "\<not> answered_ok (fst (filestore_restore e' rq h2)) \<and> ho_dirs (snd (filestore_restore e' rq h2)) = ho_dirs h2"
    if "\<And>url. fe_get e' url = Reply 200 blob" for e' rq h2
    using restore_refuses_large [OF big that] by (metis prod.collapse)
  from rec large(2) have "backed_up e h h' nonce [] blob" by simp
  with catalog any show ?thesis by blast
qed

text \<open>
  As long as files can be removed, neither a backup run nor a restore request leaves a temporary
  file behind, however it ends: a plain tar of the tenant's files is never left in /tmp.
\<close>

theorem transfers_leave_no_temp_file:
  assumes "\<And>path. \<not> fe_unlink_fails e path"
  shows "ho_temp (snd (run_backup e h)) \<subseteq>\<^sub>m ho_temp h \<and> ho_temp (snd (filestore_restore e rq h)) \<subseteq>\<^sub>m ho_temp h"
  using tidy_run_backup [OF assms] tidy_restore [OF assms, where rq = rq]
  by (simp add: tidy_def map_le_def) (metis domI domD option.distinct(1))

text \<open>
  A restore request changes directories only when it is signed, and whatever tree with content
  stood anywhere before is afterwards still there or aside under its dated name, however the
  request ends.
\<close>

theorem restore_keeps_filestores:
  assumes "file_laws e" "finite_host h"
  shows "(ho_dirs (snd (filestore_restore e rq h)) = ho_dirs h \<or> authentic (fe_saas e) (provisioning_secret (fe_saas e)) rq) \<and>
     kept e h (snd (filestore_restore e rq h))"
proof -
  have "valid (\<lambda>h0. h0 = h) (kept e) (filestore_restore e rq)"
    unfolding filestore_restore_def
    by (intro valid_intros valid_signed_envelope valid_with_payload validI)
      (use assms in \<open>auto simp: kept_same finite_host_def intro: restore_from_kept\<close>)
  then have "kept e h (snd (filestore_restore e rq h))" by (simp add: valid_def)
  moreover have "ho_dirs (snd (filestore_restore e rq h)) = ho_dirs h \<or> authentic (fe_saas e) (provisioning_secret (fe_saas e)) rq"
    using restore_endpoint.acts_only_if_authentic [of e rq h] by (metis prod.collapse)
  ultimately show ?thesis by blast
qed

section \<open>Witnesses\<close>

text \<open>A host that serves and stores one tree; its tar is \<open>content\<close>, its digests are zero.\<close>

definition fresh_name :: "string \<Rightarrow> (string \<rightharpoonup> 'a) \<Rightarrow> string" where
  "fresh_name a m = a @ replicate (Suc (Max (insert 0 (length ` dom m)))) (CHR ''x'')"

lemma fresh_name_new: "finite (dom m) \<Longrightarrow> m (fresh_name a m) = None"
proof (rule ccontr)
  assume f: "finite (dom m)" and "m (fresh_name a m) \<noteq> None"
  then have "length (fresh_name a m) \<in> length ` dom m" by blast
  with f have "length (fresh_name a m) \<le> Max (insert 0 (length ` dom m))" by (intro Max_ge) auto
  then show False by (simp add: fresh_name_def)
qed

definition example_tree :: node where "example_tree = Dir [(''a'', File [1])]"

definition example_row :: "(string \<times> json) list" where
  "example_row =
     [(''ok'', JBool True), (''dekHex'', JStr (hex_of (replicate 32 0))), (''putUrl'', JStr ''u''), (''s3Key'', JStr ''k''),
      (''kmsCmkArn'', JStr ''arn''), (''db_name'', JStr ''acme''),
      (''s3_url'', JStr ''s3://b/tenants/a/filestore/2026-01-31.tar.gcm''), (''dek_hex'', JStr (hex_of (replicate 32 0))),
      (''nonce_hex'', JStr (hex_of (replicate 12 0))), (''tag_hex'', JStr (hex_of (replicate 16 7))),
      (''sha256'', JStr (hex_of (replicate 32 0))), (''presigned_get_url'', JStr ''g'')]"

definition example_files :: "bytes \<Rightarrow> file_env" where
  "example_files content =
     \<lparr>fe_saas = example_saas\<lparr>se_loads := \<lambda>_. Inr (JObj example_row)\<rparr>, fe_db = ''acme'',
      fe_params = [''saas.tenant_id'' \<mapsto> ''t'', ''saas.filestore_backup_endpoint'' \<mapsto> ''e''], fe_filestore = ''f'',
      fe_data_dir = ''/data'', fe_temp_file = (\<lambda>a b temp. fresh_name a temp), fe_temp_dir = (\<lambda>a. fresh_name ''t''),
      fe_unlink_fails = (\<lambda>_. False),
      fe_tar = (\<lambda>db tree. if db = ''acme'' \<and> tree = example_tree then Inr content else Inl (LibError db)),
      fe_untar = (\<lambda>_. Inr [(''acme'', example_tree)]), fe_move_error = (\<lambda>_. None), fe_token = (\<lambda>n. replicate n 0),
      fe_seal = example_seal, fe_unseal = example_unseal, fe_sha256 = (\<lambda>_. replicate 32 0),
      fe_post = (\<lambda>_ _. Reply 200 ''r''), fe_put = (\<lambda>_ _. Reply 200 ()), fe_get = (\<lambda>_. Reply 200 content)\<rparr>"

definition example_host :: host where
  "example_host = \<lparr>ho_dirs = [''f'' \<mapsto> example_tree], ho_temp = Map.empty, ho_sent = []\<rparr>"

lemma example_file_laws: "file_laws (example_files content)"
proof -
  let ?e = "example_files content"
  have target: "filestore_dir_of ?e db = (if prefix ''/'' db then db else ''/data/filestore/'' @ db)" for db
    by (simp add: filestore_dir_of_def os_join_def example_files_def)
  have slash: "\<exists>rest. filestore_dir_of ?e db = CHR ''/'' # rest" for db
    unfolding target by (auto simp: prefix_def)
  then have staged: "\<exists>rest. staged_name ?e (filestore_dir_of ?e db) = CHR ''/'' # rest" for db
    unfolding staged_name_def by (metis append_Cons)
  have temp: "\<exists>rest. fe_temp_dir ?e a dirs = CHR ''t'' # rest" for a dirs
    by (simp add: example_files_def fresh_name_def)
  have "fe_temp_dir ?e a dirs \<noteq> filestore_dir_of ?e db \<and> fe_temp_dir ?e a dirs \<noteq> staged_name ?e (filestore_dir_of ?e db)"
    for a dirs db
    using slash [of db] staged [of db] temp [of a dirs] by auto
  moreover have "aead (fe_seal ?e) (fe_unseal ?e)" "length (fe_token ?e n) = n" "length (fe_sha256 ?e b) = 32"
    "finite (dom temp) \<Longrightarrow> temp (fe_temp_file ?e a c temp) = None" "finite (dom dirs) \<Longrightarrow> dirs (fe_temp_dir ?e a dirs) = None"
    "fe_tar ?e db tree = Inr content' \<Longrightarrow> fe_untar ?e content' = Inr [(db, tree)]"
    for n b a c temp dirs db tree content'
    by (simp_all add: example_files_def fresh_name_new example_aead split: if_splits)
  ultimately show ?thesis unfolding file_laws_def by blast
qed

lemma example_finite: "finite_host example_host"
  by (simp add: finite_host_def example_host_def)

lemma example_backup:
  assumes "encrypt_file example_seal (replicate 32 0) (replicate 12 0) content = Inr (nonce, tag, blob)"
  shows "fst (run_backup (example_files content) example_host) = Inr True"
proof -
  let ?e = "example_files content"
  have cfg: "provisioning_secret (fe_saas ?e) = ''x''" "get_param (fe_params ?e) ''saas.tenant_id'' [] = ''t''"
    "get_param (fe_params ?e) ''saas.filestore_backup_endpoint'' [] = ''e''" "fe_filestore ?e = ''f''"
    by (simp_all add: example_files_def provisioning_secret_def example_saas_def example_values get_param_def py_or_def)
  have "\<exists>x. signed_post ?e url secret body h = (Inr (JObj example_row), h\<lparr>ho_sent := x\<rparr>)" for url secret body h
    by (intro exI) (simp add: signed_post_def post_answer_def run_steps Let_def example_files_def example_row_def)
  then obtain f where post: "\<And>url secret body h. signed_post ?e url secret body h = (Inr (JObj example_row), h\<lparr>ho_sent := f url secret body h\<rparr>)"
    by metis
  obtain dek where dek: "dek_of (JObj example_row) = Inr dek" "dek = replicate 32 0"
    by (simp add: dek_of_def j_item_def example_row_def del: hex_of_simps)
  have row: "j_item (JObj example_row) ''putUrl'' = Inr (JStr ''u'')" "j_item (JObj example_row) ''s3Key'' = Inr (JStr ''k'')"
    "j_item (JObj example_row) ''kmsCmkArn'' = Inr (JStr ''arn'')"
    by (simp_all add: j_item_def example_row_def)
  have env: "fe_db ?e = ''acme''" "fe_tar ?e ''acme'' example_tree = Inr content"
    "\<And>p. \<not> fe_unlink_fails ?e p" "\<And>u b. fe_put ?e u b = Reply 200 ()" "\<And>a b temp. fe_temp_file ?e a b temp = fresh_name a temp"
    by (simp_all add: example_files_def)
  have enc: "encrypt_file (fe_seal ?e) dek (fe_token ?e 12) content = Inr (nonce, tag, blob)"
    using assms unfolding dek(2) by (simp add: example_files_def)
  let ?p = "fresh_name (temp_prefix ?e) (Map.empty :: string \<rightharpoonup> bytes)"
  let ?m = "[?p \<mapsto> content]"
  let ?ct = "fresh_name (temp_prefix ?e) ?m"
  have new: "?ct \<noteq> ?p" using fresh_name_new [of ?m "temp_prefix ?e"] by auto
  have ship: "\<exists>h1. ship ?e ''e'' ''x'' (JObj example_row) dek ?p n ?ct h = (Inr (), h1)"
    if "ho_temp h ?p = Some content" for h n
    using that new by (simp add: ship_def encrypt_to_def run_steps enc row put_to_s3_def complete_def post env)
  obtain tree where tree: "example_tree = Dir tree" by (simp add: example_tree_def)
  let ?h = "example_host\<lparr>ho_temp := ?m, ho_sent := f ''e/issue-credentials'' ''x'' (JObj [(''tenant_slug'', JStr ''acme'')])
      (example_host\<lparr>ho_temp := ?m\<rparr>)\<rparr>"
  let ?h' = "?h\<lparr>ho_temp := ?m(?ct \<mapsto> [])\<rparr>"
  obtain h1 where h1: "ship ?e ''e'' ''x'' (JObj example_row) dek ?p (length content) ?ct ?h' = (Inr (), h1)"
    using ship [of ?h' "length content"] new by auto
  have "py_rstrip_char (CHR ''/'') ''e'' = ''e''" by code_simp
  then show ?thesis
    using h1 env(2) unfolding tree
    by (simp add: run_backup_def cfg example_host_def tree temp_file_def run_steps tar_filestore_def env act_finally_def
        issue_credentials_def post dek(1) Let_def)
qed

lemma example_restore_asks:
  "asks_restore (example_files content) example_request ''acme'' ''s3://b/tenants/a/filestore/2026-01-31.tar.gcm''
     (hex_of (replicate 32 0)) (hex_of (replicate 12 0)) (hex_of (replicate 16 7)) (JStr (hex_of (replicate 32 0))) ''g''"
proof -
  have "py_strip ''s3://b/tenants/a/filestore/2026-01-31.tar.gcm'' = ''s3://b/tenants/a/filestore/2026-01-31.tar.gcm''"
    "re_whole s3_url_pattern ''s3://b/tenants/a/filestore/2026-01-31.tar.gcm''"
    by code_simp+
  then show ?thesis
    by (simp add: asks_restore_def example_files_def example_row_def example_values example_saas_def provisioning_secret_def
       authentic_def header_def example_request_def max_drift_seconds_def sign_def del: hex_of_simps)
qed

lemma example_encrypt:
  "\<exists>nonce tag blob. encrypt_file example_seal (replicate 32 0) (replicate 12 0) content = Inr (nonce, tag, blob)"
  if "length content < 2 ^ 51"
proof (cases "length content \<le> v1_oneshot_cap")
  case True
  then show ?thesis by (simp add: encrypt_file_def) (metis prod_cases3)
next
  case False
  have "chunk_count v2_default_chunk (length content) < 2 ^ 32"
    using that by (simp add: chunk_count_def v2_default_chunk_def div_less_iff_less_mult)
  with chunks_roundtrip [OF example_aead, of v2_default_chunk 0 content "replicate 32 0" "replicate 12 0"] False
  show ?thesis by (auto simp: encrypt_file_def encrypt_file_v2_def pack_u32_def v2_default_chunk_def)
qed

lemma example_run:
  assumes "length content < 2 ^ 51"
  shows "run_backup (example_files content) example_host = (Inr True, snd (run_backup (example_files content) example_host))"
  using example_encrypt [OF assms] example_backup by (metis prod.collapse)

lemma example_tar:
  "ho_dirs example_host (fe_filestore (example_files content)) = Some example_tree"
  "fe_tar (example_files content) (fe_db (example_files content)) example_tree = Inr content"
  by (simp_all add: example_host_def example_files_def)

text \<open>An object of one byte, and one of a byte more than the limit.\<close>

lemma backup_then_restore_witness:
  "\<exists>dek nonce tag blob. backed_up (example_files [5]) example_host (snd (run_backup (example_files [5]) example_host)) nonce tag blob"
  using backup_then_restore [OF example_file_laws example_run example_tar _ example_finite, of "[5]"]
  by (simp add: v1_oneshot_cap_def) blast

lemma large_backup_not_restorable_witness:
  "\<exists>nonce blob. backed_up (example_files (replicate 268435457 0)) example_host
     (snd (run_backup (example_files (replicate 268435457 0)) example_host)) nonce [] blob"
  using large_backup_not_restorable [OF example_file_laws example_run example_tar _ example_finite, of "replicate 268435457 0"]
  by (simp add: v1_oneshot_cap_def) blast

lemma transfers_leave_no_temp_file_witness:
  "ho_temp (snd (run_backup (example_files [5]) example_host)) = Map.empty"
proof -
  have "\<not> fe_unlink_fails (example_files [5]) path" for path by (simp add: example_files_def)
  then have "ho_temp (snd (run_backup (example_files [5]) example_host)) \<subseteq>\<^sub>m ho_temp example_host"
    by (rule transfers_leave_no_temp_file [THEN conjunct1])
  moreover have "ho_temp example_host = Map.empty" by (simp add: example_host_def)
  ultimately show ?thesis by (metis map_le_implies_dom_le dom_empty subset_empty dom_eq_empty_conv)
qed

lemma restore_keeps_filestores_witness:
  "kept (example_files [5]) example_host (snd (filestore_restore (example_files [5]) example_request example_host))"
  using restore_keeps_filestores [OF example_file_laws example_finite] by blast

end
