(* ===== verification/MaskColumns.thy ===== *)
theory MaskColumns
  imports Regex Complex_Main
begin

text \<open>
  The pure half of infra/agentlab/mask_prod_data.py: which semantic type a column gets, the SQL
  expression that masks it, and the deny-list patterns.

  An SQL expression is a tree; \<open>render\<close> writes it the way the code does. \<open>has_type\<close> and
  \<open>sql_eval\<close> give the types and values PostgreSQL documents for the few operators that
  occur; \<open>md5\<close>, the cast to text and \<open>random()\<close> are arguments. Floats are rationals.
\<close>

section \<open>Tables and columns that stay as they are\<close>

definition structural_tables :: "string list" where
  "structural_tables =
     [''ir_model_data'', ''ir_model'', ''ir_model_fields'', ''ir_model_fields_selection'', ''ir_model_relation'',
      ''ir_model_constraint'', ''ir_module_module'', ''ir_module_module_dependency'', ''ir_ui_menu'', ''ir_ui_view'',
      ''ir_ui_view_custom'', ''ir_actions'', ''ir_act_window'', ''ir_act_window_view'', ''ir_act_url'', ''ir_act_server'',
      ''ir_act_report_xml'', ''ir_act_client'']"

definition is_structural_table :: "string \<Rightarrow> bool" where
  "is_structural_table table \<longleftrightarrow> table \<in> set structural_tables"

type_synonym allowlist = "string \<rightharpoonup> string list"

definition is_allowed :: "string \<Rightarrow> string \<Rightarrow> allowlist \<Rightarrow> bool" where
  "is_allowed table column al = (case al table of None \<Rightarrow> False | Some cs \<Rightarrow> column \<in> set cs)"

section \<open>Classification\<close>

datatype semantic =
    Email | Phone | Nit | Cedula | Iban | PaymentCard | Monetary | FreeText | ShortString
  | DateLike | Boolean | Selection | ForeignKey | Binary | Json | Jsonb | Unsupported

definition text_data_types :: "string list" where
  "text_data_types = [''character varying'', ''text'', ''character'']"

definition pg_type_to_data_type :: "string \<Rightarrow> string option" where
  "pg_type_to_data_type = map_of
     [(''bool'', ''boolean''), (''int2'', ''smallint''), (''int4'', ''integer''), (''int8'', ''bigint''), (''float4'', ''real''),
      (''float8'', ''double precision''), (''numeric'', ''numeric''), (''bpchar'', ''character''), (''varchar'', ''character varying''),
      (''text'', ''text''), (''citext'', ''citext''), (''name'', ''name''), (''json'', ''json''), (''jsonb'', ''jsonb''),
      (''bytea'', ''bytea''), (''date'', ''date''), (''timestamp'', ''timestamp without time zone''),
      (''timestamptz'', ''timestamp with time zone''), (''time'', ''time without time zone''),
      (''timetz'', ''time with time zone'')]"

definition name_hints :: "(string list \<times> semantic) list" where
  "name_hints =
     [([''email'', ''email_normalized'', ''email_from''], Email),
      ([''phone'', ''mobile'', ''fax'', ''phone_sanitized''], Phone),
      ([''vat'', ''nit'', ''tax_id''], Nit),
      ([''cedula'', ''identification_id'', ''document_number'', ''id_number''], Cedula),
      ([''iban'', ''acc_number'', ''bank_account''], Iban),
      ([''card_number'', ''credit_card'', ''cc_number''], PaymentCard)]"

definition monetary_hints :: "string list" where
  "monetary_hints = [''amount'', ''price'', ''total'', ''balance'', ''debit'', ''credit'', ''cost'', ''subtotal'', ''tax'',
     ''salary'', ''wage'', ''payment'']"

definition looks_monetary :: "string \<Rightarrow> bool" where
  "looks_monetary col = list_ex (\<lambda>h. py_in h col) monetary_hints"

definition hinted :: "string \<Rightarrow> semantic option" where
  "hinted col = map_option snd (find (\<lambda>(needles, sem). list_ex (\<lambda>n. py_in n col) needles) name_hints)"

definition textual :: "string list" where
  "textual = [''character varying'', ''character'', ''text'', ''citext'']"

definition classify_text :: "string \<Rightarrow> string option \<Rightarrow> string \<Rightarrow> nat option \<Rightarrow> semantic" where
  "classify_text col odoo_ttype dt char_max_len =
     (case hinted col of
        Some sem \<Rightarrow> sem
      | None \<Rightarrow>
          if truthy odoo_ttype
          then
            let tt = the odoo_ttype
            in if tt \<in> set [''many2one'', ''one2many'', ''many2many'', ''reference''] then ForeignKey
               else if tt = ''selection'' then Selection
               else if tt = ''text'' \<or> tt = ''html'' then FreeText
               else if tt = ''char'' then ShortString
               else FreeText
          else if dt = ''text'' then FreeText
          else (case char_max_len of
              Some n \<Rightarrow> if n \<ge> 50 then FreeText else ShortString
            | None \<Rightarrow> ShortString))"

definition classify_column :: "string \<Rightarrow> string \<Rightarrow> string option \<Rightarrow> string option \<Rightarrow> nat option \<Rightarrow> semantic" where
  "classify_column table column odoo_ttype data_type char_max_len =
     (let col = py_lower column;
          dt = py_lower (py_or data_type [])
      in if dt = ''bytea'' then Binary
         else if dt = ''jsonb'' then Jsonb
         else if dt = ''json'' then Json
         else if dt = ''boolean'' then Boolean
         else if dt \<in> set [''date'', ''timestamp without time zone'', ''timestamp with time zone'', ''time without time zone'']
         then DateLike
         else if dt \<in> set [''integer'', ''bigint'', ''smallint''] then ForeignKey
         else if dt \<in> set [''numeric'', ''double precision'', ''real'']
         then if looks_monetary col \<or> odoo_ttype = Some ''monetary'' then Monetary else ForeignKey
         else if dt \<noteq> [] \<and> dt \<notin> set textual then Unsupported
         else classify_text col odoo_ttype dt char_max_len)"

section \<open>Masking expressions\<close>

datatype sql =
    Quoted string
  | EmptyBytea
  | EmptyJson
  | EmptyJsonb
  | ColText
  | Concat sql sql
  | Substr sql nat
  | Md5 sql
  | LengthOf sql
  | RandomNine
  | RandomDigit
  | Noise rat rat
  | KeepNull sql
  | LeftOf sql nat

text \<open>The text of an expression over the quoted column; \<open>fl\<close> prints a float.\<close>

fun render :: "(rat \<Rightarrow> string) \<Rightarrow> string \<Rightarrow> sql \<Rightarrow> string" where
  "render fl col (Quoted s) = CHR 0x27 # s @ [CHR 0x27]"
| "render fl col EmptyBytea = [CHR 0x27, CHR 0x27] @ ''::bytea''"
| "render fl col EmptyJson = [CHR 0x27] @ ''{}'' @ [CHR 0x27] @ ''::json''"
| "render fl col EmptyJsonb = [CHR 0x27] @ ''{}'' @ [CHR 0x27] @ ''::jsonb''"
| "render fl col ColText = col @ ''::text''"
| "render fl col (Concat a b) = render fl col a @ '' || '' @ render fl col b"
| "render fl col (Substr a n) = ''substr('' @ render fl col a @ '', 1, '' @ int_str (int n) @ '')''"
| "render fl col (Md5 a) = ''md5('' @ render fl col a @ '')''"
| "render fl col (LengthOf a) = ''length('' @ render fl col a @ '')''"
| "render fl col RandomNine = ''(100000000 + floor(random() * 900000000)::bigint)::text''"
| "render fl col RandomDigit = ''floor(random() * 10)::int::text''"
| "render fl col (Noise low width) = col @ '' * ('' @ fl low @ '' + random() * '' @ fl width @ '')''"
| "render fl col (KeepNull a) = ''CASE WHEN '' @ col @ '' IS NULL THEN NULL ELSE '' @ render fl col a @ '' END''"
| "render fl col (LeftOf a n) = ''LEFT('' @ render fl col a @ '', '' @ int_str (int n) @ '')''"

text \<open>\<open>rules\<close> is read only for the range of the noise.\<close>

fun strategy_sql :: "semantic \<Rightarrow> rat \<Rightarrow> sql option" where
  "strategy_sql DateLike rng = None"
| "strategy_sql Boolean rng = None"
| "strategy_sql Selection rng = None"
| "strategy_sql ForeignKey rng = None"
| "strategy_sql Unsupported rng = None"
| "strategy_sql Binary rng = Some (KeepNull EmptyBytea)"
| "strategy_sql Jsonb rng = Some (KeepNull EmptyJsonb)"
| "strategy_sql Json rng = Some (KeepNull EmptyJson)"
| "strategy_sql Email rng =
     Some (KeepNull (Concat (Concat (Quoted ''user'') (Substr (Md5 ColText) 8)) (Quoted ''@masked.invalid'')))"
| "strategy_sql Phone rng = Some (KeepNull (Quoted ''+57XXXXXXXXXX''))"
| "strategy_sql Cedula rng = Some (KeepNull RandomNine)"
| "strategy_sql Nit rng = Some (KeepNull (Concat (Concat RandomNine (Quoted ''-'')) RandomDigit))"
| "strategy_sql PaymentCard rng = Some (KeepNull (Quoted ''[REDACTED]''))"
| "strategy_sql Iban rng = Some (KeepNull (Quoted ''[REDACTED]''))"
| "strategy_sql Monetary rng = Some (Noise (1 - rng) (2 * rng))"
| "strategy_sql FreeText rng =
     Some (KeepNull (Concat (Concat (Quoted ''[REDACTED text length='') (LengthOf ColText)) (Quoted '']'')))"
| "strategy_sql ShortString rng = Some (KeepNull (Concat (Quoted ''MASKED:'') (Substr (Md5 ColText) 12)))"

definition clamp_expr_to_column :: "sql \<Rightarrow> string option \<Rightarrow> nat option \<Rightarrow> sql" where
  "clamp_expr_to_column expr data_type char_max_len =
     (case char_max_len of
        Some n \<Rightarrow>
          if py_lower (py_or data_type []) \<in> set [''character varying'', ''character''] then LeftOf expr n else expr
      | None \<Rightarrow> expr)"

section \<open>The deny list\<close>

text \<open>A pattern has its name, its text for PostgreSQL, and what Python's \<open>search\<close> finds.\<close>

record deny_pattern =
  dp_name :: string
  dp_pattern :: string
  dp_search :: "string \<Rightarrow> bool"

definition compile_deny_patterns :: "(string \<Rightarrow> string \<Rightarrow> bool) \<Rightarrow> (string option \<times> string option) list \<Rightarrow> deny_pattern list" where
  "compile_deny_patterns search entries =
     concat (map (\<lambda>(name, regex).
       if \<not> truthy regex then []
       else [\<lparr>dp_name = (case name of None \<Rightarrow> ''unnamed'' | Some n \<Rightarrow> n), dp_pattern = the regex, dp_search = search (the regex)\<rparr>])
       entries)"

definition scan_for_pii :: "string \<Rightarrow> deny_pattern list \<Rightarrow> string list" where
  "scan_for_pii content patterns = (if content = [] then [] else map dp_name (filter (\<lambda>p. dp_search p content) patterns))"

definition is_masked_value :: "string \<Rightarrow> bool" where
  "is_masked_value value =
     (if value = [] then False
      else
        let v = py_strip value
        in prefix ''MASKED:'' v \<or> prefix ''[REDACTED'' v \<or> v = ''+57XXXXXXXXXX'' \<or> py_in ''@masked.invalid'' v)"

text \<open>The pattern of \<open>masking-rules.yml\<close> for telephone numbers: \<open>\+?(?:\d[ .-]?){6,14}\d\<close>.\<close>

fun up_to :: "nat \<Rightarrow> regex \<Rightarrow> regex" where
  "up_to 0 r = Empty"
| "up_to (Suc n) r = Alt (Seq r (up_to n r)) Empty"

fun times_re :: "nat \<Rightarrow> regex \<Rightarrow> regex" where
  "times_re 0 r = Empty"
| "times_re (Suc n) r = Seq r (times_re n r)"

definition phone_like :: regex where
  "phone_like =
     (let part = Seq (one digit_char) (opt (any_of '' .-''))
      in Seq (opt (any_of ''+'')) (Seq (Seq (times_re 6 part) (up_to 8 part)) (one digit_char)))"

section \<open>Types and values\<close>

datatype pg_type = PgText | PgInt | PgBytea | PgJson | PgJsonb | PgDouble

datatype pg_value =
    VNull | VText string | VInt int | VBytea string | VJson string | VJsonb string | VNum rat | VOther string

record sql_env =
  sq_md5 :: "string \<Rightarrow> string"
  sq_text :: "pg_value \<Rightarrow> string"
  sq_nine :: nat
  sq_digit :: nat
  sq_random :: rat

text \<open>What expressions are worth, given the value of the column.\<close>

fun as_text :: "pg_value \<Rightarrow> string option" where
  "as_text (VText s) = Some s"
| "as_text (VInt n) = Some (int_str n)"
| "as_text _ = None"

definition lift_text :: "(string \<Rightarrow> pg_value) \<Rightarrow> pg_value \<Rightarrow> pg_value" where
  "lift_text f v = (case as_text v of None \<Rightarrow> VNull | Some s \<Rightarrow> f s)"

fun sql_eval :: "sql_env \<Rightarrow> pg_value \<Rightarrow> sql \<Rightarrow> pg_value" where
  "sql_eval q v (Quoted s) = VText s"
| "sql_eval q v EmptyBytea = VBytea []"
| "sql_eval q v EmptyJson = VJson ''{}''"
| "sql_eval q v EmptyJsonb = VJsonb ''{}''"
| "sql_eval q v ColText = (if v = VNull then VNull else VText (sq_text q v))"
| "sql_eval q v (Concat a b) = lift_text (\<lambda>s. lift_text (\<lambda>t. VText (s @ t)) (sql_eval q v b)) (sql_eval q v a)"
| "sql_eval q v (Substr a n) = lift_text (\<lambda>s. VText (take n s)) (sql_eval q v a)"
| "sql_eval q v (Md5 a) = lift_text (\<lambda>s. VText (sq_md5 q s)) (sql_eval q v a)"
| "sql_eval q v (LengthOf a) = lift_text (\<lambda>s. VInt (int (length s))) (sql_eval q v a)"
| "sql_eval q v RandomNine = VText (int_str (int (100000000 + sq_nine q)))"
| "sql_eval q v RandomDigit = VText (int_str (int (sq_digit q)))"
| "sql_eval q v (Noise low width) = (case v of VNum x \<Rightarrow> VNum (x * (low + sq_random q * width)) | _ \<Rightarrow> VNull)"
| "sql_eval q v (KeepNull a) = (if v = VNull then VNull else sql_eval q v a)"
| "sql_eval q v (LeftOf a n) = lift_text (\<lambda>s. VText (take n s)) (sql_eval q v a)"

text \<open>The types of expressions over a column of type \<open>dt\<close>.\<close>

definition numeric_types :: "string list" where
  "numeric_types = [''numeric'', ''double precision'', ''real'']"

inductive has_type :: "string \<Rightarrow> sql \<Rightarrow> pg_type \<Rightarrow> bool" for dt where
  "has_type dt (Quoted s) PgText"
| "has_type dt EmptyBytea PgBytea"
| "has_type dt EmptyJson PgJson"
| "has_type dt EmptyJsonb PgJsonb"
| "has_type dt ColText PgText"
| "has_type dt a ta \<Longrightarrow> has_type dt b tb \<Longrightarrow> {ta, tb} \<subseteq> {PgText, PgInt} \<Longrightarrow> PgText \<in> {ta, tb} \<Longrightarrow> has_type dt (Concat a b) PgText"
| "has_type dt a PgText \<Longrightarrow> has_type dt (Substr a n) PgText"
| "has_type dt a PgText \<Longrightarrow> has_type dt (Md5 a) PgText"
| "has_type dt a PgText \<Longrightarrow> has_type dt (LengthOf a) PgInt"
| "has_type dt RandomNine PgText"
| "has_type dt RandomDigit PgText"
| "dt \<in> set numeric_types \<Longrightarrow> has_type dt (Noise low width) PgDouble"
| "has_type dt a t \<Longrightarrow> has_type dt (KeepNull a) t"
| "has_type dt a PgText \<Longrightarrow> has_type dt (LeftOf a n) PgText"

inductive_cases has_type_KeepNull [elim!]: "has_type dt (KeepNull a) t"
inductive_cases has_type_LeftOf [elim!]: "has_type dt (LeftOf a n) t"

text \<open>To which column types PostgreSQL assigns a value of a type.\<close>

fun assignable :: "pg_type \<Rightarrow> string \<Rightarrow> bool" where
  "assignable PgText dt = (dt \<in> set textual)"
| "assignable PgInt dt = (dt \<in> set [''integer'', ''bigint'', ''smallint''] \<or> dt \<in> set numeric_types)"
| "assignable PgBytea dt = (dt = ''bytea'')"
| "assignable PgJson dt = (dt \<in> set [''json'', ''jsonb''])"
| "assignable PgJsonb dt = (dt \<in> set [''json'', ''jsonb''])"
| "assignable PgDouble dt = (dt \<in> set numeric_types)"

text \<open>The values a column of a type and declared length can hold.\<close>

definition conforms :: "string \<Rightarrow> nat option \<Rightarrow> pg_value \<Rightarrow> bool" where
  "conforms dt len v =
     (case v of
        VNull \<Rightarrow> True
      | VText s \<Rightarrow> dt \<in> set textual \<and>
          (case len of Some n \<Rightarrow> dt \<in> set [''character varying'', ''character''] \<longrightarrow> length s \<le> n | None \<Rightarrow> True)
      | VBytea _ \<Rightarrow> dt = ''bytea''
      | VJson _ \<Rightarrow> dt = ''json''
      | VJsonb _ \<Rightarrow> dt = ''jsonb''
      | VNum _ \<Rightarrow> dt \<in> set numeric_types
      | VInt _ \<Rightarrow> dt \<in> set [''integer'', ''bigint'', ''smallint'']
      | VOther _ \<Rightarrow> dt \<notin> set textual \<and> dt \<notin> set numeric_types \<and> dt \<notin> set [''bytea'', ''json'', ''jsonb''])"

section \<open>Well-typedness\<close>

fun of_type :: "pg_value \<Rightarrow> pg_type \<Rightarrow> bool" where
  "of_type VNull t = True"
| "of_type (VText s) t = (t = PgText)"
| "of_type (VInt n) t = (t = PgInt)"
| "of_type (VBytea s) t = (t = PgBytea)"
| "of_type (VJson s) t = (t = PgJson)"
| "of_type (VJsonb s) t = (t = PgJsonb)"
| "of_type (VNum x) t = (t = PgDouble)"
| "of_type (VOther s) t = False"

lemma lift_text_of_type: "(\<And>s. of_type (f s) t) \<Longrightarrow> of_type (lift_text f v) t"
  by (cases "as_text v") (simp_all add: lift_text_def)

lemma well_typed_value: "has_type dt e t \<Longrightarrow> of_type (sql_eval q v e) t"
proof (induction rule: has_type.induct)
  case (5)
  show ?case by simp
next
  case (6 a ta b tb)
  show ?case by (simp add: lift_text_of_type)
next
  case (7 a n)
  show ?case by (simp add: lift_text_of_type)
next
  case (8 a)
  show ?case by (simp add: lift_text_of_type)
next
  case (9 a)
  show ?case by (simp add: lift_text_of_type)
next
  case (12 low width)
  show ?case by (cases v) simp_all
next
  case (13 a t)
  then show ?case by simp
next
  case (14 a n)
  show ?case by (simp add: lift_text_of_type)
next
  case 10
  show ?case by (simp only: sql_eval.simps of_type.simps)
next
  case 11
  show ?case by (simp only: sql_eval.simps of_type.simps)
qed simp_all

text \<open>The semantic types that can be given to a column of a physical type.\<close>

definition suits :: "semantic \<Rightarrow> string \<Rightarrow> bool" where
  "suits sem dt =
     (case sem of
        Binary \<Rightarrow> dt = ''bytea'' | Json \<Rightarrow> dt = ''json'' | Jsonb \<Rightarrow> dt = ''jsonb''
      | Monetary \<Rightarrow> dt \<in> set numeric_types
      | DateLike \<Rightarrow> True | Boolean \<Rightarrow> True | Selection \<Rightarrow> True | ForeignKey \<Rightarrow> True | Unsupported \<Rightarrow> True
      | _ \<Rightarrow> dt \<in> set textual)"

lemma hinted_cases: "hinted col = Some sem \<Longrightarrow> sem \<in> {Email, Phone, Nit, Cedula, Iban, PaymentCard}"
  by (auto simp: hinted_def name_hints_def split: if_splits)

lemma classify_text_suits: "dt \<in> set textual \<Longrightarrow> suits (classify_text col tt dt n) dt"
  by (auto simp: classify_text_def suits_def Let_def split: option.splits dest!: hinted_cases)

lemma classify_suits:
  assumes "data_type = Some dt" "py_lower dt = dt" "dt \<noteq> []"
  shows "suits (classify_column table column tt data_type n) dt"
proof -
  have dt: "py_lower (py_or data_type []) = dt" using assms by (simp add: py_or_def)
  show ?thesis
  proof (cases "dt \<in> set textual")
    case True
    then have "classify_column table column tt data_type n = classify_text (py_lower column) tt dt n"
      unfolding classify_column_def Let_def dt textual_def list.set insert_iff empty_iff by (elim disjE; simp)
    with classify_text_suits [OF True] show ?thesis by simp
  next
    case False
    with assms(3) show ?thesis
      unfolding classify_column_def Let_def dt by (simp add: suits_def numeric_types_def)
  qed
qed

lemma strategy_typed:
  assumes "strategy_sql sem rng = Some e" "suits sem dt"
  shows "\<exists>t. has_type dt e t \<and> assignable t dt"
proof (cases sem)
  case Nit
  with assms show ?thesis
    by (intro exI [of _ PgText]) (auto simp: suits_def intro!: has_type.intros)
next
  case Email
  with assms show ?thesis
    by (intro exI [of _ PgText]) (auto simp: suits_def intro!: has_type.intros)
next
  case ShortString
  with assms show ?thesis
    by (intro exI [of _ PgText]) (auto simp: suits_def intro!: has_type.intros)
next
  case FreeText
  with assms show ?thesis
    by (intro exI [of _ PgText]) (auto simp: suits_def intro!: has_type.intros)
next
  case Monetary
  with assms show ?thesis
    by (intro exI [of _ PgDouble]) (auto simp: suits_def intro!: has_type.intros)
next
  case Binary
  with assms show ?thesis
    by (intro exI [of _ PgBytea]) (auto simp: suits_def intro!: has_type.intros)
next
  case Json
  with assms show ?thesis
    by (intro exI [of _ PgJson]) (auto simp: suits_def intro!: has_type.intros)
next
  case Jsonb
  with assms show ?thesis
    by (intro exI [of _ PgJsonb]) (auto simp: suits_def intro!: has_type.intros)
qed (use assms in \<open>auto simp: suits_def intro!: exI [of _ PgText] has_type.intros\<close>)

lemma strategy_keeps_null:
  assumes "strategy_sql sem rng = Some e" "suits sem dt" "conforms dt n v"
  shows "sql_eval q v e = VNull \<longleftrightarrow> v = VNull"
  using assms
  by (cases sem) (auto simp: lift_text_def suits_def conforms_def numeric_types_def textual_def split: pg_value.splits)

lemma of_type_conforms:
  assumes "of_type v t" "assignable t dt" "t \<noteq> PgInt"
    and "t = PgJson \<longrightarrow> dt = ''json''" "t = PgJsonb \<longrightarrow> dt = ''jsonb''"
    and "dt \<in> set [''character varying'', ''character''] \<Longrightarrow> len = None"
  shows "conforms dt len v"
  using assms by (cases v) (auto simp: conforms_def split: option.splits)

lemma clamped_conforms:
  assumes "of_type (sql_eval q v e) PgText" "dt \<in> set [''character varying'', ''character'']"
  shows "conforms dt (Some n) (sql_eval q v (LeftOf e n))"
  using assms by (cases "sql_eval q v e") (auto simp: conforms_def textual_def lift_text_def)

lemma typed_conforms:
  assumes "has_type dt e t" "assignable t dt" "t \<noteq> PgInt" "py_lower dt = dt"
    and "t = PgJson \<longrightarrow> dt = ''json''" "t = PgJsonb \<longrightarrow> dt = ''jsonb''"
  shows "conforms dt len (sql_eval q v (clamp_expr_to_column e (Some dt) len))"
proof (cases "len \<noteq> None \<and> dt \<in> set [''character varying'', ''character'']")
  case True
  then obtain n where n: "len = Some n" "dt \<in> set [''character varying'', ''character'']" by blast
  then have "clamp_expr_to_column e (Some dt) len = LeftOf e n"
    using assms(4) by (auto simp: clamp_expr_to_column_def py_or_def)
  moreover have "t = PgText" using assms(2,3) n by (cases t) (auto simp: numeric_types_def)
  ultimately show ?thesis using clamped_conforms n well_typed_value [OF assms(1)] by simp
next
  case False
  then have "clamp_expr_to_column e (Some dt) len = e"
    using assms(4) by (auto simp: clamp_expr_to_column_def py_or_def split: option.splits if_splits)
  with of_type_conforms [OF well_typed_value [OF assms(1)] assms(2,3,5,6)] False show ?thesis by auto
qed

lemma clamp_keeps_null:
  assumes "has_type dt e t" "assignable t dt" "t \<noteq> PgInt" "py_lower dt = dt"
  shows "sql_eval q v (clamp_expr_to_column e (Some dt) len) = VNull \<longleftrightarrow> sql_eval q v e = VNull"
proof (cases "clamp_expr_to_column e (Some dt) len = e")
  case False
  then have "dt \<in> set [''character varying'', ''character'']" and l: "\<exists>n. clamp_expr_to_column e (Some dt) len = LeftOf e n"
    using assms(4) by (auto simp: clamp_expr_to_column_def py_or_def split: option.splits if_splits)
  then have "t = PgText" using assms(2,3) by (cases t) (auto simp: numeric_types_def)
  with well_typed_value [OF assms(1), of q v] l show ?thesis
    by (cases "sql_eval q v e") (auto simp: lift_text_def)
qed simp

lemma strategy_type_details:
  assumes "strategy_sql sem rng = Some e" "suits sem dt" "has_type dt e t"
  shows "t \<noteq> PgInt" "t = PgJson \<longrightarrow> dt = ''json''" "t = PgJsonb \<longrightarrow> dt = ''jsonb''"
  using assms by (cases sem; auto simp: suits_def elim: has_type.cases)+

text \<open>On a text column a hint in the name decides, whatever Odoo says the field is.\<close>

lemma hint_beats_ttype:
  assumes "py_lower (py_or data_type []) \<in> set textual" "hinted (py_lower column) = Some sem"
  shows "classify_column table column ttype data_type n = sem"
proof -
  obtain dt where dt: "py_lower (py_or data_type []) = dt" by simp
  from assms(1) show ?thesis
    unfolding classify_column_def Let_def dt classify_text_def assms(2) textual_def list.set insert_iff empty_iff
    by (elim disjE; simp)
qed

lemma selection_masked_as_email:
  "classify_column ''mail_mail'' ''email_state'' (Some ''selection'') (Some ''character varying'') None = Email"
  by (rule hint_beats_ttype; code_simp)

section \<open>Properties\<close>

text \<open>
  C16: Every expression the masker assigns to a column is well typed for its physical type: the value it
  gives for any value of the column is one the column can hold, within its declared length, and
  is NULL exactly when the old value was.
\<close>

theorem masked_value_conforms:
  assumes "strategy_sql (classify_column table column ttype (Some dt) len) rng = Some e"
    and "py_lower dt = dt" "dt \<noteq> []" "conforms dt len v"
  shows "(\<exists>t. has_type dt e t \<and> assignable t dt) \<and>
     conforms dt len (sql_eval q v (clamp_expr_to_column e (Some dt) len)) \<and>
     (sql_eval q v (clamp_expr_to_column e (Some dt) len) = VNull \<longleftrightarrow> v = VNull)"
proof -
  let ?sem = "classify_column table column ttype (Some dt) len"
  have suits: "suits ?sem dt" using assms(2,3) by (intro classify_suits) simp_all
  from strategy_typed [OF assms(1) suits] obtain t where t: "has_type dt e t" "assignable t dt" by blast
  note d = strategy_type_details [OF assms(1) suits t(1)]
  from typed_conforms [OF t d(1) assms(2) d(2,3)] clamp_keeps_null [OF t d(1) assms(2), of q v len]
    strategy_keeps_null [OF assms(1) suits assms(4), of q] t
  show ?thesis by blast
qed

lemma masked_value_conforms_witness:
  "conforms ''character varying'' (Some 4) (sql_eval \<lparr>sq_md5 = id, sq_text = (\<lambda>_. ''abcd''), sq_nine = 5, sq_digit = 1, sq_random = 0\<rparr>
     (VText ''abcd'') (LeftOf (KeepNull (Concat (Quoted ''MASKED:'') (Substr (Md5 ColText) 12))) 4))"
proof -
  have c: "classify_column ''t'' ''code'' None (Some ''character varying'') (Some 4) = ShortString"
    "py_lower ''character varying'' = ''character varying''" by code_simp+
  have e: "clamp_expr_to_column (KeepNull (Concat (Quoted ''MASKED:'') (Substr (Md5 ColText) 12))) (Some ''character varying'') (Some 4)
     = LeftOf (KeepNull (Concat (Quoted ''MASKED:'') (Substr (Md5 ColText) 12))) 4" by code_simp
  show ?thesis
    using masked_value_conforms [of "''t''" "''code''" None "''character varying''" "Some 4" 0, OF _ c(2), of _ "VText ''abcd''"]
    unfolding e [symmetric] by (simp add: c conforms_def textual_def)
qed

end
