(* ===== verification/MaskDatabase.thy ===== *)
theory MaskDatabase
  imports MaskColumns Signing ActionRules
begin

text \<open>
  The database half of infra/agentlab/mask_prod_data.py: the masking transaction of one database
  with its savepoints, the two audits, the retry over dropped connections and the entry point
  with its exit codes.

  PostgreSQL is an argument: the effect of a statement on a database of any type \<open>'d\<close>, the
  catalog queries and the samples; every round trip may fail, depending on how many there were
  before (\<open>tick\<close>). YAML files are given as decoded JSON values.
\<close>

section \<open>The server\<close>

datatype pg_error = OperationalError string | InterfaceError string | OtherError string

datatype mask_exn = PgError pg_error | ColumnsFailed string | MaskIndexError

datatype stmt = TypeUpdate string string sql | DenyUpdate string string string

datatype control = Connect string | Query | Savepoint | RollbackTo | Release | Commit | Rollback

type_synonym col_row = "string \<times> string \<times> string \<times> nat option"

record 'd mask_env =
  me_control :: "nat \<Rightarrow> control \<Rightarrow> pg_error option"
  me_exec :: "nat \<Rightarrow> stmt \<Rightarrow> 'd \<Rightarrow> pg_error + int \<times> 'd"
  me_fields :: "'d \<Rightarrow> (string \<times> string \<times> string) list option"
  me_unique :: "'d \<Rightarrow> (string \<times> string) list"
  me_catalog :: "'d \<Rightarrow> col_row list"
  me_sample :: "nat \<Rightarrow> 'd \<Rightarrow> string \<Rightarrow> string \<Rightarrow> nat \<Rightarrow> string list"
  me_databases :: "(string \<times> bool) list"
  me_allow :: allowlist
  me_range :: rat
  me_patterns :: "deny_pattern list"
  me_sample_size :: nat
  me_search :: "string \<Rightarrow> string \<Rightarrow> bool"

record 'd session =
  ss_stored :: 'd
  ss_work :: 'd
  ss_tick :: nat

record 'd server =
  sv_dbs :: "string \<Rightarrow> 'd"
  sv_tick :: nat
  sv_slept :: "nat list"

type_synonym ('d, 'a) on_session = "('d session, mask_exn, 'a) act"
type_synonym ('d, 'a) on_server = "('d server, mask_exn, 'a) act"

text \<open>\<open>"name"\<close> with quotes doubled.\<close>

definition quote_ident :: "string \<Rightarrow> string" where
  "quote_ident name = [CHR 0x22] @ concat (map (\<lambda>c. if c = CHR 0x22 then [c, c] else [c]) name) @ [CHR 0x22]"

text \<open>The texts of the two statements; the pattern is passed as a parameter.\<close>

fun stmt_text :: "(rat \<Rightarrow> string) \<Rightarrow> stmt \<Rightarrow> string" where
  "stmt_text fl (TypeUpdate table column expr) =
     ''UPDATE '' @ quote_ident table @ '' SET '' @ quote_ident column @ '' = '' @ render fl (quote_ident column) expr"
| "stmt_text fl (DenyUpdate table column pattern) =
     ''UPDATE '' @ quote_ident table @ '' SET '' @ quote_ident column @ '' = regexp_replace(  '' @ quote_ident column @
     ''::text, %s, '' @ [CHR 0x27] @ ''[REDACTED]'' @ [CHR 0x27] @ '', '' @ [CHR 0x27] @ ''g'' @ [CHR 0x27] @ '') WHERE '' @
     quote_ident column @ '' ~ %s''"

section \<open>Statements in a transaction\<close>

definition ctl :: "'d mask_env \<Rightarrow> control \<Rightarrow> ('d, unit) on_session" where
  "ctl e c = (\<lambda>s.
     (case me_control e (ss_tick s) c of None \<Rightarrow> Inr () | Some x \<Rightarrow> Inl (PgError x), s\<lparr>ss_tick := Suc (ss_tick s)\<rparr>))"

definition query :: "'d mask_env \<Rightarrow> ('d \<Rightarrow> 'a) \<Rightarrow> ('d, 'a) on_session" where
  "query e g = act_seq (ctl e Query) (act_read (\<lambda>s. g (ss_work s)))"

record failure =
  fa_table :: string
  fa_column :: string
  fa_phase :: string
  fa_error :: string

definition error_text :: "pg_error \<Rightarrow> string" where
  "error_text x = (case x of OperationalError s \<Rightarrow> s | InterfaceError s \<Rightarrow> s | OtherError s \<Rightarrow> s)"

text \<open>One statement in its own savepoint: the rows it changed, or the failure that is recorded.\<close>

definition run_update :: "'d mask_env \<Rightarrow> stmt \<Rightarrow> string \<Rightarrow> string \<Rightarrow> string \<Rightarrow> ('d, failure + int) on_session" where
  "run_update e st table column phase =
     act_seq (ctl e Savepoint) (\<lambda>s.
       case me_exec e (ss_tick s) st (ss_work s) of
         Inr (n, d) \<Rightarrow> act_seq (ctl e Release) (act_return (Inr n)) (s\<lparr>ss_work := d, ss_tick := Suc (ss_tick s)\<rparr>)
       | Inl x \<Rightarrow>
           act_seq (ctl e RollbackTo)
             (case py_splitlines (py_strip (error_text x)) of
                [] \<Rightarrow> act_raise MaskIndexError
              | l # _ \<Rightarrow> act_return (Inl \<lparr>fa_table = table, fa_column = column, fa_phase = phase, fa_error = l\<rparr>))
             (s\<lparr>ss_tick := Suc (ss_tick s)\<rparr>))"

section \<open>The catalog\<close>

text \<open>The last row wins, as in a dict; rows with an empty part are skipped.\<close>

definition odoo_ttypes :: "(string \<times> string \<times> string) list option \<Rightarrow> string \<times> string \<rightharpoonup> string" where
  "odoo_ttypes rows =
     (case rows of
        None \<Rightarrow> Map.empty
      | Some rs \<Rightarrow>
          fold (\<lambda>(model, field, ttype) m.
            if model = [] \<or> field = [] \<or> ttype = [] then m
            else m((map (\<lambda>c. if c = CHR ''.'' then CHR ''_'' else c) model, field) \<mapsto> ttype)) rs Map.empty)"

definition list_columns :: "col_row list \<Rightarrow> col_row list" where
  "list_columns = map (\<lambda>(t, c, typname, n).
     (t, c, (case pg_type_to_data_type typname of Some dt \<Rightarrow> dt | None \<Rightarrow> py_lower typname), n))"

section \<open>Masking one database\<close>

record metrics =
  mt_masked :: nat
  mt_passthrough :: nat
  mt_allowed :: nat
  mt_unique :: nat
  mt_structural :: nat
  mt_deny :: int
  mt_failures :: "failure list"

definition no_metrics :: metrics where
  "no_metrics = \<lparr>mt_masked = 0, mt_passthrough = 0, mt_allowed = 0, mt_unique = 0, mt_structural = 0, mt_deny = 0,
     mt_failures = []\<rparr>"

definition failed :: "failure \<Rightarrow> metrics \<Rightarrow> metrics" where
  "failed f m = m\<lparr>mt_failures := mt_failures m @ [f]\<rparr>"

text \<open>The type pass over one column.\<close>

definition type_step ::
  "'d mask_env \<Rightarrow> (string \<times> string \<rightharpoonup> string) \<Rightarrow> (string \<times> string) list \<Rightarrow> col_row \<Rightarrow> metrics \<Rightarrow> ('d, metrics) on_session" where
  "type_step e ttypes unique = (\<lambda>(table, column, data_type, char_len) m.
     if is_structural_table table then act_return (m\<lparr>mt_structural := Suc (mt_structural m)\<rparr>)
     else if is_allowed table column (me_allow e) then act_return (m\<lparr>mt_allowed := Suc (mt_allowed m)\<rparr>)
     else if (table, column) \<in> set unique then act_return (m\<lparr>mt_unique := Suc (mt_unique m)\<rparr>)
     else
       (case strategy_sql (classify_column table column (ttypes (table, column)) (Some data_type) char_len) (me_range e) of
          None \<Rightarrow> act_return (m\<lparr>mt_passthrough := Suc (mt_passthrough m)\<rparr>)
        | Some expr \<Rightarrow>
            act_bind (run_update e (TypeUpdate table column (clamp_expr_to_column expr (Some data_type) char_len))
                table column ''type-strategy'') (\<lambda>r.
              act_return (case r of Inl f \<Rightarrow> failed f m | Inr _ \<Rightarrow> m\<lparr>mt_masked := Suc (mt_masked m)\<rparr>))))"

fun deny_patterns_on :: "'d mask_env \<Rightarrow> string \<Rightarrow> string \<Rightarrow> deny_pattern list \<Rightarrow> metrics \<Rightarrow> ('d, metrics) on_session" where
  "deny_patterns_on e table column [] m = act_return m"
| "deny_patterns_on e table column (p # ps) m =
     act_bind (run_update e (DenyUpdate table column (dp_pattern p)) table column ''deny-list'') (\<lambda>r.
       deny_patterns_on e table column ps
         (case r of Inl f \<Rightarrow> failed f m | Inr n \<Rightarrow> m\<lparr>mt_deny := mt_deny m + (if n > 0 then n else 0)\<rparr>))"

definition deny_step ::
  "'d mask_env \<Rightarrow> (string \<times> string) list \<Rightarrow> col_row \<Rightarrow> metrics \<Rightarrow> ('d, metrics) on_session" where
  "deny_step e unique = (\<lambda>(table, column, data_type, _) m.
     if data_type \<notin> set text_data_types then act_return m
     else if is_structural_table table then act_return m
     else if is_allowed table column (me_allow e) then act_return m
     else if (table, column) \<in> set unique then act_return m
     else deny_patterns_on e table column (me_patterns e) m)"

fun each :: "('c \<Rightarrow> 'm \<Rightarrow> ('s, 'e, 'm) act) \<Rightarrow> 'c list \<Rightarrow> 'm \<Rightarrow> ('s, 'e, 'm) act" where
  "each step [] m = act_return m"
| "each step (c # cs) m = act_bind (step c m) (each step cs)"

definition mask_commit :: "'d mask_env \<Rightarrow> ('d, unit) on_session" where
  "mask_commit e = act_seq (ctl e Commit) (act_modify (\<lambda>s. s\<lparr>ss_stored := ss_work s\<rparr>))"

definition mask_rollback :: "'d mask_env \<Rightarrow> ('d, unit) on_session" where
  "mask_rollback e = act_seq (ctl e Rollback) (act_modify (\<lambda>s. s\<lparr>ss_work := ss_stored s\<rparr>))"

text \<open>The body of the \<open>try\<close>.\<close>

definition mask_transaction :: "'d mask_env \<Rightarrow> ('d, metrics) on_session" where
  "mask_transaction e =
     act_bind (query e (\<lambda>d. odoo_ttypes (me_fields e d))) (\<lambda>ttypes.
     act_bind (query e (me_unique e)) (\<lambda>unique.
     act_bind (query e (\<lambda>d. list_columns (me_catalog e d))) (\<lambda>columns.
     act_bind (each (type_step e ttypes unique) columns no_metrics) (\<lambda>m1.
     act_bind (each (deny_step e unique) columns m1) (\<lambda>m.
       if mt_failures m \<noteq> []
       then act_seq (mask_rollback e)
              (act_raise (ColumnsFailed (int_str (int (length (mt_failures m))) @
                 '' column(s) failed masking in this database; transaction rolled back'')))
       else act_seq (mask_commit e) (act_return m))))))"

definition mask_database :: "'d mask_env \<Rightarrow> string \<Rightarrow> ('d, metrics) on_server" where
  "mask_database e dsn = (\<lambda>w.
     case me_control e (sv_tick w) (Connect dsn) of
       Some x \<Rightarrow> (Inl (PgError x), w\<lparr>sv_tick := Suc (sv_tick w)\<rparr>)
     | None \<Rightarrow>
         (case mask_transaction e \<lparr>ss_stored = sv_dbs w dsn, ss_work = sv_dbs w dsn, ss_tick = Suc (sv_tick w)\<rparr> of
            (r, s) \<Rightarrow>
              (case (case r of Inr m \<Rightarrow> (Inr m, s) | Inl x \<Rightarrow> act_seq (mask_rollback e) (act_raise x) s) of
                 (r', s') \<Rightarrow> (r', w\<lparr>sv_dbs := (sv_dbs w)(dsn := ss_stored s'), sv_tick := ss_tick s'\<rparr>))))"

section \<open>Audits\<close>

definition on_read :: "'d mask_env \<Rightarrow> string \<Rightarrow> ('d \<Rightarrow> nat \<Rightarrow> 'a) \<Rightarrow> ('d, 'a) on_server" where
  "on_read e dsn g = (\<lambda>w.
     case me_control e (sv_tick w) (Connect dsn) of
       Some x \<Rightarrow> (Inl (PgError x), w\<lparr>sv_tick := Suc (sv_tick w)\<rparr>)
     | None \<Rightarrow>
         (case me_control e (Suc (sv_tick w)) Query of
            Some x \<Rightarrow> (Inl (PgError x), w\<lparr>sv_tick := Suc (Suc (sv_tick w))\<rparr>)
          | None \<Rightarrow> (Inr (g (sv_dbs w dsn) (Suc (Suc (sv_tick w)))), w\<lparr>sv_tick := Suc (Suc (sv_tick w))\<rparr>)))"

record violation =
  vi_table :: string
  vi_column :: string
  vi_patterns :: "string list"
  vi_excerpt :: string

text \<open>Every sampled text cell outside the structural tables.\<close>

definition audit_value :: "'d mask_env \<Rightarrow> string \<Rightarrow> string \<Rightarrow> string \<Rightarrow> violation list" where
  "audit_value e table column v =
     (if is_masked_value v then []
      else
        let hits = scan_for_pii v (me_patterns e)
        in if hits = [] then []
           else [\<lparr>vi_table = table, vi_column = column, vi_patterns = hits, vi_excerpt = take 80 v\<rparr>])"

definition sample_audit :: "'d mask_env \<Rightarrow> string \<Rightarrow> ('d, violation list) on_server" where
  "sample_audit e dsn = on_read e dsn (\<lambda>d tick.
     concat (map (\<lambda>(t, c, dt, _). concat (map (audit_value e t c) (me_sample e tick d t c (me_sample_size e))))
       (filter (\<lambda>(t, c, dt, _). dt \<in> set text_data_types \<and> \<not> is_structural_table t) (list_columns (me_catalog e d)))))"

text \<open>At most one hit per column of the structural tables.\<close>

definition verify_structural_integrity :: "'d mask_env \<Rightarrow> string \<Rightarrow> ('d, violation list) on_server" where
  "verify_structural_integrity e dsn = on_read e dsn (\<lambda>d tick.
     concat (map (\<lambda>(t, c, dt, _).
         case find is_masked_value (me_sample e tick d t c (me_sample_size e)) of
           None \<Rightarrow> []
         | Some v \<Rightarrow> [\<lparr>vi_table = t, vi_column = c, vi_patterns = [], vi_excerpt = take 80 v\<rparr>])
       (filter (\<lambda>(t, c, dt, _). dt \<in> set text_data_types \<and> is_structural_table t) (list_columns (me_catalog e d)))))"

section \<open>The entry point\<close>

definition internal_databases :: "string list" where
  "internal_databases = [''postgres'', ''template0'', ''template1'', ''repmgr'']"

definition list_databases :: "'d mask_env \<Rightarrow> string list" where
  "list_databases e = map fst (filter (\<lambda>(name, template). name \<notin> set internal_databases \<and> \<not> template) (me_databases e))"

text \<open>\<open>rpartition('/')\<close> and \<open>partition('?')\<close>.\<close>

definition before_last_slash :: "string \<Rightarrow> string" where
  "before_last_slash s = rev (tl (dropWhile (\<lambda>c. c \<noteq> CHR ''/'') (rev s)))"

definition after_last_slash :: "string \<Rightarrow> string" where
  "after_last_slash s = rev (takeWhile (\<lambda>c. c \<noteq> CHR ''/'') (rev s))"

definition db_dsn :: "string \<Rightarrow> string \<Rightarrow> string" where
  "db_dsn admin_dsn dbname =
     before_last_slash admin_dsn @ ''/'' @ dbname @ dropWhile (\<lambda>c. c \<noteq> CHR ''?'') (after_last_slash admin_dsn)"

text \<open>\<open>for attempt in range(attempt, attempts + 1)\<close>; the loop may fall off its end.\<close>

definition transient :: "mask_exn \<Rightarrow> bool" where
  "transient x = (case x of PgError (OperationalError _) \<Rightarrow> True | PgError (InterfaceError _) \<Rightarrow> True | _ \<Rightarrow> False)"

function mask_database_with_retry :: "'d mask_env \<Rightarrow> string \<Rightarrow> nat \<Rightarrow> nat \<Rightarrow> ('d, metrics option) on_server" where
  "mask_database_with_retry e dsn attempts attempt w =
     (if attempts < attempt then (Inr None, w)
      else
        case mask_database e dsn w of
          (Inr m, w') \<Rightarrow> (Inr (Some m), w')
        | (Inl x, w') \<Rightarrow>
            if \<not> transient x \<or> attempts \<le> attempt then (Inl x, w')
            else mask_database_with_retry e dsn attempts (Suc attempt) (w'\<lparr>sv_slept := sv_slept w' @ [2 ^ attempt]\<rparr>))"
  by pat_completeness auto
termination
  by (relation "measure (\<lambda>(e, dsn, attempts, attempt, w). Suc attempts - attempt)") auto

declare mask_database_with_retry.simps [simp del]

record run_result =
  rr_failed :: "string list"
  rr_violations :: "violation list"
  rr_structural :: "violation list"

definition mask_one :: "'d mask_env \<Rightarrow> string \<Rightarrow> string \<Rightarrow> run_result \<Rightarrow> ('d, run_result) on_server" where
  "mask_one e admin_dsn dbname rr = (\<lambda>w.
     let dsn = db_dsn admin_dsn dbname
     in case mask_database_with_retry e dsn 3 1 w of
          (Inl (PgError x), w') \<Rightarrow> (Inr (rr\<lparr>rr_failed := rr_failed rr @ [dbname]\<rparr>), w')
        | (Inl (ColumnsFailed x), w') \<Rightarrow> (Inr (rr\<lparr>rr_failed := rr_failed rr @ [dbname]\<rparr>), w')
        | (Inl MaskIndexError, w') \<Rightarrow> (Inl MaskIndexError, w')
        | (Inr _, w') \<Rightarrow>
            act_bind (sample_audit e dsn) (\<lambda>vs.
            act_bind (verify_structural_integrity e dsn) (\<lambda>ss.
              act_return (rr\<lparr>rr_violations := rr_violations rr @ vs, rr_structural := rr_structural rr @ ss\<rparr>))) w')"

text \<open>The two YAML files: \<open>None\<close> when they are refused.\<close>

definition load_config :: "json \<Rightarrow> json \<Rightarrow> (json \<times> json) option" where
  "load_config allowlist_file rules_file =
     (case (get_obj (j_or allowlist_file (JObj [])) ''allowed'', j_has (j_or rules_file (JObj [])) ''rules'') of
        (Inr (JObj allowed), Inr True) \<Rightarrow> Some (JObj allowed, rules_file)
      | _ \<Rightarrow> None)"

fun str_items :: "json \<Rightarrow> string list" where
  "str_items (JList l) = concat (map (\<lambda>v. case v of JStr s \<Rightarrow> [s] | _ \<Rightarrow> []) l)"
| "str_items _ = []"

fun allowlist_of :: "json \<Rightarrow> allowlist" where
  "allowlist_of (JObj kvs) = map_of (map (\<lambda>(table, v). (table, str_items v)) kvs)"
| "allowlist_of _ = Map.empty"

definition deny_entries :: "json \<Rightarrow> (string option \<times> string option) list" where
  "deny_entries rules =
     (let field = (\<lambda>kvs k. case map_of kvs k of Some (JStr s) \<Rightarrow> Some s | _ \<Rightarrow> None)
      in case j_get rules ''deny_list_patterns'' JNull of
           Inr (JList l) \<Rightarrow> concat (map (\<lambda>x. case x of JObj kvs \<Rightarrow> [(field kvs ''name'', field kvs ''regex'')] | _ \<Rightarrow> []) l)
         | _ \<Rightarrow> [])"

definition configured_env :: "'d mask_env \<Rightarrow> json \<times> json \<Rightarrow> 'd mask_env" where
  "configured_env e files =
     e\<lparr>me_allow := allowlist_of (fst files), me_patterns := compile_deny_patterns (me_search e) (deny_entries (snd files))\<rparr>"

text \<open>What the command line, the environment and the files give.\<close>

record mask_args =
  ma_psycopg2 :: bool
  ma_dsn :: "string option"
  ma_files :: "(json \<times> json) option"
  ma_dry_run :: bool

definition mask_main :: "'d mask_env \<Rightarrow> mask_args \<Rightarrow> ('d, int) on_server" where
  "mask_main e0 a =
     (let admin_dsn = py_strip (py_or (ma_dsn a) [])
      in if \<not> ma_psycopg2 a then act_return 1
         else if admin_dsn = [] then act_return 1
         else
           case (case ma_files a of None \<Rightarrow> None | Some (allowlist_file, rules_file) \<Rightarrow> load_config allowlist_file rules_file) of
             None \<Rightarrow> act_return 1
           | Some files \<Rightarrow>
               (let e = configured_env e0 files
                in (\<lambda>w.
                  case on_read e admin_dsn (\<lambda>_ _. list_databases e) w of
                    (Inl _, w') \<Rightarrow> (Inr 1, w')
                  | (Inr databases, w') \<Rightarrow>
                      if ma_dry_run a then (Inr 0, w')
                      else
                        act_bind (each (mask_one e admin_dsn) databases \<lparr>rr_failed = [], rr_violations = [], rr_structural = []\<rparr>) (\<lambda>rr.
                          if rr_failed rr \<noteq> [] then act_return 1
                          else if rr_structural rr \<noteq> [] then act_return 2
                          else if rr_violations rr \<noteq> [] then act_return 2
                          else act_return 0) w')))"

section \<open>What PostgreSQL promises\<close>

text \<open>An UPDATE changes only the column it names; \<open>view\<close> is what a column holds.\<close>

fun target :: "stmt \<Rightarrow> string \<times> string" where
  "target (TypeUpdate t c _) = (t, c)"
| "target (DenyUpdate t c _) = (t, c)"

definition updates_one_column :: "'d mask_env \<Rightarrow> ('d \<Rightarrow> string \<times> string \<Rightarrow> 'v) \<Rightarrow> bool" where
  "updates_one_column e view \<longleftrightarrow>
     (\<forall>tick st d n d' col. me_exec e tick st d = Inr (n, d') \<and> col \<noteq> target st \<longrightarrow> view d' col = view d col)"

section \<open>Lemmas on sessions\<close>

text \<open>What every step of the two passes leaves as it is: the stored database and cleared columns.\<close>

definition cleared :: "'d mask_env \<Rightarrow> (string \<times> string) list \<Rightarrow> string \<times> string \<Rightarrow> bool" where
  "cleared e unique col \<longleftrightarrow> is_structural_table (fst col) \<or> is_allowed (fst col) (snd col) (me_allow e) \<or> col \<in> set unique"

definition steady ::
  "'d mask_env \<Rightarrow> ('d \<Rightarrow> string \<times> string \<Rightarrow> 'v) \<Rightarrow> (string \<times> string) list \<Rightarrow> 'd session \<Rightarrow> 'd session \<Rightarrow> bool" where
  "steady e view unique s s' \<longleftrightarrow>
     ss_stored s' = ss_stored s \<and> (\<forall>col. cleared e unique col \<longrightarrow> view (ss_work s') col = view (ss_work s) col)"

lemma steady_refl [simp]: "steady e view unique s s"
  by (simp add: steady_def)

lemma steady_trans: "steady e view unique a b \<Longrightarrow> steady e view unique b c \<Longrightarrow> steady e view unique a c"
  by (simp add: steady_def)

abbreviation holds :: "'d mask_env \<Rightarrow> ('d \<Rightarrow> string \<times> string \<Rightarrow> 'v) \<Rightarrow> (string \<times> string) list \<Rightarrow> ('d, 'a) on_session \<Rightarrow> bool" where
  "holds e view unique m \<equiv> valid (\<lambda>_. True) (steady e view unique) m"

lemma holds_bind:
  "holds e view unique m \<Longrightarrow> (\<And>x. holds e view unique (k x)) \<Longrightarrow> holds e view unique (act_bind m k)"
  by (rule valid_bind [where Q = "\<lambda>_. True"]) (auto intro: steady_trans elim: validD)

lemma holds_ctl: "holds e view unique (ctl e c)"
  by (simp add: valid_def ctl_def steady_def)

lemma holds_query: "holds e view unique (query e g)"
  unfolding query_def by (rule holds_bind, rule holds_ctl) (simp add: valid_def)

lemma holds_run_update:
  assumes "updates_one_column e view" "\<not> cleared e unique (target st)"
  shows "holds e view unique (run_update e st table column phase)"
  unfolding run_update_def
proof (rule holds_bind, rule holds_ctl, rule validI)
  fix x :: unit and s
  show "steady e view unique s (snd ((case me_exec e (ss_tick s) st (ss_work s) of
         Inr (n, d) \<Rightarrow> act_seq (ctl e Release) (act_return (Inr n)) (s\<lparr>ss_work := d, ss_tick := Suc (ss_tick s)\<rparr>)
       | Inl x \<Rightarrow>
           act_seq (ctl e RollbackTo)
             (case py_splitlines (py_strip (error_text x)) of
                [] \<Rightarrow> act_raise MaskIndexError
              | l # _ \<Rightarrow> act_return (Inl \<lparr>fa_table = table, fa_column = column, fa_phase = phase, fa_error = l\<rparr>))
             (s\<lparr>ss_tick := Suc (ss_tick s)\<rparr>))))"
  proof (cases "me_exec e (ss_tick s) st (ss_work s)")
    case (Inl x)
    then show ?thesis by (auto simp: ctl_def steady_def split: list.splits sum.splits)
  next
    case (Inr r)
    obtain n d where r: "r = (n, d)" by fastforce
    have "view d col = view (ss_work s) col" if "cleared e unique col" for col
      using assms Inr r that unfolding updates_one_column_def by metis
    with Inr r show ?thesis by (auto simp: ctl_def steady_def split: sum.splits)
  qed
qed

lemma holds_each: "(\<And>c m. holds e view unique (step c m)) \<Longrightarrow> holds e view unique (each step cs m)"
proof (induction cs arbitrary: m)
  case Nil
  then show ?case by (simp add: valid_def)
next
  case (Cons c cs)
  show ?case unfolding each.simps by (rule holds_bind) (rule Cons)+
qed

lemma holds_return: "holds e view unique (act_return x)" "holds e view unique (act_raise y)"
  by (simp_all add: valid_def)

lemma holds_type_step:
  assumes "updates_one_column e view"
  shows "holds e view unique (type_step e ttypes unique c m)"
  using assms
  by (cases c) (auto simp: type_step_def cleared_def split: option.split
      intro!: holds_return holds_bind holds_run_update simp del: act_return_def act_bind_def)

lemma holds_deny_step:
  assumes "updates_one_column e view"
  shows "holds e view unique (deny_step e unique c m)"
proof -
  have "holds e view unique (deny_patterns_on e t col ps m)" if "\<not> cleared e unique (t, col)" for t col ps m
    using that assms
    by (induction ps arbitrary: m)
      (auto intro!: holds_return holds_bind holds_run_update simp del: act_return_def act_bind_def)
  then show ?thesis
    by (cases c) (auto simp: deny_step_def cleared_def intro!: holds_return simp del: act_return_def)
qed

section \<open>The transaction as a whole\<close>

lemma query_work: "query e g s = (r, s') \<Longrightarrow> (\<forall>x. r = Inr x \<longrightarrow> x = g (ss_work s)) \<and> ss_work s' = ss_work s \<and> ss_stored s' = ss_stored s"
  by (auto simp: query_def ctl_def split: option.splits)

text \<open>Up to its end, the transaction is steady; only a commit stores anything.\<close>

definition passes :: "'d mask_env \<Rightarrow> ('d, metrics) on_session" where
  "passes e =
     act_bind (query e (\<lambda>d. odoo_ttypes (me_fields e d))) (\<lambda>ttypes.
     act_bind (query e (me_unique e)) (\<lambda>unique.
     act_bind (query e (\<lambda>d. list_columns (me_catalog e d))) (\<lambda>columns.
     act_bind (each (type_step e ttypes unique) columns no_metrics) (\<lambda>m1.
       each (deny_step e unique) columns m1))))"

lemma act_bind_assoc: "act_bind (act_bind m f) g = act_bind m (\<lambda>x. act_bind (f x) g)"
  by (rule ext) (auto split: prod.splits sum.splits)

lemma mask_transaction_passes:
  "mask_transaction e = act_bind (passes e) (\<lambda>m.
     if mt_failures m \<noteq> []
     then act_seq (mask_rollback e)
            (act_raise (ColumnsFailed (int_str (int (length (mt_failures m))) @
               '' column(s) failed masking in this database; transaction rolled back'')))
     else act_seq (mask_commit e) (act_return m))"
  by (simp add: mask_transaction_def passes_def act_bind_assoc del: act_bind_def act_return_def act_raise_def)

lemma passes_steady:
  assumes "updates_one_column e view" "passes e s = (r, s')"
  shows "steady e view (me_unique e (ss_work s)) s s'"
proof -
  obtain r1 s1 where 1: "query e (\<lambda>d. odoo_ttypes (me_fields e d)) s = (r1, s1)" by fastforce
  note q1 = query_work [OF 1]
  show ?thesis
  proof (cases r1)
    case (Inl x)
    with 1 q1 assms(2) show ?thesis by (auto simp: passes_def steady_def)
  next
    case (Inr ttypes)
    obtain r2 s2 where 2: "query e (me_unique e) s1 = (r2, s2)" by fastforce
    note q2 = query_work [OF 2]
    show ?thesis
    proof (cases r2)
      case (Inl x)
      with 1 2 q1 q2 \<open>r1 = _\<close> assms(2) show ?thesis by (auto simp: passes_def steady_def)
    next
      case (Inr unique)
      then have u: "unique = me_unique e (ss_work s)" using q1 q2 by auto
      have "holds e view unique
          (act_bind (query e (\<lambda>d. list_columns (me_catalog e d))) (\<lambda>columns.
           act_bind (each (type_step e ttypes unique) columns no_metrics) (\<lambda>m1. each (deny_step e unique) columns m1)))"
        by (intro holds_bind holds_query holds_each holds_type_step holds_deny_step assms(1))
      moreover have "(act_bind (query e (\<lambda>d. list_columns (me_catalog e d))) (\<lambda>columns.
           act_bind (each (type_step e ttypes unique) columns no_metrics) (\<lambda>m1. each (deny_step e unique) columns m1))) s2 = (r, s')"
        using assms(2) 1 2 \<open>r1 = _\<close> Inr by (simp add: passes_def)
      ultimately have "steady e view unique s2 s'" using validD by fastforce
      with q1 q2 show ?thesis unfolding u steady_def by simp
    qed
  qed
qed

text \<open>What a stored masking leaves alone.\<close>

definition spares :: "'d mask_env \<Rightarrow> ('d \<Rightarrow> string \<times> string \<Rightarrow> 'v) \<Rightarrow> string \<Rightarrow> 'd server \<Rightarrow> 'd server \<Rightarrow> bool" where
  "spares e view dsn w w' \<longleftrightarrow>
     (\<forall>other. other \<noteq> dsn \<longrightarrow> sv_dbs w' other = sv_dbs w other) \<and>
     (\<forall>col. cleared e (me_unique e (sv_dbs w dsn)) col \<longrightarrow> view (sv_dbs w' dsn) col = view (sv_dbs w dsn) col)"

lemma spares_cong: "sv_dbs w1 = sv_dbs w \<Longrightarrow> spares e view dsn w1 w' \<Longrightarrow> spares e view dsn w w'"
  by (simp add: spares_def)

text \<open>How a masked database ends.\<close>

lemma mask_database_cases:
  assumes "updates_one_column e view" "mask_database e dsn w = (r, w')"
  shows "(\<exists>x. r = Inl x \<and> sv_dbs w' = sv_dbs w \<and> sv_slept w' = sv_slept w) \<or>
    (\<exists>m. r = Inr m \<and> mt_failures m = [] \<and> sv_slept w' = sv_slept w \<and> spares e view dsn w w')"
proof (cases "me_control e (sv_tick w) (Connect dsn)")
  case (Some x)
  with assms(2) show ?thesis by (auto simp: mask_database_def)
next
  case None
  let ?s = "\<lparr>ss_stored = sv_dbs w dsn, ss_work = sv_dbs w dsn, ss_tick = Suc (sv_tick w)\<rparr>"
  obtain rp sp where p: "passes e ?s = (rp, sp)" by fastforce
  from passes_steady [OF assms(1) p] have st: "ss_stored sp = sv_dbs w dsn"
    "\<forall>col. cleared e (me_unique e (sv_dbs w dsn)) col \<longrightarrow> view (ss_work sp) col = view (sv_dbs w dsn) col"
    by (simp_all add: steady_def)
  obtain rt s1 where t: "mask_transaction e ?s = (rt, s1)" by fastforce
  have same: "ss_stored s1 = sv_dbs w dsn" if "rt = Inl x" for x
    using t p st(1) that unfolding mask_transaction_passes
    by (cases rp) (auto simp: mask_rollback_def mask_commit_def ctl_def split: if_splits sum.splits option.splits)
  have finished: "mt_failures m = [] \<and> ss_stored s1 = ss_work sp" if "rt = Inr m" for m
    using t p that unfolding mask_transaction_passes
    by (cases rp) (auto simp: mask_rollback_def mask_commit_def ctl_def split: if_splits sum.splits option.splits)
  show ?thesis
  proof (cases rt)
    case (Inl x)
    obtain r2 :: "mask_exn + metrics" and s2 where rb: "act_seq (mask_rollback e) (act_raise x) s1 = (r2, s2)" by fastforce
    then have "ss_stored s2 = sv_dbs w dsn" "\<exists>y. r2 = Inl y"
      using same [OF Inl] by (auto simp: mask_rollback_def ctl_def split: sum.splits option.splits)
    moreover have "mask_database e dsn w = (r2, w\<lparr>sv_dbs := (sv_dbs w)(dsn := ss_stored s2), sv_tick := ss_tick s2\<rparr>)"
      using t Inl rb None by (auto simp: mask_database_def split: prod.splits sum.splits)
    ultimately show ?thesis using assms(2) by auto
  next
    case (Inr m)
    then have "r = Inr m" "w' = w\<lparr>sv_dbs := (sv_dbs w)(dsn := ss_work sp), sv_tick := ss_tick s1\<rparr>"
      using assms(2) None t finished [OF Inr] by (auto simp: mask_database_def)
    with finished [OF Inr] st(2) show ?thesis by (simp add: spares_def)
  qed
qed

text \<open>The retry: what it returns, what it stores, and how long it waited.\<close>

definition waits :: "nat \<Rightarrow> nat \<Rightarrow> nat list" where
  "waits attempt k = map (\<lambda>i. 2 ^ i) [attempt ..< attempt + k]"

lemma waits_simps [simp]: "waits attempt 0 = []" "2 ^ attempt # waits (Suc attempt) k = waits attempt (Suc k)"
  by (simp_all add: waits_def upt_conv_Cons)

lemma retry_step:
  assumes "mask_database_with_retry e dsn attempts attempt w = (r, w')" "mask_database e dsn w = (r1, w1)" "attempt \<le> attempts"
    and "\<not> (\<exists>x. r1 = Inl x \<and> transient x) \<or> attempts = attempt"
  shows "r = map_sum id Some r1 \<and> w' = w1"
  using assms by (cases r1) (auto simp: mask_database_with_retry.simps [of e dsn attempts attempt w] split: if_splits)

lemma retry_cases:
  assumes "updates_one_column e view" "attempt \<le> attempts" "mask_database_with_retry e dsn attempts attempt w = (r, w')"
  shows "(\<exists>k. attempt + k \<le> attempts \<and> sv_slept w' = sv_slept w @ waits attempt k \<and>
       (\<forall>x. r = Inl x \<and> transient x \<longrightarrow> attempt + k = attempts)) \<and>
    ((\<exists>x. r = Inl x \<and> sv_dbs w' = sv_dbs w) \<or>
     (\<exists>m. r = Inr (Some m) \<and> mt_failures m = [] \<and> spares e view dsn w w'))"
  using assms(2,3)
proof (induction "attempts - attempt" arbitrary: attempt w)
  case (0 attempt w)
  obtain r1 w1 where 1: "mask_database e dsn w = (r1, w1)" by fastforce
  have e: "attempts = attempt" using 0 by simp
  from retry_step [OF 0(3) 1 0(2)] have "r = map_sum id Some r1 \<and> w' = w1" using e by simp
  moreover have "sv_slept w1 = sv_slept w" using mask_database_cases [OF assms(1) 1] by auto
  ultimately show ?case
    using mask_database_cases [OF assms(1) 1] e by (intro conjI exI [of _ "0 :: nat"]) auto
next
  case (Suc n attempt w)
  obtain r1 w1 where 1: "mask_database e dsn w = (r1, w1)" by fastforce
  note cases1 = mask_database_cases [OF assms(1) 1]
  show ?case
  proof (cases "\<exists>x. r1 = Inl x \<and> transient x")
    case True
    then obtain x where x: "r1 = Inl x" "transient x" by blast
    let ?w = "w1\<lparr>sv_slept := sv_slept w1 @ [2 ^ attempt]\<rparr>"
    have rec: "mask_database_with_retry e dsn attempts (Suc attempt) ?w = (r, w')"
      using Suc.hyps(2) Suc.prems(2) 1 x
      by (auto simp: mask_database_with_retry.simps [of e dsn attempts attempt w] split: if_splits)
    have "n = attempts - Suc attempt" "Suc attempt \<le> attempts" using Suc.hyps(2) by simp_all
    note ih = Suc.hyps(1) [OF this rec]
    from cases1 x have same: "sv_dbs ?w = sv_dbs w" "sv_slept ?w = sv_slept w @ [2 ^ attempt]" by auto
    from ih obtain k where k: "Suc attempt + k \<le> attempts" "sv_slept w' = sv_slept ?w @ waits (Suc attempt) k"
      "\<forall>x. r = Inl x \<and> transient x \<longrightarrow> Suc attempt + k = attempts" by blast
    then have "attempt + Suc k \<le> attempts \<and> sv_slept w' = sv_slept w @ waits attempt (Suc k) \<and>
        (\<forall>x. r = Inl x \<and> transient x \<longrightarrow> attempt + Suc k = attempts)"
      unfolding same by simp
    with ih spares_cong [OF same(1), of e view dsn w'] show ?thesis unfolding same(1) by blast
  next
    case False
    have r: "r = map_sum id Some r1 \<and> w' = w1" using retry_step [OF Suc.prems(2) 1 Suc.prems(1)] False by blast
    moreover have "sv_slept w1 = sv_slept w" using cases1 by auto
    moreover have "\<not> (\<exists>x. r = Inl x \<and> transient x)" using r False by (cases r1) auto
    ultimately show ?thesis
      using cases1 Suc.prems(1) by (intro conjI exI [of _ "0 :: nat"]) auto
  qed
qed

section \<open>The run over all databases\<close>

text \<open>A database that was masked, audited and found clean, and not touched since.\<close>

definition clean_run :: "'d mask_env \<Rightarrow> string \<Rightarrow> 'd server \<Rightarrow> bool" where
  "clean_run e dsn w' \<longleftrightarrow>
     (\<exists>w0 m w1 w2 w3. mask_database_with_retry e dsn 3 1 w0 = (Inr (Some m), w1) \<and> mt_failures m = [] \<and>
        sample_audit e dsn w1 = (Inr [], w2) \<and> verify_structural_integrity e dsn w2 = (Inr [], w3) \<and>
        sv_dbs w' dsn = sv_dbs w1 dsn)"

lemma on_read_dbs: "on_read e dsn g w = (r, w') \<Longrightarrow> sv_dbs w' = sv_dbs w"
  by (auto simp: on_read_def split: option.splits)

lemma retry_outcome:
  assumes "mask_database_with_retry e dsn 3 1 w = (r, w')"
  shows "(\<exists>x. r = Inl x) \<or> (\<exists>m. r = Inr (Some m) \<and> mt_failures m = [])" "\<forall>other. other \<noteq> dsn \<longrightarrow> sv_dbs w' other = sv_dbs w other"
proof -
  have "updates_one_column e (\<lambda>_ _. ())" by (simp add: updates_one_column_def)
  from retry_cases [OF this _ assms]
  show "(\<exists>x. r = Inl x) \<or> (\<exists>m. r = Inr (Some m) \<and> mt_failures m = [])" "\<forall>other. other \<noteq> dsn \<longrightarrow> sv_dbs w' other = sv_dbs w other"
    by (auto simp: spares_def)
qed

lemma mask_one_cases:
  assumes "mask_one e adm db rr w = (Inr rr', w')"
  shows "(\<forall>other. other \<noteq> db_dsn adm db \<longrightarrow> sv_dbs w' other = sv_dbs w other) \<and>
    (rr' = rr\<lparr>rr_failed := rr_failed rr @ [db]\<rparr> \<or>
     (\<exists>vs ss. rr' = rr\<lparr>rr_violations := rr_violations rr @ vs, rr_structural := rr_structural rr @ ss\<rparr> \<and>
        (vs = [] \<and> ss = [] \<longrightarrow> clean_run e (db_dsn adm db) w')))"
proof -
  let ?dsn = "db_dsn adm db"
  obtain r1 w1 where 1: "mask_database_with_retry e ?dsn 3 1 w = (r1, w1)" by fastforce
  note o = retry_outcome [OF 1]
  show ?thesis
  proof (cases r1)
    case (Inl x)
    with assms 1 o(2) show ?thesis
      by (cases x) (auto simp: mask_one_def Let_def)
  next
    case (Inr m)
    with o(1) obtain mt where mt: "m = Some mt" "mt_failures mt = []" by auto
    with assms 1 Inr obtain vs w2 ss where
      2: "sample_audit e ?dsn w1 = (Inr vs, w2)" and 3: "verify_structural_integrity e ?dsn w2 = (Inr ss, w')"
      and rr': "rr' = rr\<lparr>rr_violations := rr_violations rr @ vs, rr_structural := rr_structural rr @ ss\<rparr>"
      by (auto simp: mask_one_def Let_def split: prod.splits sum.splits)
    have "sv_dbs w' = sv_dbs w1"
      using on_read_dbs [OF 2 [unfolded sample_audit_def]] on_read_dbs [OF 3 [unfolded verify_structural_integrity_def]] by simp
    with o(2) rr' 1 2 3 Inr mt show ?thesis unfolding clean_run_def by (metis (no_types, lifting))
  qed
qed

lemma run_all:
  assumes "each (mask_one e adm) dbs rr w = (Inr rr', w')" "distinct (map (db_dsn adm) dbs)"
    and "rr_failed rr' = []" "rr_violations rr' = []" "rr_structural rr' = []"
  shows "list_all (\<lambda>db. clean_run e (db_dsn adm db) w') dbs \<and>
    rr_failed rr = [] \<and> rr_violations rr = [] \<and> rr_structural rr = [] \<and>
    (\<forall>other. other \<notin> db_dsn adm ` set dbs \<longrightarrow> sv_dbs w' other = sv_dbs w other)"
  using assms(1,2)
proof (induction dbs arbitrary: rr w)
  case Nil
  with assms(3-5) show ?case by simp
next
  case (Cons db dbs)
  then obtain rr1 w1 where 1: "mask_one e adm db rr w = (Inr rr1, w1)" and 2: "each (mask_one e adm) dbs rr1 w1 = (Inr rr', w')"
    by (auto split: prod.splits sum.splits)
  from Cons.IH [OF 2] Cons.prems(2) have ih: "list_all (\<lambda>db. clean_run e (db_dsn adm db) w') dbs"
    "rr_failed rr1 = []" "rr_violations rr1 = []" "rr_structural rr1 = []"
    "\<forall>other. other \<notin> db_dsn adm ` set dbs \<longrightarrow> sv_dbs w' other = sv_dbs w1 other" by simp_all
  note c = mask_one_cases [OF 1]
  with ih(2-4) have rr: "clean_run e (db_dsn adm db) w1" "rr_failed rr = []" "rr_violations rr = []" "rr_structural rr = []"
    by auto
  have "sv_dbs w' (db_dsn adm db) = sv_dbs w1 (db_dsn adm db)" using ih(5) Cons.prems(2) by simp
  with rr(1) have "clean_run e (db_dsn adm db) w'" by (auto simp: clean_run_def)
  with ih c rr show ?case by auto
qed

lemma db_dsn_inj: "db_dsn adm a = db_dsn adm b \<Longrightarrow> a = b"
  by (simp add: db_dsn_def)

section \<open>The masker's own numbers\<close>

lemma length_nat_digits: "10 ^ k \<le> n \<Longrightarrow> n < 10 ^ Suc k \<Longrightarrow> length (nat_digits n) = Suc k"
proof (induction k arbitrary: n)
  case 0
  then show ?case by (simp add: nat_digits.simps [of n])
next
  case (Suc k)
  then have "10 ^ k \<le> n div 10" "n div 10 < 10 ^ Suc k" by auto
  then have "length (nat_digits (n div 10)) = Suc k" by (rule Suc.IH)
  moreover have "\<not> n < 10" using Suc.prems(1) by (auto simp: power_Suc)
      (metis le_trans mult_le_mono2 mult.right_neutral not_less one_le_power one_le_numeral)
  ultimately show ?case by (simp add: nat_digits.simps [of n])
qed

definition phone_part :: regex where
  "phone_part = Seq (one digit_char) (opt (any_of '' .-''))"

lemma lang_SeqI: "u \<in> lang r \<Longrightarrow> v \<in> lang s \<Longrightarrow> u @ v \<in> lang (Seq r s)"
  by auto

lemma digit_in_part: "digit_char c \<Longrightarrow> [c] \<in> lang phone_part"
  using lang_SeqI [of "[c]" "one digit_char" "[]" "opt (any_of '' .-'')"] by (simp add: phone_part_def)

lemma digits_times: "list_all digit_char ds \<Longrightarrow> length ds = n \<Longrightarrow> ds \<in> lang (times_re n phone_part)"
proof (induction n arbitrary: ds)
  case (Suc n)
  then obtain c cs where c: "ds = c # cs" by (cases ds) auto
  with Suc have "[c] \<in> lang phone_part" "cs \<in> lang (times_re n phone_part)" by (simp_all add: digit_in_part)
  from lang_SeqI [OF this] c show ?case by simp
qed simp

lemma digits_up_to: "list_all digit_char ds \<Longrightarrow> length ds \<le> n \<Longrightarrow> ds \<in> lang (up_to n phone_part)"
proof (induction n arbitrary: ds)
  case (Suc n)
  show ?case
  proof (cases ds)
    case (Cons c cs)
    with Suc have "[c] \<in> lang phone_part" "cs \<in> lang (up_to n phone_part)" by (simp_all add: digit_in_part)
    from lang_SeqI [OF this] Cons show ?thesis by simp
  qed simp
qed simp

lemma id_char_not_space: "digit_char c \<or> c = CHR ''-'' \<Longrightarrow> \<not> py_space c"
  by (auto simp: digit_char_def py_space_def Let_def)

lemma py_in_subset: "py_in pat s \<Longrightarrow> set pat \<subseteq> set s"
  by (auto simp: py_in_def dest!: py_find_Some set_mono_prefix dest: in_set_dropD)

lemma no_boundary_phone: "no_boundary phone_like"
  by code_simp

lemma phone_like_digits:
  assumes "list_all digit_char ds" "length ds = 9"
  shows "re_search phone_like (ds @ rest)"
proof -
  have "list_all digit_char (take 6 ds)" "list_all digit_char (take 2 (drop 6 ds))" "list_all digit_char (drop 8 ds)"
    using assms(1) by (auto simp: list_all_iff dest: in_set_takeD in_set_dropD)
  moreover have "length (drop 8 ds) = 1" using assms(2) by simp
  ultimately have parts: "take 6 ds \<in> lang (times_re 6 phone_part)" "take 2 (drop 6 ds) \<in> lang (up_to 8 phone_part)"
    "drop 8 ds \<in> lang (one digit_char)"
    using assms(2) by (simp_all add: digits_times digits_up_to)
  have "[] \<in> lang (opt (any_of ''+''))" by simp
  then have "[] @ (take 6 ds @ take 2 (drop 6 ds)) @ drop 8 ds \<in> lang phone_like"
    unfolding phone_like_def Let_def phone_part_def [symmetric] by (intro lang_SeqI parts)
  moreover have "[] @ (take 6 ds @ take 2 (drop 6 ds)) @ drop 8 ds = ds"
  proof -
    have "take 6 ds @ take 2 (drop 6 ds) = take (6 + 2) ds" by (rule take_add [symmetric])
    then show ?thesis by simp
  qed
  ultimately have "ds \<in> lang phone_like" by (simp only:)
  then have "contains_lang (lang phone_like) (ds @ rest)" unfolding contains_lang_def by (metis append_Nil)
  then show ?thesis using no_boundary_phone by (simp add: re_search_lang)
qed

section \<open>Properties\<close>



text \<open>
  The run exits with 0 only if it was a dry run, which stores nothing, or every database of the
  cluster that is neither internal nor a template was masked without a failed column, and then
  audited: no sampled text outside the structural tables matched a deny-list pattern without
  being in the masker's own form, and no sampled cell of a structural table was in that form.
\<close>

theorem exit_zero_means_masked:
  assumes "mask_main e0 a w = (Inr 0, w')" "distinct (map fst (me_databases e0))"
  shows "if ma_dry_run a then sv_dbs w' = sv_dbs w
     else \<exists>files. load_config (fst (the (ma_files a))) (snd (the (ma_files a))) = Some files \<and>
       list_all (\<lambda>db. clean_run (configured_env e0 files) (db_dsn (py_strip (py_or (ma_dsn a) [])) db) w') (list_databases e0)"
proof -
  let ?adm = "py_strip (py_or (ma_dsn a) [])"
  from assms(1) obtain al ru files where f: "ma_files a = Some (al, ru)" "load_config al ru = Some files"
    by (auto simp: mask_main_def Let_def split: if_splits option.splits)
  let ?e = "configured_env e0 files"
  have dbs: "list_databases ?e = list_databases e0" by (simp add: list_databases_def configured_env_def)
  have dist: "distinct (map (db_dsn ?adm) (list_databases e0))"
  proof -
    have "distinct (list_databases e0)"
      unfolding list_databases_def by (rule distinct_map_filter) (rule assms(2))
    then show ?thesis by (simp add: distinct_map inj_on_def db_dsn_inj)
  qed
  obtain r1 w1 where 1: "on_read ?e ?adm (\<lambda>_ _. list_databases ?e) w = (r1, w1)" by fastforce
  then have r1: "\<And>xs. r1 = Inr xs \<Longrightarrow> xs = list_databases e0" using dbs by (auto simp: on_read_def split: option.splits)
  show ?thesis
  proof (cases "ma_dry_run a")
    case True
    with assms(1) f 1 on_read_dbs [OF 1] show ?thesis
      by (auto simp: mask_main_def Let_def split: if_splits sum.splits)
  next
    case False
    with assms(1) f 1 r1 obtain rr where
      2: "each (mask_one ?e ?adm) (list_databases e0) \<lparr>rr_failed = [], rr_violations = [], rr_structural = []\<rparr> w1 = (Inr rr, w')"
      and rr: "rr_failed rr = []" "rr_violations rr = []" "rr_structural rr = []"
      by (cases r1) (auto simp: mask_main_def Let_def split: if_splits sum.splits prod.splits)
    from run_all [OF 2 dist rr] f False show ?thesis by simp
  qed
qed

text \<open>
  The masker's own replacements of identity numbers fail its audit: once a sample shows the
  replacement of a cedula or NIT in any text column outside the structural tables, and the
  telephone pattern of the rules is on the deny list, the audit reports a violation, so that
  the run cannot exit with 0.
\<close>

theorem masked_ids_fail_audit:
  assumes "p \<in> set (me_patterns e)" "dp_search p = re_search phone_like"
    and "(t, c, dt, n) \<in> set (list_columns (me_catalog e (sv_dbs w dsn)))" "dt \<in> set text_data_types" "\<not> is_structural_table t"
    and "strategy_sql sem rng = Some expr" "sem \<in> {Cedula, Nit}" "v \<noteq> VNull" "sq_nine q < 900000000" "sq_digit q < 10"
    and "sql_eval q v expr = VText cell" "\<And>tick. cell \<in> set (me_sample e tick (sv_dbs w dsn) t c (me_sample_size e))"
    and "sample_audit e dsn w = (Inr vs, w')"
  shows "vs \<noteq> []"
proof -
  let ?nine = "nat_digits (100000000 + sq_nine q)"
  have nine: "list_all digit_char ?nine" "length ?nine = 9"
    using nat_digits_value [of "100000000 + sq_nine q"] length_nat_digits [of 8 "100000000 + sq_nine q"] assms(9) by simp_all
  have str: "int_str (int k) = nat_digits k" for k by (simp add: int_str_def)
  have "\<exists>rest. cell = ?nine @ rest \<and> set rest \<subseteq> {c. digit_char c \<or> c = CHR ''-''}"
    using assms(6,7,8,11) nat_digits_value [of "sq_digit q"]
    by (auto simp: lift_text_def str [of "100000000 + sq_nine q", simplified] str list_all_iff)
  then obtain rest where rest: "cell = ?nine @ rest" "set rest \<subseteq> {c. digit_char c \<or> c = CHR ''-''}" by blast
  have hit: "re_search phone_like cell" unfolding rest(1) by (rule phone_like_digits [OF nine])
  have ne: "cell \<noteq> []" using rest nine(2) by auto
  have chars: "set cell \<subseteq> {c. digit_char c \<or> c = CHR ''-''}" using rest nine(1) by (auto simp: list_all_iff)
  then have "CHR ''M'' \<notin> set cell" "CHR ''['' \<notin> set cell" "CHR ''+'' \<notin> set cell" "CHR ''@'' \<notin> set cell"
    by (auto simp: digit_char_def)
  moreover have "py_strip cell = cell"
    using chars ne id_char_not_space hd_in_set [OF ne] last_in_set [OF ne] by (intro py_strip_id) blast
  ultimately have "\<not> is_masked_value cell"
    using py_in_subset [of "''@masked.invalid''" cell] set_mono_prefix [of "''MASKED:''" cell] set_mono_prefix [of "''[REDACTED''" cell]
    by (auto simp: is_masked_value_def Let_def)
  then have "audit_value e t c cell \<noteq> []"
    using hit ne assms(1,2) by (auto simp: audit_value_def scan_for_pii_def Let_def filter_empty_conv intro!: bexI [of _ p])
  then show ?thesis
    using assms(3-5,12,13)
    by (auto simp: sample_audit_def on_read_def split: option.splits) blast
qed

section \<open>Witnesses\<close>

text \<open>
  A server whose databases are functions from columns to texts, with a partner's name and tax
  number, a country code under a unique index and a menu; one statement per cell.
\<close>

definition example_rows :: col_row where "example_rows = (''res_partner'', ''vat'', ''varchar'', None)"

fun example_exec :: "stmt \<Rightarrow> (string \<times> string \<Rightarrow> string) \<Rightarrow> int \<times> (string \<times> string \<Rightarrow> string)" where
  "example_exec (TypeUpdate t c _) d = (1, d((t, c) := ''100000005-1''))"
| "example_exec (DenyUpdate t c _) d = (0, d)"

definition example_masking :: "(string \<times> string \<Rightarrow> string) mask_env" where
  "example_masking =
     \<lparr>me_control = (\<lambda>_ _. None), me_exec = (\<lambda>_ st d. Inr (example_exec st d)), me_fields = (\<lambda>_. None),
      me_unique = (\<lambda>_. [(''res_country'', ''code'')]), me_catalog = (\<lambda>_. [example_rows]),
      me_sample = (\<lambda>_ d t c _. [d (t, c)]), me_databases = [(''acme'', False), (''postgres'', False)], me_allow = Map.empty,
      me_range = 0, me_patterns = [\<lparr>dp_name = ''Phone-like'', dp_pattern = [], dp_search = re_search phone_like\<rparr>],
      me_sample_size = 1, me_search = (\<lambda>_ _. False)\<rparr>"

definition example_server :: "(string \<times> string \<Rightarrow> string) server" where
  "example_server = \<lparr>sv_dbs = (\<lambda>_ _. ''100000005-1''), sv_tick = 0, sv_slept = []\<rparr>"

lemma example_one_column: "updates_one_column example_masking (\<lambda>d. d)"
proof -
  have "d' col = d col" if "example_exec st d = (n, d')" "col \<noteq> target st" for st d n d' col
    using that by (cases st) auto
  then show ?thesis by (auto simp: updates_one_column_def example_masking_def)
qed


lemma example_type: "classify_column ''res_partner'' ''vat'' None (Some ''character varying'') None = Nit"
  by code_simp

lemma example_texts:
  "py_strip ''u/x'' = ''u/x''" "db_dsn ''u/x'' ''acme'' = ''u/acme''" "is_masked_value ''100000005-1'' = False"
  by code_simp+

lemma example_config: "load_config (JObj []) (JObj [(''rules'', JNull)]) = Some (JObj [], JObj [(''rules'', JNull)])"
  by (simp add: load_config_def get_obj_def j_or_def)

lemma example_mask_values:
  "\<not> is_structural_table ''res_partner''" "pg_type_to_data_type ''varchar'' = Some ''character varying''"
  "deny_entries (JObj [(''rules'', JNull)]) = []"
  by (simp_all add: is_structural_table_def structural_tables_def pg_type_to_data_type_def deny_entries_def)

lemmas example_facts = example_type example_texts example_config example_mask_values

lemma example_main:
  "fst (mask_main example_masking \<lparr>ma_psycopg2 = True, ma_dsn = Some ''u/x'',
     ma_files = Some (JObj [], JObj [(''rules'', JNull)]), ma_dry_run = False\<rparr> example_server) = Inr 0"
proof -
  let ?e = "configured_env example_masking (JObj [], JObj [(''rules'', JNull)])"
  have e: "me_control ?e n c = None" "me_exec ?e n st d = Inr (example_exec st d)" "me_fields ?e d = None"
    "me_unique ?e d = [(''res_country'', ''code'')]" "me_catalog ?e d = [example_rows]" "me_allow ?e = Map.empty"
    "me_patterns ?e = []" "me_range ?e = 0" "list_databases ?e = [''acme'']" "me_sample ?e n d t col k = [d (t, col)]"
    for n c st d t col k
    by (simp_all add: configured_env_def example_masking_def example_facts compile_deny_patterns_def list_databases_def
        internal_databases_def)
  have cols: "list_columns [example_rows] = [(''res_partner'', ''vat'', ''character varying'', None)]"
    by (simp add: list_columns_def example_rows_def example_facts)
  have step: "\<exists>m d k. mask_database ?e ''u/acme'' w = (Inr m, w\<lparr>sv_dbs := (sv_dbs w)(''u/acme'' := d), sv_tick := k\<rparr>) \<and>
      d (''res_partner'', ''vat'') = ''100000005-1''" for w
    by (simp add: mask_database_def mask_transaction_def query_def ctl_def e cols odoo_ttypes_def type_step_def example_facts
        is_allowed_def run_update_def no_metrics_def deny_step_def text_data_types_def mask_commit_def)
      (rule exI [of _ "(sv_dbs w ''u/acme'')((''res_partner'', ''vat'') := ''100000005-1'')"], simp, blast)
  have audit: "\<exists>w'. sample_audit ?e ''u/acme'' w = (Inr [], w')" "\<exists>w'. verify_structural_integrity ?e ''u/acme'' w = (Inr [], w')"
    if "sv_dbs w ''u/acme'' (''res_partner'', ''vat'') = ''100000005-1''" for w
    using that
    by (simp_all add: sample_audit_def verify_structural_integrity_def on_read_def e cols example_facts audit_value_def scan_for_pii_def)
  have one_db: "\<exists>w'. mask_one ?e ''u/x'' ''acme'' rr w = (Inr rr, w')" for rr w
  proof -
    from step [of w] obtain m d k where 1: "mask_database ?e ''u/acme'' w = (Inr m, w\<lparr>sv_dbs := (sv_dbs w)(''u/acme'' := d), sv_tick := k\<rparr>)"
      and d: "d (''res_partner'', ''vat'') = ''100000005-1''" by blast
    let ?w = "w\<lparr>sv_dbs := (sv_dbs w)(''u/acme'' := d), sv_tick := k\<rparr>"
    obtain w2 where 2: "sample_audit ?e ''u/acme'' ?w = (Inr [], w2)" using audit(1) [of ?w] d by auto
    then have "sv_dbs w2 = sv_dbs ?w" using on_read_dbs unfolding sample_audit_def by blast
    then obtain w3 where 3: "verify_structural_integrity ?e ''u/acme'' w2 = (Inr [], w3)" using audit(2) [of w2] d by auto
    show ?thesis using 1 2 3
      by (simp add: mask_one_def Let_def example_facts mask_database_with_retry.simps [of ?e "''u/acme''" 3 "Suc 0"])
  qed
  obtain w1 where 1: "on_read ?e ''u/x'' (\<lambda>_ _. [''acme'']) example_server = (Inr [''acme''], w1)"
    by (simp add: on_read_def e)
  obtain w2 where 2: "mask_one ?e ''u/x'' ''acme'' \<lparr>rr_failed = [], rr_violations = [], rr_structural = []\<rparr> w1
      = (Inr \<lparr>rr_failed = [], rr_violations = [], rr_structural = []\<rparr>, w2)" using one_db by blast
  show ?thesis using 1 2 by (simp add: mask_main_def Let_def py_or_def example_facts e)
qed

lemma exit_zero_means_masked_witness:
  "\<exists>w'. mask_main example_masking \<lparr>ma_psycopg2 = True, ma_dsn = Some ''u/x'',
       ma_files = Some (JObj [], JObj [(''rules'', JNull)]), ma_dry_run = False\<rparr> example_server = (Inr 0, w') \<and>
     clean_run (configured_env example_masking (JObj [], JObj [(''rules'', JNull)])) ''u/acme'' w'"
proof -
  let ?a = "\<lparr>ma_psycopg2 = True, ma_dsn = Some ''u/x'', ma_files = Some (JObj [], JObj [(''rules'', JNull)]), ma_dry_run = False\<rparr>"
  have run: "fst (mask_main example_masking ?a example_server) = Inr 0" by (rule example_main)
  obtain w' where w': "mask_main example_masking ?a example_server = (Inr 0, w')" using run by (metis prod.collapse)
  have "list_databases example_masking = [''acme'']" by (simp add: list_databases_def example_masking_def internal_databases_def)
  moreover have "distinct (map fst (me_databases example_masking))" by (simp add: example_masking_def)
  ultimately show ?thesis
    using exit_zero_means_masked [OF w'] w' by (simp add: py_or_def example_config example_texts)
qed

lemma masked_ids_fail_audit_witness: "fst (sample_audit example_masking ''u'' example_server) \<noteq> Inr []"
proof -
  let ?p = "\<lparr>dp_name = ''Phone-like'', dp_pattern = [], dp_search = re_search phone_like\<rparr>"
  let ?q = "\<lparr>sq_md5 = id, sq_text = (\<lambda>_. []), sq_nine = 5, sq_digit = 1, sq_random = 0\<rparr>"
  obtain vs w' where run: "sample_audit example_masking ''u'' example_server = (Inr vs, w')"
    by (simp add: sample_audit_def on_read_def example_masking_def)
  have cols: "(''res_partner'', ''vat'', ''character varying'', None) \<in> set (list_columns (me_catalog example_masking d))" for d
    by (simp add: example_masking_def list_columns_def example_rows_def pg_type_to_data_type_def)
  have "vs \<noteq> []"
  proof (rule masked_ids_fail_audit [where p = ?p and sem = Nit and q = ?q and v = "VText ''x''" and rng = 0 and
        expr = "the (strategy_sql Nit 0)" and cell = "''100000005-1''", OF _ _ cols _ _ _ _ _ _ _ _ _ run])
    have "char_of (49 :: nat) = CHR ''1''" "char_of (48 :: nat) = CHR ''0''" "char_of (53 :: nat) = CHR ''5''" by code_simp+
    then have "nat_digits 100000005 = ''100000005''" "nat_digits 1 = ''1''"
      by (simp_all add: nat_digits.simps)
    then show "sql_eval ?q (VText ''x'') (the (strategy_sql Nit 0)) = VText ''100000005-1''"
      by (simp add: int_str_def lift_text_def)
    show "strategy_sql Nit 0 = Some (the (strategy_sql Nit 0))" by simp
  qed (simp_all add: example_masking_def example_server_def text_data_types_def is_structural_table_def structural_tables_def)
  with run show ?thesis by simp
qed


end
