(* ===== verification/MigrationQueue.thy ===== *)
theory MigrationQueue
  imports MigrationStore
begin

text \<open>
  What the queue operations of MigrationStore guarantee together: which row a claim takes, how
  long a parked row stays invisible, and, over any interleaving of several runners with the
  control plane, that no job is processed twice and that the time stamps agree with the status.
\<close>

section \<open>The queue under several runners\<close>

text \<open>
  The state is the database and, for every iteration in progress, the host of the runner and the
  job it claimed. The steps are the transactions of db.py, issued by a runner for the job it
  holds and without looking at the row's status first, exactly as runner.py does; a runner that
  dies or whose iteration raises (\<open>crash\<close>); and what other parts of the system do to the
  tables: enqueue a job, cancel one, edit a tenant. The sweeper that requeues rows with a stale
  heartbeat is not part of this repository and is not among the steps.
\<close>

record queue_sys =
  q_db :: control_db
  q_held :: "(string \<times> string) list"

definition cancel_job :: "string \<Rightarrow> control_db \<Rightarrow> control_db" where
  "cancel_job i = update_job i (\<lambda>r. r\<lparr>mj_status := Cancelled\<rparr>)"

definition fresh_job :: "migration_job \<Rightarrow> bool" where
  "fresh_job j \<longleftrightarrow> mj_status j = Queued \<and> mj_started_at j = None \<and> mj_heartbeat_at j = None \<and>
     mj_finished_at j = None"

definition enqueue_job :: "migration_job \<Rightarrow> control_db \<Rightarrow> control_db" where
  "enqueue_job j db = db\<lparr>jobs := jobs db @ [j]\<rparr>"

inductive queue_step :: "queue_sys \<Rightarrow> queue_sys \<Rightarrow> bool" where
  claim: "claim_next_job h now locked (q_db s) = (Some row, db') \<Longrightarrow>
    queue_step s \<lparr>q_db = db', q_held = (h, job_id row) # q_held s\<rparr>"
| heartbeat: "(h, i) \<in> set (q_held s) \<Longrightarrow>
    queue_step s (s\<lparr>q_db := snd (record_heartbeat now i (q_db s))\<rparr>)"
| snapshot: "(h, i) \<in> set (q_held s) \<Longrightarrow>
    queue_step s (s\<lparr>q_db := write_snapshot_id i snap (q_db s)\<rparr>)"
| block: "(h, i) \<in> set (q_held s) \<Longrightarrow>
    queue_step s \<lparr>q_db = transition_to_blocked i until (q_db s), q_held = remove1 (h, i) (q_held s)\<rparr>"
| skip: "(h, i) \<in> set (q_held s) \<Longrightarrow>
    queue_step s \<lparr>q_db = transition_to_skipped now i (q_db s), q_held = remove1 (h, i) (q_held s)\<rparr>"
| finish: "(h, i) \<in> set (q_held s) \<Longrightarrow>
    queue_step s \<lparr>q_db = finalize_done now i tid sha (q_db s), q_held = remove1 (h, i) (q_held s)\<rparr>"
| fail: "(h, i) \<in> set (q_held s) \<Longrightarrow>
    queue_step s \<lparr>q_db = fail_job now i tid Failed err (q_db s), q_held = remove1 (h, i) (q_held s)\<rparr>"
| time_out: "(h, i) \<in> set (q_held s) \<Longrightarrow>
    queue_step s \<lparr>q_db = fail_job now i tid Timedout err (q_db s), q_held = remove1 (h, i) (q_held s)\<rparr>"
| retry: "(h, i) \<in> set (q_held s) \<Longrightarrow>
    queue_step s \<lparr>q_db = retry_transient now i backoff err (q_db s), q_held = remove1 (h, i) (q_held s)\<rparr>"
| crash: "(h, i) \<in> set (q_held s) \<Longrightarrow> queue_step s (s\<lparr>q_held := remove1 (h, i) (q_held s)\<rparr>)"
| cancel: "queue_step s (s\<lparr>q_db := cancel_job i (q_db s)\<rparr>)"
| enqueue: "fresh_job j \<Longrightarrow> mj_id j \<notin> mj_id ` set (jobs (q_db s)) \<Longrightarrow>
    queue_step s (s\<lparr>q_db := enqueue_job j (q_db s)\<rparr>)"
| edit_tenants: "queue_step s (s\<lparr>q_db := (q_db s)\<lparr>tenants := ts\<rparr>\<rparr>)"

definition empty_queue :: queue_sys where
  "empty_queue = \<lparr>q_db = \<lparr>jobs = [], tenants = [], audit = []\<rparr>, q_held = []\<rparr>"

inductive queue_reachable :: "queue_sys \<Rightarrow> bool" where
  init: "queue_reachable empty_queue"
| step: "queue_reachable s \<Longrightarrow> queue_step s t \<Longrightarrow> queue_reachable t"

section \<open>Invariants\<close>

text \<open>What the time stamps of a row say about its status.\<close>

definition job_wf :: "migration_job \<Rightarrow> bool" where
  "job_wf j \<longleftrightarrow>
     (case mj_status j of
        Queued \<Rightarrow> mj_started_at j = None \<and> mj_finished_at j = None \<and> mj_heartbeat_at j = None
      | Blocked \<Rightarrow> mj_started_at j = None \<and> mj_finished_at j = None \<and> mj_heartbeat_at j = None
      | Running \<Rightarrow> mj_started_at j \<noteq> None \<and> mj_finished_at j = None \<and> mj_heartbeat_at j \<noteq> None
      | Skipped \<Rightarrow> mj_finished_at j \<noteq> None
      | Done \<Rightarrow> mj_finished_at j \<noteq> None \<and> mj_heartbeat_at j = None
      | Failed \<Rightarrow> mj_finished_at j \<noteq> None \<and> mj_heartbeat_at j = None
      | Timedout \<Rightarrow> mj_finished_at j \<noteq> None \<and> mj_heartbeat_at j = None
      | Cancelled \<Rightarrow> True)"

definition held_ok :: "control_db \<Rightarrow> string \<Rightarrow> bool" where
  "held_ok db i \<longleftrightarrow> job_status_of i db \<in> {Some Running, Some Cancelled}"

definition queue_inv :: "queue_sys \<Rightarrow> bool" where
  "queue_inv s \<longleftrightarrow>
     distinct (map mj_id (jobs (q_db s))) \<and>
     (\<forall>j \<in> set (jobs (q_db s)). job_wf j) \<and>
     (\<forall>p \<in> set (q_held s). held_ok (q_db s) (snd p)) \<and>
     distinct (map snd (q_held s))"

lemma distinct_remove1_snd:
  "distinct (map snd xs) \<Longrightarrow> (h, i) \<in> set xs \<Longrightarrow>
   distinct (map snd (remove1 (h, i) xs)) \<and> (\<forall>p \<in> set (remove1 (h, i) xs). p \<in> set xs \<and> snd p \<noteq> i)"
  by (induction xs) (auto simp: image_iff)

context job_transition
begin

text \<open>A transition of a held row that keeps it held.\<close>

lemma inv_keep:
  assumes inv: "queue_inv s" and held: "(h, jid) \<in> set (q_held s)"
    and wf: "\<And>r. job_wf r \<Longrightarrow> mj_status r \<in> {Running, Cancelled} \<Longrightarrow> job_wf (f r)"
    and st: "\<And>r. mj_status (f r) = mj_status r"
  shows "queue_inv (s\<lparr>q_db := op (q_db s)\<rparr>)"
proof -
  have ok: "held_ok (q_db s) jid" using inv held by (auto simp: queue_inv_def)
  have "held_ok (op (q_db s)) i" if "held_ok (q_db s) i" for i
    using that st by (cases "i = jid") (auto simp: held_ok_def job_after other_job_after)
  moreover have "job_wf j" if "j \<in> set (jobs (op (q_db s)))" for j
  proof (cases "j \<in> set (jobs (q_db s))")
    case False
    with jobs_after_cases [OF that] obtain r where r: "r \<in> set (jobs (q_db s))" "mj_id r = jid" "j = f r"
      by auto
    then have "get_job jid (q_db s) = Some r"
      using inv row_get_distinct by (fastforce simp: queue_inv_def)
    then have "mj_status r \<in> {Running, Cancelled}" using ok by (auto simp: held_ok_def)
    then show ?thesis using r inv wf by (auto simp: queue_inv_def)
  qed (use inv in \<open>auto simp: queue_inv_def\<close>)
  ultimately show ?thesis using inv by (simp add: queue_inv_def job_ids_after)
qed

text \<open>A transition that ends the iteration holding the row.\<close>

lemma inv_release:
  assumes inv: "queue_inv s" and held: "(h, jid) \<in> set (q_held s)"
    and wf: "\<And>r. job_wf r \<Longrightarrow> mj_status r \<in> {Running, Cancelled} \<Longrightarrow> job_wf (f r)"
  shows "queue_inv \<lparr>q_db = op (q_db s), q_held = remove1 (h, jid) (q_held s)\<rparr>"
proof -
  have ok: "held_ok (q_db s) jid" using inv held by (auto simp: queue_inv_def)
  have rest: "distinct (map snd (remove1 (h, jid) (q_held s)))"
    "\<And>p. p \<in> set (remove1 (h, jid) (q_held s)) \<Longrightarrow> p \<in> set (q_held s) \<and> snd p \<noteq> jid"
    using distinct_remove1_snd [OF _ held] inv by (auto simp: queue_inv_def)
  have "held_ok (op (q_db s)) (snd p)" if "p \<in> set (remove1 (h, jid) (q_held s))" for p
    using rest(2) [OF that] inv by (auto simp: queue_inv_def held_ok_def other_job_after)
  moreover have "job_wf j" if "j \<in> set (jobs (op (q_db s)))" for j
  proof (cases "j \<in> set (jobs (q_db s))")
    case False
    with jobs_after_cases [OF that] obtain r where r: "r \<in> set (jobs (q_db s))" "mj_id r = jid" "j = f r"
      by auto
    then have "get_job jid (q_db s) = Some r"
      using inv row_get_distinct by (fastforce simp: queue_inv_def)
    then have "mj_status r \<in> {Running, Cancelled}" using ok by (auto simp: held_ok_def)
    then show ?thesis using r inv wf by (auto simp: queue_inv_def)
  qed (use inv in \<open>auto simp: queue_inv_def\<close>)
  ultimately show ?thesis using inv rest(1) by (simp add: queue_inv_def job_ids_after)
qed

end

lemma inv_claim:
  assumes inv: "queue_inv s" and cl: "claim_next_job h now locked (q_db s) = (Some row, db')"
  shows "queue_inv \<lparr>q_db = db', q_held = (h, job_id row) # q_held s\<rparr>"
proof -
  from cl obtain j t where j: "j \<in> set (jobs (q_db s))" and cb: "claimable now j t"
    and row: "row = job_row j t" and db': "db' = update_job (mj_id j) (claim_upd h now) (q_db s)"
    by (rule claim_SomeE)
  have id: "job_id row = mj_id j" using row by (simp add: job_row_def)
  have get: "get_job (mj_id j) (q_db s) = Some j"
    using inv j row_get_distinct by (fastforce simp: queue_inv_def)
  have st: "mj_status j \<in> {Queued, Blocked}" using cb by (auto simp: claimable_def)
  have new: "mj_id j \<notin> snd ` set (q_held s)"
  proof
    assume "mj_id j \<in> snd ` set (q_held s)"
    then have "held_ok (q_db s) (mj_id j)" using inv by (auto simp: queue_inv_def)
    with get st show False by (auto simp: held_ok_def)
  qed
  have "held_ok db' (snd p)" if "p \<in> set (q_held s)" for p
  proof -
    from that new have "snd p \<noteq> mj_id j" by (metis imageI)
    then show ?thesis using that inv by (auto simp: db' queue_inv_def held_ok_def claim_row.other_job_after)
  qed
  moreover have "held_ok db' (mj_id j)"
    by (simp add: db' held_ok_def claim_row.job_after get)
  moreover have "job_wf k" if "k \<in> set (jobs db')" for k
    using claim_row.jobs_after_cases [OF that [unfolded db']]
  proof
    assume "\<exists>r \<in> set (jobs (q_db s)). mj_id r = mj_id j \<and> k = claim_upd h now r"
    then obtain r where r: "r \<in> set (jobs (q_db s))" "mj_id r = mj_id j" "k = claim_upd h now r" by blast
    then have "r = j"
      using get inv row_get_distinct by (fastforce simp: queue_inv_def)
    moreover have "job_wf j" using inv j by (auto simp: queue_inv_def)
    ultimately show ?thesis using r st by (auto simp: job_wf_def)
  qed (use inv in \<open>auto simp: queue_inv_def\<close>)
  ultimately show ?thesis
    using inv new by (auto simp: queue_inv_def id db' claim_row.job_ids_after)
qed

interpretation cancelled: job_transition "cancel_job i" i "\<lambda>r. r\<lparr>mj_status := Cancelled\<rparr>" for i
  by unfold_locales (simp_all add: cancel_job_def update_job_def)

lemma inv_cancel: "queue_inv s \<Longrightarrow> queue_inv (s\<lparr>q_db := cancel_job i (q_db s)\<rparr>)"
proof -
  assume inv: "queue_inv s"
  have "held_ok (cancel_job i (q_db s)) k" if "held_ok (q_db s) k" for k
    using that by (cases "k = i") (auto simp: held_ok_def cancelled.job_after cancelled.other_job_after)
  moreover have "job_wf j" if "j \<in> set (jobs (cancel_job i (q_db s)))" for j
    using cancelled.jobs_after_cases [OF that] inv by (auto simp: queue_inv_def job_wf_def)
  ultimately show ?thesis using inv by (simp add: queue_inv_def cancelled.job_ids_after)
qed

lemma inv_enqueue:
  assumes "queue_inv s" "fresh_job j" "mj_id j \<notin> mj_id ` set (jobs (q_db s))"
  shows "queue_inv (s\<lparr>q_db := enqueue_job j (q_db s)\<rparr>)"
proof -
  have "get_job i (enqueue_job j (q_db s)) = get_job i (q_db s)" if "get_job i (q_db s) \<noteq> None" for i
    using that by (auto simp: enqueue_job_def row_get_append)
  then have "held_ok (enqueue_job j (q_db s)) i" if "held_ok (q_db s) i" for i
    using that by (fastforce simp: held_ok_def)
  then show ?thesis
    using assms by (auto simp: queue_inv_def enqueue_job_def fresh_job_def job_wf_def)
qed

lemma inv_step: "queue_step s t \<Longrightarrow> queue_inv s \<Longrightarrow> queue_inv t"
proof (induction rule: queue_step.induct)
  case (claim h now locked s row db')
  then show ?case by (rule inv_claim [rotated])
next
  case (heartbeat h i s now)
  then show ?case by (intro beaten.inv_keep) (auto simp: job_wf_def)
next
  case (snapshot h i s snap)
  then show ?case by (intro snapped.inv_keep) (auto simp: job_wf_def)
next
  case (block h i s until)
  then show ?case by (intro blocked.inv_release) (auto simp: job_wf_def)
next
  case (skip h i s now)
  then show ?case by (intro skipped.inv_release) (auto simp: job_wf_def)
next
  case (finish h i s now tid sha)
  then show ?case by (intro done_op.inv_release) (auto simp: job_wf_def)
next
  case (fail h i s now tid err)
  then show ?case by (intro failed_op.inv_release) (auto simp: job_wf_def)
next
  case (time_out h i s now tid err)
  then show ?case by (intro timedout_op.inv_release) (auto simp: job_wf_def)
next
  case (retry h i s now backoff err)
  then show ?case by (intro retried.inv_release) (auto simp: job_wf_def)
next
  case (crash h i s)
  then show ?case using distinct_remove1_snd [of "q_held s" h i] by (auto simp: queue_inv_def)
next
  case (cancel s i)
  then show ?case by (rule inv_cancel)
next
  case (enqueue j s)
  then show ?case by (intro inv_enqueue)
next
  case (edit_tenants s ts)
  then show ?case by (simp add: queue_inv_def held_ok_def)
qed

lemma inv_reachable: "queue_reachable s \<Longrightarrow> queue_inv s"
proof (induction rule: queue_reachable.induct)
  case init
  show ?case by (simp add: queue_inv_def empty_queue_def)
next
  case (step s t)
  then show ?case by (blast intro: inv_step)
qed

section \<open>Runs used by the witnesses\<close>

definition demo_job :: "string \<Rightarrow> int \<Rightarrow> migration_job" where
  "demo_job i t =
     \<lparr>mj_id = i, mj_tenant_id = ''t1'', mj_target_sha = ''sha2'', mj_timeout_minutes = 30,
      mj_retry_count = 0, mj_status = Queued, mj_enqueued_at = t, mj_blocked_until = None,
      mj_started_at = None, mj_heartbeat_at = None, mj_finished_at = None, mj_runner_host = None,
      mj_error_excerpt = None, mj_snapshot_id = None, mj_dry_run = None\<rparr>"

definition demo_tenant :: tenant where
  "demo_tenant =
     \<lparr>tn_id = ''t1'', tn_slug = ''acme'', tn_db_name = ''acme_db'', tn_window = ''0 2 * * *'',
      tn_tz = ''UTC'', tn_last_sha = Some ''sha1'', tn_wave = None, tn_override_until = None,
      tn_updated_at = 0\<rparr>"

definition demo_db :: "migration_job list \<Rightarrow> control_db" where
  "demo_db js = \<lparr>jobs = js, tenants = [demo_tenant], audit = []\<rparr>"

lemmas demo_defs = demo_job_def demo_tenant_def demo_db_def

lemma demo_two_held:
  "queue_reachable
     \<lparr>q_db = demo_db [claim_upd ''h1'' 10 (demo_job ''a'' 1), claim_upd ''h2'' 20 (demo_job ''b'' 2)],
      q_held = [(''h2'', ''b''), (''h1'', ''a'')]\<rparr>"
proof -
  have r0: "queue_reachable \<lparr>q_db = demo_db [], q_held = []\<rparr>"
    using queue_reachable.step [OF queue_reachable.init queue_step.edit_tenants [of _ "[demo_tenant]"]]
    by (simp add: empty_queue_def demo_db_def)
  have r1: "queue_reachable \<lparr>q_db = demo_db [demo_job ''a'' 1], q_held = []\<rparr>"
    using queue_reachable.step [OF r0 queue_step.enqueue [of "demo_job ''a'' 1"]]
    by (simp add: demo_defs fresh_job_def enqueue_job_def)
  have r2: "queue_reachable \<lparr>q_db = demo_db [demo_job ''a'' 1, demo_job ''b'' 2], q_held = []\<rparr>"
    using queue_reachable.step [OF r1 queue_step.enqueue [of "demo_job ''b'' 2"]]
    by (simp add: demo_defs fresh_job_def enqueue_job_def)
  have c1: "claim_next_job ''h1'' 10 [] (demo_db [demo_job ''a'' 1, demo_job ''b'' 2]) =
      (Some (job_row (demo_job ''a'' 1) demo_tenant), demo_db [claim_upd ''h1'' 10 (demo_job ''a'' 1), demo_job ''b'' 2])"
    by (simp add: claim_next_job_def demo_defs eligible_def claimable_def job_le_def update_job_def row_simps)
  have r3: "queue_reachable \<lparr>q_db = demo_db [claim_upd ''h1'' 10 (demo_job ''a'' 1), demo_job ''b'' 2],
      q_held = [(''h1'', ''a'')]\<rparr>"
    using queue_reachable.step [OF r2 queue_step.claim [of "''h1''" 10 "[]"]] c1
    by (simp add: job_row_def demo_job_def)
  have c2: "claim_next_job ''h2'' 20 [] (demo_db [claim_upd ''h1'' 10 (demo_job ''a'' 1), demo_job ''b'' 2]) =
      (Some (job_row (demo_job ''b'' 2) demo_tenant),
       demo_db [claim_upd ''h1'' 10 (demo_job ''a'' 1), claim_upd ''h2'' 20 (demo_job ''b'' 2)])"
    by (simp add: claim_next_job_def demo_defs eligible_def claimable_def job_le_def update_job_def row_simps)
  show ?thesis
    using queue_reachable.step [OF r3 queue_step.claim [of "''h2''" 20 "[]"]] c2
    by (simp add: job_row_def demo_job_def)
qed

section \<open>Properties\<close>

text \<open>
  A claim takes the oldest claimable row no other transaction has locked (ties by id) and
  changes that row only; it returns nothing, and changes nothing, exactly when there is no such row.
\<close>

theorem claim_takes_first_eligible:
  assumes "claim_next_job host now locked db = (r, db')"
  shows "case r of
      None \<Rightarrow> db' = db \<and> (\<forall>j \<in> set (jobs db). \<not> eligible now locked db j)
    | Some row \<Rightarrow> \<exists>j t. j \<in> set (jobs db) \<and> eligible now locked db j \<and>
        (\<forall>k \<in> set (jobs db). eligible now locked db k \<longrightarrow> job_le j k) \<and>
        get_tenant (mj_tenant_id j) db = Some t \<and> row = job_row j t \<and>
        job_status_of (mj_id j) db' = Some Running \<and>
        (\<forall>i. i \<noteq> mj_id j \<longrightarrow> get_job i db' = get_job i db) \<and> tenants db' = tenants db"
proof (cases r)
  case None
  with assms show ?thesis using claim_NoneD by auto
next
  case (Some row)
  with assms obtain j t where j: "j \<in> set (jobs db)" "eligible now locked db j"
    "\<And>k. k \<in> set (jobs db) \<Longrightarrow> eligible now locked db k \<Longrightarrow> job_le j k"
    "get_tenant (mj_tenant_id j) db = Some t" "row = job_row j t"
    "db' = update_job (mj_id j) (claim_upd host now) db"
    by (auto elim: claim_SomeE)
  have "get_job (mj_id j) db \<noteq> None" using j(1) by (simp add: row_get_None)
  then have "job_status_of (mj_id j) db' = Some Running"
    unfolding j(6) by (intro claim_row.status_after) auto
  moreover have "\<forall>i. i \<noteq> mj_id j \<longrightarrow> get_job i db' = get_job i db"
    by (simp add: j(6) claim_row.other_job_after)
  ultimately show ?thesis using Some j by (auto simp: update_job_def)
qed

theorem claim_takes_first_eligible_witness:
  "\<exists>j t. j \<in> set (jobs (demo_db [demo_job ''b'' 2, demo_job ''a'' 1])) \<and>
     fst (claim_next_job ''h1'' 10 [] (demo_db [demo_job ''b'' 2, demo_job ''a'' 1])) = Some (job_row j t) \<and>
     mj_id j = ''a''"
proof -
  have "claim_next_job ''h1'' 10 [] (demo_db [demo_job ''b'' 2, demo_job ''a'' 1]) =
      (Some (job_row (demo_job ''a'' 1) demo_tenant), demo_db [demo_job ''b'' 2, claim_upd ''h1'' 10 (demo_job ''a'' 1)])"
    by (simp add: claim_next_job_def demo_defs eligible_def claimable_def job_le_def update_job_def row_simps)
  note c = this
  from claim_takes_first_eligible [OF c] obtain j t
    where j: "j \<in> set (jobs (demo_db [demo_job ''b'' 2, demo_job ''a'' 1]))"
      "job_row (demo_job ''a'' 1) demo_tenant = job_row j t" by auto
  from arg_cong [OF j(2), of job_id] have "mj_id j = ''a''" by (simp add: demo_job_def)
  with j c show ?thesis by fastforce
qed



text \<open>
  In every reachable state the time stamps agree with the status: a queued or blocked row was
  not started and has no heartbeat, a running row was started and is not finished, a finished row
  says when, and no failed or done row keeps a heartbeat.
\<close>

theorem queue_timestamps_agree:
  assumes "queue_reachable s" and "j \<in> set (jobs (q_db s))"
  shows "job_wf j"
  using inv_reachable [OF assms(1)] assms(2) by (auto simp: queue_inv_def)

theorem queue_timestamps_agree_witness: "job_wf (claim_upd ''h1'' 10 (demo_job ''a'' 1))"
  by (rule queue_timestamps_agree [OF demo_two_held]) (simp add: demo_db_def)

text \<open>
  After a job failed or timed out, no claim returns a job of its tenant (the tenant is paused)
  until the tenant row is edited, whichever jobs are queued for it.
\<close>

theorem failed_tenant_not_claimed:
  assumes "st \<in> {Failed, Timedout}"
    and "finalize_failed now i tid st err db = (Inr (), db1)"
    and "jobs db2 = js \<and> tenants db2 = tenants db1"
    and "claim_next_job host later locked db2 = (Some row, db3)"
  shows "job_tenant_id row \<noteq> tid"
proof
  assume tid: "job_tenant_id row = tid"
  from assms(4) obtain j t where j: "get_tenant (mj_tenant_id j) db2 = Some t" "claimable later j t"
    "row = job_row j t" by (auto elim: claim_SomeE)
  have "db1 = fail_job now i tid st err db" using assms(1,2) finalize_failed_run by simp
  with assms(1) have "tenants db1 = row_upd tn_id tid (\<lambda>t. t\<lparr>tn_wave := Some ''paused'', tn_updated_at := now\<rparr>) (tenants db)"
    by (simp add: fail_job_eq update_tenant_def update_job_def)
  with j tid assms(3) have "tn_wave t = Some ''paused''"
    by (auto simp: job_row_def row_get_upd_same)
  with j(2) show False by (simp add: claimable_def)
qed

theorem failed_tenant_not_claimed_witness:
  "job_tenant_id (job_row (demo_job ''x'' 3) (demo_tenant\<lparr>tn_id := ''t2''\<rparr>)\<lparr>job_tenant_id := ''t2''\<rparr>) \<noteq> ''t1''"
proof -
  let ?other = "(demo_job ''x'' 3)\<lparr>mj_tenant_id := ''t2''\<rparr>"
  let ?db = "\<lparr>jobs = [demo_job ''a'' 1], tenants = [demo_tenant, demo_tenant\<lparr>tn_id := ''t2''\<rparr>], audit = []\<rparr>"
  let ?db1 = "fail_job 5 ''a'' ''t1'' Failed ''boom'' ?db"
  let ?db2 = "?db1\<lparr>jobs := [demo_job ''c'' 2, ?other]\<rparr>"
  have f: "finalize_failed 5 ''a'' ''t1'' Failed ''boom'' ?db = (Inr (), ?db1)"
    by (simp add: finalize_failed_run)
  have c: "claim_next_job ''h'' 10 [] ?db2 = (Some (job_row ?other (demo_tenant\<lparr>tn_id := ''t2''\<rparr>)),
      update_job ''x'' (claim_upd ''h'' 10) ?db2)"
    by (simp add: claim_next_job_def demo_defs eligible_def claimable_def job_le_def update_job_def
        row_simps fail_job_eq update_tenant_def)
  show ?thesis
    using failed_tenant_not_claimed [OF _ f _ c] by (simp add: job_row_def demo_job_def)
qed

text \<open>
  A parked row stays invisible: a row blocked until some time, or sent back to the queue with
  a backoff, is not the one a claim returns before that time.
\<close>

theorem parked_job_invisible:
  assumes "db' = transition_to_blocked i (Some until) db \<or>
           db' = retry_transient t i backoff err db \<and> until = t + backoff * 1000000"
    and "now < until"
    and "claim_next_job host now locked db' = (Some row, db'')"
  shows "job_id row \<noteq> i"
proof
  assume i: "job_id row = i"
  from assms(3) obtain j tn where j: "j \<in> set (jobs db')" "claimable now j tn" "row = job_row j tn"
    by (auto elim: claim_SomeE)
  then have "mj_id j = i" using i by (simp add: job_row_def)
  from assms(1)
  have "mj_status j = Blocked \<and> mj_blocked_until j = Some until \<or> mj_status j = Queued \<and> mj_enqueued_at j = until"
  proof
    assume "db' = transition_to_blocked i (Some until) db"
    with j(1) blocked.job_of_id_after \<open>mj_id j = i\<close> obtain r
      where "j = r\<lparr>mj_status := Blocked, mj_started_at := None, mj_heartbeat_at := None,
        mj_finished_at := None, mj_blocked_until := Some until\<rparr>" by blast
    then show ?thesis by simp
  next
    assume d: "db' = retry_transient t i backoff err db \<and> until = t + backoff * 1000000"
    with j(1) have "j \<in> set (jobs (retry_transient t i backoff err db))" by simp
    from retried.job_of_id_after [OF this \<open>mj_id j = i\<close>] d show ?thesis by auto
  qed
  with j(2) assms(2) show False by (auto simp: claimable_def)
qed

theorem parked_job_invisible_witness:
  "job_id (job_row (demo_job ''b'' 2) demo_tenant) \<noteq> ''a''"
proof -
  let ?db = "transition_to_blocked ''a'' (Some 50) (demo_db [demo_job ''a'' 1, demo_job ''b'' 2])"
  have c: "claim_next_job ''h'' 10 [] ?db = (Some (job_row (demo_job ''b'' 2) demo_tenant),
      update_job ''b'' (claim_upd ''h'' 10) ?db)"
    by (simp add: claim_next_job_def demo_defs eligible_def claimable_def job_le_def job_op_defs row_simps)
  show ?thesis by (rule parked_job_invisible [OF disjI1 [OF refl] _ c]) simp
qed

end
