(* ===== verification/ThreadStore.thy ===== *)
theory ThreadStore
  imports Prelude
begin

text \<open>
  The state store of the Slack intake agent: the port of agents/agents/ports/state.py as a record
  of operations and a locale of the laws its clients use, and its two adapters,
  agents/agents/adapters/state_memory.py and state_sqlite.py.

  Time stamps are microseconds; the stores write them as ISO 8601 texts in UTC, whose order is the
  order of the times. \<open>datetime.now\<close> is read twice by \<open>seen_event\<close>, so it takes two times.
\<close>

section \<open>The port\<close>

record ThreadIssueLink =
  slack_channel :: string
  slack_thread_ts :: string
  github_repo :: string
  github_issue_number :: int
  reporter_slack_id :: string
  created_at :: int
  last_relayed_comment_id :: "int option"
  intent_confirmed_at :: "int option"

definition thread_of :: "ThreadIssueLink \<Rightarrow> string \<times> string" where
  "thread_of l = (slack_channel l, slack_thread_ts l)"

definition issue_of :: "ThreadIssueLink \<Rightarrow> string \<times> int" where
  "issue_of l = (github_repo l, github_issue_number l)"

lemma link_keys [simp]:
  "thread_of (l\<lparr>intent_confirmed_at := a\<rparr>) = thread_of l" "issue_of (l\<lparr>intent_confirmed_at := a\<rparr>) = issue_of l"
  "thread_of (l\<lparr>last_relayed_comment_id := c\<rparr>) = thread_of l" "issue_of (l\<lparr>last_relayed_comment_id := c\<rparr>) = issue_of l"
  by (simp_all add: thread_of_def issue_of_def)

record 'st store_ops =
  link_thread_to_issue :: "ThreadIssueLink \<Rightarrow> 'st \<Rightarrow> 'st"
  get_link_by_thread :: "'st \<Rightarrow> string \<times> string \<Rightarrow> ThreadIssueLink option"
  get_link_by_issue :: "'st \<Rightarrow> string \<times> int \<Rightarrow> ThreadIssueLink option"
  mark_intent_confirmed :: "string \<times> string \<Rightarrow> int \<Rightarrow> 'st \<Rightarrow> 'st"
  update_last_relayed_comment :: "string \<times> string \<Rightarrow> int \<Rightarrow> 'st \<Rightarrow> 'st"
  map_user :: "int \<Rightarrow> string \<Rightarrow> string \<Rightarrow> string \<Rightarrow> 'st \<Rightarrow> 'st"
  lookup_github_login :: "'st \<Rightarrow> string \<Rightarrow> string option"
  seen_event :: "int \<Rightarrow> int \<Rightarrow> string \<Rightarrow> 'st \<Rightarrow> bool \<times> 'st"

section \<open>The in-memory adapter\<close>

record memory_store =
  links_by_thread :: "(string \<times> string) \<rightharpoonup> ThreadIssueLink"
  links_by_issue :: "(string \<times> int) \<rightharpoonup> ThreadIssueLink"
  user_map :: "string \<rightharpoonup> string"
  mem_dedupe :: "string \<rightharpoonup> int"

definition mem_init :: memory_store where
  "mem_init = \<lparr>links_by_thread = Map.empty, links_by_issue = Map.empty, user_map = Map.empty,
     mem_dedupe = Map.empty\<rparr>"

definition mem_link :: "ThreadIssueLink \<Rightarrow> memory_store \<Rightarrow> memory_store" where
  "mem_link l st =
     st\<lparr>links_by_thread := (links_by_thread st)(thread_of l \<mapsto> l),
        links_by_issue := (links_by_issue st)(issue_of l \<mapsto> l)\<rparr>"

definition mem_replace ::
  "string \<times> string \<Rightarrow> (ThreadIssueLink \<Rightarrow> ThreadIssueLink) \<Rightarrow> memory_store \<Rightarrow> memory_store" where
  "mem_replace key f st =
     (case links_by_thread st key of
        None \<Rightarrow> st
      | Some existing \<Rightarrow>
          let updated = f existing
          in st\<lparr>links_by_thread := (links_by_thread st)(key \<mapsto> updated),
                links_by_issue := (links_by_issue st)(issue_of existing \<mapsto> updated)\<rparr>)"

definition mem_confirm :: "string \<times> string \<Rightarrow> int \<Rightarrow> memory_store \<Rightarrow> memory_store" where
  "mem_confirm key at = mem_replace key (\<lambda>l. l\<lparr>intent_confirmed_at := Some at\<rparr>)"

definition mem_relayed :: "string \<times> string \<Rightarrow> int \<Rightarrow> memory_store \<Rightarrow> memory_store" where
  "mem_relayed key c = mem_replace key (\<lambda>l. l\<lparr>last_relayed_comment_id := Some c\<rparr>)"

definition mem_map_user :: "int \<Rightarrow> string \<Rightarrow> string \<Rightarrow> string \<Rightarrow> memory_store \<Rightarrow> memory_store" where
  "mem_map_user now slack_user login method st = st\<lparr>user_map := (user_map st)(slack_user \<mapsto> login)\<rparr>"

definition mem_seen :: "int \<Rightarrow> int \<Rightarrow> int \<Rightarrow> string \<Rightarrow> memory_store \<Rightarrow> bool \<times> memory_store" where
  "mem_seen ttl now1 now2 key st =
     (let cutoff = now1 - ttl;
          aged = (\<lambda>k. case mem_dedupe st k of None \<Rightarrow> None | Some v \<Rightarrow> if v \<ge> cutoff then Some v else None)
      in if aged key \<noteq> None then (True, st\<lparr>mem_dedupe := aged\<rparr>)
         else (False, st\<lparr>mem_dedupe := aged(key \<mapsto> now2)\<rparr>))"

definition mem_ops :: "int \<Rightarrow> memory_store store_ops" where
  "mem_ops ttl =
     \<lparr>link_thread_to_issue = mem_link, get_link_by_thread = links_by_thread,
      get_link_by_issue = links_by_issue, mark_intent_confirmed = mem_confirm,
      update_last_relayed_comment = mem_relayed, map_user = mem_map_user,
      lookup_github_login = user_map, seen_event = mem_seen ttl\<rparr>"

section \<open>The SQLite adapter\<close>

record user_row =
  ur_slack :: string
  ur_login :: string
  ur_linked_at :: int
  ur_method :: string

record sqlite_store =
  thread_issue :: "ThreadIssueLink list"
  user_mapping :: "user_row list"
  dedupe :: "(string \<times> int) list"

definition sql_init :: sqlite_store where
  "sql_init = \<lparr>thread_issue = [], user_mapping = [], dedupe = []\<rparr>"

text \<open>\<open>INSERT OR REPLACE\<close>: the row with the same primary key goes, the new row comes last.\<close>

definition insert_or_replace :: "('r \<Rightarrow> 'k) \<Rightarrow> 'r \<Rightarrow> 'r list \<Rightarrow> 'r list" where
  "insert_or_replace key r rows = filter (\<lambda>q. key q \<noteq> key r) rows @ [r]"

definition sql_link :: "ThreadIssueLink \<Rightarrow> sqlite_store \<Rightarrow> sqlite_store" where
  "sql_link l st = st\<lparr>thread_issue := insert_or_replace thread_of l (thread_issue st)\<rparr>"

definition sql_get_by_thread :: "sqlite_store \<Rightarrow> string \<times> string \<Rightarrow> ThreadIssueLink option" where
  "sql_get_by_thread st key = row_get thread_of key (thread_issue st)"

definition sql_get_by_issue :: "sqlite_store \<Rightarrow> string \<times> int \<Rightarrow> ThreadIssueLink option" where
  "sql_get_by_issue st issue = row_get issue_of issue (thread_issue st)"

definition sql_confirm :: "string \<times> string \<Rightarrow> int \<Rightarrow> sqlite_store \<Rightarrow> sqlite_store" where
  "sql_confirm key at st =
     st\<lparr>thread_issue := row_upd thread_of key (\<lambda>l. l\<lparr>intent_confirmed_at := Some at\<rparr>) (thread_issue st)\<rparr>"

definition sql_relayed :: "string \<times> string \<Rightarrow> int \<Rightarrow> sqlite_store \<Rightarrow> sqlite_store" where
  "sql_relayed key c st =
     st\<lparr>thread_issue := row_upd thread_of key (\<lambda>l. l\<lparr>last_relayed_comment_id := Some c\<rparr>) (thread_issue st)\<rparr>"

definition sql_map_user :: "int \<Rightarrow> string \<Rightarrow> string \<Rightarrow> string \<Rightarrow> sqlite_store \<Rightarrow> sqlite_store" where
  "sql_map_user now slack_user login method st =
     st\<lparr>user_mapping := insert_or_replace ur_slack
          \<lparr>ur_slack = slack_user, ur_login = login, ur_linked_at = now, ur_method = method\<rparr> (user_mapping st)\<rparr>"

definition sql_lookup_login :: "sqlite_store \<Rightarrow> string \<Rightarrow> string option" where
  "sql_lookup_login st u = map_option ur_login (row_get ur_slack u (user_mapping st))"

definition sql_seen :: "int \<Rightarrow> int \<Rightarrow> int \<Rightarrow> string \<Rightarrow> sqlite_store \<Rightarrow> bool \<times> sqlite_store" where
  "sql_seen ttl now1 now2 key st =
     (let cutoff = now1 - ttl;
          kept = filter (\<lambda>r. \<not> snd r < cutoff) (dedupe st)
      in if row_get fst key kept \<noteq> None then (True, st\<lparr>dedupe := kept\<rparr>)
         else (False, st\<lparr>dedupe := kept @ [(key, now2)]\<rparr>))"

definition sql_ops :: "int \<Rightarrow> sqlite_store store_ops" where
  "sql_ops ttl =
     \<lparr>link_thread_to_issue = sql_link, get_link_by_thread = sql_get_by_thread,
      get_link_by_issue = sql_get_by_issue, mark_intent_confirmed = sql_confirm,
      update_last_relayed_comment = sql_relayed, map_user = sql_map_user,
      lookup_github_login = sql_lookup_login, seen_event = sql_seen ttl\<rparr>"

section \<open>The laws of the port\<close>

text \<open>
  \<open>wf\<close> holds of a store in which no two threads share an issue; it is kept by every operation as
  long as a link is only made between a new thread and a new issue. On such a store the two
  lookups read the same links. \<open>stamp\<close> is the time at which a delivery key was recorded.
\<close>

definition fresh_stamp :: "int \<Rightarrow> int \<Rightarrow> int option \<Rightarrow> int option" where
  "fresh_stamp ttl now v = (case v of None \<Rightarrow> None | Some t \<Rightarrow> if t \<ge> now - ttl then Some t else None)"

locale thread_store =
  fixes S :: "'st store_ops" and wf :: "'st \<Rightarrow> bool" and stamp :: "'st \<Rightarrow> string \<Rightarrow> int option" and ttl :: int
  assumes get_after_link: "get_link_by_thread S (link_thread_to_issue S l st) k =
      (if k = thread_of l then Some l else get_link_by_thread S st k)"
    and get_after_confirm: "wf st \<Longrightarrow> get_link_by_thread S (mark_intent_confirmed S key at st) k =
      (if k = key then map_option (\<lambda>l. l\<lparr>intent_confirmed_at := Some at\<rparr>) (get_link_by_thread S st k)
       else get_link_by_thread S st k)"
    and get_after_relayed: "wf st \<Longrightarrow> get_link_by_thread S (update_last_relayed_comment S key c st) k =
      (if k = key then map_option (\<lambda>l. l\<lparr>last_relayed_comment_id := Some c\<rparr>) (get_link_by_thread S st k)
       else get_link_by_thread S st k)"
    and get_after_seen: "get_link_by_thread S (snd (seen_event S n1 n2 e st)) k = get_link_by_thread S st k"
    and get_after_map: "get_link_by_thread S (map_user S now u lg mth st) k = get_link_by_thread S st k"
    and issue_iff: "wf st \<Longrightarrow> get_link_by_issue S st i = Some l \<longleftrightarrow>
      issue_of l = i \<and> get_link_by_thread S st (thread_of l) = Some l"
    and thread_key: "wf st \<Longrightarrow> get_link_by_thread S st k = Some l \<Longrightarrow> thread_of l = k"
    and wf_link: "wf st \<Longrightarrow> get_link_by_thread S st (thread_of l) = None \<Longrightarrow>
      get_link_by_issue S st (issue_of l) = None \<Longrightarrow> wf (link_thread_to_issue S l st)"
    and wf_confirm: "wf st \<Longrightarrow> wf (mark_intent_confirmed S key at st)"
    and wf_relayed: "wf st \<Longrightarrow> wf (update_last_relayed_comment S key c st)"
    and wf_seen: "wf st \<Longrightarrow> wf (snd (seen_event S n1 n2 e st))"
    and wf_map: "wf st \<Longrightarrow> wf (map_user S now u lg mth st)"
    and login_after_map: "lookup_github_login S (map_user S now u lg mth st) v =
      (if v = u then Some lg else lookup_github_login S st v)"
    and login_after_other: "lookup_github_login S (link_thread_to_issue S l st) = lookup_github_login S st"
      "lookup_github_login S (mark_intent_confirmed S key at st) = lookup_github_login S st"
      "lookup_github_login S (update_last_relayed_comment S key c st) = lookup_github_login S st"
      "lookup_github_login S (snd (seen_event S n1 n2 e st)) = lookup_github_login S st"
    and seen_answer: "wf st \<Longrightarrow> fst (seen_event S n1 n2 e st) \<longleftrightarrow> fresh_stamp ttl n1 (stamp st e) \<noteq> None"
    and stamp_after_seen: "wf st \<Longrightarrow> stamp (snd (seen_event S n1 n2 e st)) d =
      (if d = e \<and> fresh_stamp ttl n1 (stamp st e) = None then Some n2 else fresh_stamp ttl n1 (stamp st d))"
    and stamp_after_other: "stamp (link_thread_to_issue S l st) = stamp st"
      "stamp (mark_intent_confirmed S key at st) = stamp st"
      "stamp (update_last_relayed_comment S key c st) = stamp st"
      "stamp (map_user S now u lg mth st) = stamp st"
begin

lemma issue_after_confirm:
  assumes "wf st" "get_link_by_issue S st i = Some l"
  shows "get_link_by_issue S (mark_intent_confirmed S (thread_of l) at st) i = Some (l\<lparr>intent_confirmed_at := Some at\<rparr>)"
  using assms issue_iff [OF assms(1), of i l]
    issue_iff [OF wf_confirm [OF assms(1)], of _ _ i "l\<lparr>intent_confirmed_at := Some at\<rparr>"]
  by (simp add: get_after_confirm)

lemma thread_of_issue: "wf st \<Longrightarrow> get_link_by_issue S st i = Some l \<Longrightarrow> get_link_by_thread S st (thread_of l) = Some l"
  by (simp add: issue_iff)

lemma seen_twice:
  assumes "wf st" "seen_event S n1 n2 e st = (False, st')" "m1 \<le> n2 + ttl"
  shows "fst (seen_event S m1 m2 e st')"
proof -
  have "\<not> fst (seen_event S n1 n2 e st)" "snd (seen_event S n1 n2 e st) = st'" using assms(2) by simp_all
  then have "stamp st' e = Some n2" "wf st'"
    using assms(1) stamp_after_seen [OF assms(1), of n1 n2 e e] seen_answer [OF assms(1), of n1 n2 e]
      wf_seen [OF assms(1), of n1 n2 e] by auto
  then show ?thesis using assms(3) by (simp add: seen_answer fresh_stamp_def)
qed

end

section \<open>The abstract store\<close>

record abs_store =
  as_links :: "(string \<times> string) \<rightharpoonup> ThreadIssueLink"
  as_users :: "string \<rightharpoonup> string"
  as_stamps :: "string \<rightharpoonup> int"

datatype store_call =
    LinkCall ThreadIssueLink
  | ConfirmCall "string \<times> string" int
  | RelayedCall "string \<times> string" int
  | MapUserCall int string string string
  | SeenCall int int string

fun do_call :: "'st store_ops \<Rightarrow> store_call \<Rightarrow> 'st \<Rightarrow> bool \<times> 'st" where
  "do_call S (LinkCall l) st = (False, link_thread_to_issue S l st)"
| "do_call S (ConfirmCall k at) st = (False, mark_intent_confirmed S k at st)"
| "do_call S (RelayedCall k c) st = (False, update_last_relayed_comment S k c st)"
| "do_call S (MapUserCall now u lg mth) st = (False, map_user S now u lg mth st)"
| "do_call S (SeenCall n1 n2 e) st = seen_event S n1 n2 e st"

fun abs_call :: "int \<Rightarrow> store_call \<Rightarrow> abs_store \<Rightarrow> bool \<times> abs_store" where
  "abs_call ttl (LinkCall l) a = (False, a\<lparr>as_links := (as_links a)(thread_of l \<mapsto> l)\<rparr>)"
| "abs_call ttl (ConfirmCall k at) a =
     (False, a\<lparr>as_links := (as_links a)(k := map_option (\<lambda>l. l\<lparr>intent_confirmed_at := Some at\<rparr>) (as_links a k))\<rparr>)"
| "abs_call ttl (RelayedCall k c) a =
     (False, a\<lparr>as_links := (as_links a)(k := map_option (\<lambda>l. l\<lparr>last_relayed_comment_id := Some c\<rparr>) (as_links a k))\<rparr>)"
| "abs_call ttl (MapUserCall now u lg mth) a = (False, a\<lparr>as_users := (as_users a)(u \<mapsto> lg)\<rparr>)"
| "abs_call ttl (SeenCall n1 n2 e) a =
     (let kept = (\<lambda>k. fresh_stamp ttl n1 (as_stamps a k))
      in if kept e \<noteq> None then (True, a\<lparr>as_stamps := kept\<rparr>)
         else (False, a\<lparr>as_stamps := kept(e \<mapsto> n2)\<rparr>))"

fun run_calls :: "(store_call \<Rightarrow> 's \<Rightarrow> bool \<times> 's) \<Rightarrow> store_call list \<Rightarrow> 's \<Rightarrow> bool list \<times> 's" where
  "run_calls f [] st = ([], st)"
| "run_calls f (c # cs) st =
     (case f c st of (b, st') \<Rightarrow> case run_calls f cs st' of (bs, st'') \<Rightarrow> (b # bs, st''))"

fun calls_links :: "store_call list \<Rightarrow> ThreadIssueLink list" where
  "calls_links [] = []"
| "calls_links (LinkCall l # cs) = l # calls_links cs"
| "calls_links (_ # cs) = calls_links cs"

text \<open>Every link that is made joins a thread and an issue that no link has joined before.\<close>

definition fresh_links :: "store_call list \<Rightarrow> bool" where
  "fresh_links cs \<longleftrightarrow> distinct (map thread_of (calls_links cs)) \<and> distinct (map issue_of (calls_links cs))"

context thread_store
begin

definition view :: "'st \<Rightarrow> abs_store" where
  "view st = \<lparr>as_links = get_link_by_thread S st, as_users = lookup_github_login S st, as_stamps = stamp st\<rparr>"

text \<open>The links of a store whose thread and issue are among those linked so far.\<close>

definition linked_among :: "ThreadIssueLink list \<Rightarrow> 'st \<Rightarrow> bool" where
  "linked_among ls st \<longleftrightarrow> (\<forall>k l. get_link_by_thread S st k = Some l \<longrightarrow>
     thread_of l \<in> thread_of ` set ls \<and> issue_of l \<in> issue_of ` set ls)"

lemma linked_among_step:
  assumes "wf st" "linked_among ls st"
  shows "linked_among (calls_links [c] @ ls) (snd (do_call S c st))"
  using assms
  by (cases c) (auto simp: linked_among_def get_after_link get_after_confirm get_after_relayed get_after_seen
      get_after_map split: if_splits)

lemma linked_among_cong:
  "linked_among ls st \<Longrightarrow> set ls = set ls' \<Longrightarrow> linked_among ls' st"
  by (simp add: linked_among_def)

lemma wf_step:
  assumes "wf st" "linked_among ls st" "fresh_links (c # cs)"
    "\<forall>l \<in> set (calls_links (c # cs)). thread_of l \<notin> thread_of ` set ls \<and> issue_of l \<notin> issue_of ` set ls"
  shows "wf (snd (do_call S c st))"
proof (cases c)
  case (LinkCall l)
  have new: "thread_of l \<notin> thread_of ` set ls" "issue_of l \<notin> issue_of ` set ls"
    using assms(4) by (simp_all add: LinkCall)
  have among: "thread_of l' \<in> thread_of ` set ls \<and> issue_of l' \<in> issue_of ` set ls"
    if "get_link_by_thread S st k = Some l'" for k l'
    using assms(2) that unfolding linked_among_def by blast
  have "get_link_by_thread S st (thread_of l) = None"
  proof (cases "get_link_by_thread S st (thread_of l)")
    case (Some l')
    with among [OF Some] new(1) thread_key [OF assms(1) Some] show ?thesis by simp
  qed
  moreover have "get_link_by_issue S st (issue_of l) = None"
  proof (cases "get_link_by_issue S st (issue_of l)")
    case (Some l')
    then have "issue_of l' = issue_of l" "get_link_by_thread S st (thread_of l') = Some l'"
      by (simp_all add: issue_iff [OF assms(1)])
    with among new(2) show ?thesis by metis
  qed
  ultimately show ?thesis using assms(1) by (simp add: LinkCall wf_link)
qed (use assms(1) in \<open>auto simp: wf_confirm wf_relayed wf_map wf_seen\<close>)

lemma view_step:
  assumes "wf st"
  shows "fst (do_call S c st) = fst (abs_call ttl c (view st)) \<and>
    view (snd (do_call S c st)) = snd (abs_call ttl c (view st))"
proof (cases c)
  case (LinkCall l)
  then show ?thesis by (auto simp: view_def get_after_link login_after_other stamp_after_other)
next
  case (ConfirmCall k at)
  then show ?thesis using assms by (auto simp: view_def get_after_confirm login_after_other stamp_after_other)
next
  case (RelayedCall k cid)
  then show ?thesis using assms by (auto simp: view_def get_after_relayed login_after_other stamp_after_other)
next
  case (MapUserCall now u lg mth)
  then show ?thesis by (auto simp: view_def get_after_map login_after_map stamp_after_other)
next
  case (SeenCall n1 n2 e)
  then show ?thesis using assms
    by (auto simp: view_def get_after_seen login_after_other seen_answer stamp_after_seen Let_def)
qed

lemma refines:
  assumes "wf st" "linked_among ls st" "fresh_links cs"
    "\<forall>l \<in> set (calls_links cs). thread_of l \<notin> thread_of ` set ls \<and> issue_of l \<notin> issue_of ` set ls"
  shows "fst (run_calls (do_call S) cs st) = fst (run_calls (abs_call ttl) cs (view st)) \<and>
    view (snd (run_calls (do_call S) cs st)) = snd (run_calls (abs_call ttl) cs (view st)) \<and>
    wf (snd (run_calls (do_call S) cs st))"
  using assms
proof (induction cs arbitrary: st ls)
  case (Cons c cs)
  obtain b st' where c: "do_call S c st = (b, st')" by fastforce
  have wf': "wf st'" using wf_step [OF Cons.prems] c by simp
  have among: "linked_among (calls_links [c] @ ls) st'" using linked_among_step [OF Cons.prems(1,2), of c] c by simp
  have links: "calls_links (c # cs) = calls_links [c] @ calls_links cs" by (cases c) simp_all
  have fresh: "fresh_links cs" using Cons.prems(3) unfolding fresh_links_def links by simp
  have new: "\<forall>l \<in> set (calls_links cs). thread_of l \<notin> thread_of ` set (calls_links [c] @ ls) \<and>
      issue_of l \<notin> issue_of ` set (calls_links [c] @ ls)"
  proof
    fix l
    assume l: "l \<in> set (calls_links cs)"
    have "thread_of l \<notin> thread_of ` set (calls_links [c])" "issue_of l \<notin> issue_of ` set (calls_links [c])"
      using Cons.prems(3) l unfolding fresh_links_def links by auto
    moreover have "thread_of l \<notin> thread_of ` set ls" "issue_of l \<notin> issue_of ` set ls"
      using Cons.prems(4) l unfolding links by simp_all
    ultimately show "thread_of l \<notin> thread_of ` set (calls_links [c] @ ls) \<and>
      issue_of l \<notin> issue_of ` set (calls_links [c] @ ls)" by auto
  qed
  from view_step [OF Cons.prems(1), of c] c have "abs_call ttl c (view st) = (b, view st')"
    by (cases "abs_call ttl c (view st)") simp
  with Cons.IH [OF wf' among fresh new] c show ?case by (simp add: case_prod_beta)
qed simp

end

section \<open>The adapters keep the laws\<close>

definition mem_wf :: "memory_store \<Rightarrow> bool" where
  "mem_wf st \<longleftrightarrow>
     (\<forall>i l. links_by_issue st i = Some l \<longleftrightarrow> issue_of l = i \<and> links_by_thread st (thread_of l) = Some l) \<and>
     (\<forall>k l. links_by_thread st k = Some l \<longrightarrow> thread_of l = k)"

lemma mem_wf_issue:
  "mem_wf st \<Longrightarrow> links_by_issue st i = Some l \<longleftrightarrow> issue_of l = i \<and> links_by_thread st (thread_of l) = Some l"
  unfolding mem_wf_def by blast

lemma mem_wf_thread: "mem_wf st \<Longrightarrow> links_by_thread st k = Some l \<Longrightarrow> thread_of l = k"
  unfolding mem_wf_def by blast

lemma mem_wfI:
  assumes "\<And>i l. links_by_issue st i = Some l \<longleftrightarrow> issue_of l = i \<and> links_by_thread st (thread_of l) = Some l"
    and "\<And>k l. links_by_thread st k = Some l \<Longrightarrow> thread_of l = k"
  shows "mem_wf st"
  unfolding mem_wf_def using assms by blast

lemma mem_replace_thread:
  "links_by_thread (mem_replace key f st) k =
     (if k = key then map_option f (links_by_thread st k) else links_by_thread st k)"
  by (auto simp: mem_replace_def Let_def split: option.split)

lemma mem_replace_issue:
  "links_by_thread st key = Some l0 \<Longrightarrow>
   links_by_issue (mem_replace key f st) i = (if i = issue_of l0 then Some (f l0) else links_by_issue st i)"
  by (simp add: mem_replace_def Let_def)

lemma mem_wf_replace:
  assumes "mem_wf st" "\<And>l. thread_of (f l) = thread_of l" "\<And>l. issue_of (f l) = issue_of l"
  shows "mem_wf (mem_replace key f st)"
proof (cases "links_by_thread st key")
  case None
  with assms show ?thesis by (simp add: mem_replace_def)
next
  case (Some l0)
  have key: "thread_of l0 = key" using assms(1) Some by (rule mem_wf_thread)
  have one: "l = l0" if "links_by_thread st (thread_of l) = Some l" "issue_of l = issue_of l0" for l
    using mem_wf_issue [OF assms(1), of "issue_of l0"] Some that key by (metis option.inject)
  show ?thesis
  proof (rule mem_wfI)
    fix i l
    show "links_by_issue (mem_replace key f st) i = Some l \<longleftrightarrow>
        issue_of l = i \<and> links_by_thread (mem_replace key f st) (thread_of l) = Some l"
    proof (cases "i = issue_of l0")
      case True
      then have "links_by_issue (mem_replace key f st) i = Some l \<longleftrightarrow> f l0 = l"
        by (simp add: mem_replace_issue [OF Some])
      also have "\<dots> \<longleftrightarrow> issue_of l = i \<and> links_by_thread (mem_replace key f st) (thread_of l) = Some l"
      proof
        assume "f l0 = l"
        with assms(2,3) key Some True show "issue_of l = i \<and> links_by_thread (mem_replace key f st) (thread_of l) = Some l"
          by (auto simp: mem_replace_thread)
      next
        assume r: "issue_of l = i \<and> links_by_thread (mem_replace key f st) (thread_of l) = Some l"
        show "f l0 = l"
        proof (cases "thread_of l = key")
          case True
          with r Some show ?thesis by (simp add: mem_replace_thread)
        next
          case False
          with r have "links_by_thread st (thread_of l) = Some l" by (simp add: mem_replace_thread)
          with one [of l] r \<open>i = issue_of l0\<close> key False show ?thesis by simp
        qed
      qed
      finally show ?thesis .
    next
      case False
      have "links_by_thread (mem_replace key f st) (thread_of l) = Some l \<longleftrightarrow>
          links_by_thread st (thread_of l) = Some l" if "issue_of l = i"
      proof (cases "thread_of l = key")
        case True
        have "f l0 \<noteq> l" "l0 \<noteq> l" using that False assms(3) by auto
        with True Some show ?thesis by (simp add: mem_replace_thread)
      qed (simp add: mem_replace_thread)
      then show ?thesis
        using mem_wf_issue [OF assms(1), of i l] False by (auto simp: mem_replace_issue [OF Some])
    qed
  next
    fix k l
    assume "links_by_thread (mem_replace key f st) k = Some l"
    then show "thread_of l = k"
      using mem_wf_thread [OF assms(1), of k] assms(2) key Some by (auto simp: mem_replace_thread split: if_splits)
  qed
qed

lemma mem_replace_rest:
  "user_map (mem_replace key f st) = user_map st" "mem_dedupe (mem_replace key f st) = mem_dedupe st"
  by (simp_all add: mem_replace_def Let_def split: option.split)

lemma mem_wf_link:
  assumes "mem_wf st" "links_by_thread st (thread_of l) = None" "links_by_issue st (issue_of l) = None"
  shows "mem_wf (mem_link l st)"
proof (rule mem_wfI)
  fix i l'
  show "links_by_issue (mem_link l st) i = Some l' \<longleftrightarrow>
      issue_of l' = i \<and> links_by_thread (mem_link l st) (thread_of l') = Some l'"
    using mem_wf_issue [OF assms(1), of i l'] mem_wf_issue [OF assms(1), of "issue_of l" l'] assms(2,3)
    unfolding mem_link_def by (cases "i = issue_of l"; cases "thread_of l' = thread_of l") auto
next
  fix k l'
  assume "links_by_thread (mem_link l st) k = Some l'"
  then show "thread_of l' = k"
    using mem_wf_thread [OF assms(1), of k l'] unfolding mem_link_def by (cases "k = thread_of l") auto
qed

lemmas mem_op_defs = mem_ops_def mem_link_def mem_confirm_def mem_relayed_def mem_map_user_def

lemma mem_seen_eq:
  "mem_seen ttl n1 n2 e st =
     (let kept = (\<lambda>k. fresh_stamp ttl n1 (mem_dedupe st k))
      in if kept e \<noteq> None then (True, st\<lparr>mem_dedupe := kept\<rparr>) else (False, st\<lparr>mem_dedupe := kept(e \<mapsto> n2)\<rparr>))"
  by (simp add: mem_seen_def fresh_stamp_def Let_def)

interpretation mem: thread_store "mem_ops ttl" mem_wf mem_dedupe ttl for ttl
proof unfold_locales
  fix st i l
  assume "mem_wf st"
  then show "get_link_by_issue (mem_ops ttl) st i = Some l \<longleftrightarrow>
      issue_of l = i \<and> get_link_by_thread (mem_ops ttl) st (thread_of l) = Some l"
    using mem_wf_issue by (simp add: mem_ops_def)
next
  fix st k l
  assume "mem_wf st" "get_link_by_thread (mem_ops ttl) st k = Some l"
  then show "thread_of l = k" using mem_wf_thread by (simp add: mem_ops_def)
next
  fix st l
  assume "mem_wf st" "get_link_by_thread (mem_ops ttl) st (thread_of l) = None"
    "get_link_by_issue (mem_ops ttl) st (issue_of l) = None"
  then show "mem_wf (link_thread_to_issue (mem_ops ttl) l st)"
    using mem_wf_link [of st l] by (simp add: mem_ops_def)
next
  fix st key at
  show "mem_wf st \<Longrightarrow> mem_wf (mark_intent_confirmed (mem_ops ttl) key at st)"
    by (simp add: mem_op_defs mem_wf_replace)
next
  fix st key c
  show "mem_wf st \<Longrightarrow> mem_wf (update_last_relayed_comment (mem_ops ttl) key c st)"
    by (simp add: mem_op_defs mem_wf_replace)
next
  fix st n1 n2 e
  show "mem_wf st \<Longrightarrow> mem_wf (snd (seen_event (mem_ops ttl) n1 n2 e st))"
    by (simp add: mem_op_defs mem_seen_eq Let_def mem_wf_def)
next
  fix st now u lg mth
  show "mem_wf st \<Longrightarrow> mem_wf (map_user (mem_ops ttl) now u lg mth st)"
    by (simp add: mem_op_defs mem_wf_def)
qed (simp_all add: mem_op_defs mem_replace_thread mem_replace_rest mem_seen_eq Let_def)

definition sql_wf :: "sqlite_store \<Rightarrow> bool" where
  "sql_wf st \<longleftrightarrow> distinct (map thread_of (thread_issue st)) \<and> distinct (map issue_of (thread_issue st)) \<and>
     distinct (map fst (dedupe st))"

definition sql_stamp :: "sqlite_store \<Rightarrow> string \<Rightarrow> int option" where
  "sql_stamp st k = map_option snd (row_get fst k (dedupe st))"

text \<open>Rows addressed by another column with no duplicates.\<close>

lemma row_upd_keeps: "(\<And>r. g (f r) = g r) \<Longrightarrow> map g (row_upd key k f rows) = map g rows"
  by (simp add: row_upd_def)

lemma row_get_iff:
  "distinct (map key rows) \<Longrightarrow> row_get key k rows = Some r \<longleftrightarrow> r \<in> set rows \<and> key r = k"
  using row_get_in_set row_get_distinct by metis

lemma row_get_filter:
  "distinct (map key rows) \<Longrightarrow>
   row_get key k (filter P rows) = (case row_get key k rows of None \<Rightarrow> None | Some r \<Rightarrow> if P r then Some r else None)"
proof (induction rows)
  case (Cons a rows)
  have "row_get key (key a) rows = None" using Cons.prems by (simp add: row_get_None)
  with Cons show ?case by (auto simp: row_simps)
qed (simp add: row_simps)

lemma row_get_replace:
  "row_get key k (insert_or_replace key r rows) = (if k = key r then Some r else row_get key k rows)"
  unfolding insert_or_replace_def by (induction rows) (auto simp: row_simps split: if_splits)

lemma insert_or_replace_new: "row_get key (key r) rows = None \<Longrightarrow> insert_or_replace key r rows = rows @ [r]"
  unfolding insert_or_replace_def row_get_None by (subst filter_True) (metis image_eqI, simp)

lemma distinct_map_filter: "distinct (map f xs) \<Longrightarrow> distinct (map f (filter P xs))"
  by (induction xs) auto

lemmas sql_op_defs = sql_ops_def sql_link_def sql_get_by_thread_def sql_get_by_issue_def sql_confirm_def
  sql_relayed_def sql_map_user_def sql_lookup_login_def

lemma sql_seen_eq:
  assumes "sql_wf st"
  shows "fst (sql_seen ttl n1 n2 e st) \<longleftrightarrow> fresh_stamp ttl n1 (sql_stamp st e) \<noteq> None"
    "sql_stamp (snd (sql_seen ttl n1 n2 e st)) d =
      (if d = e \<and> fresh_stamp ttl n1 (sql_stamp st e) = None then Some n2 else fresh_stamp ttl n1 (sql_stamp st d))"
    "sql_wf (snd (sql_seen ttl n1 n2 e st))"
proof -
  define kept where "kept = filter (\<lambda>r. \<not> snd r < n1 - ttl) (dedupe st)"
  have d: "distinct (map fst (dedupe st))" using assms by (simp add: sql_wf_def)
  have k: "row_get fst x kept = (case row_get fst x (dedupe st) of None \<Rightarrow> None
      | Some r \<Rightarrow> if \<not> snd r < n1 - ttl then Some r else None)" for x
    unfolding kept_def using d by (rule row_get_filter)
  have f: "map_option snd (row_get fst x kept) = fresh_stamp ttl n1 (sql_stamp st x)" for x
    by (auto simp: k sql_stamp_def fresh_stamp_def split: option.splits)
  have none: "row_get fst x kept = None \<longleftrightarrow> fresh_stamp ttl n1 (sql_stamp st x) = None" for x
    unfolding f [symmetric] by simp
  have seen: "sql_seen ttl n1 n2 e st =
      (if row_get fst e kept \<noteq> None then (True, st\<lparr>dedupe := kept\<rparr>) else (False, st\<lparr>dedupe := kept @ [(e, n2)]\<rparr>))"
    by (simp add: sql_seen_def kept_def Let_def)
  show "fst (sql_seen ttl n1 n2 e st) \<longleftrightarrow> fresh_stamp ttl n1 (sql_stamp st e) \<noteq> None"
    by (simp add: seen flip: none)
  have new: "map_option snd (row_get fst d (kept @ [(e, n2)])) = Some n2" if "d = e" "row_get fst e kept = None"
    using that by (simp add: row_get_append row_simps)
  have old: "row_get fst d (kept @ [(e, n2)]) = row_get fst d kept" if "d \<noteq> e"
    using that by (simp add: row_get_append row_simps split: option.splits)
  show "sql_stamp (snd (sql_seen ttl n1 n2 e st)) d =
      (if d = e \<and> fresh_stamp ttl n1 (sql_stamp st e) = None then Some n2 else fresh_stamp ttl n1 (sql_stamp st d))"
    using new old f [of d] none [of e] by (cases "d = e") (auto simp: seen sql_stamp_def)
  have "distinct (map fst kept)" unfolding kept_def using d by (rule distinct_map_filter)
  then show "sql_wf (snd (sql_seen ttl n1 n2 e st))"
    using assms by (auto simp: seen sql_wf_def row_get_None)
qed

lemma sql_wf_link:
  assumes "sql_wf st" "sql_get_by_thread st (thread_of l) = None" "sql_get_by_issue st (issue_of l) = None"
  shows "sql_wf (sql_link l st)"
  using assms insert_or_replace_new [of thread_of l "thread_issue st"]
  by (auto simp: sql_wf_def sql_op_defs row_get_None)

interpretation sql: thread_store "sql_ops ttl" sql_wf sql_stamp ttl for ttl
proof unfold_locales
  fix st i l
  assume "sql_wf st"
  then have "distinct (map thread_of (thread_issue st))" "distinct (map issue_of (thread_issue st))"
    by (simp_all add: sql_wf_def)
  then show "get_link_by_issue (sql_ops ttl) st i = Some l \<longleftrightarrow>
      issue_of l = i \<and> get_link_by_thread (sql_ops ttl) st (thread_of l) = Some l"
    by (auto simp: sql_op_defs row_get_iff)
next
  fix st k l
  assume "get_link_by_thread (sql_ops ttl) st k = Some l"
  then show "thread_of l = k" using row_get_in_set by (fastforce simp: sql_op_defs)
next
  fix st l
  assume "sql_wf st" "get_link_by_thread (sql_ops ttl) st (thread_of l) = None"
    "get_link_by_issue (sql_ops ttl) st (issue_of l) = None"
  then show "sql_wf (link_thread_to_issue (sql_ops ttl) l st)"
    using sql_wf_link [of st l] by (simp add: sql_ops_def)
next
  fix st key at
  show "sql_wf st \<Longrightarrow> sql_wf (mark_intent_confirmed (sql_ops ttl) key at st)"
    by (simp add: sql_op_defs sql_wf_def map_key_row_upd [of _ "\<lambda>l. l\<lparr>intent_confirmed_at := Some at\<rparr>"]
        row_upd_keeps [of issue_of "\<lambda>l. l\<lparr>intent_confirmed_at := Some at\<rparr>"])
next
  fix st key c
  show "sql_wf st \<Longrightarrow> sql_wf (update_last_relayed_comment (sql_ops ttl) key c st)"
    by (simp add: sql_op_defs sql_wf_def map_key_row_upd [of _ "\<lambda>l. l\<lparr>last_relayed_comment_id := Some c\<rparr>"]
        row_upd_keeps [of issue_of "\<lambda>l. l\<lparr>last_relayed_comment_id := Some c\<rparr>"])
next
  fix st n1 n2 e
  show "sql_wf st \<Longrightarrow> sql_wf (snd (seen_event (sql_ops ttl) n1 n2 e st))"
    by (simp add: sql_ops_def sql_seen_eq(3))
next
  fix st now u lg mth
  show "sql_wf st \<Longrightarrow> sql_wf (map_user (sql_ops ttl) now u lg mth st)"
    by (simp add: sql_op_defs sql_wf_def)
next
  fix st n1 n2 e k
  show "get_link_by_thread (sql_ops ttl) (snd (seen_event (sql_ops ttl) n1 n2 e st)) k = get_link_by_thread (sql_ops ttl) st k"
    by (simp add: sql_op_defs sql_seen_def Let_def)
next
  fix st n1 n2 e
  show "lookup_github_login (sql_ops ttl) (snd (seen_event (sql_ops ttl) n1 n2 e st)) = lookup_github_login (sql_ops ttl) st"
    by (rule ext) (simp add: sql_op_defs sql_seen_def Let_def)
next
  fix st n1 n2 e d
  assume "sql_wf st"
  then show "sql_stamp (snd (seen_event (sql_ops ttl) n1 n2 e st)) d =
      (if d = e \<and> fresh_stamp ttl n1 (sql_stamp st e) = None then Some n2 else fresh_stamp ttl n1 (sql_stamp st d))"
    by (simp add: sql_ops_def sql_seen_eq(2))
next
  fix st n1 n2 e
  assume "sql_wf st"
  then show "fst (seen_event (sql_ops ttl) n1 n2 e st) \<longleftrightarrow> fresh_stamp ttl n1 (sql_stamp st e) \<noteq> None"
    by (simp add: sql_ops_def sql_seen_eq(1))
next
  fix st key at k
  show "get_link_by_thread (sql_ops ttl) (mark_intent_confirmed (sql_ops ttl) key at st) k =
      (if k = key then map_option (\<lambda>l. l\<lparr>intent_confirmed_at := Some at\<rparr>) (get_link_by_thread (sql_ops ttl) st k)
       else get_link_by_thread (sql_ops ttl) st k)"
    by (simp add: sql_op_defs row_get_upd_same row_get_upd_other)
next
  fix st key c k
  show "get_link_by_thread (sql_ops ttl) (update_last_relayed_comment (sql_ops ttl) key c st) k =
      (if k = key then map_option (\<lambda>l. l\<lparr>last_relayed_comment_id := Some c\<rparr>) (get_link_by_thread (sql_ops ttl) st k)
       else get_link_by_thread (sql_ops ttl) st k)"
    by (simp add: sql_op_defs row_get_upd_same row_get_upd_other)
qed (auto simp: sql_op_defs row_get_replace sql_stamp_def fun_eq_iff)

section \<open>Properties\<close>

lemma mem_init_wf: "mem_wf mem_init"
  by (simp add: mem_wf_def mem_init_def)

lemma sql_init_wf: "sql_wf sql_init"
  by (simp add: sql_wf_def sql_init_def)

lemma init_views: "mem.view ttl mem_init = sql.view ttl sql_init"
  unfolding mem.view_def sql.view_def
  by (simp add: mem_init_def sql_init_def mem_op_defs sql_op_defs sql_stamp_def row_simps fun_eq_iff)

lemma init_linked: "mem.linked_among ttl [] mem_init" "sql.linked_among ttl [] sql_init"
  unfolding mem.linked_among_def sql.linked_among_def
  by (simp_all add: mem_init_def sql_init_def mem_op_defs sql_op_defs row_simps)

text \<open>
  C6: Both adapters of the store answer alike: after any sequence of calls in which every new link
  joins a new thread and a new issue, they have given the same answers to \<open>seen_event\<close> and give
  the same answers to every lookup by thread, by issue and by user.
\<close>

theorem stores_agree:
  assumes "fresh_links calls"
    and "run_calls (do_call (mem_ops ttl)) calls mem_init = (seen_m, m)"
    and "run_calls (do_call (sql_ops ttl)) calls sql_init = (seen_s, s)"
  shows "seen_m = seen_s \<and> get_link_by_thread (mem_ops ttl) m k = get_link_by_thread (sql_ops ttl) s k \<and>
    get_link_by_issue (mem_ops ttl) m i = get_link_by_issue (sql_ops ttl) s i \<and>
    lookup_github_login (mem_ops ttl) m u = lookup_github_login (sql_ops ttl) s u"
proof -
  have m: "seen_m = fst (run_calls (abs_call ttl) calls (mem.view ttl mem_init))"
      "mem.view ttl m = snd (run_calls (abs_call ttl) calls (mem.view ttl mem_init))" "mem_wf m"
    using mem.refines [where ttl = ttl, OF mem_init_wf init_linked(1) assms(1)] assms(2) by simp_all
  have s: "seen_s = fst (run_calls (abs_call ttl) calls (sql.view ttl sql_init))"
      "sql.view ttl s = snd (run_calls (abs_call ttl) calls (sql.view ttl sql_init))" "sql_wf s"
    using sql.refines [where ttl = ttl, OF sql_init_wf init_linked(2) assms(1)] assms(3) by simp_all
  have v: "mem.view ttl m = sql.view ttl s" using m(2) s(2) init_views by simp
  then have thread: "get_link_by_thread (mem_ops ttl) m = get_link_by_thread (sql_ops ttl) s"
    and user: "lookup_github_login (mem_ops ttl) m = lookup_github_login (sql_ops ttl) s"
    by (simp_all add: mem.view_def sql.view_def)
  have "get_link_by_issue (mem_ops ttl) m i = get_link_by_issue (sql_ops ttl) s i"
    using mem.issue_iff [OF m(3), of ttl i] sql.issue_iff [OF s(3), of ttl i] thread
    by (metis not_Some_eq)
  with m(1) s(1) init_views thread user show ?thesis by simp
qed

definition demo_link :: "string \<Rightarrow> int \<Rightarrow> ThreadIssueLink" where
  "demo_link ts n =
     \<lparr>slack_channel = ''C1'', slack_thread_ts = ts, github_repo = ''org/repo'', github_issue_number = n,
      reporter_slack_id = ''U1'', created_at = 0, last_relayed_comment_id = None, intent_confirmed_at = None\<rparr>"

theorem stores_agree_witness:
  "get_link_by_issue (sql_ops 10) (snd (run_calls (do_call (sql_ops 10))
      [LinkCall (demo_link ''1.0'' 5), LinkCall (demo_link ''2.0'' 6), ConfirmCall (''C1'', ''1.0'') 7] sql_init)) (''org/repo'', 5) =
   Some ((demo_link ''1.0'' 5)\<lparr>intent_confirmed_at := Some 7\<rparr>)"
proof -
  let ?cs = "[LinkCall (demo_link ''1.0'' 5), LinkCall (demo_link ''2.0'' 6), ConfirmCall (''C1'', ''1.0'') 7]"
  have "fresh_links ?cs" by (simp add: fresh_links_def demo_link_def thread_of_def issue_of_def)
  then have "get_link_by_issue (mem_ops 10) (snd (run_calls (do_call (mem_ops 10)) ?cs mem_init)) (''org/repo'', 5) =
      get_link_by_issue (sql_ops 10) (snd (run_calls (do_call (sql_ops 10)) ?cs sql_init)) (''org/repo'', 5)"
    using stores_agree [of ?cs 10, OF _ prod.collapse [symmetric] prod.collapse [symmetric]] by blast
  moreover have "get_link_by_issue (mem_ops 10) (snd (run_calls (do_call (mem_ops 10)) ?cs mem_init)) (''org/repo'', 5) =
      Some ((demo_link ''1.0'' 5)\<lparr>intent_confirmed_at := Some 7\<rparr>)"
    by (simp add: mem_op_defs mem_replace_def mem_init_def demo_link_def thread_of_def issue_of_def Let_def)
  ultimately show ?thesis by simp
qed

text \<open>
  Outside that discipline the adapters differ: when a thread is linked again to another issue,
  the in-memory store still finds it under the old issue and the SQLite store does not.
\<close>

theorem relink_differs:
  assumes "thread_of l = thread_of l'" and "issue_of l \<noteq> issue_of l'"
  shows "get_link_by_issue (mem_ops ttl) (mem_link l' (mem_link l mem_init)) (issue_of l) = Some l \<and>
    get_link_by_issue (sql_ops ttl) (sql_link l' (sql_link l sql_init)) (issue_of l) = None"
  using assms
  by (simp add: mem_op_defs mem_init_def sql_op_defs sql_init_def insert_or_replace_def row_simps)

theorem relink_differs_witness:
  "get_link_by_issue (mem_ops 10) (mem_link (demo_link ''1.0'' 6) (mem_link (demo_link ''1.0'' 5) mem_init)) (''org/repo'', 5) =
   Some (demo_link ''1.0'' 5)"
  using relink_differs [of "demo_link ''1.0'' 5" "demo_link ''1.0'' 6" 10]
  by (simp add: demo_link_def thread_of_def issue_of_def)

end
