(* ===== verification/SlackIntake.thy ===== *)
theory SlackIntake
  imports ThreadStore PyJson Regex ActionRules
begin

text \<open>
  The handlers of the Slack intake agent (agents/agents/slack_intake/core.py): the slash command
  and its modal, the issue that a submission files, the relay of GitHub comments into the Slack
  thread and of thread replies back to the issue, and the confirmation of intent.

  The world of a handler is the state store, through the operations of its port, and the calls
  made so far on Slack and on GitHub; what they answer, the configuration, the clock,
  \<open>json.loads\<close>, \<open>json.dumps\<close> and the two template files are arguments (\<open>intake_env\<close>).
  Log lines are left out, and in message texts the characters beyond U+00FF.
\<close>

section \<open>The world of the handlers\<close>

datatype slack_call =
    PostMessage string string
  | PostThreadReply string string string "json list"
  | UpdateMessage string string string "json list"
  | PostEphemeral string string string
  | AddReaction string string string
  | OpenModal json json

datatype github_call = OpenIssue string string "string list" | Comment int string

record posted_message =
  pm_channel :: string
  pm_message_id :: string

record opened_issue =
  oi_number :: int
  oi_url :: string

record intake_config =
  ic_addon_choices :: "string list"
  ic_relay_authors :: "string list option"
  ic_shadow_mode :: json
  ic_allowed_channels :: "string list"
  ic_sensitive_patterns :: "regex list"
  ic_org :: string
  ic_repo :: string

record intake_env =
  ie_config :: intake_config
  ie_now :: int
  ie_seen_now :: "int \<times> int"
  ie_iso :: "int \<Rightarrow> string"
  ie_slack :: "slack_call \<Rightarrow> py_exn + posted_message"
  ie_github :: "github_call \<Rightarrow> py_exn + opened_issue"
  ie_loads :: "string \<Rightarrow> json option"
  ie_dumps :: "json \<Rightarrow> string"
  ie_modal_template :: json
  ie_relay_template :: "json list"

record 'st intake_world =
  iw_store :: 'st
  iw_slack :: "slack_call list"
  iw_github :: "github_call list"

type_synonym ('st, 'a) intake = "('st intake_world, py_exn, 'a) act"

text \<open>A call is recorded when it is made, whatever it answers.\<close>

definition slack :: "intake_env \<Rightarrow> slack_call \<Rightarrow> ('st, posted_message) intake" where
  "slack e c = (\<lambda>w. (ie_slack e c, w\<lparr>iw_slack := iw_slack w @ [c]\<rparr>))"

definition github :: "intake_env \<Rightarrow> github_call \<Rightarrow> ('st, opened_issue) intake" where
  "github e c = (\<lambda>w. (ie_github e c, w\<lparr>iw_github := iw_github w @ [c]\<rparr>))"

text \<open>\<open>SlackAdapter.add_reaction\<close> swallows the errors of the call.\<close>

definition add_reaction :: "intake_env \<Rightarrow> string \<Rightarrow> string \<Rightarrow> string \<Rightarrow> ('st, unit) intake" where
  "add_reaction e channel message_id emoji =
     (\<lambda>w. (Inr (), snd (slack e (AddReaction channel message_id emoji) w)))"

definition store_upd :: "('st \<Rightarrow> 'st) \<Rightarrow> ('st, unit) intake" where
  "store_upd f = act_modify (\<lambda>w. w\<lparr>iw_store := f (iw_store w)\<rparr>)"

definition store_seen :: "'st store_ops \<Rightarrow> intake_env \<Rightarrow> string \<Rightarrow> ('st, bool) intake" where
  "store_seen S e key = (\<lambda>w.
     case seen_event S (fst (ie_seen_now e)) (snd (ie_seen_now e)) key (iw_store w) of
       (b, st) \<Rightarrow> (Inr b, w\<lparr>iw_store := st\<rparr>))"

definition loads :: "intake_env \<Rightarrow> string \<Rightarrow> py_exn + json" where
  "loads e s = (case ie_loads e s of None \<Rightarrow> Inl JSONDecodeError | Some j \<Rightarrow> Inr j)"

section \<open>Helpers\<close>

definition intake_label :: string where "intake_label = ''source:slack''"

definition default_relay_authors :: "string list" where
  "default_relay_authors = [''spec-generator-bot'']"

definition sep_class :: "char \<Rightarrow> bool" where
  "sep_class c \<longleftrightarrow> py_space c \<or> any_of ''_-'' c"

definition topic :: "regex list \<Rightarrow> regex" where
  "topic rs = Seq Boundary (Seq (alts rs) Boundary)"

definition joined :: "string \<Rightarrow> string \<Rightarrow> regex" where
  "joined a b = Seq (ilit a) (Seq (opt sep_class) (ilit b))"

definition default_sensitive_patterns :: "regex list" where
  "default_sensitive_patterns =
     [topic [ilit ''password'', joined ''api'' ''key'', ilit ''secret'', joined ''private'' ''key''],
      topic [joined ''credit'' ''card'', ilit ''cvv'', ilit ''ssn'', joined ''social'' ''security''],
      topic [ilit ''billing'', ilit ''invoice'', ilit ''refund'', ilit ''chargeback''],
      topic [ilit ''security'', ilit ''breach'', ilit ''cve'', ilit ''0day''],
      topic [ilit ''legal'', ilit ''gdpr'', ilit ''dmca'', ilit ''lawsuit'']]"

definition is_sensitive :: "intake_env \<Rightarrow> string \<Rightarrow> bool" where
  "is_sensitive e text =
     (let cfg = ic_sensitive_patterns (ie_config e);
          patterns = (if cfg = [] then default_sensitive_patterns else cfg)
      in list_ex (\<lambda>p. re_search p text) patterns)"

definition email_re :: regex where
  "email_re =
     Seq (many1 (\<lambda>c. word_char c \<or> any_of ''.+-'' c)) (Seq (one (\<lambda>c. c = CHR ''@''))
       (Seq (many1 (\<lambda>c. word_char c \<or> c = CHR ''-'')) (Seq (one (\<lambda>c. c = CHR ''.''))
         (many1 (\<lambda>c. word_char c \<or> any_of ''.-'' c)))))"

definition phone_re :: regex where
  "phone_re =
     Seq Boundary (Seq (opt (\<lambda>c. c = CHR ''+'')) (Seq (one digit_char)
       (Seq (Chars (\<lambda>c. digit_char c \<or> py_space c \<or> any_of ''().-'' c) 7 None)
         (Seq (one digit_char) Boundary))))"

definition mask_pii :: "string \<Rightarrow> string" where
  "mask_pii text = re_sub phone_re ''<phone>'' (re_sub email_re ''<email>'' text)"

definition shadow_mode :: "intake_env \<Rightarrow> bool" where
  "shadow_mode e =
     (case ic_shadow_mode (ie_config e) of
        JStr s \<Rightarrow> py_lower s \<in> set [''1'', ''true'', ''yes'']
      | v \<Rightarrow> j_true v)"

definition channel_allowed :: "intake_env \<Rightarrow> string \<Rightarrow> bool" where
  "channel_allowed e channel_id =
     (let allowed = ic_allowed_channels (ie_config e)
      in if allowed = [] then False else ''*'' \<in> set allowed \<or> channel_id \<in> set allowed)"

abbreviation eol :: string where "eol \<equiv> [CHR 0x0A]"

fun join_lines :: "string list \<Rightarrow> string" where
  "join_lines [] = []"
| "join_lines [x] = x"
| "join_lines (x # y # ys) = x @ eol @ join_lines (y # ys)"

definition format_issue_body ::
  "string \<Rightarrow> string \<Rightarrow> string \<Rightarrow> string \<Rightarrow> string \<Rightarrow> string \<Rightarrow> string option \<Rightarrow> string" where
  "format_issue_body description user_name user_id origin_channel kind severity addon =
     join_lines
       ([description, [], ''---'',
         ''Filed via Slack `/intake` by @'' @ user_name @ '' (`'' @ user_id @ ''`)'',
         ''From channel `'' @ origin_channel @ ''` '' @ [CHR 0xB7] @ '' kind='' @ kind @ '' '' @ [CHR 0xB7] @
           '' severity='' @ severity] @
        (case addon of None \<Rightarrow> [] | Some a \<Rightarrow> if a = [] then [] else [''Addon: `'' @ a @ ''`'']))"

definition repo_full_name :: "intake_env \<Rightarrow> string" where
  "repo_full_name e = ic_org (ie_config e) @ ''/'' @ ic_repo (ie_config e)"

definition make_link :: "intake_env \<Rightarrow> string \<Rightarrow> string \<Rightarrow> string \<Rightarrow> int \<Rightarrow> string \<Rightarrow> ThreadIssueLink" where
  "make_link e channel ts repo number reporter =
     \<lparr>slack_channel = channel, slack_thread_ts = ts, github_repo = repo, github_issue_number = number,
      reporter_slack_id = reporter, created_at = ie_now e, last_relayed_comment_id = None,
      intent_confirmed_at = None\<rparr>"

text \<open>\<open>s.replace(old, new)\<close> for a nonempty \<open>old\<close>.\<close>

function py_replace :: "string \<Rightarrow> string \<Rightarrow> string \<Rightarrow> string" where
  "py_replace old new s =
     (case s of [] \<Rightarrow> []
      | c # cs \<Rightarrow>
          if old \<noteq> [] \<and> prefix old s then new @ py_replace old new (drop (length old) s)
          else c # py_replace old new cs)"
  by pat_completeness auto
termination
  by (relation "measure (\<lambda>(old, new, s). length s)") auto

declare py_replace.simps [simp del]

definition json_escape :: "string \<Rightarrow> string" where
  "json_escape s =
     py_replace [CHR 0x09] [CHR 0x5C, CHR ''t'']
      (py_replace [CHR 0x0D] [CHR 0x5C, CHR ''r'']
       (py_replace [CHR 0x0A] [CHR 0x5C, CHR ''n'']
        (py_replace [CHR 0x22] [CHR 0x5C, CHR 0x22]
         (py_replace [CHR 0x5C] [CHR 0x5C, CHR 0x5C] s))))"

definition render_block ::
  "intake_env \<Rightarrow> string \<Rightarrow> string \<Rightarrow> string \<Rightarrow> int \<Rightarrow> string \<Rightarrow> json \<Rightarrow> py_exn + json" where
  "render_block e author body issue_url number action_value block =
     loads e
       (py_replace ''{{action_value_json}}'' action_value
        (py_replace ''{{issue_number}}'' (int_str number)
         (py_replace ''{{issue_url}}'' (json_escape issue_url)
          (py_replace ''{{body}}'' (json_escape body)
           (py_replace ''{{author}}'' (json_escape author) (ie_dumps e block))))))"

definition render_relay_card ::
  "intake_env \<Rightarrow> string \<Rightarrow> string \<Rightarrow> string \<Rightarrow> int \<Rightarrow> string \<times> string \<Rightarrow> py_exn + json list" where
  "render_relay_card e author body issue_url number thread =
     (let action_value_json = ie_dumps e (JObj [(''channel'', JStr (fst thread)), (''thread_ts'', JStr (snd thread))]);
          action_value_escaped =
            py_replace [CHR 0x22] [CHR 0x5C, CHR 0x22] (py_replace [CHR 0x5C] [CHR 0x5C, CHR 0x5C] action_value_json)
      in res_map (render_block e author body issue_url number action_value_escaped) (ie_relay_template e))"

definition render_confirmed_card :: "intake_env \<Rightarrow> int \<Rightarrow> int \<Rightarrow> string \<Rightarrow> json list" where
  "render_confirmed_card e number confirmed_at clicker =
     [JObj [(''type'', JStr ''section''),
            (''text'', JObj [(''type'', JStr ''mrkdwn''),
               (''text'', JStr ('':white_check_mark: *Intent confirmed* for #'' @ int_str number @ '' by <@'' @ clicker @
                  ''> at `'' @ ie_iso e confirmed_at @ ''`. Implementation Agent will pick up from here.''))])]]"

section \<open>Path A: the slash command and the modal\<close>

definition enumerate_addons :: "intake_env \<Rightarrow> json list" where
  "enumerate_addons e =
     map (\<lambda>a. JObj [(''text'', JObj [(''type'', JStr ''plain_text''), (''text'', JStr a)]), (''value'', JStr a)])
       (take 100 (ic_addon_choices (ie_config e)))"

definition set_options :: "json list \<Rightarrow> json \<Rightarrow> py_exn + json" where
  "set_options options block =
     res_bind (j_get block ''block_id'' JNull) (\<lambda>bid.
       res_bind (j_has block ''element'') (\<lambda>has.
         if bid = JStr ''addon'' \<and> has
         then res_bind (j_get block ''element'' JNull) (\<lambda>el.
                res_bind (j_set ''options'' (JList options) el) (\<lambda>el'. j_set ''element'' el' block))
         else Inr block))"

definition render_modal :: "intake_env \<Rightarrow> string \<Rightarrow> py_exn + json" where
  "render_modal e channel_id =
     res_bind (j_set ''private_metadata'' (JStr (ie_dumps e (JObj [(''origin_channel'', JStr channel_id)])))
        (ie_modal_template e)) (\<lambda>template.
       let addon_options = enumerate_addons e
       in if addon_options = [] then Inr template
          else res_bind (res_bind (j_get template ''blocks'' (JList [])) j_list) (\<lambda>blocks.
                 res_bind (res_map (set_options addon_options) blocks) (\<lambda>blocks'.
                   if blocks = [] then Inr template else j_set ''blocks'' (JList blocks') template)))"

definition not_enabled_text :: string where
  "not_enabled_text =
     '':lock: `/intake` is not enabled in this channel yet. Ask an admin to add it to `slack_intake.allowed_channels`.''"

definition on_slash_command :: "intake_env \<Rightarrow> json \<Rightarrow> ('st, json option) intake" where
  "on_slash_command e payload =
     act_bind (act_lift (j_get payload ''command'' (JStr []))) (\<lambda>command.
       if command \<noteq> JStr ''/intake'' then act_return None
       else act_bind (act_lift (get_str payload ''channel_id'' [])) (\<lambda>channel_id.
         if \<not> channel_allowed e channel_id
         then act_bind (act_lift (get_str payload ''user_id'' [])) (\<lambda>user.
                act_seq (slack e (PostEphemeral channel_id user not_enabled_text)) (act_return None))
         else act_bind (act_lift (render_modal e channel_id)) (\<lambda>view.
           act_bind (act_lift (res_bind (j_has payload ''trigger_id'') (\<lambda>b.
               if b then j_get payload ''trigger_id'' JNull else Inl (KeyError ''trigger_id'')))) (\<lambda>trigger_id.
             act_seq (slack e (OpenModal trigger_id view)) (act_return None)))))"

record modal_values =
  mv_title :: string
  mv_description :: string
  mv_kind :: string
  mv_severity :: string
  mv_addon :: json

definition pick :: "json \<Rightarrow> string \<Rightarrow> string \<Rightarrow> py_exn + json" where
  "pick state block_id action_id =
     res_bind (j_get state block_id (JObj [])) (\<lambda>blk.
       res_bind (j_get blk action_id (JObj [])) (\<lambda>action.
         res_bind (j_has action ''value'') (\<lambda>has_value.
           if has_value then j_get action ''value'' JNull
           else res_bind (j_get action ''selected_option'' JNull) (\<lambda>sel.
             if j_true sel then j_get sel ''value'' JNull
             else res_bind (j_has action ''selected_options'') (\<lambda>has_opts.
               if has_opts
               then res_bind (j_get action ''selected_options'' JNull) (\<lambda>opts.
                      case j_or opts (JList []) of
                        JList (o1 # _) \<Rightarrow> j_get o1 ''value'' JNull
                      | JList [] \<Rightarrow> Inr JNull
                      | _ \<Rightarrow> Inl ShapeError)
               else Inr JNull)))))"

definition extract_modal_values :: "json \<Rightarrow> py_exn + modal_values" where
  "extract_modal_values view =
     res_bind (j_get view ''state'' (JObj [])) (\<lambda>st.
       res_bind (j_get st ''values'' (JObj [])) (\<lambda>state.
         res_bind (pick state ''title'' ''title_input'') (\<lambda>title.
           res_bind (pick state ''description'' ''description_input'') (\<lambda>description.
             res_bind (pick state ''kind'' ''kind_select'') (\<lambda>kind.
               res_bind (pick state ''severity'' ''severity_select'') (\<lambda>severity.
                 res_bind (pick state ''addon'' ''addon_select'') (\<lambda>addon.
                   res_bind (j_str (j_or title (JStr []))) (\<lambda>t.
                     res_bind (j_str (j_or description (JStr []))) (\<lambda>d.
                       res_bind (j_str (j_or kind (JStr ''bug''))) (\<lambda>k.
                         res_bind (j_str (j_or severity (JStr ''medium''))) (\<lambda>s.
                           Inr \<lparr>mv_title = t, mv_description = d, mv_kind = k, mv_severity = s,
                                mv_addon = addon\<rparr>)))))))))))"

definition sensitive_text :: string where
  "sensitive_text =
     '':no_entry_sign: This looks like a sensitive topic (billing / security / legal). Please email support@ instead - `/intake` is for product bugs and feature requests.''"

definition sensitive_response :: json where
  "sensitive_response =
     JObj [(''response_action'', JStr ''errors''),
           (''errors'', JObj [(''description'',
              JStr ''Sensitive topics (billing, security, legal) should not be filed via /intake - email support@.'')])]"

definition confirm_text :: "opened_issue \<Rightarrow> string \<Rightarrow> string \<Rightarrow> string" where
  "confirm_text issue kind severity =
     '':white_check_mark: Filed <'' @ oi_url issue @ ''|#'' @ int_str (oi_number issue) @ ''> ('' @ kind @ '' '' @
     [CHR 0xB7] @ '' severity '' @ severity @ ''). Reply in this thread to answer the Spec Generator's questions when they arrive.''"

definition file_issue ::
  "'st store_ops \<Rightarrow> intake_env \<Rightarrow> modal_values \<Rightarrow> string \<Rightarrow> string \<Rightarrow> string \<Rightarrow> ('st, json option) intake" where
  "file_issue S e v user_id user_name origin_channel =
     (let title = py_strip (mv_title v);
          description = py_strip (mv_description v)
      in act_bind (act_lift (if j_true (mv_addon v) then res_bind (j_str (mv_addon v)) (\<lambda>a. Inr (Some a)) else Inr None)) (\<lambda>addon.
        let labels = [if mv_kind v = ''bug'' then ''bug'' else ''feature-request'', ''severity:'' @ mv_severity v, intake_label] @
                     (case addon of None \<Rightarrow> [] | Some a \<Rightarrow> [''addon:'' @ a]);
            body = format_issue_body description user_name user_id origin_channel (mv_kind v) (mv_severity v) addon
        in act_bind (github e (OpenIssue title body labels)) (\<lambda>issue.
             act_bind (slack e (PostMessage origin_channel (confirm_text issue (mv_kind v) (mv_severity v)))) (\<lambda>posted.
               act_seq (store_upd (link_thread_to_issue S
                   (make_link e (pm_channel posted) (pm_message_id posted) (repo_full_name e) (oi_number issue) user_id)))
                 (act_return None)))))"

definition on_modal_submitted :: "'st store_ops \<Rightarrow> intake_env \<Rightarrow> json \<Rightarrow> ('st, json option) intake" where
  "on_modal_submitted S e payload =
     act_bind (act_lift (j_get payload ''view'' (JObj []))) (\<lambda>view.
       act_bind (act_lift (j_get view ''callback_id'' JNull)) (\<lambda>cb.
         if cb \<noteq> JStr ''intake_submit'' then act_return None
         else
           act_bind (act_lift (extract_modal_values view)) (\<lambda>v.
           act_bind (act_lift (j_get payload ''user'' (JObj []))) (\<lambda>user.
           act_bind (act_lift (get_str user ''id'' [])) (\<lambda>user_id.
           act_bind (act_lift (res_bind (j_get user ''username'' JNull) (\<lambda>u.
               if j_true u then j_str u else get_str user ''name'' ''unknown''))) (\<lambda>user_name.
           act_bind (act_lift (res_bind (j_get view ''private_metadata'' JNull) (\<lambda>pm.
               res_bind (j_str (j_or pm (JStr ''{}''))) (loads e)))) (\<lambda>private_meta.
           act_bind (act_lift (get_str private_meta ''origin_channel'' [])) (\<lambda>origin_channel.
             if is_sensitive e (mv_description v)
             then act_seq (slack e (PostEphemeral origin_channel user_id sensitive_text))
                    (act_return (Some sensitive_response))
             else file_issue S e v user_id user_name origin_channel))))))))"

section \<open>Path B: a comment on the issue goes to the thread\<close>

definition remove_bot_suffix :: "string \<Rightarrow> string" where
  "remove_bot_suffix s = (if suffix ''[bot]'' s then take (length s - 5) s else s)"

definition label_names :: "json list \<Rightarrow> json list" where
  "label_names ls = concat (map (\<lambda>l. case l of JObj kvs \<Rightarrow> [case map_of kvs ''name'' of None \<Rightarrow> JNull | Some n \<Rightarrow> n] | _ \<Rightarrow> []) ls)"

definition relay_comment ::
  "'st store_ops \<Rightarrow> intake_env \<Rightarrow> ThreadIssueLink \<Rightarrow> json \<Rightarrow> json \<Rightarrow> int \<Rightarrow> string \<Rightarrow> ('st, json option) intake" where
  "relay_comment S e link issue comment number author =
     act_bind (act_lift (j_get comment ''id'' JNull)) (\<lambda>cid.
       if j_true cid \<and> (case last_relayed_comment_id link of None \<Rightarrow> False | Some c \<Rightarrow> cid = JNum c) then act_return None
       else
         act_bind (act_lift (get_str comment ''body'' [])) (\<lambda>body.
         act_bind (act_lift (get_str issue ''html_url'' [])) (\<lambda>url.
         act_bind (act_lift (render_relay_card e author (mask_pii body) url number (thread_of link))) (\<lambda>blocks.
         act_seq (slack e (PostThreadReply (slack_channel link) (slack_thread_ts link)
                    (''New comment from @'' @ author @ '' on #'' @ int_str number) blocks))
           (if j_true cid
            then act_bind (act_lift (j_num cid)) (\<lambda>c.
                   act_seq (store_upd (update_last_relayed_comment S (thread_of link) c)) (act_return None))
            else act_return None)))))"

definition on_linked_comment ::
  "'st store_ops \<Rightarrow> intake_env \<Rightarrow> ThreadIssueLink \<Rightarrow> json \<Rightarrow> json \<Rightarrow> int \<Rightarrow> ('st, json option) intake" where
  "on_linked_comment S e link issue comment number =
     (if intent_confirmed_at link \<noteq> None then act_return None
      else
        act_bind (act_lift (res_bind (get_obj comment ''user'') (\<lambda>u. get_str u ''login'' []))) (\<lambda>login.
          let author = remove_bot_suffix login;
              relay_authors = (case ic_relay_authors (ie_config e) of None \<Rightarrow> default_relay_authors | Some a \<Rightarrow> a)
          in if author \<notin> set relay_authors then act_return None
             else relay_comment S e link issue comment number author))"

definition delivery_of :: "json \<Rightarrow> py_exn + string" where
  "delivery_of payload =
     res_bind (j_get payload ''delivery_id'' JNull) (\<lambda>d.
       if j_true d then j_str d else get_str payload ''X-GitHub-Delivery'' [])"

definition route_comment :: "'st store_ops \<Rightarrow> intake_env \<Rightarrow> json \<Rightarrow> ('st, json option) intake" where
  "route_comment S e payload =
     act_bind (act_lift (get_obj payload ''issue'')) (\<lambda>issue.
     act_bind (act_lift (get_obj payload ''comment'')) (\<lambda>comment.
     act_bind (act_lift (res_bind (get_obj payload ''repository'') (\<lambda>r. get_str r ''full_name'' []))) (\<lambda>repo.
     act_bind (act_lift (j_get issue ''number'' JNull)) (\<lambda>num.
       if \<not> j_true num then act_return None
       else
         act_bind (act_lift (j_num num)) (\<lambda>number.
         act_bind (act_lift (res_bind (j_get issue ''labels'' (JList [])) j_list)) (\<lambda>labels.
           if JStr intake_label \<notin> set (label_names labels) then act_return None
           else
             act_bind (act_read (\<lambda>w. get_link_by_issue S (iw_store w) (repo, number))) (\<lambda>found.
               case found of
                 None \<Rightarrow> act_return None
               | Some link \<Rightarrow> on_linked_comment S e link issue comment number)))))))"

definition on_github_issue_comment :: "'st store_ops \<Rightarrow> intake_env \<Rightarrow> json \<Rightarrow> ('st, json option) intake" where
  "on_github_issue_comment S e payload =
     (if shadow_mode e then act_return None
      else
        act_bind (act_lift (delivery_of payload)) (\<lambda>delivery_id.
        act_bind (if delivery_id = [] then act_return False else store_seen S e (''gh:'' @ delivery_id)) (\<lambda>seen.
          if seen then act_return None else route_comment S e payload)))"

section \<open>Path C: a reply in the thread goes to the issue\<close>

definition relay_reply ::
  "'st store_ops \<Rightarrow> intake_env \<Rightarrow> ThreadIssueLink \<Rightarrow> json \<Rightarrow> string \<Rightarrow> ('st, json option) intake" where
  "relay_reply S e link payload channel =
     act_bind (act_lift (get_str payload ''text'' [])) (\<lambda>raw.
       let text = py_strip raw
       in if text = [] then act_return None
          else
            act_bind (act_lift (get_str payload ''user'' [])) (\<lambda>slack_user_id.
            act_bind (act_read (\<lambda>w. lookup_github_login S (iw_store w) slack_user_id)) (\<lambda>login.
              let attribution =
                    (case login of
                       None \<Rightarrow> ''Slack user `'' @ slack_user_id @ ''`''
                     | Some gh_login \<Rightarrow> if gh_login = [] then ''Slack user `'' @ slack_user_id @ ''`'' else CHR ''@'' # gh_login);
                  body = ''> _Relayed from Slack thread (originating reporter: '' @ attribution @ '')_'' @ eol @ eol @ mask_pii text
              in act_seq (github e (Comment (github_issue_number link) body))
                   (act_bind (act_lift (j_get payload ''ts'' JNull)) (\<lambda>posted_ts.
                      if j_true posted_ts
                      then act_bind (act_lift (j_str posted_ts)) (\<lambda>ts. act_seq (add_reaction e channel ts ''eyes'') (act_return None))
                      else act_return None)))))"

definition on_slack_message :: "'st store_ops \<Rightarrow> intake_env \<Rightarrow> json \<Rightarrow> ('st, json option) intake" where
  "on_slack_message S e payload =
     act_bind (act_lift (get_str payload ''event_id'' [])) (\<lambda>event_id.
     act_bind (if event_id = [] then act_return False else store_seen S e (''slack:'' @ event_id)) (\<lambda>seen.
       if seen then act_return None
       else
         act_bind (act_lift (res_bind (j_get payload ''bot_id'' JNull) (\<lambda>b.
             if j_true b then Inr b else j_get payload ''subtype'' JNull))) (\<lambda>ignored.
           if j_true ignored then act_return None
           else
             act_bind (act_lift (j_get payload ''thread_ts'' JNull)) (\<lambda>tts.
               if \<not> j_true tts then act_return None
               else
                 act_bind (act_lift (j_str tts)) (\<lambda>thread_ts.
                 act_bind (act_lift (get_str payload ''channel'' [])) (\<lambda>channel.
                 act_bind (act_read (\<lambda>w. get_link_by_thread S (iw_store w) (channel, thread_ts))) (\<lambda>found.
                   case found of
                     None \<Rightarrow> act_return None
                   | Some link \<Rightarrow>
                       if intent_confirmed_at link \<noteq> None then act_return None
                       else relay_reply S e link payload channel)))))))"

section \<open>Path D: the reporter confirms\<close>

definition confirm_intent ::
  "'st store_ops \<Rightarrow> intake_env \<Rightarrow> ThreadIssueLink \<Rightarrow> json \<Rightarrow> string \<Rightarrow> string \<Rightarrow> string \<Rightarrow> ('st, json option) intake" where
  "confirm_intent S e link payload channel thread_ts clicker =
     act_seq (github e (Comment (github_issue_number link) ''/confirm''))
       (act_seq (store_upd (mark_intent_confirmed S (channel, thread_ts) (ie_now e)))
         (act_bind (act_lift (res_bind (get_obj payload ''message'') (\<lambda>m. j_get m ''ts'' JNull))) (\<lambda>mid.
            if j_true mid
            then act_bind (act_lift (j_str mid)) (\<lambda>message_id.
                   act_seq (slack e (UpdateMessage channel message_id (''Intent confirmed at '' @ ie_iso e (ie_now e))
                              (render_confirmed_card e (github_issue_number link) (ie_now e) clicker)))
                     (act_return None))
            else act_return None)))"

definition on_block_action :: "'st store_ops \<Rightarrow> intake_env \<Rightarrow> json \<Rightarrow> ('st, json option) intake" where
  "on_block_action S e payload =
     act_bind (act_lift (res_bind (j_get payload ''actions'' JNull) (\<lambda>a. j_list (j_or a (JList []))))) (\<lambda>actions.
       case actions of
         [] \<Rightarrow> act_return None
       | action # _ \<Rightarrow>
           act_bind (act_lift (j_get action ''action_id'' JNull)) (\<lambda>aid.
             if aid \<noteq> JStr ''intake_confirm'' then act_return None
             else
               act_bind (act_lift (get_str action ''value'' [])) (\<lambda>raw.
                 case ie_loads e raw of
                   None \<Rightarrow> act_return None
                 | Some meta \<Rightarrow>
                     act_bind (act_lift (get_str meta ''channel'' [])) (\<lambda>channel.
                     act_bind (act_lift (get_str meta ''thread_ts'' [])) (\<lambda>thread_ts.
                     act_bind (act_read (\<lambda>w. get_link_by_thread S (iw_store w) (channel, thread_ts))) (\<lambda>found.
                       case found of
                         None \<Rightarrow> act_return None
                       | Some link \<Rightarrow>
                           act_bind (act_lift (res_bind (get_obj payload ''user'') (\<lambda>u. get_str u ''id'' []))) (\<lambda>clicker.
                             if clicker \<noteq> reporter_slack_id link
                             then act_seq (slack e (PostEphemeral channel clicker
                                    '':lock: Only the original reporter can confirm intent on this issue.''))
                                    (act_return None)
                             else confirm_intent S e link payload channel thread_ts clicker)))))))"

section \<open>Following the handlers\<close>

text \<open>
  A relation between the world before and after a handler that every single call respects:
  reflexive, transitive, and kept by each call under a condition that the calls keep. A reply in
  a thread is only ever made for the unconfirmed link of an issue, and a link only from the
  answers of the two calls before it.
\<close>

locale intake_relation =
  fixes S :: "'st store_ops" and e :: intake_env
    and P :: "'st intake_world \<Rightarrow> bool" and R :: "'st intake_world \<Rightarrow> 'st intake_world \<Rightarrow> bool"
  assumes refl: "R w w" and trans: "R a a2 \<Longrightarrow> R a2 a3 \<Longrightarrow> R a a3"
    and slack_ok: "P w \<Longrightarrow> (\<And>ch ts msg blks. call \<noteq> PostThreadReply ch ts msg blks) \<Longrightarrow>
      R w (w\<lparr>iw_slack := iw_slack w @ [call]\<rparr>) \<and> P (w\<lparr>iw_slack := iw_slack w @ [call]\<rparr>)"
    and reply_ok: "P w \<Longrightarrow> get_link_by_issue S (iw_store w) i = Some l \<Longrightarrow> intent_confirmed_at l = None \<Longrightarrow>
      call = PostThreadReply (slack_channel l) (slack_thread_ts l) msg blks \<Longrightarrow>
      R w (w\<lparr>iw_slack := iw_slack w @ [call]\<rparr>) \<and> P (w\<lparr>iw_slack := iw_slack w @ [call]\<rparr>)"
    and github_ok: "P w \<Longrightarrow> R w (w\<lparr>iw_github := iw_github w @ [gcall]\<rparr>) \<and> P (w\<lparr>iw_github := iw_github w @ [gcall]\<rparr>)"
    and seen_ok: "P w \<Longrightarrow> st' = snd (seen_event S (fst (ie_seen_now e)) (snd (ie_seen_now e)) key (iw_store w)) \<Longrightarrow>
      R w (w\<lparr>iw_store := st'\<rparr>) \<and> P (w\<lparr>iw_store := st'\<rparr>)"
    and relayed_ok: "P w \<Longrightarrow> st' = update_last_relayed_comment S k cid (iw_store w) \<Longrightarrow> R w (w\<lparr>iw_store := st'\<rparr>)"
    and confirm_ok: "P w \<Longrightarrow> st' = mark_intent_confirmed S k (ie_now e) (iw_store w) \<Longrightarrow>
      R w (w\<lparr>iw_store := st'\<rparr>) \<and> P (w\<lparr>iw_store := st'\<rparr>)"
    and link_ok: "P w \<Longrightarrow> ie_slack e (PostMessage chan msg) = Inr posted \<Longrightarrow>
      ie_github e (OpenIssue title body labels) = Inr issue \<Longrightarrow>
      st' = link_thread_to_issue S
        (make_link e (pm_channel posted) (pm_message_id posted) (repo_full_name e) (oi_number issue) u) (iw_store w) \<Longrightarrow>
      R w (w\<lparr>iw_store := st'\<rparr>)"
begin

lemma slack_step:
  assumes "\<And>w. P' w \<Longrightarrow> P w" "\<And>c t s b. call \<noteq> PostThreadReply c t s b"
    and "\<And>x. ie_slack e call = Inr x \<Longrightarrow> valid P R (k x)"
  shows "valid P' R (act_bind (slack e call) k)"
  by (rule valid_bind [where Q = P, OF _ _ trans])
    (use slack_ok [OF assms(1,2)] assms(3) in \<open>auto simp: slack_def\<close>)

lemma github_step:
  assumes "\<And>w. P' w \<Longrightarrow> P w" "\<And>x. ie_github e call = Inr x \<Longrightarrow> valid P R (k x)"
  shows "valid P' R (act_bind (github e call) k)"
  by (rule valid_bind [where Q = P, OF _ _ trans])
    (use github_ok [OF assms(1)] assms(2) in \<open>auto simp: github_def\<close>)

lemma seen_step:
  assumes "\<And>x. valid P R (k x)"
  shows "valid P R (act_bind (store_seen S e key) k)"
proof (rule valid_bind [where Q = P, OF _ _ trans])
  fix w x w'
  assume P: "P w" and "store_seen S e key w = (x, w')"
  then have "w' = w\<lparr>iw_store := snd (seen_event S (fst (ie_seen_now e)) (snd (ie_seen_now e)) key (iw_store w))\<rparr>"
    by (auto simp: store_seen_def split: prod.splits)
  with seen_ok [OF P HOL.refl] show "R w w' \<and> P w'" by simp
qed (simp_all add: assms)

lemmas steps = valid_intros slack_step github_step seen_step refl

lemma valid_on_slash_command: "valid P R (on_slash_command e payload)"
  unfolding on_slash_command_def by (intro steps) auto

lemma valid_confirm: "valid P R (act_bind (store_upd (mark_intent_confirmed S k (ie_now e))) f)" if "\<And>x. valid P R (f x)"
  by (rule valid_bind [where Q = P, OF _ _ trans])
    (use confirm_ok [OF _ HOL.refl] that in \<open>auto simp: store_upd_def\<close>)

lemma valid_on_modal_submitted: "valid P R (on_modal_submitted S e payload)"
proof -
  have link: "valid P R (act_seq (store_upd (link_thread_to_issue S
      (make_link e (pm_channel posted) (pm_message_id posted) (repo_full_name e) (oi_number issue) u))) (act_return x))"
    if "ie_slack e (PostMessage chan msg) = Inr posted" "ie_github e (OpenIssue title body labels) = Inr issue"
    for chan msg posted title body labels issue u and x :: "json option"
    using link_ok [OF _ that] by (simp add: store_upd_def valid_def)
  show ?thesis
    unfolding on_modal_submitted_def file_issue_def Let_def
    by (intro steps link) auto
qed

lemma reply_step:
  assumes "\<And>w. P' w \<Longrightarrow> P w \<and> get_link_by_issue S (iw_store w) i = Some l" "intent_confirmed_at l = None"
    and "\<And>x. valid P R (k x)"
  shows "valid P' R (act_bind (slack e (PostThreadReply (slack_channel l) (slack_thread_ts l) msg blks)) k)"
proof (rule valid_bind [where Q = P, OF _ _ trans])
  fix w x w'
  assume "P' w" and run: "slack e (PostThreadReply (slack_channel l) (slack_thread_ts l) msg blks) w = (x, w')"
  then have "P w" "get_link_by_issue S (iw_store w) i = Some l" using assms(1) by blast+
  from reply_ok [OF this assms(2) HOL.refl] run show "R w w' \<and> P w'" by (auto simp: slack_def)
qed (simp_all add: assms(3))

lemma valid_relay_comment:
  assumes "P w" "get_link_by_issue S (iw_store w) i = Some l" "intent_confirmed_at l = None"
  shows "valid (\<lambda>v. v = w) R (relay_comment S e l issue comment number author)"
proof -
  have relayed: "valid P R (act_seq (store_upd (update_last_relayed_comment S k c)) (act_return x))"
    for k c and x :: "json option"
    using relayed_ok by (simp add: store_upd_def valid_def)
  show ?thesis
    unfolding relay_comment_def
    by (intro steps relayed reply_step [where i = i]) (use assms in auto)
qed

lemma valid_route_comment: "valid P R (route_comment S e payload)"
  unfolding route_comment_def on_linked_comment_def Let_def
  by (intro steps valid_relay_comment) auto

lemma valid_on_github_issue_comment: "valid P R (on_github_issue_comment S e payload)"
  unfolding on_github_issue_comment_def
  by (intro steps valid_route_comment)

lemma valid_react: "valid P R (act_seq (add_reaction e c m em) (act_return x))" for x :: "json option"
  using slack_ok [of _ "AddReaction c m em"] by (simp add: valid_def add_reaction_def slack_def)

lemma valid_on_slack_message: "valid P R (on_slack_message S e payload)"
  unfolding on_slack_message_def relay_reply_def Let_def
  by (intro steps valid_react) auto

lemma valid_on_block_action: "valid P R (on_block_action S e payload)"
  unfolding on_block_action_def confirm_intent_def Let_def
  by (intro steps valid_confirm) auto

end


section \<open>Runs of the agent\<close>

text \<open>
  Slack gives every message a new time stamp and GitHub every issue a new number, so neither is
  linked yet.
\<close>

definition fresh_answers :: "'st store_ops \<Rightarrow> intake_env \<Rightarrow> 'st intake_world \<Rightarrow> bool" where
  "fresh_answers S e w \<longleftrightarrow>
     (\<forall>c t m. ie_slack e (PostMessage c t) = Inr m \<longrightarrow>
        get_link_by_thread S (iw_store w) (pm_channel m, pm_message_id m) = None) \<and>
     (\<forall>t b ls i. ie_github e (OpenIssue t b ls) = Inr i \<longrightarrow>
        get_link_by_issue S (iw_store w) (repo_full_name e, oi_number i) = None)"

inductive intake_step :: "'st store_ops \<Rightarrow> intake_env \<Rightarrow> 'st intake_world \<Rightarrow> 'st intake_world \<Rightarrow> bool" for S e where
  slash_command: "on_slash_command e p w = (x, w') \<Longrightarrow> intake_step S e w w'"
| modal_submitted: "on_modal_submitted S e p w = (x, w') \<Longrightarrow> intake_step S e w w'"
| issue_comment: "on_github_issue_comment S e p w = (x, w') \<Longrightarrow> intake_step S e w w'"
| slack_message: "on_slack_message S e p w = (x, w') \<Longrightarrow> intake_step S e w w'"
| block_action: "on_block_action S e p w = (x, w') \<Longrightarrow> intake_step S e w w'"

inductive_cases intake_stepE: "intake_step S e w w'"

inductive intake_run :: "'st store_ops \<Rightarrow> (intake_env \<Rightarrow> bool) \<Rightarrow> 'st intake_world \<Rightarrow> 'st intake_world \<Rightarrow> bool" for S E where
  stop: "intake_run S E w w"
| go: "intake_run S E w w' \<Longrightarrow> E e \<Longrightarrow> fresh_answers S e w' \<Longrightarrow> intake_step S e w' w'' \<Longrightarrow> intake_run S E w w''"

context intake_relation
begin

lemma step_related: "intake_step S e w w' \<Longrightarrow> P w \<Longrightarrow> R w w'"
  by (erule intake_stepE)
    (blast intro: validD [OF valid_on_slash_command] validD [OF valid_on_modal_submitted]
      validD [OF valid_on_github_issue_comment] validD [OF valid_on_slack_message] validD [OF valid_on_block_action])+

end

text \<open>The replies that were posted in a thread.\<close>

definition reply_to :: "string \<times> string \<Rightarrow> slack_call \<Rightarrow> bool" where
  "reply_to k c \<longleftrightarrow> (\<exists>t b. c = PostThreadReply (fst k) (snd k) t b)"

definition replies :: "string \<times> string \<Rightarrow> 'st intake_world \<Rightarrow> slack_call list" where
  "replies k w = filter (reply_to k) (iw_slack w)"

context thread_store
begin

lemma links_none_after:
  assumes "wf st" "get_link_by_thread S st' = get_link_by_thread S st" "wf st'"
  shows "get_link_by_issue S st' i = get_link_by_issue S st i"
proof -
  have "get_link_by_issue S st' i = Some l \<longleftrightarrow> get_link_by_issue S st i = Some l" for l
    by (simp add: issue_iff [OF assms(1)] issue_iff [OF assms(3)] assms(2))
  then show ?thesis by (metis not_Some_eq)
qed

lemma issue_none_confirm:
  assumes "wf st" "get_link_by_issue S st i = None"
  shows "get_link_by_issue S (mark_intent_confirmed S k at st) i = None"
proof (rule ccontr)
  assume "get_link_by_issue S (mark_intent_confirmed S k at st) i \<noteq> None"
  then obtain l where l: "issue_of l = i" "get_link_by_thread S (mark_intent_confirmed S k at st) (thread_of l) = Some l"
    using issue_iff [OF wf_confirm [OF assms(1)]] by blast
  then obtain l0 where "get_link_by_thread S st (thread_of l) = Some l0" "issue_of l0 = i"
    by (auto simp: get_after_confirm [OF assms(1)] split: if_splits)
  moreover have "thread_of l0 = thread_of l" using calculation thread_key [OF assms(1)] by blast
  ultimately show False using issue_iff [OF assms(1), of i l0] assms(2) by simp
qed

lemma fresh_after_seen:
  "wf (iw_store w) \<Longrightarrow> fresh_answers S e w \<Longrightarrow> fresh_answers S e (w\<lparr>iw_store := snd (seen_event S n1 n2 key (iw_store w))\<rparr>)"
  using links_none_after [of "iw_store w" "snd (seen_event S n1 n2 key (iw_store w))"] wf_seen
  by (auto simp: fresh_answers_def get_after_seen fun_eq_iff)

lemma fresh_after_confirm:
  "wf (iw_store w) \<Longrightarrow> fresh_answers S e w \<Longrightarrow> fresh_answers S e (w\<lparr>iw_store := mark_intent_confirmed S k at (iw_store w)\<rparr>)"
  by (auto simp: fresh_answers_def get_after_confirm issue_none_confirm)

lemma fresh_calls:
  "fresh_answers S e (w\<lparr>iw_slack := a\<rparr>) = fresh_answers S e w" "fresh_answers S e (w\<lparr>iw_github := b\<rparr>) = fresh_answers S e w"
  by (simp_all add: fresh_answers_def)

text \<open>A thread whose intent is confirmed gets no more replies.\<close>

definition settled :: "string \<times> string \<Rightarrow> 'st intake_world \<Rightarrow> bool" where
  "settled k w \<longleftrightarrow> wf (iw_store w) \<and> (\<exists>l. get_link_by_thread S (iw_store w) k = Some l \<and> intent_confirmed_at l \<noteq> None)"

definition quiet :: "string \<times> string \<Rightarrow> 'st intake_world \<Rightarrow> 'st intake_world \<Rightarrow> bool" where
  "quiet k w w' \<longleftrightarrow> replies k w' = replies k w \<and> (settled k w \<longrightarrow> settled k w')"

lemma settled_calls: "settled k (w\<lparr>iw_slack := a\<rparr>) = settled k w" "settled k (w\<lparr>iw_github := b\<rparr>) = settled k w"
  by (simp_all add: settled_def)

lemma replies_calls:
  "replies k (w\<lparr>iw_slack := iw_slack w @ [c]\<rparr>) = replies k w @ (if reply_to k c then [c] else [])"
  "replies k (w\<lparr>iw_github := b\<rparr>) = replies k w" "replies k (w\<lparr>iw_store := st\<rparr>) = replies k w"
  by (simp_all add: replies_def)

lemma settled_not_linked:
  assumes "settled k w" "get_link_by_issue S (iw_store w) i = Some l" "intent_confirmed_at l = None"
  shows "thread_of l \<noteq> k"
  using assms thread_of_issue [of "iw_store w" i l] by (auto simp: settled_def)

lemma settled_wf: "settled k w \<Longrightarrow> wf (iw_store w)"
  by (simp add: settled_def)

lemma settled_store:
  assumes "settled k w"
  shows "settled k (w\<lparr>iw_store := snd (seen_event S n1 n2 key (iw_store w))\<rparr>)"
    "settled k (w\<lparr>iw_store := update_last_relayed_comment S k' c (iw_store w)\<rparr>)"
    "settled k (w\<lparr>iw_store := mark_intent_confirmed S k' at (iw_store w)\<rparr>)"
  using assms
  by (auto simp: settled_def get_after_seen get_after_relayed get_after_confirm wf_seen wf_relayed wf_confirm)

lemma link_fresh:
  assumes "fresh_answers S e w" "ie_slack e (PostMessage chan msg) = Inr posted"
    "ie_github e (OpenIssue title body labels) = Inr issue"
    "l = make_link e (pm_channel posted) (pm_message_id posted) (repo_full_name e) (oi_number issue) u"
  shows "get_link_by_thread S (iw_store w) (thread_of l) = None" "get_link_by_issue S (iw_store w) (issue_of l) = None"
  using assms by (auto simp: fresh_answers_def make_link_def thread_of_def issue_of_def)

lemma settled_link:
  assumes "settled k w" "get_link_by_thread S (iw_store w) (thread_of l) = None" "get_link_by_issue S (iw_store w) (issue_of l) = None"
  shows "settled k (w\<lparr>iw_store := link_thread_to_issue S l (iw_store w)\<rparr>)"
  using assms by (auto simp: settled_def get_after_link wf_link)

end

sublocale thread_store \<subseteq> silent: intake_relation S e "\<lambda>w. settled k w \<and> fresh_answers S e w" "quiet k" for e k
proof unfold_locales
  fix w call
  assume "settled k w \<and> fresh_answers S e w" "\<And>ch ts msg blks. call \<noteq> PostThreadReply ch ts msg blks"
  then show "quiet k w (w\<lparr>iw_slack := iw_slack w @ [call]\<rparr>) \<and>
      settled k (w\<lparr>iw_slack := iw_slack w @ [call]\<rparr>) \<and> fresh_answers S e (w\<lparr>iw_slack := iw_slack w @ [call]\<rparr>)"
    by (simp add: quiet_def replies_calls reply_to_def settled_calls fresh_calls)
next
  fix w i l call msg blks
  assume P: "settled k w \<and> fresh_answers S e w" and l: "get_link_by_issue S (iw_store w) i = Some l"
    "intent_confirmed_at l = None" and call: "call = PostThreadReply (slack_channel l) (slack_thread_ts l) msg blks"
  have "thread_of l \<noteq> k" using settled_not_linked P l by blast
  then have "\<not> reply_to k call" by (auto simp: call reply_to_def thread_of_def)
  with P show "quiet k w (w\<lparr>iw_slack := iw_slack w @ [call]\<rparr>) \<and>
      settled k (w\<lparr>iw_slack := iw_slack w @ [call]\<rparr>) \<and> fresh_answers S e (w\<lparr>iw_slack := iw_slack w @ [call]\<rparr>)"
    by (simp add: quiet_def replies_calls settled_calls fresh_calls)
next
  fix w st' key
  assume P: "settled k w \<and> fresh_answers S e w"
    and st': "st' = snd (seen_event S (fst (ie_seen_now e)) (snd (ie_seen_now e)) key (iw_store w))"
  then show "quiet k w (w\<lparr>iw_store := st'\<rparr>) \<and> settled k (w\<lparr>iw_store := st'\<rparr>) \<and> fresh_answers S e (w\<lparr>iw_store := st'\<rparr>)"
    using settled_store(1) [of k w] fresh_after_seen [of w e] settled_wf [of k w] by (simp add: quiet_def replies_calls)
next
  fix w st' k' c
  assume "settled k w \<and> fresh_answers S e w" "st' = update_last_relayed_comment S k' c (iw_store w)"
  then show "quiet k w (w\<lparr>iw_store := st'\<rparr>)" using settled_store(2) by (simp add: quiet_def replies_calls)
next
  fix w st' k'
  assume P: "settled k w \<and> fresh_answers S e w" and st': "st' = mark_intent_confirmed S k' (ie_now e) (iw_store w)"
  then show "quiet k w (w\<lparr>iw_store := st'\<rparr>) \<and> settled k (w\<lparr>iw_store := st'\<rparr>) \<and> fresh_answers S e (w\<lparr>iw_store := st'\<rparr>)"
    using settled_store(3) [of k w] fresh_after_confirm [of w e] settled_wf [of k w] by (simp add: quiet_def replies_calls)
next
  fix w chan msg posted title body labels issue st' u
  assume P: "settled k w \<and> fresh_answers S e w"
    and a: "ie_slack e (PostMessage chan msg) = Inr posted" "ie_github e (OpenIssue title body labels) = Inr issue"
    and st': "st' = link_thread_to_issue S
      (make_link e (pm_channel posted) (pm_message_id posted) (repo_full_name e) (oi_number issue) u) (iw_store w)"
  show "quiet k w (w\<lparr>iw_store := st'\<rparr>)"
    using settled_link [OF _ link_fresh [OF _ a HOL.refl]] P by (simp add: quiet_def replies_calls st')
qed (auto simp: quiet_def replies_calls settled_calls fresh_calls)

text \<open>A recorded delivery stays recorded while no call ages it out.\<close>

context thread_store
begin

definition stamped :: "string \<Rightarrow> int \<Rightarrow> 'st intake_world \<Rightarrow> bool" where
  "stamped key t w \<longleftrightarrow> wf (iw_store w) \<and> stamp (iw_store w) key = Some t"

lemma stamped_calls: "stamped key t (w\<lparr>iw_slack := a\<rparr>) = stamped key t w" "stamped key t (w\<lparr>iw_github := b\<rparr>) = stamped key t w"
  by (simp_all add: stamped_def)

lemma stamped_wf: "stamped key t w \<Longrightarrow> wf (iw_store w)"
  by (simp add: stamped_def)

lemma stamped_seen:
  "stamped key t w \<Longrightarrow> n1 \<le> t + ttl \<Longrightarrow> stamped key t (w\<lparr>iw_store := snd (seen_event S n1 n2 key' (iw_store w))\<rparr>)"
  by (auto simp: stamped_def wf_seen stamp_after_seen fresh_stamp_def)

lemma stamped_store:
  assumes "stamped key t w"
  shows "stamped key t (w\<lparr>iw_store := update_last_relayed_comment S k c (iw_store w)\<rparr>)"
    "stamped key t (w\<lparr>iw_store := mark_intent_confirmed S k at (iw_store w)\<rparr>)"
  using assms by (auto simp: stamped_def wf_relayed wf_confirm stamp_after_other)

lemma stamped_link:
  assumes "stamped key t w" "get_link_by_thread S (iw_store w) (thread_of l) = None" "get_link_by_issue S (iw_store w) (issue_of l) = None"
  shows "stamped key t (w\<lparr>iw_store := link_thread_to_issue S l (iw_store w)\<rparr>)"
  using assms by (auto simp: stamped_def stamp_after_other wf_link)

end

sublocale thread_store \<subseteq> recorded: intake_relation S e
  "\<lambda>w. stamped key t w \<and> fst (ie_seen_now e) \<le> t + ttl \<and> fresh_answers S e w"
  "\<lambda>w w'. stamped key t w \<longrightarrow> stamped key t w'" for e key t
proof unfold_locales
  fix w st' key'
  assume "stamped key t w \<and> fst (ie_seen_now e) \<le> t + ttl \<and> fresh_answers S e w"
    and "st' = snd (seen_event S (fst (ie_seen_now e)) (snd (ie_seen_now e)) key' (iw_store w))"
  then show "(stamped key t w \<longrightarrow> stamped key t (w\<lparr>iw_store := st'\<rparr>)) \<and>
      stamped key t (w\<lparr>iw_store := st'\<rparr>) \<and> fst (ie_seen_now e) \<le> t + ttl \<and> fresh_answers S e (w\<lparr>iw_store := st'\<rparr>)"
    using stamped_seen [of key t w] fresh_after_seen [of w e] stamped_wf [of key t w] by simp
next
  fix w st' k
  assume "stamped key t w \<and> fst (ie_seen_now e) \<le> t + ttl \<and> fresh_answers S e w"
    and "st' = mark_intent_confirmed S k (ie_now e) (iw_store w)"
  then show "(stamped key t w \<longrightarrow> stamped key t (w\<lparr>iw_store := st'\<rparr>)) \<and>
      stamped key t (w\<lparr>iw_store := st'\<rparr>) \<and> fst (ie_seen_now e) \<le> t + ttl \<and> fresh_answers S e (w\<lparr>iw_store := st'\<rparr>)"
    using stamped_store(2) [of key t w] fresh_after_confirm [of w e] stamped_wf [of key t w] by simp
next
  fix w chan msg posted title body labels issue st' u
  assume P: "stamped key t w \<and> fst (ie_seen_now e) \<le> t + ttl \<and> fresh_answers S e w"
    and a: "ie_slack e (PostMessage chan msg) = Inr posted" "ie_github e (OpenIssue title body labels) = Inr issue"
    and st': "st' = link_thread_to_issue S
      (make_link e (pm_channel posted) (pm_message_id posted) (repo_full_name e) (oi_number issue) u) (iw_store w)"
  show "stamped key t w \<longrightarrow> stamped key t (w\<lparr>iw_store := st'\<rparr>)"
    using stamped_link [OF _ link_fresh [OF _ a HOL.refl]] P by (simp add: st')
qed (auto simp: stamped_calls fresh_calls stamped_store)

context thread_store
begin

lemma run_quiet: "intake_run S E w w' \<Longrightarrow> settled k w \<Longrightarrow> replies k w' = replies k w \<and> settled k w'"
proof (induction rule: intake_run.induct)
  case (go w w' e w'')
  then have "quiet k w' w''" using silent.step_related [of e w' w'' k] by blast
  with go show ?case by (simp add: quiet_def)
qed simp

lemma run_recorded:
  "intake_run S E w w' \<Longrightarrow> (\<And>e. E e \<Longrightarrow> fst (ie_seen_now e) \<le> t + ttl) \<Longrightarrow> stamped key t w \<Longrightarrow> stamped key t w'"
proof (induction rule: intake_run.induct)
  case (go w w' e w'')
  then show ?case using recorded.step_related [where e = e and key = key and t = t] by blast
qed simp

lemma first_delivery:
  assumes "wf (iw_store w)" "fresh_answers S e w" "\<not> shadow_mode e" "delivery_of p = Inr d" "d \<noteq> []"
    and "\<not> fst (seen_event S (fst (ie_seen_now e)) (snd (ie_seen_now e)) (''gh:'' @ d) (iw_store w))"
    and "fst (ie_seen_now e) \<le> snd (ie_seen_now e) + ttl"
  shows "stamped (''gh:'' @ d) (snd (ie_seen_now e)) (snd (on_github_issue_comment S e p w))"
proof -
  let ?w = "w\<lparr>iw_store := snd (seen_event S (fst (ie_seen_now e)) (snd (ie_seen_now e)) (''gh:'' @ d) (iw_store w))\<rparr>"
  have run: "on_github_issue_comment S e p w = route_comment S e p ?w"
    using assms(3-6) by (auto simp: on_github_issue_comment_def store_seen_def split: prod.splits)
  have "stamped (''gh:'' @ d) (snd (ie_seen_now e)) ?w"
    using assms(1,6) by (simp add: stamped_def wf_seen stamp_after_seen seen_answer)
  moreover have "fresh_answers S e ?w" using fresh_after_seen assms(1,2) by blast
  ultimately show ?thesis
    using recorded.valid_route_comment [where e = e and key = "''gh:'' @ d" and t = "snd (ie_seen_now e)" and payload = p] assms(7)
    by (simp add: valid_def run)
qed

lemma later_delivery:
  assumes "stamped (''gh:'' @ d) t w" "fst (ie_seen_now e) \<le> t + ttl" "delivery_of p = Inr d" "d \<noteq> []"
  shows "iw_slack (snd (on_github_issue_comment S e p w)) = iw_slack w \<and>
    iw_github (snd (on_github_issue_comment S e p w)) = iw_github w"
proof -
  have "fst (seen_event S (fst (ie_seen_now e)) (snd (ie_seen_now e)) (''gh:'' @ d) (iw_store w))"
    using assms(1,2) by (simp add: stamped_def seen_answer fresh_stamp_def)
  then show ?thesis
    using assms(3,4) by (auto simp: on_github_issue_comment_def store_seen_def split: prod.splits)
qed

end

section \<open>Masking\<close>

lemma email_no_boundary: "no_boundary email_re"
  by (simp add: email_re_def)

lemma email_words:
  assumes "u \<in> lang email_re"
  shows "CHR ''@'' \<in> set u" "CHR ''<'' \<notin> set u \<and> CHR ''>'' \<notin> set u" "u \<noteq> []"
proof -
  obtain a b where ab: "u = a @ b" "b \<in> lang (Seq (one (\<lambda>c. c = CHR ''@'')) (Seq (many1 (\<lambda>c. word_char c \<or> c = CHR ''-''))
      (Seq (one (\<lambda>c. c = CHR ''.'')) (many1 (\<lambda>c. word_char c \<or> any_of ''.-'' c)))))"
    using assms unfolding email_re_def lang.simps(4) [of "many1 _"] by blast
  then obtain b' where "b = CHR ''@'' # b'"
    unfolding lang.simps(4) [of "one _"] lang_one by auto
  with ab show at: "CHR ''@'' \<in> set u" by simp
  then show "u \<noteq> []" by auto
  show "CHR ''<'' \<notin> set u \<and> CHR ''>'' \<notin> set u"
    using lang_accepts [OF assms, of "CHR ''<''"] lang_accepts [OF assms, of "CHR ''>''"]
    by (auto simp: email_re_def word_char_def any_of_def)
qed

lemma email_text_free: "CHR ''@'' \<notin> set s \<Longrightarrow> \<not> contains_lang (lang email_re) s"
  using email_words(1) by (auto simp: contains_lang_def)

lemma mask_email_free: "\<not> contains_lang (lang email_re) (re_sub email_re ''<email>'' s)"
proof -
  have "''<email>'' = bracketed ''email''" by (simp add: bracketed_def)
  then show ?thesis
    using re_sub_contains(2) [of "lang email_re" "''email''" email_re s] email_words email_no_boundary
      email_text_free [of "''email''"] by auto
qed

lemma mask_phone_keeps: "\<not> contains_lang (lang email_re) s \<Longrightarrow> \<not> contains_lang (lang email_re) (re_sub phone_re ''<phone>'' s)"
proof -
  have "''<phone>'' = bracketed ''phone''" by (simp add: bracketed_def)
  then show "\<not> contains_lang (lang email_re) s \<Longrightarrow> ?thesis"
    using re_sub_contains(1) [of "lang email_re" "''phone''" phone_re s] email_words
      email_text_free [of "''phone''"] by auto
qed

section \<open>Properties\<close>

definition demo_intake_env :: intake_env where
  "demo_intake_env =
     \<lparr>ie_config = \<lparr>ic_addon_choices = [], ic_relay_authors = None, ic_shadow_mode = JBool False,
        ic_allowed_channels = [''*''], ic_sensitive_patterns = [], ic_org = ''org'', ic_repo = ''repo''\<rparr>,
      ie_now = 7, ie_seen_now = (3, 3), ie_iso = (\<lambda>_. ''now''),
      ie_slack = (\<lambda>_. Inr \<lparr>pm_channel = ''C1'', pm_message_id = ''9.0''\<rparr>),
      ie_github = (\<lambda>_. Inr \<lparr>oi_number = 9, oi_url = ''url''\<rparr>),
      ie_loads = (\<lambda>s. if s = ''{}'' then Some (JObj []) else Some (JObj [(''channel'', JStr ''C1''), (''thread_ts'', JStr ''1.0'')])),
      ie_dumps = (\<lambda>_. ''{}''), ie_modal_template = JObj [], ie_relay_template = []\<rparr>"

definition demo_click :: "string \<Rightarrow> json" where
  "demo_click user =
     JObj [(''actions'', JList [JObj [(''action_id'', JStr ''intake_confirm''), (''value'', JStr ''meta'')]]),
           (''user'', JObj [(''id'', JStr user)])]"

definition demo_comment :: json where
  "demo_comment =
     JObj [(''delivery_id'', JStr ''d1''),
           (''issue'', JObj [(''number'', JNum 5), (''labels'', JList [JObj [(''name'', JStr intake_label)]])]),
           (''comment'', JObj [(''id'', JNum 77), (''body'', JStr ''hello''),
              (''user'', JObj [(''login'', JStr ''spec-generator-bot[bot]'')])]),
           (''repository'', JObj [(''full_name'', JStr ''org/repo'')])]"

definition demo_intake_world :: "sqlite_store intake_world" where
  "demo_intake_world = \<lparr>iw_store = sql_link (demo_link ''1.0'' 5) sql_init, iw_slack = [], iw_github = []\<rparr>"

lemmas demo_intake_defs = demo_intake_env_def demo_intake_world_def demo_link_def sql_op_defs sql_init_def
  insert_or_replace_def thread_of_def issue_of_def

lemma demo_wf: "sql_wf (iw_store demo_intake_world)"
  by (simp add: demo_intake_defs sql_wf_def)

lemma demo_fresh: "fresh_answers (sql_ops ttl) demo_intake_env demo_intake_world"
  by (simp add: fresh_answers_def demo_intake_defs row_simps repo_full_name_def)

definition clicker_of :: "json \<Rightarrow> py_exn + string" where
  "clicker_of payload = res_bind (get_obj payload ''user'') (\<lambda>u. get_str u ''id'' [])"

definition confirms :: "'st store_ops \<Rightarrow> intake_env \<Rightarrow> json \<Rightarrow> 'st intake_world \<Rightarrow> 'st intake_world \<Rightarrow> bool" where
  "confirms S e payload w w' \<longleftrightarrow>
     (\<exists>k l. get_link_by_thread S (iw_store w) k = Some l \<and> clicker_of payload = Inr (reporter_slack_id l) \<and>
        iw_github w' = iw_github w @ [Comment (github_issue_number l) ''/confirm''] \<and>
        iw_store w' = (case ie_github e (Comment (github_issue_number l) ''/confirm'') of
            Inl _ \<Rightarrow> iw_store w | Inr _ \<Rightarrow> mark_intent_confirmed S k (ie_now e) (iw_store w)))"

lemma confirm_intent_effect:
  assumes "confirm_intent S e l payload ch ts clicker w = (x, w')"
  shows "iw_github w' = iw_github w @ [Comment (github_issue_number l) ''/confirm'']"
    "iw_store w' = (case ie_github e (Comment (github_issue_number l) ''/confirm'') of
       Inl _ \<Rightarrow> iw_store w | Inr _ \<Rightarrow> mark_intent_confirmed S (ch, ts) (ie_now e) (iw_store w))"
  using assms
  by (auto simp: confirm_intent_def github_def store_upd_def slack_def split: sum.splits if_splits)

lemma on_block_action_valid:
  "valid (\<lambda>v. v = w) (\<lambda>w w'. iw_github w' = iw_github w \<and> iw_store w' = iw_store w \<or> confirms S e payload w w')
     (on_block_action S e payload)"
proof -
  let ?R = "\<lambda>w w'. iw_github w' = iw_github w \<and> iw_store w' = iw_store w \<or> confirms S e payload w w'"
  have eph: "valid (\<lambda>v. v = w) ?R (act_seq (slack e (PostEphemeral c u t)) (act_return x))"
    for w c u t and x :: "json option"
    by (rule validI) (cases "ie_slack e (PostEphemeral c u t)"; simp add: slack_def)
  have conf: "valid (\<lambda>v. v = w) ?R (confirm_intent S e l payload ch ts clicker)"
    if "get_link_by_thread S (iw_store w) (ch, ts) = Some l" "clicker_of payload = Inr clicker" "clicker = reporter_slack_id l"
    for w l ch ts clicker
  proof (rule validI)
    fix v assume v: "v = w"
    from confirm_intent_effect [OF prod.collapse [symmetric]] that
    have "confirms S e payload v (snd (confirm_intent S e l payload ch ts clicker v))"
      unfolding confirms_def v by (intro exI [of _ "(ch, ts)"] exI [of _ l] conjI) simp_all
    then show "?R v (snd (confirm_intent S e l payload ch ts clicker v))" by blast
  qed
  show ?thesis
    unfolding on_block_action_def clicker_of_def [symmetric] by (intro valid_intros eph conf) (simp_all del: act_simps)
qed

text \<open>
  C10: Only the reporter confirms: a click changes the store or writes to GitHub only when the
  person who clicked is the reporter of the link of that thread, and then it writes the
  confirmation comment and, if GitHub took it, marks that thread.
\<close>

theorem confirm_needs_reporter:
  assumes "on_block_action S e payload w = (x, w')" and "iw_github w' \<noteq> iw_github w \<or> iw_store w' \<noteq> iw_store w"
  shows "confirms S e payload w w'"
  using validD [OF on_block_action_valid HOL.refl assms(1)] assms(2) by blast

theorem confirm_needs_reporter_witness:
  "confirms (sql_ops 10) demo_intake_env (demo_click ''U1'') demo_intake_world
     (snd (on_block_action (sql_ops 10) demo_intake_env (demo_click ''U1'') demo_intake_world))"
proof (rule confirm_needs_reporter [OF prod.collapse [symmetric]])
  show "iw_github (snd (on_block_action (sql_ops 10) demo_intake_env (demo_click ''U1'') demo_intake_world))
      \<noteq> iw_github demo_intake_world \<or>
    iw_store (snd (on_block_action (sql_ops 10) demo_intake_env (demo_click ''U1'') demo_intake_world))
      \<noteq> iw_store demo_intake_world"
    by (simp add: on_block_action_def demo_click_def j_or_def get_str_def get_obj_def confirm_intent_def github_def
        store_upd_def demo_intake_defs row_simps)
qed

text \<open>
  C5: Once the intent of a thread is confirmed, no run of the agent posts another reply in that
  thread, whatever commands, submissions, comments, messages and clicks arrive, and in whatever
  order; and the thread stays confirmed.
\<close>

theorem no_relay_after_confirm:
  assumes "intake_run (sql_ops ttl) E w w'" and "sql_wf (iw_store w)"
    and "get_link_by_thread (sql_ops ttl) (iw_store w) k = Some l" and "intent_confirmed_at l \<noteq> None"
  shows "replies k w' = replies k w \<and>
    (\<exists>l'. get_link_by_thread (sql_ops ttl) (iw_store w') k = Some l' \<and> intent_confirmed_at l' \<noteq> None)"
proof -
  have "sql.settled ttl k w" unfolding sql.settled_def using assms(2-4) by blast
  from sql.run_quiet [OF assms(1) this] show ?thesis by (simp add: sql.settled_def)
qed

theorem no_relay_after_confirm_witness:
  "replies (''C1'', ''1.0'') (snd (on_github_issue_comment (sql_ops 10) demo_intake_env demo_comment
      (demo_intake_world\<lparr>iw_store := sql_confirm (''C1'', ''1.0'') 2 (iw_store demo_intake_world)\<rparr>))) = []"
proof -
  let ?w = "demo_intake_world\<lparr>iw_store := sql_confirm (''C1'', ''1.0'') 2 (iw_store demo_intake_world)\<rparr>"
  have fresh: "fresh_answers (sql_ops 10) demo_intake_env ?w"
    by (simp add: fresh_answers_def demo_intake_defs row_simps repo_full_name_def)
  have "intake_run (sql_ops 10) (\<lambda>_. True) ?w (snd (on_github_issue_comment (sql_ops 10) demo_intake_env demo_comment ?w))"
    by (rule intake_run.go [OF intake_run.stop _ fresh intake_step.issue_comment [OF prod.collapse [symmetric]]]) simp
  moreover have "sql_wf (iw_store ?w)" by (simp add: demo_intake_defs sql_wf_def row_simps)
  moreover have "get_link_by_thread (sql_ops 10) (iw_store ?w) (''C1'', ''1.0'') =
      Some ((demo_link ''1.0'' 5)\<lparr>intent_confirmed_at := Some 2\<rparr>)"
    by (simp add: demo_intake_defs row_simps)
  ultimately have "replies (''C1'', ''1.0'') (snd (on_github_issue_comment (sql_ops 10) demo_intake_env demo_comment ?w)) =
      replies (''C1'', ''1.0'') ?w"
    using no_relay_after_confirm [of 10 "\<lambda>_. True" ?w _ "(''C1'', ''1.0'')"] by simp
  then show ?thesis by (simp add: replies_def demo_intake_world_def)
qed

text \<open>
  A delivery of GitHub is handled at most once within the retention time of the store: after
  the first one, and any run of the agent in between, a delivery with the same id makes no call
  on Slack or GitHub. This includes the case that the first relay raised, so a relay that fails
  is not made up for.
\<close>

theorem relay_at_most_once:
  assumes "sql_wf (iw_store w)" and "fresh_answers (sql_ops ttl) e w" and "\<not> shadow_mode e"
    and "delivery_of p = Inr d" and "d \<noteq> []" and "ie_seen_now e = (n1, n2)" and "n1 \<le> n2 + ttl"
    and "\<not> fst (seen_event (sql_ops ttl) n1 n2 (''gh:'' @ d) (iw_store w))"
    and "on_github_issue_comment (sql_ops ttl) e p w = (x, w1)"
    and "intake_run (sql_ops ttl) (\<lambda>e. fst (ie_seen_now e) \<le> n2 + ttl) w1 w2"
    and "delivery_of p' = Inr d" and "fst (ie_seen_now e') \<le> n2 + ttl"
    and "on_github_issue_comment (sql_ops ttl) e' p' w2 = (x', w3)"
  shows "iw_slack w3 = iw_slack w2 \<and> iw_github w3 = iw_github w2"
proof -
  have "sql.stamped (''gh:'' @ d) n2 w1"
    using sql.first_delivery [OF assms(1-5)] assms(6-9) by simp
  from sql.run_recorded [OF assms(10) _ this] have "sql.stamped (''gh:'' @ d) n2 w2" by simp
  from sql.later_delivery [OF this assms(12,11,5)] assms(13) show ?thesis by simp
qed

theorem relay_at_most_once_witness:
  "iw_slack (snd (on_github_issue_comment (sql_ops 10) demo_intake_env demo_comment
       (snd (on_github_issue_comment (sql_ops 10) demo_intake_env demo_comment demo_intake_world)))) =
   iw_slack (snd (on_github_issue_comment (sql_ops 10) demo_intake_env demo_comment demo_intake_world))"
proof -
  have d: "delivery_of demo_comment = Inr ''d1''" by (simp add: delivery_of_def demo_comment_def)
  have n: "ie_seen_now demo_intake_env = (3, 3)" "\<not> shadow_mode demo_intake_env"
    by (simp_all add: demo_intake_env_def shadow_mode_def)
  have new: "\<not> fst (seen_event (sql_ops 10) 3 3 (''gh:'' @ ''d1'') (iw_store demo_intake_world))"
    by (simp add: demo_intake_defs sql_seen_def row_simps)
  show ?thesis
    using relay_at_most_once [OF demo_wf demo_fresh n(2) d _ n(1) _ new prod.collapse [symmetric] intake_run.stop d _ prod.collapse [symmetric]]
      n(1) by simp
qed

text \<open>
  Masking leaves no e-mail address: the text that is relayed in either direction never
  contains a match of the e-mail pattern.
\<close>

theorem masked_text_has_no_email: "\<not> re_search email_re (mask_pii text)"
  by (simp add: re_search_lang email_no_boundary mask_pii_def mask_phone_keeps mask_email_free)

end
