(* ===== verification/WebhookBus.thy ===== *)
theory WebhookBus
  imports SlackIntake Signing
begin

text \<open>
  The way a request takes to the handlers: the two event buses (agents/agents/adapters/
  events_slack_webhook.py and events_github_webhook.py), which check the signature, read the
  body and publish an event, and the HTTP service of agents/agents/services/slack_intake_http.py.

  Headers are a map from lower-case names. \<open>hmac\<close>, the decoders of UTF-8, JSON and of url-encoded
  forms are arguments (\<open>wire\<close>); a body is a list of bytes. Times are microseconds. An exception
  that leaves \<open>dispatch\<close> is answered with status 500 by the framework. Log lines are left out.
\<close>

section \<open>Requests and responses\<close>

record dispatch_result =
  dr_status :: int
  dr_body :: string
  dr_content_type :: string

abbreviation respond :: "int \<Rightarrow> string \<Rightarrow> ('s, py_exn, dispatch_result) act" where
  "respond st b \<equiv> act_return \<lparr>dr_status = st, dr_body = b, dr_content_type = ''text/plain''\<rparr>"

record wire =
  wr_hmac_hex :: "string \<Rightarrow> string \<Rightarrow> string"
  wr_utf8 :: "string \<Rightarrow> string option"
  wr_loads :: "string \<Rightarrow> json option"
  wr_form :: "string \<Rightarrow> (string \<times> string) list"

type_synonym headers = "string \<rightharpoonup> string"

section \<open>Signatures\<close>

definition max_age_seconds :: int where "max_age_seconds = 300"

definition slack_verify_signature ::
  "wire \<Rightarrow> string \<Rightarrow> int \<Rightarrow> headers \<Rightarrow> string \<Rightarrow> py_exn + bool" where
  "slack_verify_signature wr secret now h body =
     (let sig = py_or_opt (h ''x-slack-signature'') (h ''X-Slack-Signature'');
          ts = py_or_opt (h ''x-slack-request-timestamp'') (h ''X-Slack-Request-Timestamp'')
      in if \<not> truthy sig \<or> \<not> truthy ts then Inr False
         else case py_int (the ts) of
           None \<Rightarrow> Inr False
         | Some ts_int \<Rightarrow>
             if \<bar>now - ts_int * 1000000\<bar> > max_age_seconds * 1000000 then Inr False
             else if \<not> ascii (the ts) then Inl UnicodeEncodeError
             else
               let expected = ''v0='' @ wr_hmac_hex wr secret (''v0:'' @ the ts @ '':'' @ body)
               in compare_digest expected (the sig))"

definition github_verify_signature :: "wire \<Rightarrow> string \<Rightarrow> headers \<Rightarrow> string \<Rightarrow> py_exn + bool" where
  "github_verify_signature wr secret h body =
     (let sig = py_or (py_or_opt (h ''x-hub-signature-256'') (h ''X-Hub-Signature-256'')) []
      in if \<not> prefix ''sha256='' sig then Inr False
         else compare_digest (''sha256='' @ wr_hmac_hex wr secret body) sig)"

section \<open>Publishing\<close>

type_synonym 'st handler = "json \<Rightarrow> ('st, json option) intake"

text \<open>Every handler runs, what it returns is dropped and what it raises is logged.\<close>

fun publish :: "'st handler list \<Rightarrow> json \<Rightarrow> ('st, unit) intake" where
  "publish [] payload w = (Inr (), w)"
| "publish (h # hs) payload w = publish hs payload (snd (h payload w))"

text \<open>\<open>_register_handlers\<close>.\<close>

definition slack_handlers :: "'st store_ops \<Rightarrow> intake_env \<Rightarrow> string \<Rightarrow> 'st handler list" where
  "slack_handlers S e event_type =
     (if event_type = ''slack.slash_command'' then [on_slash_command e]
      else if event_type = ''slack.modal_submitted'' then [on_modal_submitted S e]
      else if event_type = ''slack.block_action'' then [on_block_action S e]
      else if event_type = ''slack.message'' then [on_slack_message S e]
      else [])"

definition github_handlers :: "'st store_ops \<Rightarrow> intake_env \<Rightarrow> string \<Rightarrow> 'st handler list" where
  "github_handlers S e event_type =
     (if event_type = ''github.issue_comment.created'' then [on_github_issue_comment S e] else [])"

text \<open>\<open>{key: v, **d}\<close>.\<close>

fun j_merge :: "string \<Rightarrow> json \<Rightarrow> json \<Rightarrow> py_exn + json" where
  "j_merge k v (JObj kvs) = Inr (JObj (if map_of kvs k = None then (k, v) # kvs else kvs))"
| "j_merge k v _ = Inl ShapeError"

section \<open>The Slack bus\<close>

definition dispatch_json :: "'st store_ops \<Rightarrow> intake_env \<Rightarrow> json \<Rightarrow> ('st, dispatch_result) intake" where
  "dispatch_json S e payload =
     act_bind (act_lift (j_get payload ''type'' JNull)) (\<lambda>kind.
       if kind = JStr ''url_verification''
       then act_bind (act_lift (get_str payload ''challenge'' [])) (respond 200)
       else if kind = JStr ''event_callback''
       then
         act_bind (act_lift (get_obj payload ''event'')) (\<lambda>inner.
         act_bind (act_lift (get_str inner ''type'' ''unknown'')) (\<lambda>inner_type.
         act_bind (act_lift (j_get payload ''event_id'' (JStr []))) (\<lambda>event_id.
         act_bind (act_lift (j_merge ''event_id'' event_id inner)) (\<lambda>merged.
           act_seq (publish (slack_handlers S e (''slack.'' @ inner_type)) merged) (respond 200 ''ok'')))))
       else respond 200 ''ok'')"

definition empty_json_response :: dispatch_result where
  "empty_json_response = \<lparr>dr_status = 200, dr_body = [], dr_content_type = ''application/json''\<rparr>"

definition dispatch_interactivity :: "'st store_ops \<Rightarrow> intake_env \<Rightarrow> json \<Rightarrow> ('st, dispatch_result) intake" where
  "dispatch_interactivity S e payload =
     act_bind (act_lift (j_get payload ''type'' (JStr []))) (\<lambda>kind.
       if kind = JStr ''view_submission''
       then act_seq (publish (slack_handlers S e ''slack.modal_submitted'') payload) (act_return empty_json_response)
       else if kind = JStr ''block_actions''
       then act_seq (publish (slack_handlers S e ''slack.block_action'') payload) (respond 200 ''ok'')
       else if kind = JStr ''view_closed''
       then act_seq (publish (slack_handlers S e ''slack.modal_closed'') payload) (respond 200 ''ok'')
       else respond 200 ''ok'')"

definition dispatch_slash_command ::
  "'st store_ops \<Rightarrow> intake_env \<Rightarrow> (string \<times> string) list \<Rightarrow> ('st, dispatch_result) intake" where
  "dispatch_slash_command S e form =
     act_seq (publish (slack_handlers S e ''slack.slash_command'') (JObj (map (\<lambda>(k, v). (k, JStr v)) form)))
       (act_return empty_json_response)"

text \<open>\<open>dict(pairs)\<close>: the last value of a key counts.\<close>

definition form_dict :: "(string \<times> string) list \<Rightarrow> (string \<times> string) list" where
  "form_dict ps = map (\<lambda>k. (k, the (map_of (rev ps) k))) (remdups (map fst ps))"

definition slack_dispatch ::
  "'st store_ops \<Rightarrow> intake_env \<Rightarrow> wire \<Rightarrow> string \<Rightarrow> int \<Rightarrow> headers \<Rightarrow> string \<Rightarrow> ('st, dispatch_result) intake" where
  "slack_dispatch S e wr secret now h body =
     act_bind (act_lift (slack_verify_signature wr secret now h body)) (\<lambda>ok.
       if \<not> ok then respond 401 ''invalid signature''
       else case wr_utf8 wr body of
         None \<Rightarrow> respond 400 ''invalid utf-8''
       | Some decoded_text \<Rightarrow>
           if py_in ''application/json'' (py_lower (env_get h ''content-type'' []))
           then (case wr_loads wr decoded_text of
                   None \<Rightarrow> respond 400 ''invalid json''
                 | Some payload \<Rightarrow> dispatch_json S e payload)
           else
             let form = form_dict (wr_form wr decoded_text)
             in case map_of form ''payload'' of
                  Some text \<Rightarrow>
                    (case wr_loads wr text of
                       None \<Rightarrow> respond 400 ''invalid interactivity payload''
                     | Some payload \<Rightarrow> dispatch_interactivity S e payload)
                | None \<Rightarrow>
                    if map_of form ''command'' \<noteq> None then dispatch_slash_command S e form
                    else respond 400 ''unrecognised slack request shape'')"

section \<open>The GitHub bus\<close>

definition github_dispatch ::
  "'st store_ops \<Rightarrow> intake_env \<Rightarrow> wire \<Rightarrow> string \<Rightarrow> headers \<Rightarrow> string \<Rightarrow> ('st, dispatch_result) intake" where
  "github_dispatch S e wr secret h body =
     act_bind (act_lift (github_verify_signature wr secret h body)) (\<lambda>ok.
       if \<not> ok then respond 401 ''invalid signature''
       else case Option.bind (wr_utf8 wr body) (wr_loads wr) of
         None \<Rightarrow> respond 400 ''invalid json''
       | Some payload \<Rightarrow>
           let event_name = py_or (py_or_opt (h ''x-github-event'') (h ''X-GitHub-Event'')) ''unknown'';
               delivery_id = py_or (py_or_opt (h ''x-github-delivery'') (h ''X-GitHub-Delivery'')) []
           in act_bind (act_lift (j_get payload ''action'' JNull)) (\<lambda>action.
              act_bind (act_lift (if j_true action
                  then res_bind (j_str action) (\<lambda>a. Inr (''github.'' @ event_name @ ''.'' @ a))
                  else Inr (''github.'' @ event_name))) (\<lambda>full_type.
              act_bind (act_lift (j_merge ''delivery_id'' (JStr delivery_id) payload)) (\<lambda>merged.
                act_seq (publish (github_handlers S e full_type) merged) (respond 200 ''ok'')))))"

section \<open>The service\<close>

datatype endpoint = SlackEvents | SlackCommands | SlackInteractivity | GithubWebhook

record service =
  sv_enabled :: bool
  sv_slack_secret :: string
  sv_github_secret :: string

definition serve ::
  "'st store_ops \<Rightarrow> service \<Rightarrow> endpoint \<Rightarrow> intake_env \<Rightarrow> wire \<Rightarrow> int \<Rightarrow> headers \<Rightarrow> string \<Rightarrow> ('st, dispatch_result) intake" where
  "serve S sv ep e wr now h body =
     (if \<not> sv_enabled sv then respond 503 ''agents disabled''
      else case ep of
        GithubWebhook \<Rightarrow> github_dispatch S e wr (sv_github_secret sv) h body
      | _ \<Rightarrow> slack_dispatch S e wr (sv_slack_secret sv) now h body)"

section \<open>The contract of a signed entry point\<close>

text \<open>A request that the verifier does not accept is answered without touching the world.\<close>

locale signed_entry =
  fixes verify :: "headers \<Rightarrow> string \<Rightarrow> py_exn + bool"
    and dispatch :: "headers \<Rightarrow> string \<Rightarrow> ('st, dispatch_result) intake"
  assumes refused: "verify h body = Inr False \<Longrightarrow>
      dispatch h body w = (Inr \<lparr>dr_status = 401, dr_body = ''invalid signature'', dr_content_type = ''text/plain''\<rparr>, w)"
    and raised: "verify h body = Inl x \<Longrightarrow> dispatch h body w = (Inl x, w)"
begin

lemma changed_verified: "dispatch h body w = (r, w') \<Longrightarrow> w' \<noteq> w \<Longrightarrow> verify h body = Inr True"
  using refused [of h body w] raised [of h body _ w] by (cases "verify h body") auto

lemma ok_verified: "dispatch h body w = (Inr d, w') \<Longrightarrow> dr_status d \<noteq> 401 \<Longrightarrow> verify h body = Inr True"
  using refused [of h body w] raised [of h body _ w] by (cases "verify h body"; cases "verify h body = Inr True") auto

end

interpretation slack_entry: signed_entry "slack_verify_signature wr secret now" "slack_dispatch S e wr secret now"
  for wr secret now S e
  by unfold_locales (simp_all add: slack_dispatch_def)

interpretation github_entry: signed_entry "github_verify_signature wr secret" "github_dispatch S e wr secret"
  for wr secret S e
  by unfold_locales (simp_all add: github_dispatch_def)

section \<open>Properties\<close>

definition authentic :: "service \<Rightarrow> endpoint \<Rightarrow> wire \<Rightarrow> int \<Rightarrow> headers \<Rightarrow> string \<Rightarrow> bool" where
  "authentic sv ep wr now h body \<longleftrightarrow>
     (case ep of
        GithubWebhook \<Rightarrow>
          h ''x-hub-signature-256'' = Some (''sha256='' @ wr_hmac_hex wr (sv_github_secret sv) body)
      | _ \<Rightarrow>
          \<exists>ts t. h ''x-slack-request-timestamp'' = Some ts \<and> py_int ts = Some t \<and>
            \<bar>now - t * 1000000\<bar> \<le> 300 * 1000000 \<and>
            h ''x-slack-signature'' = Some (''v0='' @ wr_hmac_hex wr (sv_slack_secret sv) (''v0:'' @ ts @ '':'' @ body)))"

text \<open>The service lowers the names of the headers, so the capitalised spellings are never there.\<close>

definition lowered :: "headers \<Rightarrow> bool" where
  "lowered h \<longleftrightarrow> (\<forall>k. h k \<noteq> None \<longrightarrow> py_lower k = k)"

lemma lowered_None: "lowered h \<Longrightarrow> py_lower k \<noteq> k \<Longrightarrow> h k = None"
  by (auto simp: lowered_def)

lemma slack_verified:
  assumes "slack_verify_signature wr secret now h body = Inr True" "lowered h"
  shows "\<exists>ts t. h ''x-slack-request-timestamp'' = Some ts \<and> py_int ts = Some t \<and> \<bar>now - t * 1000000\<bar> \<le> 300 * 1000000 \<and>
    h ''x-slack-signature'' = Some (''v0='' @ wr_hmac_hex wr secret (''v0:'' @ ts @ '':'' @ body))"
proof -
  have "h ''X-Slack-Signature'' = None" "h ''X-Slack-Request-Timestamp'' = None"
    by (rule lowered_None [OF assms(2)], code_simp)+
  then show ?thesis
    using assms(1)
    by (auto simp: slack_verify_signature_def Let_def compare_digest_def max_age_seconds_def py_or_opt_def truthy_def
        split: if_splits option.splits)
qed

lemma github_verified:
  assumes "github_verify_signature wr secret h body = Inr True" "lowered h"
  shows "h ''x-hub-signature-256'' = Some (''sha256='' @ wr_hmac_hex wr secret body)"
proof -
  have "h ''X-Hub-Signature-256'' = None"
    by (rule lowered_None [OF assms(2)], code_simp)
  then show ?thesis
    using assms(1)
    by (auto simp: github_verify_signature_def Let_def compare_digest_def py_or_def py_or_opt_def
        split: if_splits option.splits)
qed

text \<open>
  C7: No request changes anything unless the agents are enabled and it carries the signature of
  the shared secret over its body; a request from Slack also has to be at most five minutes old
  or ahead. In every other case the store and the calls made are as before.
\<close>

theorem only_signed_requests_act:
  assumes "serve S sv ep e wr now h body w = (r, w')" and "w' \<noteq> w" and "lowered h"
  shows "sv_enabled sv \<and> authentic sv ep wr now h body"
proof -
  have en: "sv_enabled sv" using assms(1,2) by (auto simp: serve_def split: if_splits)
  show ?thesis
  proof (cases "ep = GithubWebhook")
    case True
    then have "github_verify_signature wr (sv_github_secret sv) h body = Inr True"
      using assms(1,2) en github_entry.changed_verified by (fastforce simp: serve_def)
    with github_verified assms(3) True en show ?thesis by (simp add: authentic_def)
  next
    case False
    then have "slack_dispatch S e wr (sv_slack_secret sv) now h body w = (r, w')"
      using assms(1) en by (cases ep) (simp_all add: serve_def)
    then have "slack_verify_signature wr (sv_slack_secret sv) now h body = Inr True"
      using assms(2) by (rule slack_entry.changed_verified)
    from slack_verified [OF this assms(3)] False en show ?thesis by (cases ep) (simp_all add: authentic_def)
  qed
qed

definition demo_wire :: wire where
  "demo_wire =
     \<lparr>wr_hmac_hex = (\<lambda>_ _. ''ab''), wr_utf8 = (\<lambda>b. Some b),
      wr_loads = (\<lambda>_. Some (case demo_comment of JObj kvs \<Rightarrow> JObj ((''action'', JStr ''created'') # kvs) | j \<Rightarrow> j)),
      wr_form = (\<lambda>_. [])\<rparr>"

definition demo_headers :: headers where
  "demo_headers = [''x-hub-signature-256'' \<mapsto> ''sha256=ab'', ''x-github-event'' \<mapsto> ''issue_comment'']"

definition demo_service :: service where
  "demo_service = \<lparr>sv_enabled = True, sv_slack_secret = ''s'', sv_github_secret = ''g''\<rparr>"

theorem only_signed_requests_act_witness:
  "authentic demo_service GithubWebhook demo_wire 0 demo_headers ''{}''"
proof -
  let ?r = "serve (sql_ops 10) demo_service GithubWebhook demo_intake_env demo_wire 0 demo_headers ''{}'' demo_intake_world"
  have relay: "iw_slack (snd (on_github_issue_comment (sql_ops 10) demo_intake_env
      (JObj [(''action'', JStr ''created''), (''delivery_id'', JStr ''d1''),
           (''issue'', JObj [(''number'', JNum 5), (''labels'', JList [JObj [(''name'', JStr intake_label)]])]),
           (''comment'', JObj [(''id'', JNum 77), (''body'', JStr ''hello''),
              (''user'', JObj [(''login'', JStr ''spec-generator-bot[bot]'')])]),
           (''repository'', JObj [(''full_name'', JStr ''org/repo'')])]) demo_intake_world)) \<noteq> []"
    by (simp add: on_github_issue_comment_def shadow_mode_def delivery_of_def store_seen_def sql_seen_def
        route_comment_def get_obj_def get_str_def j_or_def label_names_def on_linked_comment_def
        remove_bot_suffix_def suffix_def default_relay_authors_def relay_comment_def render_relay_card_def
        slack_def store_upd_def demo_intake_defs row_simps Let_def)
  have "snd ?r \<noteq> demo_intake_world"
    using relay
    by (auto simp: serve_def demo_service_def github_dispatch_def github_verify_signature_def demo_wire_def demo_headers_def
        compare_digest_def ascii_def py_or_def py_or_opt_def github_handlers_def demo_comment_def demo_intake_world_def)
  moreover have "lowered demo_headers"
    by (auto simp: lowered_def demo_headers_def py_lower_def py_lower_char_def split: if_splits)
  ultimately show ?thesis
    using only_signed_requests_act [OF prod.collapse [symmetric], of "sql_ops 10" demo_service GithubWebhook demo_intake_env
        demo_wire 0 demo_headers "''{}''" demo_intake_world] by simp
qed

lemma on_modal_submitted_Some:
  assumes "on_modal_submitted S e payload w = (Inr (Some r), w')"
  shows "r = sensitive_response \<and> iw_github w' = iw_github w \<and> iw_store w' = iw_store w"
  using assms
  by (auto simp: on_modal_submitted_def file_issue_def Let_def slack_def github_def store_upd_def
      split: sum.splits if_splits)

text \<open>
  A submission that the handler refuses as sensitive files no issue and links no thread. But
  the refusal it returns for Slack to show in the form is dropped by the bus: the answer to Slack
  is the empty one that closes the form.
\<close>

theorem refusal_not_shown:
  assumes "j_get payload ''type'' (JStr []) = Inr (JStr ''view_submission'')"
    and "on_modal_submitted S e payload w = (Inr (Some r), w')"
  shows "dispatch_interactivity S e payload w = (Inr empty_json_response, w') \<and>
    r = sensitive_response \<and> iw_github w' = iw_github w \<and> iw_store w' = iw_store w"
  using on_modal_submitted_Some [OF assms(2)] assms
  by (simp add: dispatch_interactivity_def slack_handlers_def)

definition demo_submission :: json where
  "demo_submission =
     JObj [(''type'', JStr ''view_submission''),
           (''view'', JObj [(''callback_id'', JStr ''intake_submit''),
              (''state'', JObj [(''values'', JObj [(''description'', JObj [(''description_input'',
                 JObj [(''value'', JStr ''my password leaked'')])])])])]),
           (''user'', JObj [(''id'', JStr ''U1''), (''name'', JStr ''ann'')])]"

lemma demo_sensitive: "is_sensitive demo_intake_env ''my password leaked''"
proof -
  have "re_search (hd default_sensitive_patterns) ''my password leaked''" by code_simp
  then show ?thesis by (simp add: is_sensitive_def demo_intake_env_def default_sensitive_patterns_def)
qed

lemma demo_answers:
  "ie_slack demo_intake_env c = Inr \<lparr>pm_channel = ''C1'', pm_message_id = ''9.0''\<rparr>"
  "ie_loads demo_intake_env ''{}'' = Some (JObj [])"
  by (simp_all add: demo_intake_env_def)

theorem refusal_not_shown_witness:
  "fst (dispatch_interactivity (sql_ops 10) demo_intake_env demo_submission demo_intake_world) = Inr empty_json_response"
proof -
  let ?w = "snd (on_modal_submitted (sql_ops 10) demo_intake_env demo_submission demo_intake_world)"
  have "fst (on_modal_submitted (sql_ops 10) demo_intake_env demo_submission demo_intake_world) = Inr (Some sensitive_response)"
    using demo_sensitive demo_answers
    by (simp add: on_modal_submitted_def demo_submission_def extract_modal_values_def pick_def j_or_def get_str_def
        loads_def slack_def)
  then have "on_modal_submitted (sql_ops 10) demo_intake_env demo_submission demo_intake_world = (Inr (Some sensitive_response), ?w)"
    by (metis prod.collapse)
  from refusal_not_shown [OF _ this] show ?thesis by (simp add: demo_submission_def)
qed

text \<open>A signature header beyond ASCII is not refused: the comparison raises.\<close>

lemma non_ascii_signature_raises:
  assumes "h ''x-hub-signature-256'' = Some (''sha256='' @ s)" "\<not> ascii s"
  shows "github_dispatch S e wr secret h body w = (Inl CompareTypeError, w)"
  using assms
  by (simp add: github_dispatch_def github_verify_signature_def py_or_def py_or_opt_def compare_digest_def ascii_def)

end
