(* ===== verification/ClubData.thy ===== *)
theory ClubData
  imports ActionRules Signing
begin

text \<open>
  The records of the club addons that the access control reads (custom-addons/club_core,
  club_affiliate_employees, club_guests, club_access_control), the tables they stand in, and the
  context of a call: the clock, the date of the user, the comparison \<open>=ilike\<close> of the database, the
  JSON decoder and the entry sequence.

  A table holds the rows that a search of the calling user sees, in the order of the model.
  \<open>search(domain, limit=1)\<close> is \<open>find\<close> with the domain. Times are seconds since an epoch that is a
  midnight of UTC; dates are day numbers.
\<close>

section \<open>Records\<close>

datatype membership_status = MsNone | MsActive | MsSuspended | MsExpired

datatype membership_type = Individual | FamilyPrimary | FamilyDependent | CorporateAdmin | CorporateEmployee

datatype work_status = WsActive | WsSuspended | WsInactive

datatype visit_status = Registered | CheckedIn | CheckedOut | Cancelled | NoShow

record affiliate =
  af_id :: nat
  af_name :: string
  af_type :: membership_type
  af_number :: "string option"
  af_vat :: "string option"
  af_status :: "membership_status option"

record employee =
  em_id :: nat
  em_name :: string
  em_affiliate :: nat
  em_ident :: string
  em_card :: "string option"
  em_status :: work_status

record vehicle =
  ve_id :: nat
  ve_affiliate :: nat
  ve_plate :: string
  ve_active :: bool

record guest =
  gu_id :: nat
  gu_name :: string
  gu_ident :: "string option"

record visit =
  vi_id :: nat
  vi_affiliate :: nat
  vi_guest :: nat
  vi_date :: int
  vi_status :: visit_status
  vi_independent :: bool
  vi_plate :: "string option"
  vi_token :: "string option"

record party_member =
  pm_visit :: nat
  pm_ident :: "string option"

record staff_member =
  sf_id :: nat
  sf_name :: string
  sf_supplier_name :: string
  sf_ident :: string
  sf_status :: work_status

record registration =
  rg_id :: nat
  rg_name :: string
  rg_partner_name :: "string option"
  rg_partner_vat :: "string option"
  rg_begin :: int
  rg_end :: int
  rg_cancelled :: bool

record participant =
  tp_id :: nat
  tp_affiliate :: nat

section \<open>Access entries\<close>

datatype person_type =
  Affiliate | FamilyMember | AffiliateEmployee | Guest | EventAttendee | TournamentParticipant | SupplierStaff

datatype id_method = MembershipCard | AccessCard | GovId | VehiclePlate | QrCode | ManualLookup

datatype access_status = Pending | Granted | Denied | Exited

text \<open>The texts of the denials, without their translation.\<close>

datatype reason =
    NoMatch string
  | MembershipNotActive "membership_status option"
  | AffiliateNotActive string "membership_status option"
  | EmployeeNotActive work_status
  | EmployerNotActive string
  | NoVisitToday string
  | WrongDay int int visit_status
  | HostAbsent string string
  | StaffNotActive work_status
  | ManuallyDenied
  | GivenReason string

record entry =
  en_id :: nat
  en_name :: string
  en_entry :: int
  en_exit :: "int option"
  en_person_type :: "person_type option"
  en_affiliate :: "nat option"
  en_employee :: "nat option"
  en_guest :: "nat option"
  en_visit :: "nat option"
  en_registration :: "nat option"
  en_participant :: "nat option"
  en_staff :: "nat option"
  en_method :: "id_method option"
  en_value :: "string option"
  en_vehicle :: "nat option"
  en_status :: access_status
  en_reason :: "reason option"

record club =
  cl_affiliates :: "affiliate list"
  cl_employees :: "employee list"
  cl_vehicles :: "vehicle list"
  cl_guests :: "guest list"
  cl_visits :: "visit list"
  cl_party :: "party_member list"
  cl_staff :: "staff_member list"
  cl_registrations :: "registration list"
  cl_participants :: "participant list"
  cl_entries :: "entry list"
  cl_sequence :: nat

record call_context =
  cx_now :: int
  cx_today :: int
  cx_ilike :: "string \<Rightarrow> string \<Rightarrow> bool"
  cx_loads :: "string \<Rightarrow> json option"
  cx_render :: "json \<Rightarrow> string"
  cx_sequence :: "nat \<Rightarrow> string option"

text \<open>A field of a many-to-one record; an absent record has \<open>False\<close> in every field.\<close>

definition affiliate_status :: "club \<Rightarrow> nat \<Rightarrow> membership_status option" where
  "affiliate_status c i = (case row_get af_id i (cl_affiliates c) of None \<Rightarrow> None | Some a \<Rightarrow> af_status a)"

definition affiliate_name :: "club \<Rightarrow> nat \<Rightarrow> string" where
  "affiliate_name c i = (case row_get af_id i (cl_affiliates c) of None \<Rightarrow> [] | Some a \<Rightarrow> af_name a)"

definition guest_name :: "club \<Rightarrow> nat \<Rightarrow> string" where
  "guest_name c i = (case row_get gu_id i (cl_guests c) of None \<Rightarrow> [] | Some g \<Rightarrow> gu_name g)"

text \<open>The status of an affiliate from those of its memberships.\<close>

datatype plan_status = MpDraft | MpActive | MpSuspended | MpExpired | MpCancelled

definition compute_membership_status :: "plan_status list \<Rightarrow> membership_status" where
  "compute_membership_status statuses =
     (if MpActive \<in> set statuses then MsActive
      else if MpSuspended \<in> set statuses then MsSuspended
      else if statuses \<noteq> [] then MsExpired
      else MsNone)"

definition open_today :: "call_context \<Rightarrow> visit \<Rightarrow> bool" where
  "open_today cx v \<longleftrightarrow> vi_date v = cx_today cx \<and> vi_status v \<in> set [Registered, CheckedIn]"

end
