(* ===== verification/ClubAccess.thy ===== *)
theory ClubAccess
  imports ClubData
begin

text \<open>
  The access entry of custom-addons/club_access_control/models/club_access_entry.py: the lookups by
  card, plate, government ID and QR code, the decision, and the actions on an entry.
\<close>

section \<open>Creation and computed fields\<close>

text \<open>\<open>create\<close>: each entry whose name is the placeholder takes the next number of the sequence.\<close>

fun number_entries :: "call_context \<Rightarrow> nat \<Rightarrow> entry list \<Rightarrow> entry list \<times> nat" where
  "number_entries cx n [] = ([], n)"
| "number_entries cx n (x # xs) =
     (if en_name x = ''New''
      then (case number_entries cx (Suc n) xs of (ys, k) \<Rightarrow> (x\<lparr>en_name := py_or (cx_sequence cx n) ''New''\<rparr> # ys, k))
      else (case number_entries cx n xs of (ys, k) \<Rightarrow> (x # ys, k)))"

definition entries_create :: "call_context \<Rightarrow> entry list \<Rightarrow> club \<Rightarrow> club" where
  "entries_create cx xs c =
     (case number_entries cx (cl_sequence c) xs of
        (ys, n) \<Rightarrow> c\<lparr>cl_entries := cl_entries c @ ys, cl_sequence := n\<rparr>)"

definition compute_person_name :: "club \<Rightarrow> entry \<Rightarrow> string" where
  "compute_person_name c x =
     (case (en_person_type x, en_affiliate x, en_employee x, en_guest x, en_registration x, en_participant x, en_staff x) of
           (Some Affiliate, Some a, _) \<Rightarrow> affiliate_name c a
         | (Some FamilyMember, Some a, _) \<Rightarrow> affiliate_name c a
         | (Some AffiliateEmployee, _, Some e, _) \<Rightarrow>
             (case row_get em_id e (cl_employees c) of None \<Rightarrow> [] | Some r \<Rightarrow> em_name r)
         | (Some Guest, _, _, Some g, _) \<Rightarrow> guest_name c g
         | (Some EventAttendee, _, _, _, Some r, _) \<Rightarrow>
             (case row_get rg_id r (cl_registrations c) of
                None \<Rightarrow> []
              | Some reg \<Rightarrow> (case rg_partner_name reg of Some n \<Rightarrow> n | None \<Rightarrow> rg_name reg))
         | (Some TournamentParticipant, _, _, _, _, Some p, _) \<Rightarrow>
             (case row_get tp_id p (cl_participants c) of None \<Rightarrow> [] | Some tp \<Rightarrow> affiliate_name c (tp_affiliate tp))
         | (Some SupplierStaff, _, _, _, _, _, Some s) \<Rightarrow>
             (case row_get sf_id s (cl_staff c) of None \<Rightarrow> [] | Some r \<Rightarrow> sf_name r)
         | _ \<Rightarrow> [])"

definition is_active_entry :: "entry \<Rightarrow> bool" where
  "is_active_entry x \<longleftrightarrow> en_status x = Granted \<and> en_exit x = None"

text \<open>The duration in seconds; the field holds it in minutes.\<close>

definition duration_seconds :: "entry \<Rightarrow> int" where
  "duration_seconds x = (case en_exit x of None \<Rightarrow> 0 | Some t \<Rightarrow> t - en_entry x)"

section \<open>What a lookup finds\<close>

datatype person_ref = AffiliateRef nat | EmployeeRef nat | GuestRef nat | StaffRef nat | RegistrationRef nat

record found =
  fo_type :: person_type
  fo_person :: person_ref
  fo_vehicle :: "nat option"
  fo_visit :: "nat option"
  fo_allowed :: bool
  fo_reason :: "reason option"

fun set_person :: "person_ref \<Rightarrow> entry \<Rightarrow> entry" where
  "set_person (AffiliateRef i) x = x\<lparr>en_affiliate := Some i\<rparr>"
| "set_person (EmployeeRef i) x = x\<lparr>en_employee := Some i\<rparr>"
| "set_person (GuestRef i) x = x\<lparr>en_guest := Some i\<rparr>"
| "set_person (StaffRef i) x = x\<lparr>en_staff := Some i\<rparr>"
| "set_person (RegistrationRef i) x = x\<lparr>en_registration := Some i\<rparr>"

definition affiliate_kind :: "membership_type \<Rightarrow> person_type" where
  "affiliate_kind t = (if t = FamilyDependent then FamilyMember else Affiliate)"

definition found_person :: "person_type \<Rightarrow> person_ref \<Rightarrow> bool \<Rightarrow> reason \<Rightarrow> found" where
  "found_person t p allowed why =
     \<lparr>fo_type = t, fo_person = p, fo_vehicle = None, fo_visit = None, fo_allowed = allowed,
      fo_reason = (if allowed then None else Some why)\<rparr>"

definition found_allowed :: "person_type \<Rightarrow> person_ref \<Rightarrow> found" where
  "found_allowed t p =
     \<lparr>fo_type = t, fo_person = p, fo_vehicle = None, fo_visit = None, fo_allowed = True, fo_reason = None\<rparr>"

definition lookup_by_membership_card :: "club \<Rightarrow> string \<Rightarrow> found option" where
  "lookup_by_membership_card c val =
     (case find (\<lambda>a. af_number a = Some val) (cl_affiliates c) of
        None \<Rightarrow> None
      | Some a \<Rightarrow> Some (found_person (affiliate_kind (af_type a)) (AffiliateRef (af_id a))
                   (af_status a = Some MsActive) (MembershipNotActive (af_status a))))"

definition lookup_by_access_card :: "club \<Rightarrow> string \<Rightarrow> found option" where
  "lookup_by_access_card c val =
     (case find (\<lambda>e. em_card e = Some val) (cl_employees c) of
        None \<Rightarrow> None
      | Some e \<Rightarrow>
          if em_status e \<noteq> WsActive
          then Some (found_person AffiliateEmployee (EmployeeRef (em_id e)) False (EmployeeNotActive (em_status e)))
          else if affiliate_status c (em_affiliate e) \<noteq> Some MsActive
          then Some (found_person AffiliateEmployee (EmployeeRef (em_id e)) False
                       (EmployerNotActive (affiliate_name c (em_affiliate e))))
          else Some (found_allowed AffiliateEmployee (EmployeeRef (em_id e))))"

text \<open>The host is looked for among the granted entries since the last midnight of UTC.\<close>

definition midnight_utc :: "int \<Rightarrow> int" where
  "midnight_utc now = now - now mod 86400"

definition host_entry :: "call_context \<Rightarrow> club \<Rightarrow> nat \<Rightarrow> entry option" where
  "host_entry cx c host =
     find (\<lambda>x. en_affiliate x = Some host \<and> en_status x = Granted \<and> midnight_utc (cx_now cx) \<le> en_entry x)
       (cl_entries c)"

definition resolve_guest_visit_access :: "call_context \<Rightarrow> club \<Rightarrow> visit \<Rightarrow> found" where
  "resolve_guest_visit_access cx c v =
     (let result = (found_allowed Guest (GuestRef (vi_guest v)))\<lparr>fo_visit := Some (vi_id v)\<rparr>
      in if \<not> vi_independent v \<and> host_entry cx c (vi_affiliate v) = None
         then result\<lparr>fo_allowed := False,
                fo_reason := Some (HostAbsent (guest_name c (vi_guest v)) (affiliate_name c (vi_affiliate v)))\<rparr>
         else result)"

definition lookup_by_vehicle_plate :: "call_context \<Rightarrow> club \<Rightarrow> string \<Rightarrow> found option" where
  "lookup_by_vehicle_plate cx c val =
     (case find (\<lambda>v. cx_ilike cx val (ve_plate v) \<and> ve_active v) (cl_vehicles c) of
        Some v \<Rightarrow>
          Some ((found_person
                   (case row_get af_id (ve_affiliate v) (cl_affiliates c) of
                      None \<Rightarrow> Affiliate | Some a \<Rightarrow> affiliate_kind (af_type a))
                   (AffiliateRef (ve_affiliate v)) (affiliate_status c (ve_affiliate v) = Some MsActive)
                   (AffiliateNotActive (affiliate_name c (ve_affiliate v)) (affiliate_status c (ve_affiliate v))))
                 \<lparr>fo_vehicle := Some (ve_id v)\<rparr>)
      | None \<Rightarrow>
          (case find (\<lambda>v. (case vi_plate v of None \<Rightarrow> False | Some p \<Rightarrow> cx_ilike cx val p) \<and> open_today cx v) (cl_visits c) of
             Some v \<Rightarrow> Some (resolve_guest_visit_access cx c v)
           | None \<Rightarrow> None))"

text \<open>The branches of the lookup by government ID, in their order.\<close>

definition gov_id_employee :: "club \<Rightarrow> employee \<Rightarrow> found" where
  "gov_id_employee c e =
     (let emp_active = (em_status e = WsActive);
          aff_active = (affiliate_status c (em_affiliate e) = Some MsActive)
      in found_person AffiliateEmployee (EmployeeRef (em_id e)) (emp_active \<and> aff_active)
           (if \<not> emp_active then EmployeeNotActive (em_status e)
            else EmployerNotActive (affiliate_name c (em_affiliate e))))"

definition gov_id_guest :: "call_context \<Rightarrow> club \<Rightarrow> guest \<Rightarrow> found" where
  "gov_id_guest cx c g =
     (case find (\<lambda>v. vi_guest v = gu_id g \<and> open_today cx v) (cl_visits c) of
        None \<Rightarrow> found_person Guest (GuestRef (gu_id g)) False (NoVisitToday (gu_name g))
      | Some v \<Rightarrow> resolve_guest_visit_access cx c v)"

definition party_visit :: "call_context \<Rightarrow> club \<Rightarrow> string \<Rightarrow> visit option" where
  "party_visit cx c val =
     (case find (\<lambda>m. pm_ident m = Some val \<and>
                  (case row_get vi_id (pm_visit m) (cl_visits c) of None \<Rightarrow> False | Some v \<Rightarrow> open_today cx v)) (cl_party c) of
        None \<Rightarrow> None
      | Some m \<Rightarrow> row_get vi_id (pm_visit m) (cl_visits c))"

definition gov_id_staff :: "staff_member \<Rightarrow> found" where
  "gov_id_staff s =
     found_person SupplierStaff (StaffRef (sf_id s)) (sf_status s = WsActive) (StaffNotActive (sf_status s))"

definition running_registration :: "call_context \<Rightarrow> registration \<Rightarrow> bool" where
  "running_registration cx r \<longleftrightarrow> rg_begin r \<le> cx_now cx \<and> cx_now cx \<le> rg_end r \<and> \<not> rg_cancelled r"

definition lookup_by_gov_id :: "call_context \<Rightarrow> club \<Rightarrow> string \<Rightarrow> found option" where
  "lookup_by_gov_id cx c val =
     (case find (\<lambda>a. af_vat a = Some val) (cl_affiliates c) of
        Some a \<Rightarrow> Some (found_person (affiliate_kind (af_type a)) (AffiliateRef (af_id a))
                    (af_status a = Some MsActive) (MembershipNotActive (af_status a)))
      | None \<Rightarrow>
     (case find (\<lambda>e. em_ident e = val) (cl_employees c) of
        Some e \<Rightarrow> Some (gov_id_employee c e)
      | None \<Rightarrow>
     (case find (\<lambda>g. gu_ident g = Some val) (cl_guests c) of
        Some g \<Rightarrow> Some (gov_id_guest cx c g)
      | None \<Rightarrow>
     (case party_visit cx c val of
        Some v \<Rightarrow> Some (resolve_guest_visit_access cx c v)
      | None \<Rightarrow>
     (case find (\<lambda>s. sf_ident s = val) (cl_staff c) of
        Some s \<Rightarrow> Some (gov_id_staff s)
      | None \<Rightarrow>
     (case find (\<lambda>r. rg_partner_vat r = Some val \<and> running_registration cx r) (cl_registrations c) of
        Some r \<Rightarrow> Some (found_allowed EventAttendee (RegistrationRef (rg_id r)))
      | None \<Rightarrow> None))))))"

definition qr_token_of :: "call_context \<Rightarrow> string \<Rightarrow> string" where
  "qr_token_of cx val =
     (let token = py_strip val
      in case cx_loads cx token of
           Some (JObj kvs) \<Rightarrow>
             (case map_of kvs ''token'' of
                Some (JStr s) \<Rightarrow> if s = [] then token else s
              | Some j \<Rightarrow> if j_true j then cx_render cx j else token
              | None \<Rightarrow> token)
         | _ \<Rightarrow> token)"

definition lookup_by_qr_code :: "call_context \<Rightarrow> club \<Rightarrow> string \<Rightarrow> found option" where
  "lookup_by_qr_code cx c val =
     (let token = qr_token_of cx val
      in case find (\<lambda>v. vi_token v = Some token \<and> open_today cx v) (cl_visits c) of
           Some v \<Rightarrow> Some (resolve_guest_visit_access cx c v)
         | None \<Rightarrow>
             (case find (\<lambda>v. vi_token v = Some token) (cl_visits c) of
                Some v \<Rightarrow> Some ((found_person Guest (GuestRef (vi_guest v)) False
                              (WrongDay (vi_date v) (cx_today cx) (vi_status v)))\<lparr>fo_visit := Some (vi_id v)\<rparr>)
              | None \<Rightarrow> None))"

section \<open>Actions\<close>

datatype club_exn = UserError string | MissingError nat

datatype answer = Finished | LookupWizard nat string | DenyWizard nat

type_synonym 'a club_act = "(club, club_exn, 'a) act"

definition write_entry :: "nat \<Rightarrow> (entry \<Rightarrow> entry) \<Rightarrow> unit club_act" where
  "write_entry i f = act_modify (\<lambda>c. c\<lparr>cl_entries := row_upd en_id i f (cl_entries c)\<rparr>)"

definition with_entry :: "nat \<Rightarrow> (entry \<Rightarrow> 'a club_act) \<Rightarrow> 'a club_act" where
  "with_entry i k = (\<lambda>c. case row_get en_id i (cl_entries c) of None \<Rightarrow> (Inl (MissingError i), c) | Some x \<Rightarrow> k x c)"

definition find_person :: "call_context \<Rightarrow> club \<Rightarrow> id_method option \<Rightarrow> string \<Rightarrow> found option" where
  "find_person cx c how val =
     (case how of
        Some MembershipCard \<Rightarrow> lookup_by_membership_card c val
      | Some AccessCard \<Rightarrow> lookup_by_access_card c val
      | Some VehiclePlate \<Rightarrow> lookup_by_vehicle_plate cx c val
      | Some GovId \<Rightarrow> lookup_by_gov_id cx c val
      | Some QrCode \<Rightarrow> lookup_by_qr_code cx c val
      | _ \<Rightarrow> None)"

text \<open>The values written for a person that was found.\<close>

definition apply_found :: "found \<Rightarrow> entry \<Rightarrow> entry" where
  "apply_found r x =
     (let x1 = set_person (fo_person r) (x\<lparr>en_person_type := Some (fo_type r)\<rparr>);
          x2 = (case fo_vehicle r of None \<Rightarrow> x1 | Some v \<Rightarrow> x1\<lparr>en_vehicle := Some v\<rparr>);
          x3 = (case fo_visit r of None \<Rightarrow> x2 | Some v \<Rightarrow> x2\<lparr>en_visit := Some v\<rparr>)
      in if fo_allowed r then x3\<lparr>en_status := Granted\<rparr>
         else x3\<lparr>en_status := Denied, en_reason := fo_reason r\<rparr>)"

definition decide :: "found option \<Rightarrow> string \<Rightarrow> entry \<Rightarrow> entry" where
  "decide result val x =
     (case result of
        None \<Rightarrow> x\<lparr>en_status := Denied, en_reason := Some (NoMatch val)\<rparr>
      | Some r \<Rightarrow> apply_found r x)"

definition action_lookup :: "call_context \<Rightarrow> nat \<Rightarrow> answer club_act" where
  "action_lookup cx i = with_entry i (\<lambda>x.
     let val = py_strip (py_or (en_value x) [])
     in if val = [] then act_raise (UserError ''Please enter or scan an identifier.'')
        else if en_method x = Some ManualLookup then act_return (LookupWizard i val)
        else act_bind (act_read (\<lambda>c. find_person cx c (en_method x) val)) (\<lambda>result.
          act_seq (write_entry i (decide result val)) (act_return Finished)))"

definition exit_one :: "call_context \<Rightarrow> nat \<Rightarrow> unit club_act" where
  "exit_one cx i = with_entry i (\<lambda>x.
     if en_status x \<noteq> Granted then act_raise (UserError ''Only entries with granted access can be exited.'')
     else write_entry i (\<lambda>x. x\<lparr>en_exit := Some (cx_now cx), en_status := Exited\<rparr>))"

definition grant_one :: "nat \<Rightarrow> unit club_act" where
  "grant_one i = with_entry i (\<lambda>x.
     if en_status x \<noteq> Pending then act_raise (UserError ''Only pending entries can be manually granted.'')
     else write_entry i (\<lambda>x. x\<lparr>en_status := Granted\<rparr>))"

definition deny_one :: "string \<Rightarrow> nat \<Rightarrow> unit club_act" where
  "deny_one reason i = with_entry i (\<lambda>x.
     if en_status x \<noteq> Pending then act_raise (UserError ''Only pending entries can be denied.'')
     else write_entry i (\<lambda>x. x\<lparr>en_status := Denied,
            en_reason := Some (if reason = [] then ManuallyDenied else GivenReason reason)\<rparr>))"

definition action_exit :: "call_context \<Rightarrow> nat list \<Rightarrow> unit club_act" where
  "action_exit cx ids = rolled_back (for_each (exit_one cx) ids)"

definition action_grant :: "nat list \<Rightarrow> unit club_act" where
  "action_grant ids = rolled_back (for_each grant_one ids)"

definition action_deny :: "string \<Rightarrow> nat list \<Rightarrow> unit club_act" where
  "action_deny reason ids = rolled_back (for_each (deny_one reason) ids)"

definition action_deny_wizard :: "nat \<Rightarrow> answer club_act" where
  "action_deny_wizard i = act_return (DenyWizard i)"

text \<open>The wizard's form requires a reason.\<close>

definition deny_wizard_confirm :: "nat \<Rightarrow> string \<Rightarrow> answer club_act" where
  "deny_wizard_confirm i reason = act_seq (action_deny reason [i]) (act_return Finished)"

section \<open>Who is entitled to enter\<close>

definition guest_may_enter :: "call_context \<Rightarrow> club \<Rightarrow> nat \<Rightarrow> bool" where
  "guest_may_enter cx c g \<longleftrightarrow>
     (\<exists>v \<in> set (cl_visits c). vi_guest v = g \<and> open_today cx v \<and>
        (vi_independent v \<or> host_entry cx c (vi_affiliate v) \<noteq> None))"

fun entitled :: "call_context \<Rightarrow> club \<Rightarrow> person_ref \<Rightarrow> bool" where
  "entitled cx c (AffiliateRef i) \<longleftrightarrow> (\<exists>a \<in> set (cl_affiliates c). af_id a = i \<and> af_status a = Some MsActive)"
| "entitled cx c (EmployeeRef i) \<longleftrightarrow>
     (\<exists>e \<in> set (cl_employees c). em_id e = i \<and> em_status e = WsActive \<and> affiliate_status c (em_affiliate e) = Some MsActive)"
| "entitled cx c (GuestRef i) \<longleftrightarrow> guest_may_enter cx c i"
| "entitled cx c (StaffRef i) \<longleftrightarrow> (\<exists>s \<in> set (cl_staff c). sf_id s = i \<and> sf_status s = WsActive)"
| "entitled cx c (RegistrationRef i) \<longleftrightarrow> (\<exists>r \<in> set (cl_registrations c). rg_id r = i \<and> running_registration cx r)"

fun kinds_of :: "person_ref \<Rightarrow> person_type list" where
  "kinds_of (AffiliateRef i) = [Affiliate, FamilyMember]"
| "kinds_of (EmployeeRef i) = [AffiliateEmployee]"
| "kinds_of (GuestRef i) = [Guest]"
| "kinds_of (StaffRef i) = [SupplierStaff]"
| "kinds_of (RegistrationRef i) = [EventAttendee]"

text \<open>The entry names the person: its type and the link that belongs to it.\<close>

fun names_person :: "entry \<Rightarrow> person_ref \<Rightarrow> bool" where
  "names_person x (AffiliateRef i) \<longleftrightarrow> en_affiliate x = Some i \<and> en_person_type x \<in> Some ` set (kinds_of (AffiliateRef i))"
| "names_person x (EmployeeRef i) \<longleftrightarrow> en_employee x = Some i \<and> en_person_type x = Some AffiliateEmployee"
| "names_person x (GuestRef i) \<longleftrightarrow> en_guest x = Some i \<and> en_person_type x = Some Guest"
| "names_person x (StaffRef i) \<longleftrightarrow> en_staff x = Some i \<and> en_person_type x = Some SupplierStaff"
| "names_person x (RegistrationRef i) \<longleftrightarrow> en_registration x = Some i \<and> en_person_type x = Some EventAttendee"

lemma find_in_set: "find P xs = Some x \<Longrightarrow> x \<in> set xs \<and> P x"
  by (induction xs) (auto split: if_splits)

lemma find_None: "find P xs = None \<longleftrightarrow> (\<forall>x \<in> set xs. \<not> P x)"
  by (induction xs) auto

text \<open>A result that can be relied on: allowed for the entitled only, refused with a reason, well typed.\<close>

definition sound_found :: "call_context \<Rightarrow> club \<Rightarrow> found \<Rightarrow> bool" where
  "sound_found cx c r \<longleftrightarrow>
     (fo_allowed r \<longrightarrow> entitled cx c (fo_person r)) \<and> (\<not> fo_allowed r \<longrightarrow> fo_reason r \<noteq> None) \<and>
     fo_type r \<in> set (kinds_of (fo_person r))"

lemma sound_apply:
  assumes "sound_found cx c r"
  shows "en_status (apply_found r x) = Granted \<and> entitled cx c (fo_person r) \<and> names_person (apply_found r x) (fo_person r) \<or>
         en_status (apply_found r x) = Denied \<and> en_reason (apply_found r x) \<noteq> None"
  using assms by (cases "fo_person r") (auto simp: sound_found_def apply_found_def Let_def split: option.splits)

lemma sound_found_person:
  "t \<in> set (kinds_of p) \<Longrightarrow> (b \<Longrightarrow> entitled cx c p) \<Longrightarrow> sound_found cx c (found_person t p b why)"
  "t \<in> set (kinds_of p) \<Longrightarrow> (b \<Longrightarrow> entitled cx c p) \<Longrightarrow> sound_found cx c ((found_person t p b why)\<lparr>fo_visit := v\<rparr>)"
  "t \<in> set (kinds_of p) \<Longrightarrow> (b \<Longrightarrow> entitled cx c p) \<Longrightarrow> sound_found cx c ((found_person t p b why)\<lparr>fo_vehicle := v\<rparr>)"
  "t \<in> set (kinds_of p) \<Longrightarrow> entitled cx c p \<Longrightarrow> sound_found cx c (found_allowed t p)"
  by (auto simp: sound_found_def found_person_def found_allowed_def)

text \<open>What is asked of a lookup, and what its client gets for it.\<close>

locale lookup =
  fixes look :: "call_context \<Rightarrow> club \<Rightarrow> string \<Rightarrow> found option"
  assumes sound: "look cx c val = Some r \<Longrightarrow> sound_found cx c r"
begin

lemma decided:
  "(\<exists>p. en_status (decide (look cx c val) val x) = Granted \<and> entitled cx c p \<and> names_person (decide (look cx c val) val x) p) \<or>
   en_status (decide (look cx c val) val x) = Denied \<and> en_reason (decide (look cx c val) val x) \<noteq> None"
  using sound_apply [OF sound, of cx c val] by (fastforce simp: decide_def split: option.split)

end

lemma affiliate_kind_kinds:
  "affiliate_kind t \<in> set (kinds_of (AffiliateRef i))" "Affiliate \<in> set (kinds_of (AffiliateRef i))"
  by (simp_all add: affiliate_kind_def)

lemma affiliate_status_entitled: "affiliate_status c i = Some MsActive \<Longrightarrow> entitled cx c (AffiliateRef i)"
  by (auto simp: affiliate_status_def split: option.splits dest: row_get_in_set)

lemma resolve_guest_sound:
  assumes "v \<in> set (cl_visits c)" "open_today cx v"
  shows "sound_found cx c (resolve_guest_visit_access cx c v)"
proof (cases "vi_independent v \<or> host_entry cx c (vi_affiliate v) \<noteq> None")
  case True
  with assms have "guest_may_enter cx c (vi_guest v)" by (auto simp: guest_may_enter_def)
  with True show ?thesis by (auto simp: resolve_guest_visit_access_def found_allowed_def sound_found_def)
next
  case False
  then show ?thesis by (simp add: resolve_guest_visit_access_def found_allowed_def sound_found_def)
qed

interpretation card: lookup "\<lambda>_. lookup_by_membership_card"
  by unfold_locales
    (auto simp: lookup_by_membership_card_def intro!: sound_found_person affiliate_kind_kinds split: option.splits dest!: find_in_set)

interpretation access_card: lookup "\<lambda>_. lookup_by_access_card"
  by unfold_locales
    (auto simp: lookup_by_access_card_def intro!: sound_found_person split: option.splits if_splits dest!: find_in_set)

interpretation plate: lookup lookup_by_vehicle_plate
  by unfold_locales
    (auto simp: lookup_by_vehicle_plate_def intro!: sound_found_person resolve_guest_sound affiliate_status_entitled affiliate_kind_kinds
      simp del: kinds_of.simps entitled.simps split: option.splits dest!: find_in_set)

interpretation qr: lookup lookup_by_qr_code
  by unfold_locales
    (auto simp: lookup_by_qr_code_def Let_def intro!: sound_found_person resolve_guest_sound split: option.splits dest!: find_in_set)

lemma party_visit_open: "party_visit cx c val = Some v \<Longrightarrow> v \<in> set (cl_visits c) \<and> open_today cx v"
  by (auto simp: party_visit_def split: option.splits dest!: find_in_set dest: row_get_in_set)

lemma gov_id_sound:
  "e \<in> set (cl_employees c) \<Longrightarrow> sound_found cx c (gov_id_employee c e)"
  "sound_found cx c (gov_id_guest cx c g)"
  "s \<in> set (cl_staff c) \<Longrightarrow> sound_found cx c (gov_id_staff s)"
  by (auto simp: gov_id_employee_def gov_id_guest_def gov_id_staff_def Let_def intro!: sound_found_person resolve_guest_sound
      split: option.split dest!: find_in_set)

interpretation gov_id: lookup lookup_by_gov_id
  by unfold_locales
    (auto simp: lookup_by_gov_id_def simp del: kinds_of.simps
      intro!: gov_id_sound sound_found_person resolve_guest_sound affiliate_kind_kinds
      split: option.splits dest!: find_in_set dest: party_visit_open; auto)

text \<open>Whatever the method of identification, the lookup can be relied on.\<close>

interpretation any_method: lookup "\<lambda>cx c val. find_person cx c how val" for how
proof unfold_locales
  fix cx c val r
  assume "find_person cx c how val = Some r"
  then show "sound_found cx c r"
    using card.sound [of c val r cx] access_card.sound [of c val r cx] plate.sound [of cx c val r]
      gov_id.sound [of cx c val r] qr.sound [of cx c val r]
    by (simp add: find_person_def split: option.splits id_method.splits)
qed

section \<open>The decision in the table of entries\<close>

lemma decide_id [simp]: "en_id (decide result val x) = en_id x"
proof -
  have "en_id (set_person p y) = en_id y" for p y by (cases p) auto
  then show ?thesis by (auto simp: decide_def apply_found_def Let_def split: option.splits)
qed

lemma write_entry_row:
  assumes "\<And>x. en_id (f x) = en_id x"
  shows "row_get en_id j (row_upd en_id i f xs) = (if j = i then map_option f (row_get en_id i xs) else row_get en_id j xs)"
  using row_get_upd_same [of en_id f i xs] row_get_upd_other [of en_id f i j xs] assms by auto

definition scanned :: "entry \<Rightarrow> string" where
  "scanned x = py_strip (py_or (en_value x) [])"

lemma action_lookup_run:
  assumes "row_get en_id i (cl_entries c) = Some x" "en_method x \<noteq> Some ManualLookup" "scanned x \<noteq> []"
  shows "action_lookup cx i c = (Inr Finished, c\<lparr>cl_entries :=
     row_upd en_id i (decide (find_person cx c (en_method x) (scanned x)) (scanned x)) (cl_entries c)\<rparr>)"
  using assms by (simp add: action_lookup_def with_entry_def write_entry_def scanned_def Let_def)

lemma action_lookup_finished:
  assumes "action_lookup cx i c = (Inr Finished, c')"
  obtains x where "row_get en_id i (cl_entries c) = Some x" "en_method x \<noteq> Some ManualLookup" "scanned x \<noteq> []"
proof -
  from assms obtain x where x: "row_get en_id i (cl_entries c) = Some x"
    by (auto simp: action_lookup_def with_entry_def split: option.splits)
  moreover from assms x have "scanned x \<noteq> []" "en_method x \<noteq> Some ManualLookup"
    by (auto simp: action_lookup_def with_entry_def scanned_def Let_def split: if_splits)
  ultimately show ?thesis using that by blast
qed

text \<open>An entry from before the last midnight of UTC does not count, whatever the local date.\<close>

lemma host_before_midnight_utc:
  "list_all (\<lambda>x. en_affiliate x = Some host \<longrightarrow> en_entry x < midnight_utc (cx_now cx)) (cl_entries c) \<Longrightarrow>
     host_entry cx c host = None"
  by (auto simp: host_entry_def find_None list_all_iff)

section \<open>Properties\<close>


text \<open>
  A lookup does not ask for the state of its entry: an entry that was left is granted again,
  keeps its exit time, is no active entry, and yet counts as the presence of the member, so that
  the guests of a member who has left may enter.
\<close>

theorem lookup_reopens_entry:
  assumes "row_get en_id i (cl_entries c) = Some x" "en_method x \<noteq> Some ManualLookup" "scanned x \<noteq> []"
    and "en_exit x = Some t" "midnight_utc (cx_now cx) \<le> en_entry x"
    and "find_person cx c (en_method x) (scanned x) = Some r" "fo_allowed r" "fo_person r = AffiliateRef host"
  shows "\<exists>x'. row_get en_id i (cl_entries (snd (action_lookup cx i c))) = Some x' \<and>
     en_status x' = Granted \<and> en_exit x' = Some t \<and> \<not> is_active_entry x' \<and>
     (vi_affiliate v = host \<longrightarrow> fo_allowed (resolve_guest_visit_access cx (snd (action_lookup cx i c)) v))"
proof -
  let ?x = "decide (Some r) (scanned x) x"
  let ?c = "snd (action_lookup cx i c)"
  have "cl_entries ?c = row_upd en_id i (decide (Some r) (scanned x)) (cl_entries c)"
    using action_lookup_run [OF assms(1-3), of cx] assms(6) by simp
  then have row: "row_get en_id i (cl_entries ?c) = Some ?x" using assms(1) by (simp add: write_entry_row)
  have x': "en_status ?x = Granted" "en_exit ?x = Some t" "en_affiliate ?x = Some host" "en_entry ?x = en_entry x"
    using assms(4,7,8) by (auto simp: decide_def apply_found_def Let_def split: option.splits)
  have "?x \<in> set (cl_entries ?c)" using row row_get_in_set by fastforce
  with x' assms(5) have "host_entry cx ?c host \<noteq> None" by (auto simp: host_entry_def find_None)
  with row x' show ?thesis
    by (auto simp: is_active_entry_def resolve_guest_visit_access_def found_allowed_def Let_def)
qed

text \<open>
  Where \<open>=ilike\<close> reads a percent sign as any text, as the database documents it, typing one
  as a plate grants access on the first active vehicle of the table.
\<close>

theorem wildcard_plate_opens_gate:
  assumes "\<And>plate. cx_ilike cx ''%'' plate"
    and "row_get en_id i (cl_entries c) = Some x" "en_method x = Some VehiclePlate" "scanned x = ''%''"
    and "find ve_active (cl_vehicles c) = Some v" "affiliate_status c (ve_affiliate v) = Some MsActive"
  shows "\<exists>x'. row_get en_id i (cl_entries (snd (action_lookup cx i c))) = Some x' \<and>
     en_status x' = Granted \<and> en_affiliate x' = Some (ve_affiliate v) \<and> en_vehicle x' = Some (ve_id v)"
proof -
  have "find (\<lambda>v. cx_ilike cx ''%'' (ve_plate v) \<and> ve_active v) (cl_vehicles c) = Some v"
    using assms(1,5) by simp
  then obtain r where r: "find_person cx c (en_method x) (scanned x) = Some r" "fo_allowed r"
    "fo_person r = AffiliateRef (ve_affiliate v)" "fo_vehicle r = Some (ve_id v)"
    using assms(3,4,6) by (simp add: find_person_def lookup_by_vehicle_plate_def found_person_def)
  then show ?thesis
    using action_lookup_run [of i c x cx] assms(2-4)
    by (auto simp: write_entry_row decide_def apply_found_def Let_def split: option.split)
qed

section \<open>Witnesses\<close>

definition example_context :: call_context where
  "example_context = \<lparr>cx_now = 100000, cx_today = 1, cx_ilike = (\<lambda>p s. p = ''%'' \<or> p = s), cx_loads = (\<lambda>s. None),
     cx_render = (\<lambda>j. []), cx_sequence = (\<lambda>n. None)\<rparr>"

definition blank_entry :: entry where
  "blank_entry = \<lparr>en_id = 1, en_name = ''E1'', en_entry = 90000, en_exit = None, en_person_type = None, en_affiliate = None,
     en_employee = None, en_guest = None, en_visit = None, en_registration = None, en_participant = None, en_staff = None,
     en_method = Some MembershipCard, en_value = Some ''A1'', en_vehicle = None, en_status = Pending, en_reason = None\<rparr>"

definition example_club :: "entry \<Rightarrow> club" where
  "example_club x =
     \<lparr>cl_affiliates = [\<lparr>af_id = 5, af_name = ''Ana'', af_type = Individual, af_number = Some ''A1'', af_vat = None,
                        af_status = Some MsActive\<rparr>],
      cl_employees = [], cl_vehicles = [\<lparr>ve_id = 7, ve_affiliate = 5, ve_plate = ''XYZ'', ve_active = True\<rparr>],
      cl_guests = [\<lparr>gu_id = 9, gu_name = ''Bob'', gu_ident = Some ''77''\<rparr>],
      cl_visits = [\<lparr>vi_id = 3, vi_affiliate = 5, vi_guest = 9, vi_date = 1, vi_status = Registered, vi_independent = False,
                    vi_plate = None, vi_token = None\<rparr>],
      cl_party = [], cl_staff = [], cl_registrations = [], cl_participants = [], cl_entries = [x], cl_sequence = 0\<rparr>"

lemma example_scanned: "scanned blank_entry = ''A1''" "py_strip ''%'' = ''%''"
  by (simp add: scanned_def blank_entry_def py_or_def) code_simp+

lemma example_row: "en_id x = 1 \<Longrightarrow> row_get en_id 1 (cl_entries (example_club x)) = Some x"
  by (simp add: example_club_def row_simps)


lemma lookup_reopens_entry_witness:
  "\<exists>x'. row_get en_id 1 (cl_entries (snd (action_lookup example_context 1
       (example_club (blank_entry\<lparr>en_status := Exited, en_exit := Some 95000\<rparr>))))) = Some x' \<and>
     en_status x' = Granted \<and> en_exit x' = Some 95000"
proof -
  let ?x = "blank_entry\<lparr>en_status := Exited, en_exit := Some 95000\<rparr>"
  have "scanned ?x = ''A1''" using example_scanned(1) by (simp add: scanned_def)
  then obtain r where "find_person example_context (example_club ?x) (en_method ?x) (scanned ?x) = Some r" "fo_allowed r"
    "fo_person r = AffiliateRef 5" "scanned ?x \<noteq> []"
    by (simp add: find_person_def blank_entry_def lookup_by_membership_card_def example_club_def found_person_def)
  moreover have "row_get en_id 1 (cl_entries (example_club ?x)) = Some ?x" by (rule example_row) (simp add: blank_entry_def)
  moreover have "midnight_utc (cx_now example_context) \<le> en_entry ?x" "en_method ?x \<noteq> Some ManualLookup" "en_exit ?x = Some 95000"
    by (simp_all add: midnight_utc_def example_context_def blank_entry_def)
  ultimately show ?thesis
    using lookup_reopens_entry [of 1 "example_club ?x" ?x 95000 example_context r 5] by blast
qed

lemma wildcard_plate_opens_gate_witness:
  "\<exists>x'. row_get en_id 1 (cl_entries (snd (action_lookup example_context 1
       (example_club (blank_entry\<lparr>en_method := Some VehiclePlate, en_value := Some ''%''\<rparr>))))) = Some x' \<and> en_status x' = Granted"
proof -
  let ?x = "blank_entry\<lparr>en_method := Some VehiclePlate, en_value := Some ''%''\<rparr>"
  let ?v = "\<lparr>ve_id = 7, ve_affiliate = 5, ve_plate = ''XYZ'', ve_active = True\<rparr>"
  have "find ve_active (cl_vehicles (example_club ?x)) = Some ?v" "affiliate_status (example_club ?x) (ve_affiliate ?v) = Some MsActive"
    by (simp_all add: example_club_def affiliate_status_def row_simps)
  moreover have "row_get en_id 1 (cl_entries (example_club ?x)) = Some ?x" by (rule example_row) (simp add: blank_entry_def)
  moreover have "scanned ?x = ''%''" by (simp add: scanned_def py_or_def example_scanned)
  moreover have "cx_ilike example_context ''%'' plate" for plate by (simp add: example_context_def)
  moreover have "en_method ?x = Some VehiclePlate" by simp
  ultimately show ?thesis
    using wildcard_plate_opens_gate [of example_context 1 "example_club ?x" ?x ?v] by blast
qed

end
