(* ===== verification/ClubWizard.thy ===== *)
theory ClubWizard
  imports ClubAccess
begin

text \<open>
  The manual lookup of custom-addons/club_access_control/models/club_access_lookup_wizard.py: the
  search by name that fills the wizard, and the choice of one of its rows. A reference
  "model,id" is kept as the pair it stands for.
\<close>

datatype wizard_ref = WAffiliate nat | WEmployee nat | WGuest nat | WStaff nat

record lookup_row =
  lr_name :: string
  lr_type :: person_type
  lr_ref :: "wizard_ref option"
  lr_ident :: string

record wizard =
  wz_entry :: nat
  wz_term :: string
  wz_rows :: "lookup_row list"

section \<open>The search\<close>

text \<open>\<open>ilike\<close> is \<open>=ilike\<close> with a percent sign on either side; each table gives ten rows at most.\<close>

definition by_name :: "call_context \<Rightarrow> string \<Rightarrow> ('r \<Rightarrow> string) \<Rightarrow> 'r list \<Rightarrow> 'r list" where
  "by_name cx term name rows = take 10 (filter (\<lambda>r. cx_ilike cx (''%'' @ term @ ''%'') (name r)) rows)"

definition do_search :: "call_context \<Rightarrow> club \<Rightarrow> wizard \<Rightarrow> wizard" where
  "do_search cx c w =
     (let term = py_strip (wz_term w)
      in if term = [] then w
         else w\<lparr>wz_rows := wz_rows w @
           map (\<lambda>a. \<lparr>lr_name = af_name a, lr_type = affiliate_kind (af_type a), lr_ref = Some (WAffiliate (af_id a)),
                      lr_ident = py_or (af_number a) []\<rparr>) (by_name cx term af_name (cl_affiliates c)) @
           map (\<lambda>e. \<lparr>lr_name = em_name e @ '' ('' @ affiliate_name c (em_affiliate e) @ '')'', lr_type = AffiliateEmployee,
                      lr_ref = Some (WEmployee (em_id e)), lr_ident = em_ident e\<rparr>) (by_name cx term em_name (cl_employees c)) @
           map (\<lambda>g. \<lparr>lr_name = gu_name g, lr_type = Guest, lr_ref = Some (WGuest (gu_id g)),
                      lr_ident = py_or (gu_ident g) []\<rparr>) (by_name cx term gu_name (cl_guests c)) @
           map (\<lambda>s. \<lparr>lr_name = sf_name s @ '' ('' @ sf_supplier_name s @ '')'', lr_type = SupplierStaff,
                      lr_ref = Some (WStaff (sf_id s)), lr_ident = sf_ident s\<rparr>) (by_name cx term sf_name (cl_staff c))\<rparr>)"

definition lookup_by_name :: "call_context \<Rightarrow> club \<Rightarrow> nat \<Rightarrow> string \<Rightarrow> wizard" where
  "lookup_by_name cx c i val = do_search cx c \<lparr>wz_entry = i, wz_term = val, wz_rows = []\<rparr>"

section \<open>The choice\<close>

text \<open>Reading a record that is gone raises.\<close>

definition need :: "nat \<Rightarrow> 'r option \<Rightarrow> ('r \<Rightarrow> found) \<Rightarrow> club_exn + found" where
  "need i r k = (case r of None \<Rightarrow> Inl (MissingError i) | Some x \<Rightarrow> Inr (k x))"

fun select_found :: "call_context \<Rightarrow> club \<Rightarrow> person_type \<Rightarrow> wizard_ref \<Rightarrow> club_exn + found" where
  "select_found cx c t (WAffiliate i) = need i (row_get af_id i (cl_affiliates c)) (\<lambda>a.
     found_person t (AffiliateRef i) (af_status a = Some MsActive) (MembershipNotActive (af_status a)))"
| "select_found cx c t (WEmployee i) = need i (row_get em_id i (cl_employees c)) (\<lambda>e.
     if em_status e \<noteq> WsActive then found_person t (EmployeeRef i) False (EmployeeNotActive (em_status e))
     else found_person t (EmployeeRef i) (affiliate_status c (em_affiliate e) = Some MsActive)
            (EmployerNotActive (affiliate_name c (em_affiliate e))))"
| "select_found cx c t (WGuest i) =
     (case find (\<lambda>v. vi_guest v = i \<and> open_today cx v) (cl_visits c) of
        Some v \<Rightarrow> Inr ((found_allowed t (GuestRef i))\<lparr>fo_visit := Some (vi_id v)\<rparr>)
      | None \<Rightarrow> need i (row_get gu_id i (cl_guests c)) (\<lambda>g. found_person t (GuestRef i) False (NoVisitToday (gu_name g))))"
| "select_found cx c t (WStaff i) = need i (row_get sf_id i (cl_staff c)) (\<lambda>s.
     found_person t (StaffRef i) (sf_status s = WsActive) (StaffNotActive (sf_status s)))"

definition action_select :: "call_context \<Rightarrow> wizard \<Rightarrow> lookup_row \<Rightarrow> unit club_act" where
  "action_select cx w row = (\<lambda>c.
     case (row_get en_id (wz_entry w) (cl_entries c), lr_ref row) of
       (Some _, Some ref) \<Rightarrow>
         (case select_found cx c (lr_type row) ref of
            Inl x \<Rightarrow> (Inl x, c)
          | Inr r \<Rightarrow> write_entry (wz_entry w) (apply_found r) c)
     | _ \<Rightarrow> (Inr (), c))"

section \<open>What a choice rests on\<close>

fun person_of :: "wizard_ref \<Rightarrow> person_ref" where
  "person_of (WAffiliate i) = AffiliateRef i"
| "person_of (WEmployee i) = EmployeeRef i"
| "person_of (WGuest i) = GuestRef i"
| "person_of (WStaff i) = StaffRef i"

text \<open>A person chosen by hand: only the rule of the host is left out.\<close>

fun entitled_by_hand :: "call_context \<Rightarrow> club \<Rightarrow> person_ref \<Rightarrow> bool" where
  "entitled_by_hand cx c (GuestRef i) \<longleftrightarrow> (\<exists>v \<in> set (cl_visits c). vi_guest v = i \<and> open_today cx v)"
| "entitled_by_hand cx c p \<longleftrightarrow> entitled cx c p"

lemma select_found_sound:
  assumes "select_found cx c t ref = Inr r"
  shows "fo_person r = person_of ref" "fo_allowed r \<Longrightarrow> entitled_by_hand cx c (person_of ref)"
  using assms
  by (cases ref; auto simp: need_def found_person_def found_allowed_def split: option.splits if_splits
      dest!: find_in_set dest: row_get_in_set)+

lemma action_select_run:
  assumes "row_get en_id i (cl_entries c) = Some x" "wz_entry w = i" "lr_ref row = Some ref"
    "select_found cx c (lr_type row) ref = Inr r"
  shows "fst (action_select cx w row c) = Inr ()"
    and "row_get en_id i (cl_entries (snd (action_select cx w row c))) = Some (apply_found r x)"
proof -
  have "en_id (apply_found r y) = en_id y" for y using decide_id [of "Some r" "[]" y] by (simp add: decide_def)
  with assms show "fst (action_select cx w row c) = Inr ()"
    "row_get en_id i (cl_entries (snd (action_select cx w row c))) = Some (apply_found r x)"
    by (simp_all add: action_select_def write_entry_def write_entry_row)
qed

lemma apply_found_status: "en_status (apply_found r x) = Granted \<longleftrightarrow> fo_allowed r"
  by (simp add: apply_found_def Let_def)

section \<open>Properties\<close>

text \<open>
  Choosing a row of the search by hand grants access only to a person entitled to enter, the
  rule of the host apart; and that rule is left out: a guest with a visit today that needs the
  host, whom the lookup by government ID refuses while the host is away, is granted access.
\<close>

theorem manual_choice_skips_host_rule:
  assumes "row_get en_id i (cl_entries c) = Some x" "wz_entry w = i" "lr_ref row = Some ref"
    and "action_select cx w row c = (Inr (), c')"
  shows "\<exists>x'. row_get en_id i (cl_entries c') = Some x' \<and>
     (en_status x' = Granted \<longrightarrow> entitled_by_hand cx c (person_of ref)) \<and>
     (ref = WGuest (gu_id guest) \<and> find (\<lambda>v. vi_guest v = gu_id guest \<and> open_today cx v) (cl_visits c) = Some v \<and>
        \<not> vi_independent v \<and> host_entry cx c (vi_affiliate v) = None \<longrightarrow>
        \<not> fo_allowed (gov_id_guest cx c guest) \<and> en_status x' = Granted)"
proof -
  from assms obtain r where r: "select_found cx c (lr_type row) ref = Inr r"
    by (cases "select_found cx c (lr_type row) ref") (auto simp: action_select_def)
  from action_select_run [OF assms(1-3) this] assms(4)
  have row: "row_get en_id i (cl_entries c') = Some (apply_found r x)" by simp
  have "fo_allowed r \<and> \<not> fo_allowed (gov_id_guest cx c guest)"
    if "ref = WGuest (gu_id guest)" "find (\<lambda>v. vi_guest v = gu_id guest \<and> open_today cx v) (cl_visits c) = Some v"
      "\<not> vi_independent v" "host_entry cx c (vi_affiliate v) = None"
  proof -
    from r that(1,2) have "r = (found_allowed (lr_type row) (GuestRef (gu_id guest)))\<lparr>fo_visit := Some (vi_id v)\<rparr>" by simp
    with that(2-4) show ?thesis by (simp add: gov_id_guest_def resolve_guest_visit_access_def found_allowed_def)
  qed
  with row select_found_sound [OF r] show ?thesis by (auto simp: apply_found_status)
qed

lemma manual_choice_skips_host_rule_witness:
  "\<exists>x'. row_get en_id 1 (cl_entries (snd (action_select example_context (lookup_by_name example_context (example_club blank_entry) 1 ''Bob'')
       \<lparr>lr_name = ''Bob'', lr_type = Guest, lr_ref = Some (WGuest 9), lr_ident = ''77''\<rparr> (example_club blank_entry)))) = Some x' \<and>
     en_status x' = Granted"
proof -
  let ?c = "example_club blank_entry"
  let ?w = "lookup_by_name example_context ?c 1 ''Bob''"
  let ?row = "\<lparr>lr_name = ''Bob'', lr_type = Guest, lr_ref = Some (WGuest 9), lr_ident = ''77''\<rparr>"
  let ?v = "\<lparr>vi_id = 3, vi_affiliate = 5, vi_guest = 9, vi_date = 1, vi_status = Registered, vi_independent = False,
               vi_plate = None, vi_token = None\<rparr>"
  let ?g = "\<lparr>gu_id = 9, gu_name = ''Bob'', gu_ident = Some ''77''\<rparr>"
  have x: "row_get en_id 1 (cl_entries ?c) = Some blank_entry" by (rule example_row) (simp add: blank_entry_def)
  have w: "wz_entry ?w = 1" by (simp add: lookup_by_name_def do_search_def Let_def)
  have v: "find (\<lambda>v. vi_guest v = gu_id ?g \<and> open_today example_context v) (cl_visits ?c) = Some ?v"
    by (simp add: example_club_def example_context_def open_today_def)
  have h: "host_entry example_context ?c (vi_affiliate ?v) = None"
    by (simp add: host_entry_def example_club_def blank_entry_def)
  have "select_found example_context ?c (lr_type ?row) (WGuest 9) = Inr ((found_allowed Guest (GuestRef 9))\<lparr>fo_visit := Some 3\<rparr>)"
    using v by simp
  with action_select_run(1) [OF x w, of ?row "WGuest 9"]
  have "action_select example_context ?w ?row ?c = (Inr (), snd (action_select example_context ?w ?row ?c))"
    by (simp add: prod_eq_iff)
  from manual_choice_skips_host_rule [OF x w _ this, where ref = "WGuest 9" and guest = ?g and v = ?v] v h show ?thesis by auto
qed

end
