(* ===== verification/PyDate.thy ===== *)
theory PyDate
  imports Prelude
begin

text \<open>
  The dates of Python (\<open>datetime.date\<close>) and the steps of \<open>dateutil.relativedelta\<close> that the addons
  take: \<open>replace(day=1)\<close>, a number of months or years with the day cut to the end of the month, and
  a number of days. Dates are compared as the tuples they are; \<open>ordinal\<close> is \<open>date.toordinal\<close>, the
  count of days. Years above 9999, where Python raises, are not excluded.
\<close>

datatype date = Date (yr: nat) (mon: nat) (mday: nat)

section \<open>The order\<close>

instantiation date :: linorder
begin

definition less_eq_date :: "date \<Rightarrow> date \<Rightarrow> bool" where
  "less_eq_date a b \<longleftrightarrow> yr a < yr b \<or> yr a = yr b \<and> (mon a < mon b \<or> mon a = mon b \<and> mday a \<le> mday b)"

definition less_date :: "date \<Rightarrow> date \<Rightarrow> bool" where
  "less_date a b \<longleftrightarrow> yr a < yr b \<or> yr a = yr b \<and> (mon a < mon b \<or> mon a = mon b \<and> mday a < mday b)"

instance
proof
  fix x y z :: date
  show "x < y \<longleftrightarrow> x \<le> y \<and> \<not> y \<le> x" unfolding less_eq_date_def less_date_def by auto
  show "x \<le> x" by (simp add: less_eq_date_def)
  show "x \<le> y \<Longrightarrow> y \<le> z \<Longrightarrow> x \<le> z" unfolding less_eq_date_def by auto
  show "x \<le> y \<Longrightarrow> y \<le> x \<Longrightarrow> x = y" unfolding less_eq_date_def by (auto simp: date.expand)
  show "x \<le> y \<or> y \<le> x" unfolding less_eq_date_def by auto
qed

end

section \<open>Months and years\<close>

definition leap :: "nat \<Rightarrow> bool" where
  "leap y \<longleftrightarrow> y mod 4 = 0 \<and> (y mod 100 \<noteq> 0 \<or> y mod 400 = 0)"

definition days_in :: "nat \<Rightarrow> nat \<Rightarrow> nat" where
  "days_in y m = (if m = 2 then (if leap y then 29 else 28) else if m \<in> set [4, 6, 9, 11] then 30 else 31)"

definition valid_date :: "date \<Rightarrow> bool" where
  "valid_date d \<longleftrightarrow> 1 \<le> yr d \<and> 1 \<le> mon d \<and> mon d \<le> 12 \<and> 1 \<le> mday d \<and> mday d \<le> days_in (yr d) (mon d)"

definition first_of_month :: "date \<Rightarrow> date" where
  "first_of_month d = Date (yr d) (mon d) 1"

definition last_of_month :: "date \<Rightarrow> date" where
  "last_of_month d = Date (yr d) (mon d) (days_in (yr d) (mon d))"

definition add_months :: "nat \<Rightarrow> date \<Rightarrow> date" where
  "add_months n d =
     (let k = mon d - 1 + n; y = yr d + k div 12; m = k mod 12 + 1 in Date y m (min (mday d) (days_in y m)))"

definition add_years :: "nat \<Rightarrow> date \<Rightarrow> date" where
  "add_years n d = Date (yr d + n) (mon d) (min (mday d) (days_in (yr d + n) (mon d)))"

definition next_day :: "date \<Rightarrow> date" where
  "next_day d =
     (if mday d < days_in (yr d) (mon d) then Date (yr d) (mon d) (mday d + 1)
      else if mon d < 12 then Date (yr d) (mon d + 1) 1
      else Date (yr d + 1) 1 1)"

definition prev_day :: "date \<Rightarrow> date" where
  "prev_day d =
     (if 1 < mday d then Date (yr d) (mon d) (mday d - 1)
      else if 1 < mon d then Date (yr d) (mon d - 1) (days_in (yr d) (mon d - 1))
      else Date (yr d - 1) 12 31)"

definition add_days :: "nat \<Rightarrow> date \<Rightarrow> date" where
  "add_days n d = (next_day ^^ n) d"

definition plus_days :: "int \<Rightarrow> date \<Rightarrow> date" where
  "plus_days n d = (if 0 \<le> n then add_days (nat n) d else (prev_day ^^ nat (- n)) d)"

lemma days_in_pos: "1 \<le> days_in y m" "28 \<le> days_in y m" "days_in y m \<le> 31"
  by (simp_all add: days_in_def)

lemma valid_next_day: "valid_date d \<Longrightarrow> valid_date (next_day d)"
  using days_in_pos(1) by (auto simp: valid_date_def next_day_def)

lemma valid_add_days: "valid_date d \<Longrightarrow> valid_date (add_days n d)"
  by (induction n) (simp_all add: add_days_def valid_next_day)

lemma valid_add_months: "valid_date d \<Longrightarrow> valid_date (add_months n d)"
proof -
  have "mod12 mod 12 + 1 \<le> (12::nat)" for mod12 using mod_less_divisor [of 12 mod12] by linarith
  then show "valid_date d \<Longrightarrow> ?thesis"
    using days_in_pos(1) by (auto simp: valid_date_def add_months_def Let_def)
qed

lemma valid_add_years: "valid_date d \<Longrightarrow> valid_date (add_years n d)"
  using days_in_pos(1) by (auto simp: valid_date_def add_years_def)

lemma add_days_0 [simp]: "add_days 0 d = d"
  by (simp add: add_days_def)

lemma add_days_Suc: "add_days (Suc n) d = next_day (add_days n d)"
  by (simp add: add_days_def)

section \<open>The count of days\<close>

definition days_before_month :: "nat \<Rightarrow> nat \<Rightarrow> nat" where
  "days_before_month y m = sum_list (map (days_in y) [1..<m])"

definition days_before_year :: "nat \<Rightarrow> nat" where
  "days_before_year y = sum_list (map (\<lambda>k. days_before_month k 13) [1..<y])"

definition ordinal :: "date \<Rightarrow> int" where
  "ordinal d = int (days_before_year (yr d) + days_before_month (yr d) (mon d) + mday d)"

lemma days_before_month_Suc: "1 \<le> m \<Longrightarrow> days_before_month y (Suc m) = days_before_month y m + days_in y m"
  by (simp add: days_before_month_def)

lemma days_before_year_Suc: "1 \<le> y \<Longrightarrow> days_before_year (Suc y) = days_before_year y + days_before_month y 13"
  by (simp add: days_before_year_def)

lemma ordinal_next_day:
  assumes "valid_date d"
  shows "ordinal (next_day d) = ordinal d + 1"
proof (cases "mday d < days_in (yr d) (mon d)")
  case True
  then show ?thesis by (simp add: next_day_def ordinal_def)
next
  case False
  with assms have last: "mday d = days_in (yr d) (mon d)" by (simp add: valid_date_def)
  show ?thesis
  proof (cases "mon d < 12")
    case True
    then show ?thesis using False last assms days_before_month_Suc [of "mon d" "yr d"]
      by (simp add: next_day_def ordinal_def valid_date_def)
  next
    case dec: False
    with assms have m: "mon d = 12" by (simp add: valid_date_def)
    have "days_before_month (yr d) 13 = days_before_month (yr d) 12 + days_in (yr d) 12"
      using days_before_month_Suc [of 12 "yr d"] by simp
    moreover have "days_before_month y 1 = 0" for y by (simp add: days_before_month_def)
    ultimately show ?thesis using False last assms days_before_year_Suc [of "yr d"] m
      by (simp add: next_day_def ordinal_def valid_date_def)
  qed
qed

lemma ordinal_add_days: "valid_date d \<Longrightarrow> ordinal (add_days n d) = ordinal d + int n"
  by (induction n) (simp_all add: add_days_Suc ordinal_next_day valid_add_days)

lemma days_before_month_mono: "m < m' \<Longrightarrow> 1 \<le> m \<Longrightarrow> days_before_month y m + days_in y m \<le> days_before_month y m'"
proof (induction m')
  case (Suc m')
  then show ?case using days_before_month_Suc [of m' y] by (cases "m = m'") auto
qed simp

lemma days_before_year_mono: "y < y' \<Longrightarrow> 1 \<le> y \<Longrightarrow> days_before_year y + days_before_month y 13 \<le> days_before_year y'"
proof (induction y')
  case (Suc y')
  then show ?case using days_before_year_Suc [of y'] by (cases "y = y'") auto
qed simp

lemma ordinal_less:
  assumes "valid_date a" "valid_date b" "a < b"
  shows "ordinal a < ordinal b"
proof (cases "yr a = yr b")
  case True
  then show ?thesis
    using assms days_before_month_mono [of "mon a" "mon b" "yr a"] by (auto simp: less_date_def valid_date_def ordinal_def)
next
  case False
  with assms have y: "yr a < yr b" by (auto simp: less_date_def)
  have "days_before_month (yr a) (mon a) + days_in (yr a) (mon a) \<le> days_before_month (yr a) 13"
    using assms(1) by (intro days_before_month_mono) (auto simp: valid_date_def)
  moreover have "days_before_year (yr a) + days_before_month (yr a) 13 \<le> days_before_year (yr b)"
    using y assms(1) by (intro days_before_year_mono) (auto simp: valid_date_def)
  ultimately show ?thesis using assms(1,2) by (simp add: valid_date_def ordinal_def)
qed

lemma less_iff_ordinal: "valid_date a \<Longrightarrow> valid_date b \<Longrightarrow> a < b \<longleftrightarrow> ordinal a < ordinal b"
  using ordinal_less [of a b] ordinal_less [of b a] by (cases a b rule: linorder_cases) auto

lemma le_iff_ordinal: "valid_date a \<Longrightarrow> valid_date b \<Longrightarrow> a \<le> b \<longleftrightarrow> ordinal a \<le> ordinal b"
  using less_iff_ordinal [of b a] by (simp add: not_less [symmetric])

lemma eq_iff_ordinal: "valid_date a \<Longrightarrow> valid_date b \<Longrightarrow> a = b \<longleftrightarrow> ordinal a = ordinal b"
  using le_iff_ordinal [of a b] le_iff_ordinal [of b a] by (auto intro: antisym)

section \<open>The month of a date\<close>

text \<open>The days between the first and the last of a month are the days of that month.\<close>

lemma month_of_iff:
  assumes "valid_date d"
  shows "first_of_month e \<le> d \<and> d \<le> last_of_month e \<longleftrightarrow> yr d = yr e \<and> mon d = mon e"
proof
  assume "first_of_month e \<le> d \<and> d \<le> last_of_month e"
  then show "yr d = yr e \<and> mon d = mon e"
    unfolding first_of_month_def last_of_month_def less_eq_date_def date.sel by linarith
next
  assume "yr d = yr e \<and> mon d = mon e"
  with assms show "first_of_month e \<le> d \<and> d \<le> last_of_month e"
    unfolding first_of_month_def last_of_month_def less_eq_date_def date.sel valid_date_def by auto
qed

lemma add_months_later:
  assumes "1 \<le> mon d"
  shows "d < add_months (Suc n) d"
proof (cases "mon d + n < 12")
  case True
  then have "(mon d - 1 + Suc n) div 12 = 0" "(mon d - 1 + Suc n) mod 12 = mon d + n" using assms by simp_all
  then show ?thesis by (simp add: add_months_def Let_def less_date_def)
next
  case False
  then have "1 \<le> (mon d - 1 + Suc n) div 12" using assms by (simp add: Suc_le_eq div_greater_zero_iff)
  then show ?thesis by (simp add: add_months_def Let_def less_date_def)
qed

lemma add_years_later: "d < add_years (Suc n) d"
  by (simp add: add_years_def less_date_def)

end
