(* ===== verification/ClubMembership.thy ===== *)
theory ClubMembership
  imports ClubAccess PyDate Complex_Main
begin

text \<open>
  Memberships and their invoices (custom-addons/club_core/models/club_membership.py, with
  club_membership_plan.py, club_family_group.py and club_corporate_group.py): the actions, the two
  daily cron jobs, and what the access control sees of them.

  The accounting of Odoo is not under src/: \<open>oe_refused\<close> says which invoices it refuses to create,
  and a created invoice is a draft, unpaid, dated the day of the call. A search returns the rows in
  the order of the table. Amounts are \<open>rat\<close>.
\<close>

section \<open>Records\<close>

datatype billing_period = Monthly | Annual

record plan =
  pl_id :: nat
  pl_name :: string
  pl_fee :: rat
  pl_period :: billing_period
  pl_grace :: int
  pl_late_fee :: rat
  pl_product :: nat
  pl_late_product :: "nat option"

record family_group =
  fg_id :: nat
  fg_primary :: nat
  fg_billing :: "nat option"

record corporate_group =
  cg_id :: nat
  cg_company :: nat
  cg_admin :: "nat option"
  cg_max :: int

text \<open>An affiliate with the fields that the gate does not read.\<close>

record member = affiliate +
  af_partner :: nat
  af_family :: "nat option"
  af_corporate :: "nat option"

record membership =
  ms_id :: nat
  ms_affiliate :: nat
  ms_plan :: nat
  ms_start :: date
  ms_status :: plan_status
  ms_invoices :: "nat list"

datatype line_name = PlanName string | LateFee string

record move_line =
  li_product :: nat
  li_quantity :: rat
  li_price :: rat
  li_name :: line_name

datatype move_state = MoveDraft | MovePosted | MoveCancelled

datatype payment_state = NotPaid | InPayment | Paid | PartlyPaid | Reversed

record move =
  mv_id :: nat
  mv_out_invoice :: bool
  mv_partner :: nat
  mv_lines :: "move_line list"
  mv_created :: date
  mv_state :: move_state
  mv_payment :: payment_state

record club_office =
  of_members :: "member list"
  of_families :: "family_group list"
  of_corporates :: "corporate_group list"
  of_plans :: "plan list"
  of_memberships :: "membership list"
  of_moves :: "move list"
  of_next :: nat

record office_env =
  oe_today :: date
  oe_refused :: "nat \<Rightarrow> move_line list \<Rightarrow> string option"

datatype membership_exn =
    OnlyDraftActivated
  | OnlyActiveSuspended
  | AlreadyEnded
  | NumberNotUnique
  | NoRecord nat
  | MoveRefused string

type_synonym 'a office_act = "(club_office, membership_exn, 'a) act"

section \<open>Computed fields\<close>

definition compute_end_date :: "date option \<Rightarrow> plan option \<Rightarrow> date option" where
  "compute_end_date start p =
     (case (start, p) of
        (Some d, Some q) \<Rightarrow> Some (if pl_period q = Monthly then add_months 1 d else add_years 1 d)
      | _ \<Rightarrow> None)"

definition get_plan :: "club_office \<Rightarrow> membership \<Rightarrow> plan option" where
  "get_plan st m = row_get pl_id (ms_plan m) (of_plans st)"

definition ms_end :: "club_office \<Rightarrow> membership \<Rightarrow> date option" where
  "ms_end st m = compute_end_date (Some (ms_start m)) (get_plan st m)"

definition get_ms :: "nat \<Rightarrow> club_office \<Rightarrow> membership option" where
  "get_ms i st = row_get ms_id i (of_memberships st)"

definition invoices_of :: "club_office \<Rightarrow> membership \<Rightarrow> move list" where
  "invoices_of st m = filter (\<lambda>v. mv_id v \<in> set (ms_invoices m)) (of_moves st)"

definition invoice_count :: "membership \<Rightarrow> nat" where
  "invoice_count m = length (ms_invoices m)"

text \<open>The authorised members of a corporate group: a limit of zero or less is none.\<close>

definition check_employee_limit :: "club_office \<Rightarrow> corporate_group \<Rightarrow> bool" where
  "check_employee_limit st g \<longleftrightarrow>
     \<not> (0 < cg_max g \<and> cg_max g < int (length (filter (\<lambda>a. af_corporate a = Some (cg_id g)) (of_members st))))"

text \<open>\<open>create\<close>: affiliates without a number take the next of the sequence; numbers are unique in the table.\<close>

fun number_members :: "(nat \<Rightarrow> string option) \<Rightarrow> nat \<Rightarrow> member list \<Rightarrow> member list \<times> nat" where
  "number_members sq n [] = ([], n)"
| "number_members sq n (a # as) =
     (if truthy (af_number a) then (case number_members sq n as of (bs, k) \<Rightarrow> (a # bs, k))
      else (case number_members sq (Suc n) as of (bs, k) \<Rightarrow> (a\<lparr>af_number := sq n\<rparr> # bs, k)))"

definition affiliates_create :: "(nat \<Rightarrow> string option) \<Rightarrow> nat \<Rightarrow> member list \<Rightarrow> nat office_act" where
  "affiliates_create sq n as = (\<lambda>st.
     case number_members sq n as of
       (bs, k) \<Rightarrow>
         (let rows = of_members st @ bs
          in if distinct (List.map_filter af_number rows) then (Inr k, st\<lparr>of_members := rows\<rparr>)
             else (Inl NumberNotUnique, st)))"

section \<open>Invoices\<close>

definition partner_of :: "club_office \<Rightarrow> nat \<Rightarrow> nat option" where
  "partner_of st i = map_option af_partner (row_get af_id i (of_members st))"

definition get_billing_affiliate :: "family_group \<Rightarrow> nat" where
  "get_billing_affiliate g = (case fg_billing g of Some b \<Rightarrow> b | None \<Rightarrow> fg_primary g)"

text \<open>A group that does not exist, like no group, is an empty record.\<close>

definition get_invoice_partner :: "club_office \<Rightarrow> member \<Rightarrow> nat option" where
  "get_invoice_partner st a =
     (case Option.bind (af_family a) (\<lambda>f. Option.bind (row_get fg_id f (of_families st)) fg_billing) of
        Some b \<Rightarrow> partner_of st b
      | None \<Rightarrow>
          (case Option.bind (af_corporate a) (\<lambda>g. row_get cg_id g (of_corporates st)) of
             Some g \<Rightarrow> (case cg_admin g of Some b \<Rightarrow> partner_of st b | None \<Rightarrow> Some (cg_company g))
           | None \<Rightarrow> Some (af_partner a)))"

definition with_row :: "('r \<Rightarrow> nat) \<Rightarrow> nat \<Rightarrow> (club_office \<Rightarrow> 'r list) \<Rightarrow> ('r \<Rightarrow> 'a office_act) \<Rightarrow> 'a office_act" where
  "with_row key i table k = (\<lambda>st. case row_get key i (table st) of None \<Rightarrow> (Inl (NoRecord i), st) | Some r \<Rightarrow> k r st)"

definition create_move :: "office_env \<Rightarrow> nat \<Rightarrow> move_line list \<Rightarrow> nat office_act" where
  "create_move e partner ls = (\<lambda>st.
     case oe_refused e partner ls of
       Some msg \<Rightarrow> (Inl (MoveRefused msg), st)
     | None \<Rightarrow>
         (Inr (of_next st),
          st\<lparr>of_moves := of_moves st @ [\<lparr>mv_id = of_next st, mv_out_invoice = True, mv_partner = partner, mv_lines = ls,
               mv_created = oe_today e, mv_state = MoveDraft, mv_payment = NotPaid\<rparr>],
             of_next := of_next st + 1\<rparr>))"

definition write_ms :: "nat \<Rightarrow> (membership \<Rightarrow> membership) \<Rightarrow> unit office_act" where
  "write_ms i f = act_modify (\<lambda>st. st\<lparr>of_memberships := row_upd ms_id i f (of_memberships st)\<rparr>)"

definition set_status :: "nat \<Rightarrow> plan_status \<Rightarrow> unit office_act" where
  "set_status i s = write_ms i (\<lambda>m. m\<lparr>ms_status := s\<rparr>)"

definition link_invoice :: "nat \<Rightarrow> nat \<Rightarrow> unit office_act" where
  "link_invoice i k = write_ms i (\<lambda>m. m\<lparr>ms_invoices := ms_invoices m @ [k]\<rparr>)"

definition invoice_member :: "office_env \<Rightarrow> membership \<Rightarrow> move_line list \<Rightarrow> unit office_act" where
  "invoice_member e m ls = with_row af_id (ms_affiliate m) of_members (\<lambda>a.
     act_bind (act_read (\<lambda>st. get_invoice_partner st a)) (\<lambda>p.
     case p of
       None \<Rightarrow> act_raise (NoRecord (ms_affiliate m))
     | Some partner \<Rightarrow> act_bind (create_move e partner ls) (link_invoice (ms_id m))))"

definition membership_line :: "plan \<Rightarrow> move_line" where
  "membership_line p = \<lparr>li_product = pl_product p, li_quantity = 1, li_price = pl_fee p, li_name = PlanName (pl_name p)\<rparr>"

definition generate_membership_invoice :: "office_env \<Rightarrow> membership \<Rightarrow> unit office_act" where
  "generate_membership_invoice e m = with_row pl_id (ms_plan m) of_plans (\<lambda>p. invoice_member e m [membership_line p])"

definition late_fee_line :: "plan \<Rightarrow> nat \<Rightarrow> move_line" where
  "late_fee_line p product =
     \<lparr>li_product = product, li_quantity = 1, li_price = pl_late_fee p, li_name = LateFee (pl_name p)\<rparr>"

definition generate_late_fee_invoice :: "office_env \<Rightarrow> membership \<Rightarrow> unit office_act" where
  "generate_late_fee_invoice e m = with_row pl_id (ms_plan m) of_plans (\<lambda>p.
     case pl_late_product p of
       None \<Rightarrow> act_return ()
     | Some product \<Rightarrow> if pl_late_fee p = 0 then act_return () else invoice_member e m [late_fee_line p product])"

section \<open>Actions\<close>

definition activate_one :: "office_env \<Rightarrow> nat \<Rightarrow> unit office_act" where
  "activate_one e i = with_row ms_id i of_memberships (\<lambda>m.
     if ms_status m \<noteq> MpDraft then act_raise OnlyDraftActivated
     else act_seq (set_status i MpActive) (generate_membership_invoice e m))"

definition suspend_one :: "nat \<Rightarrow> unit office_act" where
  "suspend_one i = with_row ms_id i of_memberships (\<lambda>m.
     if ms_status m \<noteq> MpActive then act_raise OnlyActiveSuspended else set_status i MpSuspended)"

definition cancel_one :: "nat \<Rightarrow> unit office_act" where
  "cancel_one i = with_row ms_id i of_memberships (\<lambda>m.
     if ms_status m \<in> set [MpCancelled, MpExpired] then act_raise AlreadyEnded else set_status i MpCancelled)"

definition action_activate :: "office_env \<Rightarrow> nat list \<Rightarrow> unit office_act" where
  "action_activate e ids = rolled_back (for_each (activate_one e) ids)"

definition action_suspend :: "nat list \<Rightarrow> unit office_act" where
  "action_suspend ids = rolled_back (for_each suspend_one ids)"

definition action_cancel :: "nat list \<Rightarrow> unit office_act" where
  "action_cancel ids = rolled_back (for_each cancel_one ids)"

section \<open>Cron jobs\<close>

definition sells :: "nat \<Rightarrow> move \<Rightarrow> bool" where
  "sells product v \<longleftrightarrow> (\<exists>l \<in> set (mv_lines v). li_product l = product)"

definition expiring :: "date \<Rightarrow> club_office \<Rightarrow> membership \<Rightarrow> bool" where
  "expiring today st m \<longleftrightarrow>
     ms_status m = MpActive \<and>
     (case ms_end st m of None \<Rightarrow> False | Some d \<Rightarrow> d \<le> add_days 7 today \<and> today \<le> d)"

text \<open>An invoice of today or later that does not sell the late fee of the plan.\<close>

definition already_invoiced :: "date \<Rightarrow> club_office \<Rightarrow> membership \<Rightarrow> bool" where
  "already_invoiced today st m \<longleftrightarrow>
     (\<exists>v \<in> set (invoices_of st m). today \<le> mv_created v \<and>
        (case Option.bind (get_plan st m) pl_late_product of None \<Rightarrow> True | Some product \<Rightarrow> \<not> sells product v))"

definition renew_one :: "office_env \<Rightarrow> nat \<Rightarrow> unit office_act" where
  "renew_one e i = with_row ms_id i of_memberships (\<lambda>m.
     act_bind (act_read (\<lambda>st. already_invoiced (oe_today e) st m)) (\<lambda>already.
     if already then act_return () else generate_membership_invoice e m))"

definition cron_check_renewals :: "office_env \<Rightarrow> unit office_act" where
  "cron_check_renewals e = rolled_back (\<lambda>st.
     for_each (renew_one e) (map ms_id (filter (expiring (oe_today e) st) (of_memberships st))) st)"

definition ended :: "date \<Rightarrow> club_office \<Rightarrow> membership \<Rightarrow> bool" where
  "ended today st m \<longleftrightarrow>
     ms_status m \<in> set [MpActive, MpSuspended] \<and> (case ms_end st m of None \<Rightarrow> False | Some d \<Rightarrow> d \<le> today)"

definition unpaid :: "move \<Rightarrow> bool" where
  "unpaid v \<longleftrightarrow> mv_out_invoice v \<and> mv_state v = MovePosted \<and> mv_payment v \<notin> set [Paid, InPayment, Reversed]"

definition already_fined :: "club_office \<Rightarrow> membership \<Rightarrow> date \<Rightarrow> bool" where
  "already_fined st m end_date \<longleftrightarrow>
     (case Option.bind (get_plan st m) pl_late_product of
        None \<Rightarrow> False
      | Some product \<Rightarrow> \<exists>v \<in> set (invoices_of st m). mv_out_invoice v \<and> sells product v \<and> end_date < mv_created v)"

text \<open>Whether the loop goes on to the fee and the suspension.\<close>

definition overdue :: "date \<Rightarrow> club_office \<Rightarrow> membership \<Rightarrow> bool" where
  "overdue today st m \<longleftrightarrow>
     (case (ms_end st m, get_plan st m) of
        (Some d, Some p) \<Rightarrow>
          \<not> today \<le> plus_days (pl_grace p) d \<and>
          \<not> (filter unpaid (invoices_of st m) = [] \<or> ms_status m = MpSuspended) \<and>
          \<not> already_fined st m d
      | _ \<Rightarrow> False)"

definition late_fee_one :: "office_env \<Rightarrow> nat \<Rightarrow> unit office_act" where
  "late_fee_one e i = with_row ms_id i of_memberships (\<lambda>m.
     act_bind (act_read (\<lambda>st. overdue (oe_today e) st m)) (\<lambda>late.
     if \<not> late then act_return ()
     else act_seq (generate_late_fee_invoice e m) (set_status i MpSuspended)))"

definition cron_apply_late_fees :: "office_env \<Rightarrow> unit office_act" where
  "cron_apply_late_fees e = rolled_back (\<lambda>st.
     for_each (late_fee_one e) (map ms_id (filter (ended (oe_today e) st) (of_memberships st))) st)"

section \<open>What the gate sees\<close>

text \<open>The stored status of an affiliate follows its memberships; the gate reads the other fields as they are.\<close>

definition statuses_of :: "club_office \<Rightarrow> nat \<Rightarrow> plan_status list" where
  "statuses_of st i = map ms_status (filter (\<lambda>m. ms_affiliate m = i) (of_memberships st))"

definition gate_affiliate :: "club_office \<Rightarrow> member \<Rightarrow> affiliate" where
  "gate_affiliate st a = (affiliate.truncate a)\<lparr>af_status := Some (compute_membership_status (statuses_of st (af_id a)))\<rparr>"

definition gate_view :: "club_office \<Rightarrow> club \<Rightarrow> club" where
  "gate_view st c = c\<lparr>cl_affiliates := map (gate_affiliate st) (of_members st)\<rparr>"

section \<open>Steps\<close>

text \<open>Accounting changes the state and the payment of invoices, never what they sell.\<close>

definition accounted :: "club_office \<Rightarrow> club_office \<Rightarrow> bool" where
  "accounted st st' \<longleftrightarrow>
     (\<exists>vs. st' = st\<lparr>of_moves := vs\<rparr> \<and> map mv_id vs = map mv_id (of_moves st) \<and> map mv_lines vs = map mv_lines (of_moves st))"

inductive office_step :: "club_office \<Rightarrow> club_office \<Rightarrow> bool" where
  activate: "office_step st (snd (action_activate e ids st))"
| suspend: "office_step st (snd (action_suspend ids st))"
| cancel: "office_step st (snd (action_cancel ids st))"
| renew: "office_step st (snd (cron_check_renewals e st))"
| late_fees: "office_step st (snd (cron_apply_late_fees e st))"
| account: "accounted st st' \<Longrightarrow> office_step st st'"
| enrol: "ms_id m \<notin> ms_id ` set (of_memberships st) \<Longrightarrow> ms_status m = MpDraft \<Longrightarrow> ms_invoices m = [] \<Longrightarrow>
    office_step st (st\<lparr>of_memberships := of_memberships st @ [m]\<rparr>)"

definition wf_office :: "club_office \<Rightarrow> bool" where
  "wf_office st \<longleftrightarrow> distinct (map ms_id (of_memberships st)) \<and> (\<forall>v \<in> set (of_moves st). mv_id v < of_next st) \<and>
     (\<forall>m \<in> set (of_memberships st). \<forall>k \<in> set (ms_invoices m). k < of_next st)"

fun rank :: "plan_status \<Rightarrow> nat" where
  "rank MpDraft = 0"
| "rank MpActive = 1"
| "rank MpSuspended = 2"
| "rank MpCancelled = 3"
| "rank MpExpired = 3"

definition is_fee :: "move \<Rightarrow> bool" where
  "is_fee v \<longleftrightarrow> (\<exists>l \<in> set (mv_lines v). case li_name l of LateFee n \<Rightarrow> True | PlanName n \<Rightarrow> False)"

definition late_fees :: "club_office \<Rightarrow> membership \<Rightarrow> move list" where
  "late_fees st m = filter is_fee (invoices_of st m)"

definition fee_ok :: "club_office \<Rightarrow> membership \<Rightarrow> bool" where
  "fee_ok st m \<longleftrightarrow> length (late_fees st m) \<le> 1 \<and> (ms_status m \<in> {MpDraft, MpActive} \<longrightarrow> late_fees st m = [])"

definition row_later :: "club_office \<Rightarrow> membership \<Rightarrow> club_office \<Rightarrow> membership \<Rightarrow> bool" where
  "row_later st m st' m' \<longleftrightarrow>
     rank (ms_status m) \<le> rank (ms_status m') \<and> (ms_status m' = MpExpired \<longleftrightarrow> ms_status m = MpExpired) \<and>
     (fee_ok st m \<longrightarrow> fee_ok st' m')"

definition later :: "club_office \<Rightarrow> club_office \<Rightarrow> bool" where
  "later st st' \<longleftrightarrow> wf_office st' \<and> map ms_id (of_memberships st') = map ms_id (of_memberships st) \<and>
     (\<forall>i m. get_ms i st = Some m \<longrightarrow> (\<exists>m'. get_ms i st' = Some m' \<and> row_later st m st' m'))"

lemma later_refl: "wf_office st \<Longrightarrow> later st st"
  by (simp add: later_def row_later_def)

lemma row_later_trans: "row_later s1 m1 s2 m2 \<Longrightarrow> row_later s2 m2 s3 m3 \<Longrightarrow> row_later s1 m1 s3 m3"
  by (simp add: row_later_def)

lemma later_trans: "later s1 s2 \<Longrightarrow> later s2 s3 \<Longrightarrow> later s1 s3"
  unfolding later_def by (metis row_later_trans)

lemma later_wf: "later st st' \<Longrightarrow> wf_office st'"
  by (simp add: later_def)

text \<open>Every operation on one membership gives it a status, or none, and new invoices.\<close>

definition touch :: "nat \<Rightarrow> plan_status option \<Rightarrow> move list \<Rightarrow> club_office \<Rightarrow> club_office" where
  "touch i s vs st = st\<lparr>of_moves := of_moves st @ vs, of_next := of_next st + length vs,
     of_memberships := row_upd ms_id i (\<lambda>m. m\<lparr>ms_status := (case s of None \<Rightarrow> ms_status m | Some x \<Rightarrow> x),
       ms_invoices := ms_invoices m @ map mv_id vs\<rparr>) (of_memberships st)\<rparr>"

definition fresh :: "move list \<Rightarrow> club_office \<Rightarrow> bool" where
  "fresh vs st \<longleftrightarrow> map mv_id vs = [of_next st..<of_next st + length vs]"

lemma fresh_simps: "fresh [] st" "fresh [v] st \<longleftrightarrow> mv_id v = of_next st"
  by (simp_all add: fresh_def)

lemma fresh_ids: "fresh vs st \<Longrightarrow> v \<in> set vs \<Longrightarrow> of_next st \<le> mv_id v \<and> mv_id v < of_next st + length vs"
proof -
  assume a: "fresh vs st" "v \<in> set vs"
  then have "mv_id v \<in> set (map mv_id vs)" by simp
  then show ?thesis using a(1) unfolding fresh_def by simp
qed

lemma touch_sel [simp]:
  "of_members (touch i s vs st) = of_members st" "of_families (touch i s vs st) = of_families st"
  "of_corporates (touch i s vs st) = of_corporates st" "of_plans (touch i s vs st) = of_plans st"
  "map ms_id (of_memberships (touch i s vs st)) = map ms_id (of_memberships st)"
  by (simp_all add: touch_def map_key_row_upd)

lemma get_ms_touch:
  "get_ms k (touch i s vs st) =
     (if k = i then map_option (\<lambda>m. m\<lparr>ms_status := (case s of None \<Rightarrow> ms_status m | Some x \<Rightarrow> x),
        ms_invoices := ms_invoices m @ map mv_id vs\<rparr>) (get_ms i st) else get_ms k st)"
  by (simp add: get_ms_def touch_def row_get_upd_same row_get_upd_other)

lemma wf_touch: "wf_office st \<Longrightarrow> fresh vs st \<Longrightarrow> wf_office (touch i s vs st)"
  using fresh_ids [of vs st] unfolding wf_office_def touch_def
  by (auto simp: map_key_row_upd in_set_row_upd trans_less_add1 split: if_splits)

lemma get_ms_in: "get_ms i st = Some m \<Longrightarrow> m \<in> set (of_memberships st) \<and> ms_id m = i"
  unfolding get_ms_def by (rule row_get_in_set)

lemma invoices_of_touch_other:
  assumes "wf_office st" "fresh vs st" "m \<in> set (of_memberships st)"
  shows "invoices_of (touch i s vs st) m = invoices_of st m"
proof -
  have "\<forall>k \<in> set (ms_invoices m). k < of_next st" using assms(1,3) by (simp add: wf_office_def)
  then have "filter (\<lambda>v. mv_id v \<in> set (ms_invoices m)) vs = []"
    using fresh_ids [OF assms(2)] by (force simp: filter_empty_conv)
  then show ?thesis by (simp add: invoices_of_def touch_def)
qed

lemma invoices_of_touch_same:
  assumes "wf_office st" "fresh vs st"
  shows "invoices_of (touch i s vs st) (m\<lparr>ms_status := t, ms_invoices := ms_invoices m @ map mv_id vs\<rparr>) = invoices_of st m @ vs"
proof -
  have "mv_id v \<notin> mv_id ` set vs" if "v \<in> set (of_moves st)" for v
    using that assms fresh_ids [OF assms(2)] unfolding wf_office_def by fastforce
  then have "filter (\<lambda>v. mv_id v \<in> set (ms_invoices m) \<or> mv_id v \<in> mv_id ` set vs) (of_moves st)
      = filter (\<lambda>v. mv_id v \<in> set (ms_invoices m)) (of_moves st)" by (intro filter_cong) auto
  moreover have "filter (\<lambda>v. mv_id v \<in> set (ms_invoices m) \<or> mv_id v \<in> mv_id ` set vs) vs = vs" by simp
  ultimately show ?thesis by (simp add: invoices_of_def touch_def)
qed

lemma later_touch:
  assumes "wf_office st" "fresh vs st" "get_ms i st = Some m"
    and "rank (ms_status m) \<le> rank (case s of None \<Rightarrow> ms_status m | Some x \<Rightarrow> x)"
    and "s \<noteq> Some MpExpired" "s = None \<or> ms_status m \<noteq> MpExpired"
    and "filter is_fee vs = [] \<or> ms_status m \<in> {MpDraft, MpActive} \<and> s = Some MpSuspended \<and> length vs = 1"
  shows "later st (touch i s vs st)"
proof -
  have "\<exists>m'. get_ms k (touch i s vs st) = Some m' \<and> row_later st n (touch i s vs st) m'" if n: "get_ms k st = Some n" for k n
  proof (cases "k = i")
    case True
    with n assms(3) have "n = m" by simp
    moreover have fees: "late_fees (touch i s vs st) (m\<lparr>ms_status := t, ms_invoices := ms_invoices m @ map mv_id vs\<rparr>) =
        late_fees st m @ filter is_fee vs" for t
      by (simp add: late_fees_def invoices_of_touch_same [OF assms(1,2)])
    moreover have "late_fees (touch i s vs st) (m\<lparr>ms_invoices := ms_invoices m @ map mv_id vs\<rparr>) = late_fees st m @ filter is_fee vs"
      using fees [of "ms_status m"] by (cases m) simp
    moreover have "length vs = 1 \<Longrightarrow> length (filter is_fee vs) \<le> 1" using length_filter_le [of is_fee vs] by simp
    ultimately show ?thesis using True assms(3-7)
      by (cases "ms_status m") (auto simp: get_ms_touch row_later_def fee_ok_def split: option.splits)
  next
    case False
    with n have "late_fees (touch i s vs st) n = late_fees st n"
      using invoices_of_touch_other [OF assms(1,2)] get_ms_in [OF n] by (simp add: late_fees_def)
    with False n show ?thesis by (simp add: get_ms_touch row_later_def fee_ok_def)
  qed
  moreover have "map ms_id (of_memberships (touch i s vs st)) = map ms_id (of_memberships st)"
    by (simp add: touch_def map_key_row_upd)
  ultimately show ?thesis using wf_touch [OF assms(1,2)] by (simp add: later_def)
qed

section \<open>The operations as touches\<close>

definition sold :: "office_env \<Rightarrow> nat \<Rightarrow> nat \<Rightarrow> move_line list \<Rightarrow> move" where
  "sold e k partner ls = \<lparr>mv_id = k, mv_out_invoice = True, mv_partner = partner, mv_lines = ls,
     mv_created = oe_today e, mv_state = MoveDraft, mv_payment = NotPaid\<rparr>"

lemma sold_simps [simp]:
  "mv_id (sold e k q ls) = k" "mv_lines (sold e k q ls) = ls" "mv_created (sold e k q ls) = oe_today e"
  by (simp_all add: sold_def)

lemma set_status_touch: "set_status i t st = (Inr (), touch i (Some t) [] st)"
proof -
  have "(\<lambda>m. m\<lparr>ms_status := t\<rparr>) = (\<lambda>m. m\<lparr>ms_status := t, ms_invoices := ms_invoices m\<rparr>)" by (intro ext) simp
  then show ?thesis by (simp add: set_status_def write_ms_def touch_def)
qed

lemma touch_touch:
  "touch i (Some t) [] (touch i None vs st) = touch i (Some t) vs st"
  "touch i None vs (touch i (Some t) [] st) = touch i (Some t) vs st"
  by (simp_all add: touch_def row_upd_def comp_def if_distrib [of ms_id] cong: if_cong)

lemma invoice_member_cases:
  "(\<exists>x. invoice_member e m ls st = (Inl x, st)) \<or>
   (\<exists>partner. invoice_member e m ls st = (Inr (), touch (ms_id m) None [sold e (of_next st) partner ls] st))"
proof (cases "\<exists>a q. row_get af_id (ms_affiliate m) (of_members st) = Some a \<and> get_invoice_partner st a = Some q \<and> oe_refused e q ls = None")
  case True
  then show ?thesis
    by (auto simp: invoice_member_def with_row_def create_move_def link_invoice_def write_ms_def touch_def sold_def)
next
  case False
  then show ?thesis
    by (auto simp: invoice_member_def with_row_def create_move_def split: option.splits)
qed

lemma membership_invoice_cases:
  "(\<exists>x. generate_membership_invoice e m st = (Inl x, st)) \<or>
   (\<exists>p partner. get_plan st m = Some p \<and> generate_membership_invoice e m st =
      (Inr (), touch (ms_id m) None [sold e (of_next st) partner [membership_line p]] st))"
proof (cases "get_plan st m")
  case None
  then show ?thesis by (simp add: generate_membership_invoice_def with_row_def get_plan_def)
next
  case (Some p)
  then have "generate_membership_invoice e m st = invoice_member e m [membership_line p] st"
    by (simp add: generate_membership_invoice_def with_row_def get_plan_def)
  then show ?thesis using invoice_member_cases [of e m "[membership_line p]" st] Some by simp
qed

lemma late_invoice_cases:
  "(\<exists>x. generate_late_fee_invoice e m st = (Inl x, st)) \<or> generate_late_fee_invoice e m st = (Inr (), st) \<or>
   (\<exists>v. mv_id v = of_next st \<and> generate_late_fee_invoice e m st = (Inr (), touch (ms_id m) None [v] st))"
proof (cases "\<exists>p k. get_plan st m = Some p \<and> pl_late_product p = Some k \<and> pl_late_fee p \<noteq> 0")
  case True
  then obtain p k where "get_plan st m = Some p" "pl_late_product p = Some k" "pl_late_fee p \<noteq> 0" by blast
  then have "generate_late_fee_invoice e m st = invoice_member e m [late_fee_line p k] st"
    by (simp add: generate_late_fee_invoice_def with_row_def get_plan_def)
  then show ?thesis using invoice_member_cases [of e m "[late_fee_line p k]" st] by (metis sold_simps(1))
next
  case False
  then show ?thesis by (auto simp: generate_late_fee_invoice_def with_row_def get_plan_def split: option.splits)
qed

lemma not_fee_membership: "\<not> is_fee (sold e k partner [membership_line p])"
  by (simp add: is_fee_def sold_def membership_line_def)

lemma activate_one_later:
  assumes "wf_office st"
  shows "later st (snd (activate_one e i st))"
proof (cases "\<exists>m. get_ms i st = Some m \<and> ms_status m = MpDraft")
  case False
  then have "snd (activate_one e i st) = st" by (auto simp: activate_one_def with_row_def get_ms_def split: option.splits)
  then show ?thesis using assms by (simp add: later_refl)
next
  case True
  then obtain m where m: "get_ms i st = Some m" "ms_status m = MpDraft" by blast
  let ?s = "touch i (Some MpActive) [] st"
  have "ms_id m = i" using get_ms_in [OF m(1)] by simp
  then have "snd (activate_one e i st) \<in> {?s} \<union> {touch i (Some MpActive) [sold e (of_next st) q [membership_line p]] st | p q. True}"
    using membership_invoice_cases [of e m ?s] m
    by (auto simp: activate_one_def with_row_def get_ms_def set_status_touch touch_touch) (auto simp: touch_def)
  then show ?thesis using assms m
    by (auto simp: fresh_simps not_fee_membership intro!: later_touch)
qed

lemma status_one_later:
  assumes "wf_office st" "get_ms i st = Some m" "rank (ms_status m) < 3" "rank (ms_status m) \<le> rank t" "t \<noteq> MpExpired"
  shows "later st (snd (set_status i t st))"
  using assms by (auto simp: set_status_touch fresh_simps intro!: later_touch)

lemma suspend_one_later: "wf_office st \<Longrightarrow> later st (snd (suspend_one i st))"
  by (auto simp: suspend_one_def with_row_def later_refl intro!: status_one_later split: option.split simp flip: get_ms_def)

lemma cancel_one_later:
  assumes "wf_office st"
  shows "later st (snd (cancel_one i st))"
proof (cases "\<exists>m. get_ms i st = Some m \<and> rank (ms_status m) < 3")
  case True
  then obtain m where m: "get_ms i st = Some m" "rank (ms_status m) < 3" by blast
  then have "snd (cancel_one i st) = snd (set_status i MpCancelled st)"
    by (cases "ms_status m") (auto simp: cancel_one_def with_row_def simp flip: get_ms_def)
  with m assms show ?thesis by (auto intro!: status_one_later)
next
  case False
  then have "ms_status m \<in> {MpCancelled, MpExpired}" if "get_ms i st = Some m" for m
    using that by (cases "ms_status m") auto
  then have "snd (cancel_one i st) = st"
    by (auto simp: cancel_one_def with_row_def split: option.split simp flip: get_ms_def)
  with assms show ?thesis by (simp add: later_refl)
qed

lemma renew_one_cases:
  "snd (renew_one e i st) = st \<or>
   (\<exists>m p q. get_ms i st = Some m \<and> get_plan st m = Some p \<and> \<not> already_invoiced (oe_today e) st m \<and>
      renew_one e i st = (Inr (), touch i None [sold e (of_next st) q [membership_line p]] st))"
proof (cases "\<exists>m. get_ms i st = Some m \<and> \<not> already_invoiced (oe_today e) st m")
  case True
  then obtain m where m: "get_ms i st = Some m" "\<not> already_invoiced (oe_today e) st m" by blast
  then have "renew_one e i st = generate_membership_invoice e m st"
    by (simp add: renew_one_def with_row_def flip: get_ms_def)
  moreover have "ms_id m = i" using get_ms_in [OF m(1)] by simp
  ultimately show ?thesis using membership_invoice_cases [of e m st] m by auto
next
  case False
  then show ?thesis by (auto simp: renew_one_def with_row_def split: option.split simp flip: get_ms_def)
qed

lemma renew_one_later: "wf_office st \<Longrightarrow> later st (snd (renew_one e i st))"
  using renew_one_cases [of e i st] by (auto simp: later_refl fresh_simps not_fee_membership intro!: later_touch)

lemma late_fee_one_cases:
  "snd (late_fee_one e i st) = st \<or>
   (\<exists>m vs. get_ms i st = Some m \<and> overdue (oe_today e) st m \<and> fresh vs st \<and> length vs \<le> 1 \<and>
      late_fee_one e i st = (Inr (), touch i (Some MpSuspended) vs st))"
proof (cases "\<exists>m. get_ms i st = Some m \<and> overdue (oe_today e) st m")
  case True
  then obtain m where m: "get_ms i st = Some m" "overdue (oe_today e) st m" by blast
  then have run: "late_fee_one e i st = act_seq (generate_late_fee_invoice e m) (set_status i MpSuspended) st"
    by (simp add: late_fee_one_def with_row_def flip: get_ms_def)
  have "ms_id m = i" using get_ms_in [OF m(1)] by simp
  with late_invoice_cases [of e m st] show ?thesis
  proof (elim disjE exE conjE)
    fix x
    assume "generate_late_fee_invoice e m st = (Inl x, st)"
    with run show ?thesis by simp
  next
    assume "generate_late_fee_invoice e m st = (Inr (), st)"
    with run have "late_fee_one e i st = (Inr (), touch i (Some MpSuspended) [] st)" by (simp add: set_status_touch)
    with m show ?thesis by (intro disjI2 exI [of _ m] exI [of _ "[]"]) (simp add: fresh_simps)
  next
    fix v
    assume v: "mv_id v = of_next st" "generate_late_fee_invoice e m st = (Inr (), touch (ms_id m) None [v] st)"
    with run \<open>ms_id m = i\<close> have "late_fee_one e i st = (Inr (), touch i (Some MpSuspended) [v] st)"
      by (simp add: set_status_touch touch_touch)
    with m v(1) show ?thesis by (intro disjI2 exI [of _ m] exI [of _ "[v]"]) (simp add: fresh_simps)
  qed
next
  case False
  then show ?thesis by (auto simp: late_fee_one_def with_row_def split: option.split simp flip: get_ms_def)
qed

section \<open>Every step moves memberships forward\<close>

lemma for_each_later:
  assumes "\<And>i s. wf_office s \<Longrightarrow> later s (snd (f i s))" "wf_office st"
  shows "later st (snd (for_each f ids st))"
  by (rule for_each_inv [where I = "later st"]) (use assms later_refl later_trans later_wf in \<open>blast+\<close>)

lemma for_each_later_on:
  assumes "\<And>i s. wf_office s \<Longrightarrow> Q i s \<Longrightarrow> later s (snd (f i s))"
    and "\<And>i j s. i \<noteq> j \<Longrightarrow> Q j s \<Longrightarrow> Q j (snd (f i s))"
    and "distinct ids" "\<forall>i \<in> set ids. Q i st" "wf_office st"
  shows "later st (snd (for_each f ids st))"
  using assms(3-5)
proof (induction ids arbitrary: st)
  case Nil
  then show ?case by (simp add: later_refl)
next
  case (Cons i ids)
  obtain x s where f: "f i st = (x, s)" by fastforce
  have step: "later st s" using assms(1) [of st i] Cons.prems f by simp
  have "Q j s" if "j \<in> set ids" for j using assms(2) [of i j st] Cons.prems f that by (cases "i = j") auto
  with Cons.IH [of s] Cons.prems step have "later s (snd (for_each f ids s))" by (simp add: later_wf)
  with step f show ?case by (cases x) (auto intro: later_trans)
qed

lemma rolled_back_later: "wf_office st \<Longrightarrow> later st (snd (m st)) \<Longrightarrow> later st (snd (rolled_back m st))"
  using rolled_back_inv [of "later st" st m] by (simp add: later_refl)

definition running :: "nat \<Rightarrow> club_office \<Rightarrow> bool" where
  "running i st \<longleftrightarrow> (\<exists>m. get_ms i st = Some m \<and> ms_status m \<in> {MpActive, MpSuspended})"

lemma late_fee_one_later:
  assumes "wf_office st" "running i st"
  shows "later st (snd (late_fee_one e i st))"
proof -
  have "later st (touch i (Some MpSuspended) vs st)"
    if "get_ms i st = Some m" "overdue (oe_today e) st m" "fresh vs st" "length vs \<le> 1" for m vs
  proof -
    have "ms_status m = MpActive"
      using that(1,2) assms(2) by (auto simp: overdue_def running_def split: option.splits)
    moreover have "filter is_fee vs = [] \<or> length vs = 1" using that(4) by (cases vs) auto
    ultimately show ?thesis using that assms(1) by (auto intro!: later_touch)
  qed
  with late_fee_one_cases [of e i st] assms(1) show ?thesis by (auto simp: later_refl)
qed

lemma late_fee_one_running: "i \<noteq> j \<Longrightarrow> running j st \<Longrightarrow> running j (snd (late_fee_one e i st))"
  using late_fee_one_cases [of e i st] by (auto simp: running_def get_ms_touch)

lemma searched_ids:
  assumes "wf_office st"
  shows "distinct (map ms_id (filter P (of_memberships st)))"
    and "i \<in> set (map ms_id (filter P (of_memberships st))) \<Longrightarrow> \<exists>m. get_ms i st = Some m \<and> P m"
proof -
  have d: "distinct (map ms_id (of_memberships st))" using assms by (simp add: wf_office_def)
  then show "distinct (map ms_id (filter P (of_memberships st)))" by (rule distinct_map_filter)
  show "\<exists>m. get_ms i st = Some m \<and> P m" if "i \<in> set (map ms_id (filter P (of_memberships st)))"
    using that row_get_distinct [OF d] by (auto simp: get_ms_def)
qed

lemma late_fees_later: "wf_office st \<Longrightarrow> later st (snd (cron_apply_late_fees e st))"
  unfolding cron_apply_late_fees_def
proof (rule rolled_back_later, assumption)
  assume wf: "wf_office st"
  have "running i st" if "i \<in> set (map ms_id (filter (ended (oe_today e) st) (of_memberships st)))" for i
    using searched_ids(2) [OF wf that] by (auto simp: running_def ended_def)
  then show "later st (snd (for_each (late_fee_one e) (map ms_id (filter (ended (oe_today e) st) (of_memberships st))) st))"
    using searched_ids(1) [OF wf] wf
    by (intro for_each_later_on [where Q = running] late_fee_one_later late_fee_one_running) auto
qed

lemma accounted_later:
  assumes "wf_office st" "accounted st st'"
  shows "later st st'"
proof -
  from assms(2) obtain vs where vs: "st' = st\<lparr>of_moves := vs\<rparr>" "map mv_id vs = map mv_id (of_moves st)"
    "map mv_lines vs = map mv_lines (of_moves st)" by (auto simp: accounted_def)
  have "length (filter is_fee (filter (\<lambda>v. mv_id v \<in> A) vs)) = length (filter is_fee (filter (\<lambda>v. mv_id v \<in> A) ws))"
    if "map mv_id vs = map mv_id ws" "map mv_lines vs = map mv_lines ws" for A ws
    using that
  proof (induction vs arbitrary: ws)
    case (Cons v vs)
    then show ?case by (cases ws) (auto simp: is_fee_def)
  qed simp
  then have n: "length (late_fees st' m) = length (late_fees st m)" for m
    using vs by (simp add: late_fees_def invoices_of_def)
  then have "late_fees st' m = [] \<longleftrightarrow> late_fees st m = []" for m by (metis length_0_conv)
  moreover have "\<forall>v \<in> set vs. mv_id v < of_next st"
  proof
    fix v
    assume "v \<in> set vs"
    then have "mv_id v \<in> set (map mv_id (of_moves st))" unfolding vs(2) [symmetric] by simp
    with assms(1) show "mv_id v < of_next st" by (auto simp: wf_office_def)
  qed
  moreover have "get_ms i st' = get_ms i st" for i using vs(1) by (simp add: get_ms_def)
  ultimately show ?thesis using vs(1) assms(1) n by (simp add: later_def row_later_def fee_ok_def wf_office_def)
qed

text \<open>A step may also add a row; every row there was has moved on.\<close>

definition onward :: "club_office \<Rightarrow> club_office \<Rightarrow> bool" where
  "onward st st' \<longleftrightarrow> wf_office st' \<and> (\<forall>i m. get_ms i st = Some m \<longrightarrow> (\<exists>m'. get_ms i st' = Some m' \<and> row_later st m st' m')) \<and>
     (\<forall>i m'. get_ms i st' = Some m' \<longrightarrow> get_ms i st \<noteq> None \<or> fee_ok st' m')"

lemma later_onward: "later st st' \<Longrightarrow> onward st st'"
  using row_get_None [of ms_id] unfolding later_def onward_def get_ms_def
  by (metis image_set option.distinct(1))

lemma onward_trans:
  assumes a: "onward s1 s2" and b: "onward s2 s3"
  shows "onward s1 s3"
  unfolding onward_def
proof (intro conjI allI impI)
  show "wf_office s3" using b by (simp add: onward_def)
  fix i m
  assume "get_ms i s1 = Some m"
  with a obtain m2 where m2: "get_ms i s2 = Some m2" "row_later s1 m s2 m2" unfolding onward_def by blast
  with b obtain m3 where "get_ms i s3 = Some m3" "row_later s2 m2 s3 m3" unfolding onward_def by blast
  with m2 show "\<exists>m'. get_ms i s3 = Some m' \<and> row_later s1 m s3 m'" using row_later_trans by blast
next
  fix i m3
  assume m3: "get_ms i s3 = Some m3"
  show "get_ms i s1 \<noteq> None \<or> fee_ok s3 m3"
  proof (cases "get_ms i s2")
    case None
    with b m3 have "fee_ok s3 m3" unfolding onward_def by metis
    then show ?thesis ..
  next
    case (Some m2)
    with b m3 have "row_later s2 m2 s3 m3" unfolding onward_def by (metis option.inject)
    moreover have "get_ms i s1 \<noteq> None \<or> fee_ok s2 m2" using a Some unfolding onward_def by blast
    ultimately show ?thesis by (auto simp: row_later_def)
  qed
qed

lemma enrol_onward:
  assumes "wf_office st" "ms_id m \<notin> ms_id ` set (of_memberships st)" "ms_status m = MpDraft" "ms_invoices m = []"
  shows "onward st (st\<lparr>of_memberships := of_memberships st @ [m]\<rparr>)"
proof -
  let ?s = "st\<lparr>of_memberships := of_memberships st @ [m]\<rparr>"
  have fees: "late_fees ?s n = late_fees st n" for n by (simp add: late_fees_def invoices_of_def)
  have get: "get_ms i ?s = (case get_ms i st of None \<Rightarrow> (if ms_id m = i then Some m else None) | Some n \<Rightarrow> Some n)" for i
    by (simp add: get_ms_def row_get_append row_simps split: option.split)
  have "wf_office ?s" using assms by (auto simp: wf_office_def)
  moreover have "fee_ok ?s m" using assms(4) by (simp add: fee_ok_def late_fees_def invoices_of_def)
  ultimately show ?thesis
    by (auto simp: onward_def get row_later_def fee_ok_def fees split: option.splits if_splits)
qed

lemma office_step_onward: "office_step st st' \<Longrightarrow> wf_office st \<Longrightarrow> onward st st'"
proof (induction rule: office_step.induct)
  case (activate st e ids)
  then show ?case unfolding action_activate_def
    by (intro later_onward rolled_back_later for_each_later activate_one_later)
next
  case (suspend st ids)
  then show ?case unfolding action_suspend_def
    by (intro later_onward rolled_back_later for_each_later suspend_one_later)
next
  case (cancel st ids)
  then show ?case unfolding action_cancel_def
    by (intro later_onward rolled_back_later for_each_later cancel_one_later)
next
  case (renew st e)
  then show ?case unfolding cron_check_renewals_def
    by (intro later_onward rolled_back_later for_each_later renew_one_later)
next
  case (late_fees st e)
  then show ?case by (intro later_onward late_fees_later)
next
  case (account st st')
  then show ?case by (intro later_onward accounted_later)
next
  case (enrol m st)
  then show ?case by (intro enrol_onward)
qed

lemma office_steps_onward: "office_step\<^sup>*\<^sup>* st st' \<Longrightarrow> wf_office st \<Longrightarrow> onward st st'"
proof (induction rule: rtranclp_induct)
  case base
  then show ?case by (intro later_onward later_refl)
next
  case (step y z)
  then have "wf_office y" by (simp add: onward_def)
  with step show ?case using office_step_onward onward_trans by blast
qed

section \<open>Properties of the life cycle\<close>

text \<open>
  C18: A membership only moves forward: whatever actions, cron jobs and accounting happen, its status
  goes from draft over active and suspended to cancelled and never back, so that no suspended
  member is ever active again, and none becomes expired.
\<close>

theorem membership_moves_forward:
  assumes "office_step\<^sup>*\<^sup>* st st'" "wf_office st" "get_ms i st = Some m"
  shows "\<exists>m'. get_ms i st' = Some m' \<and> rank (ms_status m) \<le> rank (ms_status m') \<and>
    (ms_status m' = MpExpired \<longleftrightarrow> ms_status m = MpExpired)"
  using office_steps_onward [OF assms(1,2)] assms(3) unfolding onward_def row_later_def by blast

text \<open>
  A membership that starts without a late fee is fined at most once, and only on its way into
  suspension, however often the cron jobs run and whatever is paid or reversed in between.
\<close>

theorem late_fee_at_most_once:
  assumes "office_step\<^sup>*\<^sup>* st st'" "wf_office st" "get_ms i st' = Some m'"
    and "\<And>m. get_ms i st = Some m \<Longrightarrow> late_fees st m = []"
  shows "length (late_fees st' m') \<le> 1 \<and> (ms_status m' \<in> {MpDraft, MpActive} \<longrightarrow> late_fees st' m' = [])"
proof -
  have "fee_ok st m" if "get_ms i st = Some m" for m using assms(4) [OF that] by (simp add: fee_ok_def)
  then have "fee_ok st' m'"
    using office_steps_onward [OF assms(1,2)] assms(3) unfolding onward_def row_later_def by (metis option.exhaust option.inject)
  then show ?thesis by (simp add: fee_ok_def)
qed

section \<open>Renewals\<close>

text \<open>What a renewal of one membership leaves of the others, and of what decides about it.\<close>

lemma get_plan_touch [simp]:
  "get_plan (touch i s vs st) m = get_plan st m"
  "get_plan st (m\<lparr>ms_status := t, ms_invoices := ks\<rparr>) = get_plan st m" "get_plan st (m\<lparr>ms_invoices := ks\<rparr>) = get_plan st m"
  "get_plan st (m\<lparr>ms_status := t\<rparr>) = get_plan st m"
  by (simp_all add: get_plan_def touch_def)

lemma ms_end_touch [simp]: "ms_end (touch i s vs st) m = ms_end st m"
  by (simp add: ms_end_def)

lemma already_touch_other:
  assumes "wf_office st" "fresh vs st" "m \<in> set (of_memberships st)"
  shows "already_invoiced d (touch i s vs st) m \<longleftrightarrow> already_invoiced d st m"
  by (simp add: already_invoiced_def invoices_of_touch_other [OF assms])

definition done_today :: "date \<Rightarrow> nat \<Rightarrow> club_office \<Rightarrow> bool" where
  "done_today d i st \<longleftrightarrow> (\<forall>m. get_ms i st = Some m \<longrightarrow> already_invoiced d st m)"

definition fee_apart :: "club_office \<Rightarrow> bool" where
  "fee_apart st \<longleftrightarrow> (\<forall>p \<in> set (of_plans st). pl_late_product p \<noteq> Some (pl_product p))"

lemma fresh_sold [simp]: "fresh [sold e (of_next st) q ls] st"
  by (simp add: fresh_simps)

lemma renew_one_done_other:
  assumes "wf_office st" "done_today d j st" "i \<noteq> j"
  shows "done_today d j (snd (renew_one e i st))"
  using renew_one_cases [of e i st] assms
  by (auto simp: done_today_def get_ms_touch) (metis already_touch_other fresh_sold get_ms_in)

lemma renew_one_done:
  assumes "wf_office st" "fee_apart st" "renew_one e i st = (Inr (), st')"
  shows "done_today (oe_today e) i st'"
proof (cases "\<exists>m. get_ms i st = Some m \<and> \<not> already_invoiced (oe_today e) st m")
  case False
  with assms(3) have "st' = st" using renew_one_cases [of e i st] by auto
  with False show ?thesis by (auto simp: done_today_def)
next
  case True
  then obtain m where m: "get_ms i st = Some m" "\<not> already_invoiced (oe_today e) st m" by blast
  have run: "renew_one e i st = generate_membership_invoice e m st"
    using m by (simp add: renew_one_def with_row_def flip: get_ms_def)
  have i: "ms_id m = i" using get_ms_in [OF m(1)] by simp
  from membership_invoice_cases [of e m st] assms(3) run i obtain p q where p: "get_plan st m = Some p"
    "st' = touch i None [sold e (of_next st) q [membership_line p]] st" by auto
  let ?v = "sold e (of_next st) q [membership_line p]"
  have "pl_late_product p \<noteq> Some (pl_product p)"
    using assms(2) p(1) row_get_in_set unfolding get_plan_def fee_apart_def by fastforce
  then have "already_invoiced (oe_today e) st' (m\<lparr>ms_status := t, ms_invoices := ms_invoices m @ map mv_id [?v]\<rparr>)" for t
    unfolding already_invoiced_def p(2) invoices_of_touch_same [OF assms(1) fresh_sold]
    using p(1) by (auto simp: sells_def membership_line_def split: option.split)
  from this [of "ms_status m"] show ?thesis
    using m(1) p(2) by (simp add: done_today_def get_ms_touch)
qed

lemma renew_one_plans [simp]: "of_plans (snd (renew_one e i st)) = of_plans st"
  using renew_one_cases [of e i st] by (auto simp: touch_def)

lemma renewals_done:
  assumes "wf_office st" "fee_apart st" "distinct ids" "for_each (renew_one e) ids st = (Inr (), st')"
  shows "\<forall>i \<in> set ids. done_today (oe_today e) i st'"
proof -
  have keep: "done_today (oe_today e) j (snd (for_each (renew_one e) ids st))"
    if "done_today (oe_today e) j st" "j \<notin> set ids" "wf_office st" for j ids st
  proof -
    have "done_today (oe_today e) j (snd (for_each (renew_one e) ids st)) \<and> wf_office (snd (for_each (renew_one e) ids st))"
    proof (rule for_each_inv)
      fix i s
      assume i: "i \<in> set ids" and s: "done_today (oe_today e) j s \<and> wf_office s"
      with that(2) have "i \<noteq> j" by blast
      with s renew_one_done_other show "done_today (oe_today e) j (snd (renew_one e i s)) \<and> wf_office (snd (renew_one e i s))"
        using later_wf [OF renew_one_later] by blast
    qed (use that in simp)
    then show ?thesis ..
  qed
  show ?thesis using assms
  proof (induction ids arbitrary: st)
    case (Cons i ids)
    obtain x s where f: "renew_one e i st = (x, s)" by fastforce
    with Cons.prems(4) have x: "x = Inr ()" and rest: "for_each (renew_one e) ids s = (Inr (), st')"
      by (auto split: sum.splits)
    have wf: "wf_office s" using later_wf [OF renew_one_later [OF Cons.prems(1), of e i]] f by simp
    have "fee_apart s" using Cons.prems(2) renew_one_plans [of e i st] f by (simp add: fee_apart_def)
    from Cons.IH [OF wf this _ rest] Cons.prems(3) have "\<forall>i \<in> set ids. done_today (oe_today e) i st'" by simp
    moreover have "done_today (oe_today e) i st'"
      using keep [OF renew_one_done [OF Cons.prems(1,2) f [unfolded x]], of ids] Cons.prems(3) wf rest by simp
    ultimately show ?case by simp
  qed simp
qed

text \<open>The search of the second run finds what the first one found.\<close>

definition same_dates :: "club_office \<Rightarrow> club_office \<Rightarrow> bool" where
  "same_dates st st' \<longleftrightarrow> of_plans st' = of_plans st \<and>
     map (\<lambda>m. (ms_id m, ms_status m, ms_plan m, ms_start m)) (of_memberships st') =
     map (\<lambda>m. (ms_id m, ms_status m, ms_plan m, ms_start m)) (of_memberships st)"

lemma renew_one_dates: "same_dates st (snd (renew_one e i st))"
  using renew_one_cases [of e i st] by (auto simp: same_dates_def touch_def row_upd_def)

lemma expiring_dates: "same_dates st st' \<Longrightarrow>
  map ms_id (filter (expiring d st') (of_memberships st')) = map ms_id (filter (expiring d st) (of_memberships st))"
proof -
  have "map ms_id (filter (expiring d st') ms') = map ms_id (filter (expiring d st) ms)"
    if "of_plans st' = of_plans st" "map (\<lambda>m. (ms_id m, ms_status m, ms_plan m, ms_start m)) ms' =
      map (\<lambda>m. (ms_id m, ms_status m, ms_plan m, ms_start m)) ms" for ms ms'
    using that(2)
  proof (induction ms' arbitrary: ms)
    case (Cons m' ms')
    then show ?case using that(1) by (cases ms) (auto simp: expiring_def ms_end_def get_plan_def)
  qed simp
  then show "same_dates st st' \<Longrightarrow> ?thesis" by (simp add: same_dates_def)
qed

lemma renew_done_no_change: "done_today (oe_today e) i st \<Longrightarrow> get_ms i st \<noteq> None \<Longrightarrow> renew_one e i st = (Inr (), st)"
  by (auto simp: renew_one_def with_row_def done_today_def simp flip: get_ms_def)

lemma for_each_no_change: "(\<And>i. i \<in> set ids \<Longrightarrow> f i st = (Inr (), st)) \<Longrightarrow> for_each f ids st = (Inr (), st)"
  by (induction ids) auto

text \<open>
  On one day the renewal job is idempotent: running it again after it has run, however often,
  is the same as running it once, as long as no plan sells its membership and its late fee as the
  same product.
\<close>

theorem renewals_once_a_day:
  assumes "wf_office st" "fee_apart st"
  shows "((\<lambda>s. snd (cron_check_renewals e s)) ^^ Suc n) st = snd (cron_check_renewals e st)"
proof -
  have again: "snd (cron_check_renewals e (snd (cron_check_renewals e st))) = snd (cron_check_renewals e st)"
  proof -
    let ?ids = "map ms_id (filter (expiring (oe_today e) st) (of_memberships st))"
    obtain x st' where run: "for_each (renew_one e) ?ids st = (x, st')" by fastforce
    show ?thesis
    proof (cases x)
      case (Inl err)
      then show ?thesis using run by (simp add: cron_check_renewals_def rolled_back_def)
    next
      case (Inr u)
      then have x: "x = Inr ()" by simp
      then have first: "cron_check_renewals e st = (Inr (), st')"
        using run by (simp add: cron_check_renewals_def rolled_back_def)
      have "same_dates st st'"
        using for_each_inv [where I = "same_dates st" and f = "renew_one e" and s = st and ids = ?ids] run renew_one_dates
        by (auto simp: same_dates_def)
      from expiring_dates [OF this] have ids: "map ms_id (filter (expiring (oe_today e) st') (of_memberships st')) = ?ids" .
      have wf: "wf_office st'"
        using later_wf [OF for_each_later [of "renew_one e", OF renew_one_later assms(1), of ?ids]] run by simp
      have "renew_one e i st' = (Inr (), st')" if i: "i \<in> set ?ids" for i
      proof (rule renew_done_no_change)
        show "done_today (oe_today e) i st'"
          by (rule bspec [OF renewals_done [OF assms searched_ids(1) [OF assms(1)] run [unfolded x]] i])
        show "get_ms i st' \<noteq> None" using searched_ids(2) [OF wf] i unfolding ids [symmetric] by blast
      qed
      then have "for_each (renew_one e) ?ids st' = (Inr (), st')" by (rule for_each_no_change)
      then show ?thesis unfolding first by (simp add: cron_check_renewals_def rolled_back_def ids)
    qed
  qed
  show ?thesis by (induction n) (simp_all add: again)
qed

section \<open>A job that sweeps over memberships\<close>

text \<open>
  The contract of the body of a cron job: where nothing is missing it returns, and it touches only
  the membership it is called for. Its clients read off what the loop does to one membership.
\<close>

locale sweep =
  fixes body :: "nat \<Rightarrow> unit office_act" and ready :: "club_office \<Rightarrow> bool"
  assumes touches: "ready st \<Longrightarrow> get_ms i st \<noteq> None \<Longrightarrow> \<exists>t vs. fresh vs st \<and> body i st = (Inr (), touch i t vs st)"
    and stays_ready: "ready st \<Longrightarrow> ready (touch i t vs st)"
begin

definition holds_row :: "nat \<Rightarrow> membership \<Rightarrow> club_office \<Rightarrow> club_office \<Rightarrow> bool" where
  "holds_row i m s0 s \<longleftrightarrow> wf_office s \<and> ready s \<and> get_ms i s = Some m \<and> invoices_of s m = invoices_of s0 m \<and>
     of_plans s = of_plans s0 \<and> of_members s = of_members s0 \<and> map ms_id (of_memberships s) = map ms_id (of_memberships s0)"

lemma holds_refl: "wf_office s \<Longrightarrow> ready s \<Longrightarrow> get_ms i s = Some m \<Longrightarrow> holds_row i m s s"
  by (simp add: holds_row_def)

lemma touch_holds: "holds_row i m s0 s \<Longrightarrow> fresh vs s \<Longrightarrow> j \<noteq> i \<Longrightarrow> holds_row i m s0 (touch j t vs s)"
  using get_ms_in [of i s m]
  by (auto simp: holds_row_def wf_touch stays_ready get_ms_touch invoices_of_touch_other)

lemma others_hold:
  assumes "i \<notin> set ids" "set ids \<subseteq> set (map ms_id (of_memberships s0))" "holds_row i m s0 s"
  shows "\<exists>s'. for_each body ids s = (Inr (), s') \<and> holds_row i m s0 s'"
  using assms
proof (induction ids arbitrary: s)
  case (Cons j ids)
  have "map ms_id (of_memberships s) = map ms_id (of_memberships s0)" using Cons.prems(3) by (simp add: holds_row_def)
  then have "j \<in> set (map ms_id (of_memberships s))" using Cons.prems(2) by (metis list.set_intros(1) subsetD)
  then have "get_ms j s \<noteq> None" by (simp add: get_ms_def row_get_None)
  moreover have "ready s" using Cons.prems(3) by (simp add: holds_row_def)
  ultimately obtain t vs where t: "fresh vs s" "body j s = (Inr (), touch j t vs s)" using touches by blast
  have "holds_row i m s0 (touch j t vs s)" using touch_holds [OF Cons.prems(3) t(1)] Cons.prems(1) by simp
  from Cons.IH [OF _ _ this] Cons.prems(1,2) t(2) show ?case by simp
qed simp

text \<open>The membership that is searched for is touched once, in a state that agrees about it.\<close>

lemma swept:
  assumes "wf_office st" "ready st" "get_ms i st = Some m" "P m"
  shows "\<exists>s t vs st'. holds_row i m st s \<and> fresh vs s \<and> body i s = (Inr (), touch i t vs s) \<and>
    for_each body (map ms_id (filter P (of_memberships st))) st = (Inr (), st') \<and>
    holds_row i (m\<lparr>ms_status := (case t of None \<Rightarrow> ms_status m | Some x \<Rightarrow> x), ms_invoices := ms_invoices m @ map mv_id vs\<rparr>) (touch i t vs s) st'"
proof -
  let ?ids = "map ms_id (filter P (of_memberships st))"
  have d: "distinct ?ids" by (rule searched_ids(1) [OF assms(1)])
  have "i \<in> set ?ids" using get_ms_in [OF assms(3)] assms(4) by auto
  then obtain xs ys where ids: "?ids = xs @ i # ys" by (meson split_list)
  with d have i: "i \<notin> set xs" "i \<notin> set ys" by auto
  have "set ?ids \<subseteq> set (map ms_id (of_memberships st))" by auto
  then have sub: "set xs \<subseteq> set (map ms_id (of_memberships st))" "set ys \<subseteq> set (map ms_id (of_memberships st))"
    unfolding ids by auto
  from others_hold [OF i(1) sub(1) holds_refl [OF assms(1-3)]] obtain s where s: "for_each body xs st = (Inr (), s)"
    "holds_row i m st s" by blast
  then have "ready s" "get_ms i s \<noteq> None" "wf_office s" by (simp_all add: holds_row_def)
  with touches obtain t vs where t: "fresh vs s" "body i s = (Inr (), touch i t vs s)" by blast
  let ?m = "m\<lparr>ms_status := (case t of None \<Rightarrow> ms_status m | Some x \<Rightarrow> x), ms_invoices := ms_invoices m @ map mv_id vs\<rparr>"
  have "holds_row i ?m (touch i t vs s) (touch i t vs s)"
    using s(2) t(1) by (intro holds_refl) (auto simp: holds_row_def wf_touch stays_ready get_ms_touch)
  moreover have "set ys \<subseteq> set (map ms_id (of_memberships (touch i t vs s)))"
    using sub(2) s(2) by (simp add: holds_row_def touch_def map_key_row_upd)
  ultimately obtain st' where st': "for_each body ys (touch i t vs s) = (Inr (), st')" "holds_row i ?m (touch i t vs s) st'"
    using others_hold [OF i(2)] by blast
  have app: "for_each body (xs @ zs) s0 = act_seq (for_each body xs) (for_each body zs) s0" for xs zs s0
    by (induction xs arbitrary: s0) (auto split: prod.split sum.split)
  have "for_each body ?ids st = (Inr (), st')" unfolding ids app using s(1) t(2) st'(1) by simp
  with s(2) t st'(2) show ?thesis by blast
qed

end

text \<open>Nothing is missing: every membership has its plan and somebody to invoice, and no invoice is refused.\<close>

definition linked :: "office_env \<Rightarrow> club_office \<Rightarrow> bool" where
  "linked e st \<longleftrightarrow> (\<forall>q ls. oe_refused e q ls = None) \<and>
     (\<forall>m \<in> set (of_memberships st). get_plan st m \<noteq> None \<and>
        (\<exists>a. row_get af_id (ms_affiliate m) (of_members st) = Some a \<and> get_invoice_partner st a \<noteq> None))"

lemma linked_touch: "linked e st \<Longrightarrow> linked e (touch i t vs st)"
proof -
  have p: "partner_of (touch i t vs st) = partner_of st" by (intro ext) (simp add: partner_of_def)
  have "get_invoice_partner (touch i t vs st) a = get_invoice_partner st a" for a
    unfolding get_invoice_partner_def p touch_sel ..
  moreover have "\<exists>m0 \<in> set (of_memberships st). get_plan st m = get_plan st m0 \<and> ms_affiliate m = ms_affiliate m0"
    if "m \<in> set (of_memberships (touch i t vs st))" for m
    using that by (auto simp: touch_def in_set_row_upd get_plan_def)
  ultimately show "linked e st \<Longrightarrow> ?thesis" unfolding linked_def by fastforce
qed

lemma linked_invoice:
  assumes "linked e st" "m \<in> set (of_memberships st)"
  shows "\<exists>q. invoice_member e m ls st = (Inr (), touch (ms_id m) None [sold e (of_next st) q ls] st)"
proof -
  from assms obtain a q where "row_get af_id (ms_affiliate m) (of_members st) = Some a" "get_invoice_partner st a = Some q"
    "oe_refused e q ls = None" unfolding linked_def by blast
  then have "invoice_member e m ls st = (Inr (), touch (ms_id m) None [sold e (of_next st) q ls] st)"
    by (simp add: invoice_member_def with_row_def create_move_def link_invoice_def write_ms_def touch_def sold_def)
  then show ?thesis ..
qed

lemma touch_nothing: "touch i None [] st = st"
proof -
  have "row_upd ms_id i (\<lambda>m. m\<lparr>ms_status := ms_status m, ms_invoices := ms_invoices m\<rparr>) xs = xs" for xs :: "membership list"
    by (induction xs) (simp_all add: row_simps)
  then show ?thesis by (simp add: touch_def)
qed

lemma linked_renewal:
  assumes "linked e st" "get_ms i st = Some m" "\<not> already_invoiced (oe_today e) st m"
  shows "\<exists>p q. renew_one e i st = (Inr (), touch i None [sold e (of_next st) q [membership_line p]] st)"
proof -
  from get_ms_in [OF assms(2)] have m: "m \<in> set (of_memberships st)" "ms_id m = i" by auto
  with assms(1) obtain p where p: "get_plan st m = Some p" by (auto simp: linked_def)
  have "renew_one e i st = invoice_member e m [membership_line p] st"
    using assms(2,3) p by (simp add: renew_one_def with_row_def generate_membership_invoice_def flip: get_ms_def get_plan_def)
  with linked_invoice [OF assms(1) m(1)] m(2) show ?thesis by metis
qed

lemma linked_late_fee:
  assumes "linked e st" "get_ms i st = Some m"
  shows "\<exists>vs. fresh vs st \<and> late_fee_one e i st = (Inr (), if overdue (oe_today e) st m then touch i (Some MpSuspended) vs st else st)"
proof -
  from get_ms_in [OF assms(2)] have m: "m \<in> set (of_memberships st)" "ms_id m = i" by auto
  with assms(1) obtain p where p: "get_plan st m = Some p" by (auto simp: linked_def)
  have "\<exists>vs. fresh vs st \<and> generate_late_fee_invoice e m st = (Inr (), touch i None vs st)"
  proof (cases "\<exists>k. pl_late_product p = Some k \<and> pl_late_fee p \<noteq> 0")
    case True
    then obtain k where "pl_late_product p = Some k" "pl_late_fee p \<noteq> 0" by blast
    then have "generate_late_fee_invoice e m st = invoice_member e m [late_fee_line p k] st"
      using p by (simp add: generate_late_fee_invoice_def with_row_def flip: get_plan_def)
    with linked_invoice [OF assms(1) m(1)] m(2) show ?thesis by (metis fresh_sold)
  next
    case False
    then have "generate_late_fee_invoice e m st = (Inr (), st)"
      using p by (auto simp: generate_late_fee_invoice_def with_row_def split: option.split simp flip: get_plan_def)
    then show ?thesis by (metis touch_nothing fresh_simps(1))
  qed
  then obtain vs where "fresh vs st" "generate_late_fee_invoice e m st = (Inr (), touch i None vs st)" by blast
  then show ?thesis
    using assms(2) by (intro exI [of _ vs]) (simp add: late_fee_one_def with_row_def set_status_touch touch_touch flip: get_ms_def)
qed

interpretation renewal: sweep "renew_one e" "linked e" for e
proof
  fix st i
  assume "linked e st" "get_ms i st \<noteq> None"
  then obtain m where m: "linked e st" "get_ms i st = Some m" by blast
  show "\<exists>t vs. fresh vs st \<and> renew_one e i st = (Inr (), touch i t vs st)"
  proof (cases "already_invoiced (oe_today e) st m")
    case True
    with m(2) have "renew_one e i st = (Inr (), touch i None [] st)"
      by (simp add: renew_one_def with_row_def touch_nothing flip: get_ms_def)
    then show ?thesis using fresh_simps(1) by blast
  next
    case False
    then show ?thesis using linked_renewal [OF m] fresh_sold by metis
  qed
qed (rule linked_touch)

interpretation fining: sweep "late_fee_one e" "linked e" for e
proof
  fix st i
  assume "linked e st" "get_ms i st \<noteq> None"
  then show "\<exists>t vs. fresh vs st \<and> late_fee_one e i st = (Inr (), touch i t vs st)"
    using linked_late_fee [of e st i] touch_nothing [of i st] fresh_simps(1) by (metis not_None_eq)
qed (rule linked_touch)

end
