(* ===== verification/ClubNights.thy ===== *)
theory ClubNights
  imports ClubMembership
begin

text \<open>
  The nightly jobs of custom-addons/club_core over many days, and the gate of
  custom-addons/club_access_control together with them: what a membership that is past its end, paid or
  overdue, means for its member's card.
\<close>

section \<open>One day of the renewal job\<close>

lemma renewal_day:
  assumes "wf_office st" "linked e st" "get_ms i st = Some m" "expiring (oe_today e) st m"
    and "\<And>v. v \<in> set (invoices_of st m) \<Longrightarrow> mv_created v < oe_today e"
  shows "\<exists>k v st'. cron_check_renewals e st = (Inr (), st') \<and> wf_office st' \<and> linked e st' \<and> of_plans st' = of_plans st \<and>
    get_ms i st' = Some (m\<lparr>ms_invoices := ms_invoices m @ [k]\<rparr>) \<and>
    invoices_of st' (m\<lparr>ms_invoices := ms_invoices m @ [k]\<rparr>) = invoices_of st m @ [v] \<and> mv_created v = oe_today e"
proof -
  from renewal.swept [where P = "expiring (oe_today e) st", OF assms(1-4)] obtain s t vs st' where s: "renewal.holds_row e i m st s"
    "renew_one e i s = (Inr (), touch i t vs s)"
    "for_each (renew_one e) (map ms_id (filter (expiring (oe_today e) st) (of_memberships st))) st = (Inr (), st')"
    "renewal.holds_row e i (m\<lparr>ms_status := (case t of None \<Rightarrow> ms_status m | Some x \<Rightarrow> x), ms_invoices := ms_invoices m @ map mv_id vs\<rparr>)
       (touch i t vs s) st'" by blast
  have h: "wf_office s" "linked e s" "get_ms i s = Some m" "invoices_of s m = invoices_of st m" "of_plans s = of_plans st"
    using s(1) by (simp_all add: renewal.holds_row_def)
  have "\<not> already_invoiced (oe_today e) s m" using assms(5) h(4) by (force simp: already_invoiced_def)
  from linked_renewal [OF h(2,3) this] obtain p q where
    "renew_one e i s = (Inr (), touch i None [sold e (of_next s) q [membership_line p]] s)" by blast
  moreover define v where "v = sold e (of_next s) q [membership_line p]"
  ultimately have same: "touch i t vs s = touch i None [v] s" using s(2) by simp
  then have "get_ms i (touch i t vs s) = get_ms i (touch i None [v] s)" by simp
  then have m': "m\<lparr>ms_status := (case t of None \<Rightarrow> ms_status m | Some x \<Rightarrow> x), ms_invoices := ms_invoices m @ map mv_id vs\<rparr>
      = m\<lparr>ms_invoices := ms_invoices m @ [of_next s]\<rparr>"
    using h(3) by (simp add: get_ms_touch v_def)
  have f: "fresh [v] s" by (simp add: v_def)
  have m1: "m\<lparr>ms_status := ms_status m, ms_invoices := ms_invoices m @ map mv_id [v]\<rparr> = m\<lparr>ms_invoices := ms_invoices m @ [of_next s]\<rparr>"
    by (simp add: v_def)
  have "invoices_of (touch i None [v] s) (m\<lparr>ms_invoices := ms_invoices m @ [of_next s]\<rparr>) = invoices_of st m @ [v]"
    using invoices_of_touch_same [OF h(1) f, of i None m "ms_status m"] h(4) unfolding m1 by simp
  moreover have "mv_created v = oe_today e" by (simp add: v_def)
  moreover have "cron_check_renewals e st = (Inr (), st')" using s(3) by (simp add: cron_check_renewals_def rolled_back_def)
  ultimately show ?thesis using s(4) h(5) unfolding m' same by (auto simp: renewal.holds_row_def)
qed

lemma add_days_add: "add_days (a + b) d = add_days a (add_days b d)"
  by (simp add: add_days_def funpow_add)

lemma add_days_le: "valid_date d \<Longrightarrow> add_days a d \<le> add_days b d \<longleftrightarrow> a \<le> b"
  by (simp add: le_iff_ordinal valid_add_days ordinal_add_days)

lemma add_days_less: "valid_date d \<Longrightarrow> add_days a d < add_days b d \<longleftrightarrow> a < b"
  by (simp add: less_iff_ordinal valid_add_days ordinal_add_days)

definition renewed :: "office_env list \<Rightarrow> club_office \<Rightarrow> club_office" where
  "renewed es st = fold (\<lambda>e s. snd (cron_check_renewals e s)) es st"

lemma linked_other: "linked e st \<Longrightarrow> linked e' st' \<Longrightarrow> linked e st'"
  by (simp add: linked_def)

lemma renewed_days:
  assumes "valid_date d" "map oe_today es = map (\<lambda>k. add_days k d) [a..<a + length es]" "a + length es \<le> 8"
    and "wf_office st" "\<And>e. e \<in> set es \<Longrightarrow> linked e st"
    and "get_ms i st = Some m" "ms_status m = MpActive" "ms_end st m = Some (add_days 7 d)"
    and "\<And>v. v \<in> set (invoices_of st m) \<Longrightarrow> mv_created v < add_days a d"
  shows "\<exists>m'. get_ms i (renewed es st) = Some m' \<and> ms_status m' = MpActive \<and>
    ms_end (renewed es st) m' = Some (add_days 7 d) \<and> invoice_count m' = invoice_count m + length es"
  using assms(2-9)
proof (induction es arbitrary: a st m)
  case Nil
  then show ?case by (simp add: renewed_def)
next
  case (Cons e es)
  have "[a..<a + length (e # es)] = a # [Suc a..<Suc a + length es]" by (simp add: upt_conv_Cons del: upt_Suc)
  with Cons.prems(1) have days: "oe_today e = add_days a d" "map oe_today es = map (\<lambda>k. add_days k d) [Suc a..<Suc a + length es]"
    by (simp_all del: upt_Suc)
  have "expiring (oe_today e) st m"
    using Cons.prems(2,6,7) days(1) assms(1)
    by (simp add: expiring_def add_days_add [symmetric] add_days_le)
  from renewal_day [OF Cons.prems(3) Cons.prems(4) [of e] Cons.prems(5) this] Cons.prems(8) days(1)
  obtain k v st' where d: "cron_check_renewals e st = (Inr (), st')" "wf_office st'" "linked e st'" "of_plans st' = of_plans st"
    "get_ms i st' = Some (m\<lparr>ms_invoices := ms_invoices m @ [k]\<rparr>)"
    "invoices_of st' (m\<lparr>ms_invoices := ms_invoices m @ [k]\<rparr>) = invoices_of st m @ [v]" "mv_created v = oe_today e" by auto
  let ?m = "m\<lparr>ms_invoices := ms_invoices m @ [k]\<rparr>"
  have "ms_end st' ?m = ms_end st m" using d(4) by (simp add: ms_end_def get_plan_def)
  moreover have "mv_created w < add_days (Suc a) d" if "w \<in> set (invoices_of st' ?m)" for w
  proof -
    have "mv_created w \<le> add_days a d" using that Cons.prems(8) d(6,7) days(1) by (auto simp: less_imp_le)
    also have "\<dots> < add_days (Suc a) d" using assms(1) by (simp add: add_days_less)
    finally show ?thesis .
  qed
  ultimately have "\<exists>m'. get_ms i (renewed es st') = Some m' \<and> ms_status m' = MpActive \<and>
      ms_end (renewed es st') m' = Some (add_days 7 d) \<and> invoice_count m' = invoice_count ?m + length es"
    using Cons.prems(2,4,6,7) d(3) linked_other
    by (intro Cons.IH [of "Suc a" st' ?m, OF days(2) _ d(2) _ d(5)]) (auto intro: linked_other)
  then show ?case using d(1) by (simp add: renewed_def invoice_count_def)
qed

text \<open>
  The renewal job looks at the invoices of one day only, so in the week before its end an active
  membership is invoiced again on every day the job runs: eight invoices for one renewal, and the
  end of the membership stays where it was.
\<close>

theorem renewal_invoices_pile_up:
  assumes "valid_date d" "map oe_today es = map (\<lambda>k. add_days k d) [0..<8]"
    and "wf_office st" "\<And>e. e \<in> set es \<Longrightarrow> linked e st"
    and "get_ms i st = Some m" "ms_status m = MpActive" "ms_end st m = Some (add_days 7 d)"
    and "\<And>v. v \<in> set (invoices_of st m) \<Longrightarrow> mv_created v < d"
  shows "\<exists>m'. get_ms i (renewed es st) = Some m' \<and> invoice_count m' = invoice_count m + 8 \<and>
    ms_end (renewed es st) m' = ms_end st m"
proof -
  have n: "length es = 8" using arg_cong [OF assms(2), of length] by simp
  then show ?thesis using renewed_days [OF assms(1), of es 0 st i m] assms(2-8) by auto
qed

section \<open>Members at the gate\<close>

lemma find_unique: "x \<in> set xs \<Longrightarrow> P x \<Longrightarrow> (\<And>y. y \<in> set xs \<Longrightarrow> P y \<Longrightarrow> y = x) \<Longrightarrow> find P xs = Some x"
  using find_in_set [of P xs] find_None [of P xs] by (cases "find P xs") blast+

lemma gate_affiliate_sel [simp]:
  "af_number (gate_affiliate st a) = af_number a" "af_id (gate_affiliate st a) = af_id a" "af_type (gate_affiliate st a) = af_type a"
  "af_status (gate_affiliate st a) = Some (compute_membership_status (statuses_of st (af_id a)))"
  by (simp_all add: gate_affiliate_def affiliate.truncate_def)

text \<open>The number on a card belongs to one member.\<close>

definition holds_card :: "club_office \<Rightarrow> member \<Rightarrow> string \<Rightarrow> bool" where
  "holds_card st a number \<longleftrightarrow>
     a \<in> set (of_members st) \<and> af_number a = Some number \<and> (\<forall>b \<in> set (of_members st). af_number b = Some number \<longrightarrow> b = a)"

lemma card_at_gate:
  assumes "holds_card st a number"
  shows "lookup_by_membership_card (gate_view st c) number =
    Some (found_person (affiliate_kind (af_type a)) (AffiliateRef (af_id a))
      (compute_membership_status (statuses_of st (af_id a)) = MsActive)
      (MembershipNotActive (Some (compute_membership_status (statuses_of st (af_id a))))))"
proof -
  have "find (\<lambda>x. af_number x = Some number) (map (gate_affiliate st) (of_members st)) = Some (gate_affiliate st a)"
    using assms by (intro find_unique) (auto simp: holds_card_def)
  then show ?thesis by (simp add: lookup_by_membership_card_def gate_view_def)
qed

lemma active_status: "compute_membership_status ss = MsActive \<longleftrightarrow> MpActive \<in> set ss"
  by (simp add: compute_membership_status_def)

lemma status_listed: "get_ms i st = Some m \<Longrightarrow> ms_affiliate m = k \<Longrightarrow> ms_status m \<in> set (statuses_of st k)"
  using get_ms_in [of i st m] by (auto simp: statuses_of_def)

text \<open>An active membership none of whose invoices is posted and unpaid.\<close>

definition paid_up :: "nat \<Rightarrow> nat \<Rightarrow> club_office \<Rightarrow> bool" where
  "paid_up i k st \<longleftrightarrow> wf_office st \<and>
     (\<exists>m. get_ms i st = Some m \<and> ms_affiliate m = k \<and> ms_status m = MpActive \<and> (\<forall>v \<in> set (invoices_of st m). \<not> unpaid v))"

lemma invoices_of_status [simp]: "invoices_of st (m\<lparr>ms_status := t, ms_invoices := ks\<rparr>) = invoices_of st (m\<lparr>ms_invoices := ks\<rparr>)"
  by (simp add: invoices_of_def)

lemma paid_up_touch:
  assumes "paid_up i k st" "fresh vs st" "j = i \<longrightarrow> t = None \<and> (\<forall>v \<in> set vs. \<not> unpaid v)"
  shows "paid_up i k (touch j t vs st)"
proof -
  from assms(1) obtain m where m: "wf_office st" "get_ms i st = Some m" "ms_affiliate m = k" "ms_status m = MpActive"
    "\<forall>v \<in> set (invoices_of st m). \<not> unpaid v" by (auto simp: paid_up_def)
  show ?thesis
  proof (cases "j = i")
    case True
    with assms(3) m show ?thesis
      using invoices_of_touch_same [OF m(1) assms(2), of i None m "ms_status m"]
      by (auto simp: paid_up_def wf_touch [OF m(1) assms(2)] get_ms_touch)
  next
    case False
    with m show ?thesis
      using invoices_of_touch_other [OF m(1) assms(2)] get_ms_in [OF m(2)]
      by (auto simp: paid_up_def wf_touch [OF m(1) assms(2)] get_ms_touch)
  qed
qed

lemma not_unpaid_sold [simp]: "\<not> unpaid (sold e n q ls)"
  by (simp add: unpaid_def sold_def)

lemma renew_one_paid: "paid_up i k st \<Longrightarrow> paid_up i k (snd (renew_one e j st))"
  using renew_one_cases [of e j st] by (auto intro!: paid_up_touch)

lemma late_fee_one_paid:
  assumes "paid_up i k st"
  shows "paid_up i k (snd (late_fee_one e j st))"
proof -
  from assms obtain n where n: "get_ms i st = Some n" "\<forall>v \<in> set (invoices_of st n). \<not> unpaid v" by (auto simp: paid_up_def)
  have "\<not> overdue (oe_today e) st n" using n(2) by (auto simp: overdue_def filter_empty_conv split: option.split)
  then have "j \<noteq> i" if "get_ms j st = Some m" "overdue (oe_today e) st m" for m using that n(1) by auto
  then show ?thesis using late_fee_one_cases [of e j st] assms by (auto intro!: paid_up_touch)
qed

lemma sel_for_each_members:
  "of_members (snd (renew_one e i st)) = of_members st" "of_members (snd (late_fee_one e i st)) = of_members st"
  using renew_one_cases [of e i st] late_fee_one_cases [of e i st] by auto

text \<open>One night: the renewals, then the late fees.\<close>

definition night :: "office_env \<Rightarrow> club_office \<Rightarrow> club_office" where
  "night e st = snd (cron_apply_late_fees e (snd (cron_check_renewals e st)))"

lemma cron_inv:
  assumes "I st" "\<And>i s. I s \<Longrightarrow> I (snd (renew_one e i s))" "\<And>i s. I s \<Longrightarrow> I (snd (late_fee_one e i s))"
  shows "I (night e st)"
proof -
  have "I (snd (cron_check_renewals e st))"
    unfolding cron_check_renewals_def by (rule rolled_back_inv) (use assms in \<open>blast intro: for_each_inv\<close>)+
  then show ?thesis
    unfolding night_def cron_apply_late_fees_def by (rule rolled_back_inv [rotated]) (use assms in \<open>blast intro: for_each_inv\<close>)
qed

lemma nights_paid_up:
  assumes "paid_up i k st" "holds_card st a number"
  shows "paid_up i k (fold night es st) \<and> holds_card (fold night es st) a number"
  using assms
proof (induction es arbitrary: st)
  case (Cons e es)
  have "paid_up i k (night e st)" by (rule cron_inv) (use Cons.prems renew_one_paid late_fee_one_paid in auto)
  moreover have "of_members (night e st) = of_members st"
    by (rule cron_inv [where I = "\<lambda>s. of_members s = of_members st"]) (simp_all add: sel_for_each_members)
  ultimately show ?case using Cons.IH [of "night e st"] Cons.prems(2) by (simp add: holds_card_def)
qed simp

text \<open>
  C21: The end date of a membership is enforced by nobody: as long as none of its invoices is posted
  and unpaid, the nightly jobs leave an active membership active on every day there is, and the card
  of its member opens the gate.
\<close>

theorem paid_member_keeps_access:
  assumes "wf_office st" "get_ms i st = Some m" "ms_status m = MpActive"
    and "\<And>v. v \<in> set (invoices_of st m) \<Longrightarrow> \<not> unpaid v"
    and "holds_card st a number" "af_id a = ms_affiliate m"
  shows "\<exists>r. lookup_by_membership_card (gate_view (fold night es st) c) number = Some r \<and>
    fo_allowed r \<and> fo_person r = AffiliateRef (af_id a)"
proof -
  have "paid_up i (ms_affiliate m) st" using assms(1-4) by (auto simp: paid_up_def)
  from nights_paid_up [OF this assms(5), of es] have p: "paid_up i (ms_affiliate m) (fold night es st)"
    "holds_card (fold night es st) a number" by auto
  from p(1) have "MpActive \<in> set (statuses_of (fold night es st) (af_id a))"
    using status_listed unfolding paid_up_def assms(6) by metis
  then show ?thesis unfolding card_at_gate [OF p(2)] by (simp add: active_status found_person_def)
qed

text \<open>None but the given membership makes the affiliate an active one.\<close>

definition no_other_active :: "nat \<Rightarrow> nat \<Rightarrow> club_office \<Rightarrow> bool" where
  "no_other_active i k st \<longleftrightarrow> (\<forall>m \<in> set (of_memberships st). ms_affiliate m = k \<and> ms_id m \<noteq> i \<longrightarrow> ms_status m \<noteq> MpActive)"

lemma late_fee_one_others: "no_other_active i k st \<Longrightarrow> no_other_active i k (snd (late_fee_one e j st))"
  using late_fee_one_cases [of e j st] by (auto simp: no_other_active_def touch_def in_set_row_upd split: if_splits)

text \<open>
  An overdue membership closes the gate: once the job for late fees has met a membership past its
  grace period with a posted, unpaid invoice, the card of a member without another active
  membership is refused, and the refusal names the suspension.
\<close>

theorem overdue_member_denied:
  assumes "wf_office st" "linked e st" "get_ms i st = Some m"
    and "ended (oe_today e) st m" "overdue (oe_today e) st m"
    and "holds_card st a number" "af_id a = ms_affiliate m" "no_other_active i (ms_affiliate m) st"
  shows "\<exists>r. lookup_by_membership_card (gate_view (snd (cron_apply_late_fees e st)) c) number = Some r \<and>
    \<not> fo_allowed r \<and> fo_reason r = Some (MembershipNotActive (Some MsSuspended))"
proof -
  from fining.swept [where P = "ended (oe_today e) st", OF assms(1-4)] obtain s t vs st' where s: "fining.holds_row e i m st s"
    "late_fee_one e i s = (Inr (), touch i t vs s)"
    "for_each (late_fee_one e) (map ms_id (filter (ended (oe_today e) st) (of_memberships st))) st = (Inr (), st')"
    "fining.holds_row e i (m\<lparr>ms_status := (case t of None \<Rightarrow> ms_status m | Some x \<Rightarrow> x), ms_invoices := ms_invoices m @ map mv_id vs\<rparr>)
       (touch i t vs s) st'" by blast
  have h: "wf_office s" "linked e s" "get_ms i s = Some m" "invoices_of s m = invoices_of st m" "of_plans s = of_plans st"
    using s(1) by (simp_all add: fining.holds_row_def)
  have "overdue (oe_today e) s m"
  proof -
    have p: "get_plan s m = get_plan st m" using h(5) by (simp add: get_plan_def)
    then have q: "ms_end s m = ms_end st m" "already_fined s m = already_fined st m"
      unfolding ms_end_def already_fined_def h(4) by simp_all
    from assms(5) show ?thesis unfolding overdue_def h(4) p q .
  qed
  with linked_late_fee [OF h(2,3)] obtain ws where "late_fee_one e i s = (Inr (), touch i (Some MpSuspended) ws s)" by auto
  with s(2) have "touch i t vs s = touch i (Some MpSuspended) ws s" by simp
  then have "get_ms i (touch i t vs s) = get_ms i (touch i (Some MpSuspended) ws s)" by simp
  then have "ms_status (m\<lparr>ms_status := (case t of None \<Rightarrow> ms_status m | Some x \<Rightarrow> x), ms_invoices := ms_invoices m @ map mv_id vs\<rparr>) = MpSuspended"
    using h(3) by (simp add: get_ms_touch)
  moreover define m' where "m' = m\<lparr>ms_status := (case t of None \<Rightarrow> ms_status m | Some x \<Rightarrow> x), ms_invoices := ms_invoices m @ map mv_id vs\<rparr>"
  ultimately have m': "get_ms i st' = Some m'" "ms_status m' = MpSuspended" "ms_affiliate m' = ms_affiliate m"
    using s(4) by (simp_all add: fining.holds_row_def)
  have run: "snd (cron_apply_late_fees e st) = st'" using s(3) by (simp add: cron_apply_late_fees_def rolled_back_def)
  have "no_other_active i (ms_affiliate m) st' \<and> of_members st' = of_members st"
    using for_each_inv [where I = "\<lambda>x. no_other_active i (ms_affiliate m) x \<and> of_members x = of_members st" and f = "late_fee_one e" and s = st]
      late_fee_one_others assms(8) s(3) by (metis sel_for_each_members(2) snd_conv)
  then have others: "no_other_active i (ms_affiliate m) st'" and card: "holds_card st' a number"
    using assms(6) by (simp_all add: holds_card_def)
  have wf: "wf_office st'" using s(4) by (simp add: fining.holds_row_def)
  have "MpActive \<notin> set (statuses_of st' (af_id a))"
  proof
    assume "MpActive \<in> set (statuses_of st' (af_id a))"
    then obtain n where n: "n \<in> set (of_memberships st')" "ms_affiliate n = ms_affiliate m" "ms_status n = MpActive"
      by (auto simp: statuses_of_def assms(7))
    with others have "ms_id n = i" by (auto simp: no_other_active_def)
    then have "get_ms i st' = Some n"
      using row_get_distinct [where key = ms_id, OF _ n(1)] wf by (simp add: wf_office_def get_ms_def)
    with m' n(3) show False by simp
  qed
  moreover have "MpSuspended \<in> set (statuses_of st' (af_id a))"
    using status_listed [OF m'(1,3)] m'(2) assms(7) by simp
  ultimately have "compute_membership_status (statuses_of st' (af_id a)) = MsSuspended"
    by (simp add: compute_membership_status_def)
  then show ?thesis unfolding run card_at_gate [OF card] by (simp add: found_person_def)
qed

section \<open>Witnesses\<close>

definition demo_office_env :: "date \<Rightarrow> office_env" where
  "demo_office_env d = \<lparr>oe_today = d, oe_refused = (\<lambda>_ _. None)\<rparr>"

definition demo_member :: member where
  "demo_member = \<lparr>af_id = 1, af_name = ''Ana'', af_type = Individual, af_number = Some ''A1'', af_vat = None, af_status = None,
     af_partner = 11, af_family = None, af_corporate = None\<rparr>"

definition demo_plan :: plan where
  "demo_plan = \<lparr>pl_id = 2, pl_name = ''Annual'', pl_fee = 1200, pl_period = Annual, pl_grace = 15, pl_late_fee = 50,
     pl_product = 21, pl_late_product = Some 22\<rparr>"

definition demo_invoice :: move where
  "demo_invoice = \<lparr>mv_id = 0, mv_out_invoice = True, mv_partner = 11, mv_lines = [membership_line demo_plan],
     mv_created = Date 2026 5 1, mv_state = MovePosted, mv_payment = NotPaid\<rparr>"

definition demo_office :: "plan_status \<Rightarrow> move list \<Rightarrow> club_office" where
  "demo_office s vs = \<lparr>of_members = [demo_member], of_families = [], of_corporates = [], of_plans = [demo_plan],
     of_memberships = [\<lparr>ms_id = 3, ms_affiliate = 1, ms_plan = 2, ms_start = Date 2025 6 8, ms_status = s, ms_invoices = map mv_id vs\<rparr>],
     of_moves = vs, of_next = 1\<rparr>"

definition empty_club :: club where
  "empty_club = \<lparr>cl_affiliates = [], cl_employees = [], cl_vehicles = [], cl_guests = [], cl_visits = [], cl_party = [],
     cl_staff = [], cl_registrations = [], cl_participants = [], cl_entries = [], cl_sequence = 1\<rparr>"

lemmas demo_office_defs = demo_office_def demo_member_def demo_plan_def demo_office_env_def

lemma demo_office_wf: "(\<forall>v \<in> set vs. mv_id v = 0) \<Longrightarrow> wf_office (demo_office s vs)"
  by (auto simp: wf_office_def demo_office_def)

lemma demo_linked: "linked (demo_office_env d) (demo_office s vs)"
  by (simp add: linked_def demo_office_defs get_plan_def row_simps get_invoice_partner_def)

lemma demo_ms: "get_ms 3 (demo_office s vs) =
    Some \<lparr>ms_id = 3, ms_affiliate = 1, ms_plan = 2, ms_start = Date 2025 6 8, ms_status = s, ms_invoices = map mv_id vs\<rparr>"
  by (simp add: get_ms_def demo_office_def row_simps)

lemma demo_card: "holds_card (demo_office s vs) demo_member ''A1''"
  by (simp add: holds_card_def demo_office_defs)

lemma demo_end: "ms_plan m = 2 \<Longrightarrow> ms_start m = Date 2025 6 8 \<Longrightarrow> ms_end (demo_office s vs) m = Some (Date 2026 6 8)"
  by (simp add: ms_end_def compute_end_date_def get_plan_def demo_office_defs row_simps add_years_def days_in_def)

lemma demo_week: "add_days 7 (Date 2026 6 1) = Date 2026 6 8" "add_days 15 (Date 2026 6 8) = Date 2026 6 23"
proof -
  have "add_days n d = (if n = 0 then d else next_day (add_days (n - 1) d))" for n d
    by (cases n) (simp_all add: add_days_Suc)
  note step = this
  show "add_days 7 (Date 2026 6 1) = Date 2026 6 8"
    by (simp add: step [of 7] step [of 6] step [of 5] step [of 4] step [of 3] step [of 2] add_days_Suc next_day_def days_in_def)
  show "add_days 15 (Date 2026 6 8) = Date 2026 6 23"
    by (simp add: step [of 15] step [of 14] step [of 13] step [of 12] step [of 11] step [of 10] step [of 9] step [of 8]
        step [of 7] step [of 6] step [of 5] step [of 4] step [of 3] step [of 2] add_days_Suc next_day_def days_in_def)
qed

lemma no_invoices: "ms_invoices m = [] \<Longrightarrow> invoices_of st m = []"
  by (simp add: invoices_of_def)

theorem renewal_invoices_pile_up_witness:
  "\<exists>m'. get_ms 3 (renewed (map (\<lambda>k. demo_office_env (add_days k (Date 2026 6 1))) [0..<8]) (demo_office MpActive [])) = Some m' \<and>
     invoice_count m' = 8"
proof -
  let ?es = "map (\<lambda>k. demo_office_env (add_days k (Date 2026 6 1))) [0..<8]"
  have "valid_date (Date 2026 6 1)" by (simp add: valid_date_def days_in_def)
  moreover have "map oe_today ?es = map (\<lambda>k. add_days k (Date 2026 6 1)) [0..<8]" by (simp add: demo_office_env_def comp_def del: upt.simps)
  moreover have "linked e (demo_office MpActive [])" if "e \<in> set ?es" for e using that demo_linked by auto
  ultimately show ?thesis
    using renewal_invoices_pile_up [of "Date 2026 6 1" ?es "demo_office MpActive []", OF _ _ demo_office_wf _ demo_ms]
    by (auto simp: demo_end demo_week no_invoices invoice_count_def simp del: upt.simps One_nat_def)
qed

theorem paid_member_keeps_access_witness:
  "\<exists>r. lookup_by_membership_card (gate_view (fold night [demo_office_env (Date 2090 1 1)] (demo_office MpActive [])) empty_club) ''A1'' = Some r \<and>
     fo_allowed r"
  using paid_member_keeps_access [of "demo_office MpActive []", OF demo_office_wf demo_ms _ _ demo_card, where es = "[demo_office_env (Date 2090 1 1)]" and c = empty_club]
  by (auto simp: no_invoices demo_member_def)

theorem overdue_member_denied_witness:
  "\<exists>r. lookup_by_membership_card
         (gate_view (snd (cron_apply_late_fees (demo_office_env (Date 2026 7 1)) (demo_office MpActive [demo_invoice]))) empty_club) ''A1'' = Some r \<and>
       \<not> fo_allowed r"
proof -
  let ?e = "demo_office_env (Date 2026 7 1)" and ?st = "demo_office MpActive [demo_invoice]"
  let ?m = "\<lparr>ms_id = 3, ms_affiliate = 1, ms_plan = 2, ms_start = Date 2025 6 8, ms_status = MpActive, ms_invoices = map mv_id [demo_invoice]\<rparr>"
  have inv: "invoices_of ?st ?m = [demo_invoice]" by (simp add: invoices_of_def demo_office_def)
  have plan: "get_plan ?st ?m = Some demo_plan" by (simp add: get_plan_def demo_office_defs row_simps)
  have end_date: "ms_end ?st ?m = Some (Date 2026 6 8)" by (rule demo_end) simp_all
  have "ended (oe_today ?e) ?st ?m" unfolding ended_def end_date by (simp add: demo_office_env_def less_eq_date_def)
  moreover have "overdue (oe_today ?e) ?st ?m"
  proof -
    have "\<not> oe_today ?e \<le> plus_days (pl_grace demo_plan) (Date 2026 6 8)"
      using demo_week by (simp add: plus_days_def demo_plan_def demo_office_env_def less_eq_date_def)
    moreover have "filter unpaid [demo_invoice] \<noteq> []" by (simp add: unpaid_def demo_invoice_def)
    moreover have "\<not> already_fined ?st ?m (Date 2026 6 8)"
      unfolding already_fined_def plan inv by (simp add: demo_plan_def demo_invoice_def sells_def membership_line_def)
    ultimately show ?thesis unfolding overdue_def end_date plan inv by simp
  qed
  moreover have "wf_office ?st" by (rule demo_office_wf) (simp add: demo_invoice_def)
  moreover have "no_other_active 3 1 ?st" by (simp add: no_other_active_def demo_office_def)
  ultimately show ?thesis
    using overdue_member_denied [of ?st ?e, OF _ demo_linked demo_ms _ _ demo_card, where c = empty_club] by (auto simp: demo_member_def)
qed

theorem membership_moves_forward_witness:
  "\<exists>m'. get_ms 3 (snd (action_suspend [3] (demo_office MpActive []))) = Some m' \<and> 1 \<le> rank (ms_status m')"
proof -
  have "office_step\<^sup>*\<^sup>* (demo_office MpActive []) (snd (action_suspend [3] (demo_office MpActive [])))"
    using office_step.suspend by (rule r_into_rtranclp)
  from membership_moves_forward [OF this demo_office_wf demo_ms] show ?thesis by auto
qed

theorem late_fee_at_most_once_witness:
  "\<exists>m'. get_ms 3 (snd (cron_apply_late_fees (demo_office_env (Date 2026 7 1)) (demo_office MpActive [demo_invoice]))) = Some m' \<and>
     length (late_fees (snd (cron_apply_late_fees (demo_office_env (Date 2026 7 1)) (demo_office MpActive [demo_invoice]))) m') \<le> 1"
proof -
  let ?st = "demo_office MpActive [demo_invoice]"
  let ?st' = "snd (cron_apply_late_fees (demo_office_env (Date 2026 7 1)) ?st)"
  have step: "office_step\<^sup>*\<^sup>* ?st ?st'" using office_step.late_fees by (rule r_into_rtranclp)
  have wf: "wf_office ?st" by (rule demo_office_wf) (simp add: demo_invoice_def)
  have "late_fees ?st m = []" for m
    by (simp add: late_fees_def invoices_of_def demo_office_def is_fee_def demo_invoice_def membership_line_def)
  then show ?thesis
    using office_steps_onward [OF step wf] late_fee_at_most_once [OF step wf] demo_ms unfolding onward_def by blast
qed

theorem renewals_once_a_day_witness:
  "((\<lambda>s. snd (cron_check_renewals (demo_office_env (Date 2026 6 1)) s)) ^^ Suc 1) (demo_office MpActive []) =
   snd (cron_check_renewals (demo_office_env (Date 2026 6 1)) (demo_office MpActive []))"
  by (rule renewals_once_a_day [OF demo_office_wf]) (simp_all add: fee_apart_def demo_office_defs)

end
