(* ===== verification/ClubBilling.thy ===== *)
theory ClubBilling
  imports ClubMembership "HOL-Library.Multiset"
begin

text \<open>
  The billing of what members charge to their account at the points of sale
  (custom-addons/club_affiliate_billing/models: club_affiliate_billing_run.py,
  club_affiliate_billing_invoice.py, club_affiliate_billing_line.py, pos_order.py), with the check
  of a sale in custom-addons/club_pos/models/pos_order.py.

  A point in time is a date and the second of the day. Amounts are \<open>rat\<close>, so sums are exact where
  floats round. The accounting of Odoo is not under src/: \<open>be_refused\<close> says which invoices raise.
\<close>

section \<open>Records\<close>

record payment =
  py_amount :: rat
  py_cargo :: bool

datatype order_state = PosDraft | PosPaid | PosDone | PosInvoiced | PosCancelled

record pos_order =
  po_id :: nat
  po_name :: string
  po_reference :: "string option"
  po_partner :: "nat option"
  po_date :: date
  po_second :: nat
  po_payments :: "payment list"
  po_state :: order_state
  po_billed :: bool
  po_bill :: "nat option"

record billing_line =
  bl_order :: "nat option"
  bl_amount :: rat
  bl_label :: string
  bl_day :: date

datatype invoice_status = Pending | Invoiced | Failure

record billing_invoice =
  bi_id :: nat
  bi_run :: nat
  bi_affiliate :: nat
  bi_lines :: "billing_line list"
  bi_status :: invoice_status
  bi_move :: "nat option"
  bi_error :: "string option"

datatype run_status = RunDraft | RunProcessing | RunCompleted | RunCancelled

record billing_run =
  br_id :: nat
  br_name :: string
  br_start :: date
  br_end :: date
  br_status :: run_status
  br_run_date :: "date option"
  br_auto :: bool

text \<open>An invoice of the accounting: its partner, the lines with their prices, and the reference.\<close>

record bill_move =
  bm_id :: nat
  bm_partner :: nat
  bm_date :: date
  bm_ref :: "string \<times> string"
  bm_lines :: "(billing_line \<times> rat) list"

record bill_world =
  bw_members :: "member list"
  bw_orders :: "pos_order list"
  bw_runs :: "billing_run list"
  bw_invoices :: "billing_invoice list"
  bw_moves :: "bill_move list"
  bw_next :: nat
  bw_sequence :: nat

record bill_env =
  be_today :: date
  be_sequence :: "nat \<Rightarrow> string option"
  be_refused :: "nat \<Rightarrow> (billing_line \<times> rat) list \<Rightarrow> string option"

datatype bill_exn =
    OnlyDraftGenerated
  | OnlyOpenCancelled
  | OnlyCancelledReset
  | NoRun nat
  | NoCustomer
  | NotActiveAffiliate nat

type_synonym 'a bill_act = "(bill_world, bill_exn, 'a) act"

section \<open>Computed fields\<close>

definition has_cargo_socio :: "pos_order \<Rightarrow> bool" where
  "has_cargo_socio po \<longleftrightarrow> (\<exists>y \<in> set (po_payments po). py_cargo y)"

definition cargo_amount :: "pos_order \<Rightarrow> rat" where
  "cargo_amount po = sum_list (map py_amount (filter py_cargo (po_payments po)))"

definition invoice_total :: "billing_invoice \<Rightarrow> rat" where
  "invoice_total b = sum_list (map bl_amount (bi_lines b))"

definition invoice_orders :: "billing_invoice \<Rightarrow> nat list" where
  "invoice_orders b = remdups (List.map_filter bl_order (bi_lines b))"

definition order_count :: "billing_invoice \<Rightarrow> nat" where
  "order_count b = length (invoice_orders b)"

definition run_invoices :: "nat \<Rightarrow> bill_world \<Rightarrow> billing_invoice list" where
  "run_invoices r w = filter (\<lambda>b. bi_run b = r) (bw_invoices w)"

definition run_invoice_count :: "nat \<Rightarrow> bill_world \<Rightarrow> nat" where
  "run_invoice_count r w = length (run_invoices r w)"

definition run_total :: "nat \<Rightarrow> bill_world \<Rightarrow> rat" where
  "run_total r w = sum_list (map invoice_total (run_invoices r w))"

section \<open>The point of sale\<close>

text \<open>
  \<open>action_pos_order_paid\<close>: an order charged to an account needs an active affiliate as its customer.
  The base method, which settles the order, is not under src/; here it makes the order paid.
\<close>

definition check_paid :: "club_office \<Rightarrow> pos_order \<Rightarrow> bill_exn + unit" where
  "check_paid st po =
     (if \<not> has_cargo_socio po then Inr ()
      else case po_partner po of
        None \<Rightarrow> Inl NoCustomer
      | Some p \<Rightarrow>
          (case find (\<lambda>a. af_partner a = p \<and> compute_membership_status (statuses_of st (af_id a)) = MsActive) (of_members st) of
             None \<Rightarrow> Inl (NotActiveAffiliate p)
           | Some a \<Rightarrow> Inr ()))"

definition order_paid :: "club_office \<Rightarrow> pos_order \<Rightarrow> bill_exn + pos_order" where
  "order_paid st po = (case check_paid st po of Inl x \<Rightarrow> Inl x | Inr u \<Rightarrow> Inr (po\<lparr>po_state := PosPaid\<rparr>))"

text \<open>What the point of sale shows of a customer.\<close>

definition compute_is_club_affiliate :: "club_office \<Rightarrow> nat \<Rightarrow> bool \<times> string option \<times> membership_status option" where
  "compute_is_club_affiliate st p =
     (case find (\<lambda>a. af_partner a = p) (of_members st) of
        None \<Rightarrow> (False, None, None)
      | Some a \<Rightarrow> (True, af_number a, Some (compute_membership_status (statuses_of st (af_id a)))))"

section \<open>Runs\<close>

definition write_run :: "nat \<Rightarrow> (billing_run \<Rightarrow> billing_run) \<Rightarrow> bill_world \<Rightarrow> bill_world" where
  "write_run i f w = w\<lparr>bw_runs := row_upd br_id i f (bw_runs w)\<rparr>"

definition write_order :: "nat \<Rightarrow> (pos_order \<Rightarrow> pos_order) \<Rightarrow> bill_world \<Rightarrow> bill_world" where
  "write_order i f w = w\<lparr>bw_orders := row_upd po_id i f (bw_orders w)\<rparr>"

definition write_invoice :: "nat \<Rightarrow> (billing_invoice \<Rightarrow> billing_invoice) \<Rightarrow> bill_world \<Rightarrow> bill_world" where
  "write_invoice i f w = w\<lparr>bw_invoices := row_upd bi_id i f (bw_invoices w)\<rparr>"

definition with_run :: "nat \<Rightarrow> (billing_run \<Rightarrow> 'a bill_act) \<Rightarrow> 'a bill_act" where
  "with_run i k = (\<lambda>w. case row_get br_id i (bw_runs w) of None \<Rightarrow> (Inl (NoRun i), w) | Some r \<Rightarrow> k r w)"

text \<open>\<open>create\<close>: a run without a name takes the next of the sequence.\<close>

definition create_run :: "bill_env \<Rightarrow> billing_run \<Rightarrow> bill_world \<Rightarrow> nat \<times> bill_world" where
  "create_run e r w =
     (let i = bw_next w;
          fresh_name = (br_name r = ''/'');
          name = (if fresh_name then py_or (be_sequence e (bw_sequence w)) ''/'' else br_name r)
      in (i, w\<lparr>bw_runs := bw_runs w @ [r\<lparr>br_id := i, br_name := name\<rparr>], bw_next := i + 1,
               bw_sequence := (if fresh_name then bw_sequence w + 1 else bw_sequence w)\<rparr>))"

text \<open>The orders a run is about: paid, charged to an account, not billed yet, within the period.\<close>

definition stamp_le :: "date \<times> nat \<Rightarrow> date \<times> nat \<Rightarrow> bool" where
  "stamp_le a b \<longleftrightarrow> fst a < fst b \<or> fst a = fst b \<and> snd a \<le> snd b"

definition to_bill :: "billing_run \<Rightarrow> pos_order \<Rightarrow> bool" where
  "to_bill r po \<longleftrightarrow>
     stamp_le (br_start r, 0) (po_date po, po_second po) \<and> stamp_le (po_date po, po_second po) (br_end r, 86399) \<and>
     has_cargo_socio po \<and> \<not> po_billed po \<and> po_state po \<in> set [PosPaid, PosDone, PosInvoiced]"

fun add_to_group :: "nat \<Rightarrow> 'x \<Rightarrow> (nat \<times> 'x list) list \<Rightarrow> (nat \<times> 'x list) list" where
  "add_to_group p x [] = [(p, [x])]"
| "add_to_group p x ((q, xs) # gs) = (if q = p then (q, xs @ [x]) # gs else (q, xs) # add_to_group p x gs)"

definition partner_orders :: "pos_order list \<Rightarrow> (nat \<times> (pos_order \<times> rat) list) list" where
  "partner_orders orders =
     fold (\<lambda>po gs.
       if filter py_cargo (po_payments po) = [] then gs
       else case po_partner po of None \<Rightarrow> gs | Some p \<Rightarrow> add_to_group p (po, cargo_amount po) gs) orders []"

definition line_of :: "pos_order \<times> rat \<Rightarrow> billing_line" where
  "line_of d = \<lparr>bl_order = Some (po_id (fst d)), bl_amount = snd d,
     bl_label = (if po_name (fst d) \<noteq> [] then po_name (fst d) else py_or (po_reference (fst d)) []), bl_day = po_date (fst d)\<rparr>"

definition bill_order :: "nat \<Rightarrow> pos_order \<times> rat \<Rightarrow> bill_world \<Rightarrow> bill_world" where
  "bill_order b d w =
     write_order (po_id (fst d)) (\<lambda>po. po\<lparr>po_billed := True, po_bill := Some b\<rparr>)
       (write_invoice b (\<lambda>inv. inv\<lparr>bi_lines := bi_lines inv @ [line_of d]\<rparr>) w)"

definition new_invoice :: "nat \<Rightarrow> nat \<Rightarrow> nat \<Rightarrow> billing_invoice" where
  "new_invoice b run a = \<lparr>bi_id = b, bi_run = run, bi_affiliate = a, bi_lines = [], bi_status = Pending, bi_move = None, bi_error = None\<rparr>"

definition bill_partner :: "nat \<Rightarrow> nat \<times> (pos_order \<times> rat) list \<Rightarrow> bill_world \<Rightarrow> bill_world" where
  "bill_partner run g w =
     (case find (\<lambda>a. af_partner a = fst g) (bw_members w) of
        None \<Rightarrow> w
      | Some a \<Rightarrow>
          (let b = bw_next w
           in fold (bill_order b) (snd g)
                (w\<lparr>bw_invoices := bw_invoices w @ [new_invoice b run (af_id a)], bw_next := b + 1\<rparr>)))"

definition action_generate :: "bill_env \<Rightarrow> nat \<Rightarrow> unit bill_act" where
  "action_generate e i = rolled_back (with_run i (\<lambda>r.
     if br_status r \<noteq> RunDraft then act_raise OnlyDraftGenerated
     else act_seq (act_modify (write_run i (\<lambda>r. r\<lparr>br_status := RunProcessing\<rparr>)))
          (act_seq (act_modify (\<lambda>w. fold (bill_partner i) (partner_orders (filter (to_bill r) (bw_orders w))) w))
          (act_modify (write_run i (\<lambda>r. r\<lparr>br_run_date := Some (be_today e), br_status := RunCompleted\<rparr>))))))"

section \<open>Invoices\<close>

definition move_lines :: "billing_invoice \<Rightarrow> (billing_line \<times> rat) list" where
  "move_lines b = map (\<lambda>l. (l, bl_amount l)) (bi_lines b)"

text \<open>The affiliate of a billing invoice is required, so its row exists.\<close>

definition invoice_one :: "bill_env \<Rightarrow> billing_run \<Rightarrow> billing_invoice \<Rightarrow> bill_world \<Rightarrow> bill_world" where
  "invoice_one e r b w =
     (if bi_lines b = [] then w
      else case row_get af_id (bi_affiliate b) (bw_members w) of
        None \<Rightarrow> w
      | Some a \<Rightarrow>
          (case be_refused e (af_partner a) (move_lines b) of
             Some msg \<Rightarrow> write_invoice (bi_id b) (\<lambda>x. x\<lparr>bi_status := Failure, bi_error := Some msg\<rparr>) w
           | None \<Rightarrow>
               write_invoice (bi_id b) (\<lambda>x. x\<lparr>bi_move := Some (bw_next w), bi_status := Invoiced\<rparr>)
                 (w\<lparr>bw_moves := bw_moves w @ [\<lparr>bm_id = bw_next w, bm_partner = af_partner a, bm_date = be_today e,
                       bm_ref = (br_name r, py_or (af_number a) []), bm_lines = move_lines b\<rparr>],
                    bw_next := bw_next w + 1\<rparr>)))"

definition action_create_invoices :: "bill_env \<Rightarrow> nat \<Rightarrow> unit bill_act" where
  "action_create_invoices e i = with_run i (\<lambda>r.
     act_modify (\<lambda>w. fold (invoice_one e r) (filter (\<lambda>b. bi_status b = Pending) (run_invoices i w)) w))"

section \<open>Cancelling\<close>

definition unbill_line :: "billing_line \<Rightarrow> bill_world \<Rightarrow> bill_world" where
  "unbill_line l w =
     (case bl_order l of None \<Rightarrow> w | Some k \<Rightarrow> write_order k (\<lambda>po. po\<lparr>po_billed := False, po_bill := None\<rparr>) w)"

definition action_cancel_run :: "nat \<Rightarrow> unit bill_act" where
  "action_cancel_run i = with_run i (\<lambda>r.
     if br_status r \<notin> set [RunDraft, RunProcessing] then act_raise OnlyOpenCancelled
     else act_seq (act_modify (\<lambda>w. fold unbill_line (concat (map bi_lines (run_invoices i w))) w))
          (act_modify (write_run i (\<lambda>r. r\<lparr>br_status := RunCancelled\<rparr>))))"

definition action_draft :: "nat \<Rightarrow> unit bill_act" where
  "action_draft i = with_run i (\<lambda>r.
     if br_status r \<noteq> RunCancelled then act_raise OnlyCancelledReset
     else act_modify (write_run i (\<lambda>r. r\<lparr>br_status := RunDraft\<rparr>)))"

section \<open>The monthly job\<close>

definition last_month :: "date \<Rightarrow> date \<times> date" where
  "last_month today =
     (let last_of_previous = prev_day (first_of_month today) in (first_of_month last_of_previous, last_of_previous))"

definition cron_monthly_billing :: "bill_env \<Rightarrow> unit bill_act" where
  "cron_monthly_billing e = rolled_back (\<lambda>w.
     let period = last_month (be_today e)
     in case find (\<lambda>r. br_start r = fst period \<and> br_end r = snd period \<and> br_status r \<noteq> RunCancelled) (bw_runs w) of
          Some r \<Rightarrow> (Inr (), w)
        | None \<Rightarrow>
            (case create_run e \<lparr>br_id = 0, br_name = ''/'', br_start = fst period, br_end = snd period, br_status = RunDraft,
                    br_run_date = None, br_auto = True\<rparr> w of
               (i, w1) \<Rightarrow> act_seq (action_generate e i) (action_create_invoices e i) w1))"

section \<open>Counting lines\<close>

text \<open>How many billing lines name an order, and whether the order is marked as billed.\<close>

definition lines_for :: "nat \<Rightarrow> billing_invoice \<Rightarrow> nat" where
  "lines_for k b = length (filter (\<lambda>l. bl_order l = Some k) (bi_lines b))"

definition times_billed :: "nat \<Rightarrow> bill_world \<Rightarrow> nat" where
  "times_billed k w = sum_list (map (lines_for k) (bw_invoices w))"

definition marked :: "nat \<Rightarrow> bill_world \<Rightarrow> bool" where
  "marked k w \<longleftrightarrow> (case row_get po_id k (bw_orders w) of None \<Rightarrow> False | Some po \<Rightarrow> po_billed po)"

lemma sum_list_row_upd:
  fixes g :: "'r \<Rightarrow> 'm::comm_monoid_add"
  assumes "distinct (map key xs)" "row_get key i xs = Some x" "g (f x) = g x + d"
  shows "sum_list (map g (row_upd key i f xs)) = sum_list (map g xs) + d"
  using assms(1,2)
proof (induction xs)
  case (Cons y xs)
  show ?case
  proof (cases "key y = i")
    case True
    then have "key x \<noteq> i" if "x \<in> set xs" for x using Cons.prems(1) that by (metis distinct.simps(2) image_eqI list.simps(9) set_map)
    then have "row_upd key i f xs = xs" unfolding row_upd_def by (intro map_idI) simp
    with True Cons.prems(2) assms(3) show ?thesis by (simp add: row_simps add.assoc add.commute add.left_commute)
  next
    case False
    with Cons show ?thesis by (simp add: row_simps add.assoc)
  qed
qed (simp add: row_simps)

text \<open>What billing one order does, for a world that holds the invoice.\<close>

definition bill_ready :: "nat \<Rightarrow> nat \<Rightarrow> bill_world \<Rightarrow> bool" where
  "bill_ready b r w \<longleftrightarrow> distinct (map bi_id (bw_invoices w)) \<and> (\<exists>v. row_get bi_id b (bw_invoices w) = Some v \<and> bi_run v = r)"

lemma bill_order_sel [simp]:
  "bw_members (bill_order b d w) = bw_members w" "bw_runs (bill_order b d w) = bw_runs w" "bw_next (bill_order b d w) = bw_next w"
  "map bi_id (bw_invoices (bill_order b d w)) = map bi_id (bw_invoices w)"
  "map bi_run (bw_invoices (bill_order b d w)) = map bi_run (bw_invoices w)"
  "map po_id (bw_orders (bill_order b d w)) = map po_id (bw_orders w)"
  by (simp_all add: bill_order_def write_order_def write_invoice_def map_key_row_upd) (simp add: row_upd_def)

lemma bill_order_ready: "bill_ready b r w \<Longrightarrow> bill_ready b r (bill_order b d w)"
  by (auto simp: bill_ready_def) (auto simp: bill_order_def write_order_def write_invoice_def row_get_upd_same)

lemma bill_order_times:
  "bill_ready b r w \<Longrightarrow> times_billed k (bill_order b d w) = times_billed k w + (if k = po_id (fst d) then 1 else 0)"
  using sum_list_row_upd [of bi_id "bw_invoices w" b _ "lines_for k" "\<lambda>inv. inv\<lparr>bi_lines := bi_lines inv @ [line_of d]\<rparr>"
      "if k = po_id (fst d) then 1 else 0"]
  by (auto simp: bill_ready_def times_billed_def bill_order_def write_order_def write_invoice_def lines_for_def) (auto simp: line_of_def)

lemma run_total_sum: "run_total r w = sum_list (map (\<lambda>b. if bi_run b = r then invoice_total b else 0) (bw_invoices w))"
  by (simp add: run_total_def run_invoices_def sum_list_map_filter')

lemma bill_order_total:
  "bill_ready b r w \<Longrightarrow> run_total r (bill_order b d w) = run_total r w + snd d"
  using sum_list_row_upd [of bi_id "bw_invoices w" b _ "\<lambda>b. if bi_run b = r then invoice_total b else 0"
      "\<lambda>inv. inv\<lparr>bi_lines := bi_lines inv @ [line_of d]\<rparr>" "snd d"]
  by (auto simp: bill_ready_def run_total_sum bill_order_def write_order_def write_invoice_def invoice_total_def) (simp add: line_of_def)

lemma bill_order_marked:
  "marked k (bill_order b d w) \<longleftrightarrow> marked k w \<or> k = po_id (fst d) \<and> k \<in> po_id ` set (bw_orders w)"
proof (cases "k = po_id (fst d)")
  case True
  have "row_get po_id k (bw_orders w) = None \<longleftrightarrow> k \<notin> po_id ` set (bw_orders w)" by (rule row_get_None)
  then show ?thesis using True
    by (cases "row_get po_id k (bw_orders w)")
      (simp_all add: marked_def bill_order_def write_order_def write_invoice_def row_get_upd_same)
next
  case False
  then show ?thesis by (auto simp: marked_def bill_order_def write_order_def write_invoice_def row_get_upd_other)
qed

text \<open>The same for the orders of a customer, and then for all of them.\<close>

definition ids_of :: "(pos_order \<times> rat) list \<Rightarrow> nat list" where
  "ids_of ds = map (\<lambda>d. po_id (fst d)) ds"

lemma bill_orders_effect:
  assumes "bill_ready b r w"
  shows "bill_ready b r (fold (bill_order b) ds w) \<and>
    times_billed k (fold (bill_order b) ds w) = times_billed k w + count_list (ids_of ds) k \<and>
    run_total r (fold (bill_order b) ds w) = run_total r w + sum_list (map snd ds) \<and>
    (marked k (fold (bill_order b) ds w) \<longleftrightarrow> marked k w \<or> k \<in> set (ids_of ds) \<and> k \<in> po_id ` set (bw_orders w)) \<and>
    map po_id (bw_orders (fold (bill_order b) ds w)) = map po_id (bw_orders w)"
  using assms
proof (induction ds arbitrary: w)
  case Nil
  then show ?case by (simp add: ids_of_def)
next
  case (Cons d ds)
  have "po_id ` set (bw_orders (bill_order b d w)) = po_id ` set (bw_orders w)"
    using bill_order_sel(6) by (metis set_map)
  with Cons.IH [OF bill_order_ready [OF Cons.prems]] bill_order_times [OF Cons.prems] bill_order_total [OF Cons.prems]
    bill_order_marked [of k b d w] bill_order_sel(6) [of b d w]
  show ?case by (auto simp: ids_of_def)
qed

lemma bill_orders_sel:
  "bw_members (fold (bill_order b) ds w) = bw_members w" "bw_runs (fold (bill_order b) ds w) = bw_runs w"
  "bw_next (fold (bill_order b) ds w) = bw_next w" "map bi_id (bw_invoices (fold (bill_order b) ds w)) = map bi_id (bw_invoices w)"
  "map bi_run (bw_invoices (fold (bill_order b) ds w)) = map bi_run (bw_invoices w)"
  by (induction ds arbitrary: w) auto

definition has_member :: "member list \<Rightarrow> nat \<Rightarrow> bool" where
  "has_member as p \<longleftrightarrow> find (\<lambda>a. af_partner a = p) as \<noteq> None"

definition ids_ok :: "bill_world \<Rightarrow> bool" where
  "ids_ok w \<longleftrightarrow> distinct (map bi_id (bw_invoices w)) \<and> (\<forall>i \<in> set (map bi_id (bw_invoices w)). i < bw_next w)"

definition billed_part :: "member list \<Rightarrow> nat \<times> (pos_order \<times> rat) list \<Rightarrow> (pos_order \<times> rat) list" where
  "billed_part as g = (if has_member as (fst g) then snd g else [])"

lemma bill_partner_effect:
  assumes "ids_ok w"
  shows "ids_ok (bill_partner r g w)"
    and "times_billed k (bill_partner r g w) = times_billed k w + count_list (ids_of (billed_part (bw_members w) g)) k"
    and "run_total r (bill_partner r g w) = run_total r w + sum_list (map snd (billed_part (bw_members w) g))"
    and "marked k (bill_partner r g w) \<longleftrightarrow> marked k w \<or> k \<in> set (ids_of (billed_part (bw_members w) g)) \<and> k \<in> po_id ` set (bw_orders w)"
    and "map po_id (bw_orders (bill_partner r g w)) = map po_id (bw_orders w)"
    and "bw_members (bill_partner r g w) = bw_members w" "bw_runs (bill_partner r g w) = bw_runs w"
    and "bw_next w \<le> bw_next (bill_partner r g w)"
    and "set (map bi_run (bw_invoices (bill_partner r g w))) \<subseteq> insert r (set (map bi_run (bw_invoices w)))"
proof -
  let ?d = "billed_part (bw_members w) g"
  have "ids_ok (bill_partner r g w) \<and>
    times_billed k (bill_partner r g w) = times_billed k w + count_list (ids_of ?d) k \<and>
    run_total r (bill_partner r g w) = run_total r w + sum_list (map snd ?d) \<and>
    (marked k (bill_partner r g w) \<longleftrightarrow> marked k w \<or> k \<in> set (ids_of ?d) \<and> k \<in> po_id ` set (bw_orders w)) \<and>
    map po_id (bw_orders (bill_partner r g w)) = map po_id (bw_orders w) \<and>
    bw_members (bill_partner r g w) = bw_members w \<and> bw_runs (bill_partner r g w) = bw_runs w \<and>
    bw_next w \<le> bw_next (bill_partner r g w) \<and>
    set (map bi_run (bw_invoices (bill_partner r g w))) \<subseteq> insert r (set (map bi_run (bw_invoices w)))"
  proof (cases "find (\<lambda>a. af_partner a = fst g) (bw_members w)")
    case None
    then show ?thesis using assms by (auto simp: bill_partner_def billed_part_def has_member_def ids_of_def)
  next
    case (Some a)
    let ?b = "bw_next w"
    let ?w = "w\<lparr>bw_invoices := bw_invoices w @ [new_invoice ?b r (af_id a)], bw_next := ?b + 1\<rparr>"
    have run: "bill_partner r g w = fold (bill_order ?b) (snd g) ?w" using Some by (simp add: bill_partner_def Let_def)
    have none: "row_get bi_id ?b (bw_invoices w) = None"
      using assms by (auto simp: row_get_None ids_ok_def)
    have ready: "bill_ready ?b r ?w"
      using assms none by (auto simp: bill_ready_def ids_ok_def row_get_append row_simps new_invoice_def)
    have "times_billed k ?w = times_billed k w" "run_total r ?w = run_total r w" "marked k ?w = marked k w"
      by (simp_all add: times_billed_def lines_for_def new_invoice_def run_total_sum invoice_total_def marked_def)
    moreover have "ids_ok ?w" using ready assms by (auto simp: ids_ok_def bill_ready_def new_invoice_def)
    then have "ids_ok (fold (bill_order ?b) (snd g) ?w)" unfolding ids_ok_def bill_orders_sel .
    moreover have "?d = snd g" using Some by (simp add: billed_part_def has_member_def)
    moreover have "set (map bi_run (bw_invoices ?w)) = insert r (set (map bi_run (bw_invoices w)))" by (simp add: new_invoice_def)
    ultimately show ?thesis unfolding run
      using bill_orders_effect [OF ready, where ds = "snd g" and k = k] bill_orders_sel [where b = ?b and ds = "snd g" and w = ?w] by simp
  qed
  then show "ids_ok (bill_partner r g w)"
    "times_billed k (bill_partner r g w) = times_billed k w + count_list (ids_of ?d) k"
    "run_total r (bill_partner r g w) = run_total r w + sum_list (map snd ?d)"
    "marked k (bill_partner r g w) \<longleftrightarrow> marked k w \<or> k \<in> set (ids_of ?d) \<and> k \<in> po_id ` set (bw_orders w)"
    "map po_id (bw_orders (bill_partner r g w)) = map po_id (bw_orders w)"
    "bw_members (bill_partner r g w) = bw_members w" "bw_runs (bill_partner r g w) = bw_runs w"
    "bw_next w \<le> bw_next (bill_partner r g w)"
    "set (map bi_run (bw_invoices (bill_partner r g w))) \<subseteq> insert r (set (map bi_run (bw_invoices w)))" by blast+
qed

text \<open>All the orders that a run bills, grouped by customer, and what billing them does.\<close>

definition all_billed :: "member list \<Rightarrow> (nat \<times> (pos_order \<times> rat) list) list \<Rightarrow> (pos_order \<times> rat) list" where
  "all_billed as gs = concat (map (billed_part as) gs)"

lemma bill_partners_effect:
  assumes "ids_ok w"
  shows "ids_ok (fold (bill_partner r) gs w) \<and>
    times_billed k (fold (bill_partner r) gs w) = times_billed k w + count_list (ids_of (all_billed (bw_members w) gs)) k \<and>
    run_total r (fold (bill_partner r) gs w) = run_total r w + sum_list (map snd (all_billed (bw_members w) gs)) \<and>
    (marked k (fold (bill_partner r) gs w) \<longleftrightarrow>
       marked k w \<or> k \<in> set (ids_of (all_billed (bw_members w) gs)) \<and> k \<in> po_id ` set (bw_orders w)) \<and>
    map po_id (bw_orders (fold (bill_partner r) gs w)) = map po_id (bw_orders w) \<and>
    bw_members (fold (bill_partner r) gs w) = bw_members w \<and> bw_runs (fold (bill_partner r) gs w) = bw_runs w \<and>
    bw_next w \<le> bw_next (fold (bill_partner r) gs w) \<and>
    set (map bi_run (bw_invoices (fold (bill_partner r) gs w))) \<subseteq> insert r (set (map bi_run (bw_invoices w)))"
  using assms
proof (induction gs arbitrary: w)
  case Nil
  then show ?case by (auto simp: all_billed_def ids_of_def)
next
  case (Cons g gs)
  note step = bill_partner_effect [OF Cons.prems, where r = r and g = g]
  let ?v = "bill_partner r g w" and ?as = "bw_members w"
  have orders: "po_id ` set (bw_orders ?v) = po_id ` set (bw_orders w)" using step(5) by (metis set_map)
  have split: "all_billed ?as (g # gs) = billed_part ?as g @ all_billed ?as gs" by (simp add: all_billed_def)
  have ids: "ids_of (billed_part ?as g @ all_billed ?as gs) = ids_of (billed_part ?as g) @ ids_of (all_billed ?as gs)"
    by (simp add: ids_of_def)
  note ih = Cons.IH [OF step(1), unfolded step(5-7) orders]
  have "set (map bi_run (bw_invoices (fold (bill_partner r) gs ?v))) \<subseteq> insert r (set (map bi_run (bw_invoices w)))"
    using ih step(9) by blast
  moreover have "marked k (fold (bill_partner r) gs ?v) \<longleftrightarrow>
      marked k w \<or> k \<in> set (ids_of (all_billed ?as (g # gs))) \<and> k \<in> po_id ` set (bw_orders w)"
    using ih step(4) [of k] unfolding split ids by auto
  moreover have "bw_next w \<le> bw_next (fold (bill_partner r) gs ?v)" using ih step(8) by (meson le_trans)
  ultimately show ?case using ih step(2) [of k] step(3)
    unfolding fold_Cons comp_apply split ids by (simp add: add.assoc)
qed

lemma add_to_group_billed:
  "mset (all_billed as (add_to_group p x gs)) = mset (all_billed as gs) + (if has_member as p then {#x#} else {#})"
  by (induction gs) (auto simp: all_billed_def billed_part_def)

definition charged_to_member :: "member list \<Rightarrow> pos_order \<Rightarrow> bool" where
  "charged_to_member as po \<longleftrightarrow> has_cargo_socio po \<and> (case po_partner po of None \<Rightarrow> False | Some p \<Rightarrow> has_member as p)"

lemma partner_orders_billed:
  "mset (all_billed as (partner_orders os)) =
     mset (map (\<lambda>po. (po, cargo_amount po)) (filter (charged_to_member as) os))"
proof -
  let ?step = "\<lambda>po gs. if filter py_cargo (po_payments po) = [] then gs
    else case po_partner po of None \<Rightarrow> gs | Some p \<Rightarrow> add_to_group p (po, cargo_amount po) gs"
  have "mset (all_billed as (fold ?step os gs)) =
      mset (all_billed as gs) + mset (map (\<lambda>po. (po, cargo_amount po)) (filter (charged_to_member as) os))" for gs
  proof (induction os arbitrary: gs)
    case (Cons po os)
    have "filter py_cargo (po_payments po) = [] \<longleftrightarrow> \<not> has_cargo_socio po"
      by (auto simp: has_cargo_socio_def filter_empty_conv)
    then have "mset (all_billed as (?step po gs)) =
        mset (all_billed as gs) + (if charged_to_member as po then {#(po, cargo_amount po)#} else {#})"
      by (auto simp: charged_to_member_def add_to_group_billed split: option.split)
    with Cons.IH [of "?step po gs"] show ?case by simp
  qed simp
  from this [of "[]"] show ?thesis by (simp add: partner_orders_def all_billed_def)
qed

section \<open>The invariant of billing\<close>

definition bill_inv :: "bill_world \<Rightarrow> bool" where
  "bill_inv w \<longleftrightarrow> ids_ok w \<and> distinct (map po_id (bw_orders w)) \<and>
     distinct (map br_id (bw_runs w)) \<and> (\<forall>i \<in> set (map br_id (bw_runs w)) \<union> set (map bi_run (bw_invoices w)). i < bw_next w) \<and>
     (\<forall>r \<in> set (bw_runs w). br_status r \<noteq> RunCompleted \<longrightarrow> br_id r \<notin> set (map bi_run (bw_invoices w))) \<and>
     (\<forall>k. times_billed k w = (if marked k w then 1 else 0))"

lemma distinct_count_list: "distinct xs \<Longrightarrow> count_list xs k = (if k \<in> set xs then 1 else 0)"
  by (induction xs) auto

text \<open>The orders that a run of this moment bills, one by one.\<close>

definition due_orders :: "billing_run \<Rightarrow> bill_world \<Rightarrow> pos_order list" where
  "due_orders r w = filter (\<lambda>po. to_bill r po \<and> charged_to_member (bw_members w) po) (bw_orders w)"

definition generated :: "bill_env \<Rightarrow> nat \<Rightarrow> billing_run \<Rightarrow> bill_world \<Rightarrow> bill_world" where
  "generated e i r w = write_run i (\<lambda>r. r\<lparr>br_run_date := Some (be_today e), br_status := RunCompleted\<rparr>)
     (fold (bill_partner i) (partner_orders (filter (to_bill r) (bw_orders w))) (write_run i (\<lambda>r. r\<lparr>br_status := RunProcessing\<rparr>) w))"

lemma generate_cases:
  "action_generate e i w = (x, w') \<Longrightarrow>
   (x \<noteq> Inr () \<and> w' = w) \<or> (\<exists>r. row_get br_id i (bw_runs w) = Some r \<and> br_status r = RunDraft \<and> x = Inr () \<and> w' = generated e i r w)"
  by (auto simp: action_generate_def rolled_back_def with_run_def generated_def write_run_def split: option.splits if_splits)

lemma write_run_sel [simp]:
  "bw_orders (write_run i f w) = bw_orders w" "bw_invoices (write_run i f w) = bw_invoices w"
  "bw_members (write_run i f w) = bw_members w" "bw_next (write_run i f w) = bw_next w" "ids_ok (write_run i f w) = ids_ok w"
  "times_billed k (write_run i f w) = times_billed k w" "marked k (write_run i f w) = marked k w" "run_total j (write_run i f w) = run_total j w"
  by (simp_all add: write_run_def ids_ok_def times_billed_def marked_def run_total_sum)

lemma billed_ids:
  defines "ds r w \<equiv> all_billed (bw_members w) (partner_orders (filter (to_bill r) (bw_orders w)))"
  shows "mset (ids_of (ds r w)) = mset (map po_id (due_orders r w))"
    and "sum_list (map snd (ds r w)) = sum_list (map cargo_amount (due_orders r w))"
proof -
  have f: "filter (charged_to_member as) (filter (to_bill r) os) = filter (\<lambda>po. to_bill r po \<and> charged_to_member as po) os" for as os
    by (simp add: conj_commute)
  have m: "mset (ds r w) = mset (map (\<lambda>po. (po, cargo_amount po)) (due_orders r w))"
    unfolding ds_def partner_orders_billed f due_orders_def ..
  have "mset (ids_of (ds r w)) = image_mset (\<lambda>d. po_id (fst d)) (mset (ds r w))" by (simp add: ids_of_def)
  also have "\<dots> = mset (map po_id (due_orders r w))" unfolding m by (simp add: multiset.map_comp comp_def)
  finally show "mset (ids_of (ds r w)) = mset (map po_id (due_orders r w))" .
  have "sum_list (map snd (ds r w)) = sum_mset (image_mset snd (mset (ds r w)))" by (metis mset_map sum_mset_sum_list)
  also have "\<dots> = sum_mset (mset (map cargo_amount (due_orders r w)))" unfolding m by (simp add: multiset.map_comp comp_def)
  finally show "sum_list (map snd (ds r w)) = sum_list (map cargo_amount (due_orders r w))" by (simp only: sum_mset_sum_list)
qed

lemma generated_effect:
  assumes "bill_inv w" "row_get br_id i (bw_runs w) = Some r"
  shows "ids_ok (generated e i r w)"
    and "times_billed k (generated e i r w) = times_billed k w + (if k \<in> po_id ` set (due_orders r w) then 1 else 0)"
    and "run_total i (generated e i r w) = run_total i w + sum_list (map cargo_amount (due_orders r w))"
    and "marked k (generated e i r w) \<longleftrightarrow> marked k w \<or> k \<in> po_id ` set (due_orders r w)"
    and "map po_id (bw_orders (generated e i r w)) = map po_id (bw_orders w)"
    and "bw_members (generated e i r w) = bw_members w"
    and "bw_runs (generated e i r w) = bw_runs (write_run i (\<lambda>r. r\<lparr>br_run_date := Some (be_today e), br_status := RunCompleted\<rparr>) w)"
    and "bw_next w \<le> bw_next (generated e i r w)"
    and "set (map bi_run (bw_invoices (generated e i r w))) \<subseteq> insert i (set (map bi_run (bw_invoices w)))"
proof -
  let ?w = "write_run i (\<lambda>r. r\<lparr>br_status := RunProcessing\<rparr>) w"
  let ?ds = "all_billed (bw_members w) (partner_orders (filter (to_bill r) (bw_orders w)))"
  have ok: "ids_ok ?w" using assms(1) by (simp add: bill_inv_def)
  note e = bill_partners_effect [OF ok, of i "partner_orders (filter (to_bill r) (bw_orders w))", unfolded write_run_sel]
  have d: "distinct (map po_id (due_orders r w))" using assms(1) by (simp add: bill_inv_def due_orders_def distinct_map_filter)
  have set_ids: "set (ids_of ?ds) = po_id ` set (due_orders r w)" using mset_eq_setD [OF billed_ids(1)] by simp
  have "distinct (ids_of ?ds)" using d mset_eq_imp_distinct_iff [OF billed_ids(1)] by blast
  then have cnt: "count_list (ids_of ?ds) k = (if k \<in> po_id ` set (due_orders r w) then 1 else 0)"
    by (simp add: distinct_count_list set_ids)
  have sub: "k \<in> po_id ` set (bw_orders w)" if "k \<in> po_id ` set (due_orders r w)" using that by (auto simp: due_orders_def)
  show "ids_ok (generated e i r w)" "map po_id (bw_orders (generated e i r w)) = map po_id (bw_orders w)"
    "bw_members (generated e i r w) = bw_members w" "bw_next w \<le> bw_next (generated e i r w)"
    "set (map bi_run (bw_invoices (generated e i r w))) \<subseteq> insert i (set (map bi_run (bw_invoices w)))"
    using e by (simp_all add: generated_def)
  show "times_billed k (generated e i r w) = times_billed k w + (if k \<in> po_id ` set (due_orders r w) then 1 else 0)"
    using e [of k] by (simp add: generated_def cnt)
  show "run_total i (generated e i r w) = run_total i w + sum_list (map cargo_amount (due_orders r w))"
    using e by (simp add: generated_def billed_ids(2))
  show "marked k (generated e i r w) \<longleftrightarrow> marked k w \<or> k \<in> po_id ` set (due_orders r w)"
    using e [of k] sub by (auto simp: generated_def set_ids)
  let ?f = "\<lambda>r. r\<lparr>br_run_date := Some (be_today e), br_status := RunCompleted\<rparr>"
  have "row_upd br_id i ?f (row_upd br_id i (\<lambda>r. r\<lparr>br_status := RunProcessing\<rparr>) rs) = row_upd br_id i ?f rs" for rs
    by (simp add: row_upd_def)
  moreover have "bw_runs (generated e i r w) = row_upd br_id i ?f (bw_runs ?w)" using e by (simp add: generated_def write_run_def)
  ultimately show "bw_runs (generated e i r w) = bw_runs (write_run i ?f w)" by (simp add: write_run_def)
qed

text \<open>Every operation keeps the invariant.\<close>

lemma inv_generate:
  assumes "bill_inv w"
  shows "bill_inv (snd (action_generate e i w))"
proof -
  obtain x w' where g: "action_generate e i w = (x, w')" by fastforce
  from generate_cases [OF g] show ?thesis
  proof (elim disjE exE conjE)
    assume "w' = w"
    with g assms show ?thesis by simp
  next
    fix r
    assume r: "row_get br_id i (bw_runs w) = Some r" "br_status r = RunDraft" "w' = generated e i r w"
    note e = generated_effect [OF assms r(1), where e = e]
    from row_get_in_set [OF r(1)] have i: "r \<in> set (bw_runs w)" "br_id r = i" by auto
    then have i_next: "i < bw_next w" using assms by (auto simp: bill_inv_def)
    have unmarked: "\<not> marked k w" if "k \<in> po_id ` set (due_orders r w)" for k
    proof -
      from that obtain po where po: "po \<in> set (bw_orders w)" "po_id po = k" "\<not> po_billed po"
        by (auto simp: due_orders_def to_bill_def)
      then have "row_get po_id k (bw_orders w) = Some po"
        using assms row_get_distinct [of po_id "bw_orders w" po] by (auto simp: bill_inv_def)
      with po(3) show ?thesis by (simp add: marked_def)
    qed
    have "times_billed k w' = (if marked k w' then 1 else 0)" for k
      using assms unmarked [of k] e(2,4) [of k] unfolding r(3) by (auto simp: bill_inv_def)
    moreover have "br_id s \<notin> set (map bi_run (bw_invoices w'))" if "s \<in> set (bw_runs w')" "br_status s \<noteq> RunCompleted" for s
    proof -
      from that(1) obtain s0 where s0: "s0 \<in> set (bw_runs w)"
        "s = (if br_id s0 = i then s0\<lparr>br_run_date := Some (be_today e), br_status := RunCompleted\<rparr> else s0)"
        unfolding r(3) e(7) by (auto simp: write_run_def in_set_row_upd)
      with that(2) have "s = s0" "br_id s0 \<noteq> i" by (auto split: if_splits)
      with s0(1) that(2) assms e(9) show ?thesis unfolding r(3) by (auto simp: bill_inv_def)
    qed
    moreover have "map br_id (bw_runs w') = map br_id (bw_runs w)"
      unfolding r(3) e(7) by (simp add: write_run_def map_key_row_upd)
    moreover have "j < bw_next w'" if "j \<in> set (map br_id (bw_runs w)) \<union> set (map bi_run (bw_invoices w'))" for j
    proof -
      have "j < bw_next w" using that e(9) i_next assms unfolding r(3) by (auto simp: bill_inv_def)
      with e(8) show ?thesis unfolding r(3) by simp
    qed
    ultimately show ?thesis using g assms e(1,5) unfolding bill_inv_def r(3) by simp
  qed
qed

lemma inv_run_status:
  assumes "bill_inv w" "row_get br_id i (bw_runs w) = Some r" "br_status r \<noteq> RunCompleted"
  shows "bill_inv (write_run i (\<lambda>r. r\<lparr>br_status := s\<rparr>) w)" and "run_invoices i w = []"
proof -
  from row_get_in_set [OF assms(2)] have r: "r \<in> set (bw_runs w)" "br_id r = i" by auto
  then have none: "i \<notin> set (map bi_run (bw_invoices w))" using assms(1,3) by (auto simp: bill_inv_def)
  then show "run_invoices i w = []" by (auto simp: run_invoices_def filter_empty_conv)
  have "map br_id (bw_runs (write_run i (\<lambda>r. r\<lparr>br_status := s\<rparr>) w)) = map br_id (bw_runs w)"
    by (simp add: write_run_def map_key_row_upd)
  moreover have "br_id q \<notin> set (map bi_run (bw_invoices w))"
    if "q \<in> set (bw_runs (write_run i (\<lambda>r. r\<lparr>br_status := s\<rparr>) w))" "br_status q \<noteq> RunCompleted" for q
    using that assms(1) none by (auto simp: bill_inv_def write_run_def in_set_row_upd split: if_splits)
  ultimately show "bill_inv (write_run i (\<lambda>r. r\<lparr>br_status := s\<rparr>) w)"
    using assms(1) unfolding bill_inv_def write_run_sel by simp
qed

lemma inv_cancel_run: "bill_inv w \<Longrightarrow> bill_inv (snd (action_cancel_run i w))"
proof (cases "row_get br_id i (bw_runs w)")
  case (Some r)
  assume inv: "bill_inv w"
  show ?thesis
  proof (cases "br_status r \<in> {RunDraft, RunProcessing}")
    case True
    with Some have "run_invoices i w = []" using inv_run_status(2) [OF inv Some] by auto
    with True Some inv_run_status(1) [OF inv Some] inv show ?thesis by (auto simp: action_cancel_run_def with_run_def)
  qed (use Some inv in \<open>auto simp: action_cancel_run_def with_run_def\<close>)
qed (simp add: action_cancel_run_def with_run_def)

lemma inv_draft: "bill_inv w \<Longrightarrow> bill_inv (snd (action_draft i w))"
  using inv_run_status(1) [of w i _ RunDraft] by (auto simp: action_draft_def with_run_def split: option.split)

lemma inv_invoice_one: "bill_inv w \<Longrightarrow> bill_inv (invoice_one e r b w)"
proof -
  have upd: "bill_inv (write_invoice k f (w\<lparr>bw_moves := vs, bw_next := bw_next w + n\<rparr>))"
    if "bill_inv w" "\<And>x. bi_id (f x) = bi_id x \<and> bi_run (f x) = bi_run x \<and> bi_lines (f x) = bi_lines x" for k f vs n w
  proof -
    let ?w = "write_invoice k f (w\<lparr>bw_moves := vs, bw_next := bw_next w + n\<rparr>)"
    have "map g (bw_invoices ?w) = map g (bw_invoices w)" if "\<And>x. g (f x) = g x" for g :: "billing_invoice \<Rightarrow> nat"
      using that by (auto simp: write_invoice_def row_upd_def)
    from this [of bi_id] this [of bi_run] this [of "lines_for j" for j] that(2)
    have "map bi_id (bw_invoices ?w) = map bi_id (bw_invoices w)" "map bi_run (bw_invoices ?w) = map bi_run (bw_invoices w)"
      "times_billed j ?w = times_billed j w" for j by (simp_all add: times_billed_def lines_for_def)
    moreover have "marked j ?w = marked j w" for j by (simp add: marked_def write_invoice_def)
    moreover have "bw_orders ?w = bw_orders w" "bw_runs ?w = bw_runs w" "bw_next ?w = bw_next w + n" by (simp_all add: write_invoice_def)
    ultimately show ?thesis using that(1) unfolding bill_inv_def ids_ok_def by (auto intro: trans_less_add1)
  qed
  have "w = w\<lparr>bw_moves := bw_moves w, bw_next := bw_next w + 0\<rparr>" by simp
  with upd [where w = w and k = "bi_id b" and vs = "bw_moves w" and n = 0] upd [where w = w and k = "bi_id b" and n = 1] show "bill_inv w \<Longrightarrow> ?thesis"
    by (auto simp: invoice_one_def split: option.split)
qed

lemma fold_keeps: "(\<And>x w. I w \<Longrightarrow> I (f x w)) \<Longrightarrow> I w \<Longrightarrow> I (fold f xs w)"
  by (induction xs arbitrary: w) auto

lemma inv_create_invoices: "bill_inv w \<Longrightarrow> bill_inv (snd (action_create_invoices e i w))"
  by (auto simp: action_create_invoices_def with_run_def inv_invoice_one intro!: fold_keeps [where I = bill_inv] split: option.split)

text \<open>The world with a run more, whatever its name.\<close>

definition with_new_run :: "string \<Rightarrow> nat \<Rightarrow> billing_run \<Rightarrow> bill_world \<Rightarrow> bill_world" where
  "with_new_run n q r w = w\<lparr>bw_runs := bw_runs w @ [r\<lparr>br_id := bw_next w, br_name := n\<rparr>], bw_next := bw_next w + 1, bw_sequence := q\<rparr>"

lemma create_run_new: "\<exists>n q. create_run e r w = (bw_next w, with_new_run n q r w)"
  unfolding create_run_def with_new_run_def Let_def by (intro exI) (rule refl)

lemma with_new_run_sel [simp]:
  "bw_orders (with_new_run n q r w) = bw_orders w" "bw_invoices (with_new_run n q r w) = bw_invoices w"
  "bw_members (with_new_run n q r w) = bw_members w" "bw_next (with_new_run n q r w) = bw_next w + 1"
  "times_billed k (with_new_run n q r w) = times_billed k w" "marked k (with_new_run n q r w) = marked k w"
  "bw_runs (with_new_run n q r w) = bw_runs w @ [r\<lparr>br_id := bw_next w, br_name := n\<rparr>]"
  by (simp_all add: with_new_run_def times_billed_def marked_def)

lemma inv_new_run: "bill_inv w \<Longrightarrow> bill_inv (with_new_run n q r w)"
  unfolding bill_inv_def ids_ok_def with_new_run_sel by (auto simp: less_Suc_eq)

lemma inv_create_run: "bill_inv w \<Longrightarrow> bill_inv (snd (create_run e r w))"
  using create_run_new [of e r w] inv_new_run by auto

text \<open>What a month's job does when it does not find a run of its period.\<close>

definition month_run :: "bill_env \<Rightarrow> billing_run" where
  "month_run e = \<lparr>br_id = 0, br_name = ''/'', br_start = fst (last_month (be_today e)), br_end = snd (last_month (be_today e)),
     br_status = RunDraft, br_run_date = None, br_auto = True\<rparr>"

definition same_period :: "bill_env \<Rightarrow> billing_run \<Rightarrow> bool" where
  "same_period e r \<longleftrightarrow> br_start r = fst (last_month (be_today e)) \<and> br_end r = snd (last_month (be_today e)) \<and> br_status r \<noteq> RunCancelled"

lemma cron_cases:
  "(find (same_period e) (bw_runs w) \<noteq> None \<and> cron_monthly_billing e w = (Inr (), w)) \<or>
   (find (same_period e) (bw_runs w) = None \<and> (\<exists>n q. cron_monthly_billing e w =
      rolled_back (\<lambda>w. act_seq (action_generate e (bw_next w)) (action_create_invoices e (bw_next w)) (with_new_run n q (month_run e) w)) w))"
proof -
  obtain n q where c: "create_run e (month_run e) w = (bw_next w, with_new_run n q (month_run e) w)" using create_run_new by blast
  have p: "(\<lambda>r. br_start r = fst (last_month (be_today e)) \<and> br_end r = snd (last_month (be_today e)) \<and> br_status r \<noteq> RunCancelled)
      = same_period e" by (intro ext) (simp add: same_period_def)
  show ?thesis
    using c unfolding cron_monthly_billing_def Let_def p month_run_def [symmetric]
    by (cases "find (same_period e) (bw_runs w)") (auto simp: rolled_back_def)
qed

lemma inv_cron:
  assumes "bill_inv w"
  shows "bill_inv (snd (cron_monthly_billing e w))"
proof -
  have "bill_inv (snd (act_seq (action_generate e i) (action_create_invoices e i) v))" if "bill_inv v" for i v
    using inv_generate [OF that, of e i] inv_create_invoices
    by (cases "action_generate e i v") (auto split: sum.split)
  then have "bill_inv (snd (act_seq (action_generate e (bw_next w)) (action_create_invoices e (bw_next w)) (with_new_run n q (month_run e) w)))"
    for n q using inv_new_run [OF assms] by blast
  then have "bill_inv (snd (rolled_back (\<lambda>w. act_seq (action_generate e (bw_next w)) (action_create_invoices e (bw_next w))
      (with_new_run n q (month_run e) w)) w))" for n q
    by (rule rolled_back_inv) (rule assms)
  with cron_cases [of e w] assms show ?thesis by auto
qed

inductive bill_step :: "bill_world \<Rightarrow> bill_world \<Rightarrow> bool" where
  new_run: "bill_step w (snd (create_run e r w))"
| generate: "bill_step w (snd (action_generate e i w))"
| create_invoices: "bill_step w (snd (action_create_invoices e i w))"
| cancel: "bill_step w (snd (action_cancel_run i w))"
| draft: "bill_step w (snd (action_draft i w))"
| monthly: "bill_step w (snd (cron_monthly_billing e w))"
| sell: "po_id po \<notin> po_id ` set (bw_orders w) \<Longrightarrow> \<not> po_billed po \<Longrightarrow> bill_step w (w\<lparr>bw_orders := bw_orders w @ [po]\<rparr>)"
| settle: "bill_step w (write_order k (\<lambda>po. po\<lparr>po_payments := ys, po_state := s\<rparr>) w)"

lemma inv_sell:
  assumes "bill_inv w" "po_id po \<notin> po_id ` set (bw_orders w)" "\<not> po_billed po"
  shows "bill_inv (w\<lparr>bw_orders := bw_orders w @ [po]\<rparr>)"
proof -
  have "marked k (w\<lparr>bw_orders := bw_orders w @ [po]\<rparr>) = marked k w" for k
    using assms(3) by (auto simp: marked_def row_get_append row_simps split: option.split)
  then show ?thesis using assms(1,2) by (simp add: bill_inv_def ids_ok_def times_billed_def)
qed

lemma inv_settle:
  assumes "bill_inv w"
  shows "bill_inv (write_order k (\<lambda>po. po\<lparr>po_payments := ys, po_state := s\<rparr>) w)"
proof -
  have "marked j (write_order k (\<lambda>po. po\<lparr>po_payments := ys, po_state := s\<rparr>) w) = marked j w" for j
    by (cases "j = k"; cases "row_get po_id k (bw_orders w)")
      (simp_all add: marked_def write_order_def row_get_upd_same row_get_upd_other)
  then show ?thesis using assms by (simp add: bill_inv_def ids_ok_def times_billed_def write_order_def map_key_row_upd)
qed

lemma inv_bill_steps: "bill_step\<^sup>*\<^sup>* w w' \<Longrightarrow> bill_inv w \<Longrightarrow> bill_inv w'"
proof (induction rule: rtranclp_induct)
  case (step y z)
  then have "bill_inv y" by blast
  with step(2) show ?case
    by (induction rule: bill_step.induct)
      (blast intro: inv_create_run inv_generate inv_create_invoices inv_cancel_run inv_draft inv_cron inv_sell inv_settle)+
qed

section \<open>The months that are billed\<close>

lemma last_month_eq: "last_month t = (first_of_month (prev_day (first_of_month t)), last_of_month (prev_day (first_of_month t)))"
  by (simp add: last_month_def Let_def last_of_month_def first_of_month_def prev_day_def days_in_def)

text \<open>A day lies in the period that is billed in the month after it, and in no other.\<close>

lemma in_last_month_iff:
  assumes "valid_date d" "valid_date t" "1 < yr t"
  shows "fst (last_month t) \<le> d \<and> d \<le> snd (last_month t) \<longleftrightarrow> 12 * yr d + mon d + 1 = 12 * yr t + mon t"
proof -
  have b: "1 \<le> mon d" "mon d \<le> 12" "1 \<le> mon t" "mon t \<le> 12" using assms(1,2) by (simp_all add: valid_date_def)
  have m: "fst (last_month t) \<le> d \<and> d \<le> snd (last_month t) \<longleftrightarrow>
      yr d = yr (prev_day (first_of_month t)) \<and> mon d = mon (prev_day (first_of_month t))"
    unfolding last_month_eq fst_conv snd_conv by (rule month_of_iff [OF assms(1)])
  show ?thesis
  proof (cases "mon t = 1")
    case True
    then have "yr (prev_day (first_of_month t)) = yr t - 1" "mon (prev_day (first_of_month t)) = 12"
      by (simp_all add: prev_day_def first_of_month_def)
    with m True b assms(3) show ?thesis by presburger
  next
    case False
    with b have "yr (prev_day (first_of_month t)) = yr t" "mon (prev_day (first_of_month t)) = mon t - 1"
      by (simp_all add: prev_day_def first_of_month_def)
    with m False b show ?thesis by presburger
  qed
qed

lemma same_month_same_period:
  "yr s = yr t \<Longrightarrow> mon s = mon t \<Longrightarrow> last_month s = last_month t"
  by (simp add: last_month_def first_of_month_def)

lemma invoice_one_sel [simp]: "bw_orders (invoice_one e r b w) = bw_orders w" "bw_runs (invoice_one e r b w) = bw_runs w"
  by (simp_all add: invoice_one_def write_invoice_def split: option.split)

lemma invoices_sel [simp]:
  "bw_orders (snd (action_create_invoices e i w)) = bw_orders w" "bw_runs (snd (action_create_invoices e i w)) = bw_runs w"
proof -
  have "bw_orders (fold (invoice_one e r) bs w) = bw_orders w \<and> bw_runs (fold (invoice_one e r) bs w) = bw_runs w" for r bs
    by (induction bs arbitrary: w) auto
  then show "bw_orders (snd (action_create_invoices e i w)) = bw_orders w" "bw_runs (snd (action_create_invoices e i w)) = bw_runs w"
    by (simp_all add: action_create_invoices_def with_run_def split: option.split)
qed

text \<open>A monthly job that finds no run makes one, completes it, and invoices it.\<close>

lemma cron_fresh:
  assumes "bill_inv w" "find (same_period e) (bw_runs w) = None"
  shows "\<exists>n q w1 r. cron_monthly_billing e w = (Inr (), snd (action_create_invoices e (bw_next w) w1)) \<and>
    w1 = generated e (bw_next w) r (with_new_run n q (month_run e) w) \<and> bill_inv (with_new_run n q (month_run e) w) \<and>
    r = (month_run e)\<lparr>br_id := bw_next w, br_name := n\<rparr> \<and> row_get br_id (bw_next w) (bw_runs (with_new_run n q (month_run e) w)) = Some r"
proof -
  from cron_cases [of e w] assms(2) obtain n q where c: "cron_monthly_billing e w =
      rolled_back (\<lambda>w. act_seq (action_generate e (bw_next w)) (action_create_invoices e (bw_next w)) (with_new_run n q (month_run e) w)) w"
    by auto
  let ?v = "with_new_run n q (month_run e) w" and ?r = "(month_run e)\<lparr>br_id := bw_next w, br_name := n\<rparr>"
  have "bw_next w \<notin> br_id ` set (bw_runs w)" using assms(1) by (auto simp: bill_inv_def)
  then have r: "row_get br_id (bw_next w) (bw_runs ?v) = Some ?r"
    using row_get_None [of br_id "bw_next w" "bw_runs w"] by (simp add: row_get_append row_simps)
  have g: "action_generate e (bw_next w) ?v = (Inr (), generated e (bw_next w) ?r ?v)"
    using r by (simp add: action_generate_def rolled_back_def with_run_def generated_def month_run_def write_run_def)
  have "row_get br_id (bw_next w) (bw_runs (generated e (bw_next w) ?r ?v)) \<noteq> None"
    unfolding generated_effect(7) [OF inv_new_run [OF assms(1)] r] write_run_def using r by (simp add: row_get_upd_same)
  then have "fst (action_create_invoices e (bw_next w) (generated e (bw_next w) ?r ?v)) = Inr ()"
    by (auto simp: action_create_invoices_def with_run_def)
  then have "cron_monthly_billing e w = (Inr (), snd (action_create_invoices e (bw_next w) (generated e (bw_next w) ?r ?v)))"
    unfolding c using g by (cases "action_create_invoices e (bw_next w) (generated e (bw_next w) ?r ?v)") (simp add: rolled_back_def)
  with r inv_new_run [OF assms(1)] show ?thesis by blast
qed

lemma cron_fresh_runs:
  assumes "bill_inv w" "find (same_period e) (bw_runs w) = None"
  shows "set (bw_runs w) \<subseteq> set (bw_runs (snd (cron_monthly_billing e w)))"
    and "\<exists>s \<in> set (bw_runs (snd (cron_monthly_billing e w))). same_period e s"
proof -
  from cron_fresh [OF assms] obtain n q w1 r where c: "cron_monthly_billing e w = (Inr (), snd (action_create_invoices e (bw_next w) w1))"
    "w1 = generated e (bw_next w) r (with_new_run n q (month_run e) w)" "bill_inv (with_new_run n q (month_run e) w)"
    "r = (month_run e)\<lparr>br_id := bw_next w, br_name := n\<rparr>"
    "row_get br_id (bw_next w) (bw_runs (with_new_run n q (month_run e) w)) = Some r" by blast
  have runs: "bw_runs (snd (cron_monthly_billing e w)) =
      row_upd br_id (bw_next w) (\<lambda>r. r\<lparr>br_run_date := Some (be_today e), br_status := RunCompleted\<rparr>) (bw_runs w @ [r])"
    unfolding c(1) snd_conv invoices_sel c(2) generated_effect(7) [OF c(3,5)] by (simp add: write_run_def c(4))
  have "bw_next w \<notin> br_id ` set (bw_runs w)" using assms(1) by (auto simp: bill_inv_def)
  then show "set (bw_runs w) \<subseteq> set (bw_runs (snd (cron_monthly_billing e w)))"
    unfolding runs by (auto simp: row_upd_def image_iff)
  show "\<exists>s \<in> set (bw_runs (snd (cron_monthly_billing e w))). same_period e s"
    unfolding runs by (simp add: row_upd_def c(4) same_period_def month_run_def)
qed

text \<open>The date of an order, which nothing changes.\<close>

definition day_of :: "nat \<Rightarrow> bill_world \<Rightarrow> date option" where
  "day_of k w = map_option po_date (row_get po_id k (bw_orders w))"

lemma day_of_write: "(\<And>po. po_id (f po) = po_id po \<and> po_date (f po) = po_date po) \<Longrightarrow> day_of k (write_order j f w) = day_of k w"
  by (cases "k = j"; cases "row_get po_id j (bw_orders w)") (auto simp: day_of_def write_order_def row_get_upd_same row_get_upd_other)

lemma day_of_bill: "day_of k (bill_order b d w) = day_of k w"
  unfolding bill_order_def by (subst day_of_write) (simp_all add: day_of_def write_invoice_def)

lemma day_of_partner: "day_of k (bill_partner r g w) = day_of k w"
proof -
  have "day_of k (fold (bill_order b) ds v) = day_of k v" for b ds v
    by (induction ds arbitrary: v) (simp_all add: day_of_bill)
  then show ?thesis by (simp add: bill_partner_def Let_def split: option.split) (simp add: day_of_def)
qed

lemma day_of_generated: "day_of k (generated e i r w) = day_of k w"
proof -
  have "day_of k (fold (bill_partner j) gs v) = day_of k v" for j gs v
    by (induction gs arbitrary: v) (simp_all add: day_of_partner)
  then show ?thesis by (simp add: generated_def day_of_def)
qed

text \<open>An order that is not billed, of a month that has its run.\<close>

definition missed :: "nat \<Rightarrow> date \<Rightarrow> bill_world \<Rightarrow> bool" where
  "missed k d w \<longleftrightarrow> bill_inv w \<and> day_of k w = Some d \<and> \<not> marked k w \<and>
     (\<exists>r \<in> set (bw_runs w). br_start r = first_of_month d \<and> br_end r = last_of_month d \<and> br_status r \<noteq> RunCancelled)"

lemma missed_cron:
  assumes m: "missed k d w" and d: "valid_date d"
  shows "missed k d (snd (cron_monthly_billing e w))"
proof (cases "find (same_period e) (bw_runs w)")
  case (Some r)
  with cron_cases [of e w] m show ?thesis by auto
next
  case None
  have inv: "bill_inv w" using m by (simp add: missed_def)
  let ?x = "prev_day (first_of_month (be_today e))"
  have p: "fst (last_month (be_today e)) = first_of_month ?x" "snd (last_month (be_today e)) = last_of_month ?x"
    by (simp_all add: last_month_eq)
  from m obtain s where s: "s \<in> set (bw_runs w)" "br_start s = first_of_month d" "br_end s = last_of_month d" "br_status s \<noteq> RunCancelled"
    by (auto simp: missed_def)
  have other: "\<not> (yr d = yr ?x \<and> mon d = mon ?x)"
  proof
    assume "yr d = yr ?x \<and> mon d = mon ?x"
    then have "same_period e s" using s p by (simp add: same_period_def first_of_month_def last_of_month_def)
    with None s(1) show False by (auto simp: find_None)
  qed
  from cron_fresh [OF inv None] obtain n q w1 r where c: "cron_monthly_billing e w = (Inr (), snd (action_create_invoices e (bw_next w) w1))"
    "w1 = generated e (bw_next w) r (with_new_run n q (month_run e) w)" "bill_inv (with_new_run n q (month_run e) w)"
    "r = (month_run e)\<lparr>br_id := bw_next w, br_name := n\<rparr>"
    "row_get br_id (bw_next w) (bw_runs (with_new_run n q (month_run e) w)) = Some r" by blast
  have "k \<notin> po_id ` set (due_orders r (with_new_run n q (month_run e) w))"
  proof
    assume "k \<in> po_id ` set (due_orders r (with_new_run n q (month_run e) w))"
    then obtain po where po: "po \<in> set (bw_orders w)" "po_id po = k" "to_bill r po" by (auto simp: due_orders_def)
    then have "row_get po_id k (bw_orders w) = Some po"
      using inv row_get_distinct [of po_id "bw_orders w" po] by (auto simp: bill_inv_def)
    with m have "po_date po = d" by (simp add: missed_def day_of_def)
    with po(3) have "first_of_month ?x \<le> d \<and> d \<le> last_of_month ?x"
      unfolding to_bill_def c(4) using p by (auto simp: month_run_def stamp_le_def)
    with other month_of_iff [OF d] show False by blast
  qed
  then have "\<not> marked k w1" using generated_effect(4) [OF c(3,5)] m unfolding c(2) by (simp add: missed_def)
  then have "\<not> marked k (snd (cron_monthly_billing e w))" by (simp add: c(1) marked_def)
  moreover have "day_of k (snd (cron_monthly_billing e w)) = Some d"
  proof -
    have "day_of k w1 = day_of k w" unfolding c(2) day_of_generated by (simp add: day_of_def)
    with m show ?thesis unfolding c(1) by (simp add: missed_def day_of_def)
  qed
  ultimately show ?thesis
    using inv_cron [OF inv] cron_fresh_runs(1) [OF inv None] s by (auto simp: missed_def)
qed

text \<open>What happens when nobody runs or cancels a billing run by hand.\<close>

inductive unattended :: "bill_world \<Rightarrow> bill_world \<Rightarrow> bool" where
  month: "unattended w (snd (cron_monthly_billing e w))"
| sale: "po_id po \<notin> po_id ` set (bw_orders w) \<Longrightarrow> \<not> po_billed po \<Longrightarrow> unattended w (w\<lparr>bw_orders := bw_orders w @ [po]\<rparr>)"
| payment: "unattended w (write_order k (\<lambda>po. po\<lparr>po_payments := ys, po_state := s\<rparr>) w)"
| invoices: "unattended w (snd (action_create_invoices e i w))"

lemma missed_step:
  assumes "unattended w w'" "missed k d w" "valid_date d"
  shows "missed k d w'"
  using assms
proof (induction rule: unattended.induct)
  case (month w e)
  then show ?case by (intro missed_cron)
next
  case (sale po w)
  have "row_get po_id k (bw_orders w @ [po]) = row_get po_id k (bw_orders w)"
    using sale(3) by (auto simp: missed_def day_of_def row_get_append split: option.splits)
  then show ?case using sale inv_sell by (auto simp: missed_def day_of_def marked_def)
next
  case (payment w j s ys)
  let ?w = "write_order j (\<lambda>po. po\<lparr>po_payments := ys, po_state := s\<rparr>) w"
  have "marked k ?w = marked k w"
    by (cases "k = j"; cases "row_get po_id j (bw_orders w)")
      (simp_all add: marked_def write_order_def row_get_upd_same row_get_upd_other)
  moreover have "day_of k ?w = day_of k w" by (rule day_of_write) simp
  moreover have "bw_runs ?w = bw_runs w" by (simp add: write_order_def)
  ultimately show ?case using payment inv_settle [where w = w and k = j and ys = ys and s = s] by (simp add: missed_def)
next
  case (invoices w e i)
  then show ?case using inv_create_invoices [of w e i] by (simp add: missed_def day_of_def marked_def)
qed

section \<open>Properties\<close>

text \<open>
  C19: Nothing is charged twice: however sales, payments, runs by hand, monthly runs, cancellations and
  resets follow each other, every order stands on at most one billing line, and on one exactly when
  it is marked as billed.
\<close>

theorem billed_at_most_once:
  assumes "bill_step\<^sup>*\<^sup>* w w'" "bill_inv w"
  shows "times_billed k w' = (if marked k w' then 1 else 0)"
  using inv_bill_steps [OF assms] by (simp add: bill_inv_def)

text \<open>
  C20: A run bills what was charged: grouping by customer, one invoice per member and one line per order
  amount to the plain sum over the unbilled paid orders of the period that were charged to the
  account of a member, and exactly these orders get marked.
\<close>

theorem run_bills_the_charges:
  assumes "bill_inv w" "action_generate e i w = (Inr (), w')" "row_get br_id i (bw_runs w) = Some r"
  shows "run_total i w' = sum_list (map cargo_amount (due_orders r w)) \<and>
    (marked k w' \<longleftrightarrow> marked k w \<or> k \<in> po_id ` set (due_orders r w))"
proof -
  from generate_cases [OF assms(2)] assms(3) have d: "br_status r = RunDraft" "w' = generated e i r w" by auto
  have "run_invoices i w = []" using inv_run_status(2) [OF assms(1,3)] d(1) by simp
  then have "run_total i w = 0" by (simp add: run_total_def)
  then show ?thesis using generated_effect(3,4) [OF assms(1,3), where e = e] unfolding d(2) by simp
qed

text \<open>
  A month is billed once: after the job has run, running it again on any day of the same month
  changes nothing.
\<close>

theorem month_billed_once:
  assumes "bill_inv w" "yr (be_today e) = yr (be_today e')" "mon (be_today e) = mon (be_today e')"
  shows "cron_monthly_billing e' (snd (cron_monthly_billing e w)) = (Inr (), snd (cron_monthly_billing e w))"
proof -
  have p: "same_period e' = same_period e" using same_month_same_period [OF assms(2,3)] by (intro ext) (simp add: same_period_def)
  have "find (same_period e) (bw_runs (snd (cron_monthly_billing e w))) \<noteq> None"
  proof (cases "find (same_period e) (bw_runs w)")
    case None
    from cron_fresh_runs(2) [OF assms(1) None] show ?thesis by (auto simp: find_None)
  next
    case (Some r)
    then show ?thesis using cron_cases [of e w] by auto
  qed
  then show ?thesis using cron_cases [of e' "snd (cron_monthly_billing e w)"] unfolding p by auto
qed

text \<open>
  A charge that misses its month is lost: an order that is not billed when the run of its month
  exists, because it was paid later or its customer was no member yet, is not billed by any later
  monthly run, whatever is sold, paid and invoiced in between.
\<close>

theorem late_charge_never_billed:
  assumes "unattended\<^sup>*\<^sup>* w w'" "bill_inv w" "valid_date d" "day_of k w = Some d" "\<not> marked k w"
    and "r \<in> set (bw_runs w)" "br_start r = first_of_month d" "br_end r = last_of_month d" "br_status r \<noteq> RunCancelled"
  shows "\<not> marked k w' \<and> times_billed k w' = 0"
proof -
  have "missed k d w" using assms(2,4-9) by (auto simp: missed_def)
  with assms(1) have "missed k d w'" by (induction rule: rtranclp_induct) (use missed_step assms(3) in blast)+
  then show ?thesis by (simp add: missed_def bill_inv_def)
qed

text \<open>
  A refused invoice is not tried again: once the accounting has refused the invoice of a member,
  the action that creates the invoices of the run leaves it refused, whatever the accounting
  would accept by then.
\<close>

theorem refused_invoice_stays:
  assumes "distinct (map bi_id (bw_invoices w))" "row_get bi_id b (bw_invoices w) = Some v" "bi_status v = Failure"
  shows "row_get bi_id b (bw_invoices (snd (action_create_invoices e i w))) = Some v"
proof -
  have one: "row_get bi_id b (bw_invoices (invoice_one e r x u)) = row_get bi_id b (bw_invoices u)" if "bi_id x \<noteq> b" for r x u
    using that by (simp add: invoice_one_def write_invoice_def row_get_upd_other split: option.split)
  have "row_get bi_id b (bw_invoices (fold (invoice_one e r) xs u)) = row_get bi_id b (bw_invoices u)"
    if "\<forall>x \<in> set xs. bi_id x \<noteq> b" for r xs u
    using that by (induction xs arbitrary: u) (simp_all add: one)
  moreover have "bi_id x \<noteq> b" if "x \<in> set (filter (\<lambda>b. bi_status b = Pending) (run_invoices i w))" for x
    using that assms row_get_distinct [OF assms(1), of x] by (auto simp: run_invoices_def)
  ultimately show ?thesis
    using assms(2) by (auto simp: action_create_invoices_def with_run_def split: option.split)
qed

section \<open>Witnesses\<close>

definition demo_bill_env :: "date \<Rightarrow> bill_env" where
  "demo_bill_env d = \<lparr>be_today = d, be_sequence = (\<lambda>_. Some ''BILL-1''), be_refused = (\<lambda>_ _. None)\<rparr>"

definition demo_order :: "order_state \<Rightarrow> pos_order" where
  "demo_order s = \<lparr>po_id = 5, po_name = ''Bar'', po_reference = None, po_partner = Some 11, po_date = Date 2026 5 20, po_second = 0,
     po_payments = [\<lparr>py_amount = 30, py_cargo = True\<rparr>], po_state = s, po_billed = False, po_bill = None\<rparr>"

definition demo_run :: "run_status \<Rightarrow> billing_run" where
  "demo_run s = \<lparr>br_id = 1, br_name = ''BILL-0'', br_start = Date 2026 5 1, br_end = Date 2026 5 31, br_status = s, br_run_date = None, br_auto = False\<rparr>"

definition demo_bill :: "run_status \<Rightarrow> order_state \<Rightarrow> bill_world" where
  "demo_bill r s = \<lparr>bw_members = [\<lparr>af_id = 1, af_name = ''Ana'', af_type = Individual, af_number = Some ''A1'', af_vat = None,
       af_status = None, af_partner = 11, af_family = None, af_corporate = None\<rparr>],
     bw_orders = [demo_order s], bw_runs = [demo_run r], bw_invoices = [], bw_moves = [], bw_next = 2, bw_sequence = 1\<rparr>"

lemma demo_bill_inv: "bill_inv (demo_bill r s)"
  by (auto simp: bill_inv_def ids_ok_def demo_bill_def demo_run_def times_billed_def marked_def demo_order_def row_simps)

lemma demo_run_row: "row_get br_id 1 (bw_runs (demo_bill r s)) = Some (demo_run r)"
  by (simp add: demo_bill_def demo_run_def row_simps)

lemma demo_generate: "\<exists>w'. action_generate e 1 (demo_bill RunDraft s) = (Inr (), w')"
  using demo_run_row [of RunDraft s]
  by (simp add: action_generate_def rolled_back_def with_run_def) (simp add: demo_run_def)

lemma demo_due: "due_orders (demo_run RunDraft) (demo_bill RunDraft PosPaid) = [demo_order PosPaid]"
  by (simp add: due_orders_def demo_bill_def demo_run_def demo_order_def to_bill_def stamp_le_def less_date_def has_cargo_socio_def
      charged_to_member_def has_member_def)

theorem billed_at_most_once_witness:
  "times_billed 5 (snd (action_generate (demo_bill_env (Date 2026 6 1)) 1 (demo_bill RunDraft PosPaid))) \<le> 1"
proof -
  let ?w = "demo_bill RunDraft PosPaid"
  have "bill_step\<^sup>*\<^sup>* ?w (snd (action_generate (demo_bill_env (Date 2026 6 1)) 1 ?w))"
    using bill_step.generate by (rule r_into_rtranclp)
  from billed_at_most_once [OF this demo_bill_inv, of 5] show ?thesis by simp
qed

theorem run_bills_the_charges_witness:
  "run_total 1 (snd (action_generate (demo_bill_env (Date 2026 6 1)) 1 (demo_bill RunDraft PosPaid))) = 30 \<and>
   marked 5 (snd (action_generate (demo_bill_env (Date 2026 6 1)) 1 (demo_bill RunDraft PosPaid)))"
proof -
  from demo_generate obtain w' where w': "action_generate (demo_bill_env (Date 2026 6 1)) 1 (demo_bill RunDraft PosPaid) = (Inr (), w')" by blast
  from run_bills_the_charges [OF demo_bill_inv w' demo_run_row, of 5] show ?thesis
    unfolding w' demo_due by (simp add: demo_order_def cargo_amount_def)
qed

theorem month_billed_once_witness:
  "cron_monthly_billing (demo_bill_env (Date 2026 6 9)) (snd (cron_monthly_billing (demo_bill_env (Date 2026 6 1)) (demo_bill RunDraft PosPaid))) =
   (Inr (), snd (cron_monthly_billing (demo_bill_env (Date 2026 6 1)) (demo_bill RunDraft PosPaid)))"
  by (rule month_billed_once [OF demo_bill_inv]) (simp_all add: demo_bill_env_def)

theorem late_charge_never_billed_witness:
  "\<not> marked 5 (snd (cron_monthly_billing (demo_bill_env (Date 2026 7 1))
       (write_order 5 (\<lambda>po. po\<lparr>po_payments := [\<lparr>py_amount = 30, py_cargo = True\<rparr>], po_state := PosPaid\<rparr>) (demo_bill RunCompleted PosDraft))))"
proof -
  let ?w = "demo_bill RunCompleted PosDraft"
  let ?v = "write_order 5 (\<lambda>po. po\<lparr>po_payments := [\<lparr>py_amount = 30, py_cargo = True\<rparr>], po_state := PosPaid\<rparr>) ?w"
  have a: "unattended ?w ?v" by (rule unattended.payment)
  have b: "unattended ?v (snd (cron_monthly_billing (demo_bill_env (Date 2026 7 1)) ?v))" by (rule unattended.month)
  have steps: "unattended\<^sup>*\<^sup>* ?w (snd (cron_monthly_billing (demo_bill_env (Date 2026 7 1)) ?v))"
    using rtranclp.rtrancl_into_rtrancl [where r = unattended, OF r_into_rtranclp [where r = unattended, OF a] b] .
  have "day_of 5 ?w = Some (Date 2026 5 20)" "\<not> marked 5 ?w"
    by (simp_all add: day_of_def marked_def demo_bill_def demo_order_def row_simps)
  moreover have "demo_run RunCompleted \<in> set (bw_runs ?w)" by (simp add: demo_bill_def)
  moreover have "br_start (demo_run RunCompleted) = first_of_month (Date 2026 5 20)" "br_end (demo_run RunCompleted) = last_of_month (Date 2026 5 20)"
    "br_status (demo_run RunCompleted) \<noteq> RunCancelled"
    by (simp_all add: demo_run_def first_of_month_def last_of_month_def days_in_def)
  moreover have "valid_date (Date 2026 5 20)" by (simp add: valid_date_def days_in_def)
  ultimately show ?thesis using late_charge_never_billed [OF steps demo_bill_inv] by blast
qed

theorem refused_invoice_stays_witness:
  "map bi_status (bw_invoices (snd (action_create_invoices (demo_bill_env (Date 2026 6 1)) 1
      ((demo_bill RunCompleted PosPaid)\<lparr>bw_invoices := [(new_invoice 7 1 1)\<lparr>bi_status := Failure\<rparr>]\<rparr>)))) = [Failure]"
proof -
  let ?v = "(new_invoice 7 1 1)\<lparr>bi_status := Failure\<rparr>"
  let ?w = "(demo_bill RunCompleted PosPaid)\<lparr>bw_invoices := [?v]\<rparr>"
  have "row_get bi_id 7 (bw_invoices (snd (action_create_invoices (demo_bill_env (Date 2026 6 1)) 1 ?w))) = Some ?v"
    by (rule refused_invoice_stays) (simp_all add: new_invoice_def row_simps)
  moreover have "map bi_id (bw_invoices (snd (action_create_invoices (demo_bill_env (Date 2026 6 1)) 1 ?w))) = [7]"
    by (simp add: action_create_invoices_def with_run_def demo_bill_def demo_run_def row_simps run_invoices_def new_invoice_def)
  ultimately show ?thesis by (auto simp: row_simps new_invoice_def split: if_splits)
qed

end
