(* ===== verification/ClubGuests.thy ===== *)
theory ClubGuests
  imports ClubAccess PyDate Complex_Main
begin

text \<open>
  Visits of guests (custom-addons/club_guests/models/club_guest_visit.py, club_guest_policy.py,
  club_guest.py, club_guest_visit_party.py): the number and the token of a visit, the limits of its
  policy, check-in and check-out, the QR code, and what the gate makes of it.

  SHA-256, \<open>uuid4\<close>, the number sequence, the mail templates, the translation and the quoting of
  texts are arguments. A search counts the rows that the calling user sees.
\<close>

section \<open>Records\<close>

record contact = guest +
  ct_phone :: "string option"
  ct_email :: "string option"

record guest_policy =
  gp_id :: nat
  gp_day :: int
  gp_month :: int

text \<open>A visit with the fields that the gate does not read; the gate sees its date as a day number.\<close>

record guest_visit = visit +
  gv_name :: string
  gv_date :: date
  gv_policy :: "nat option"
  gv_in :: rat
  gv_out :: rat

datatype letter = FromTemplate nat | Composed string string

record guest_book =
  gb_visits :: "guest_visit list"
  gb_policies :: "guest_policy list"
  gb_contacts :: "contact list"
  gb_party :: "party_member list"
  gb_hosts :: "affiliate list"
  gb_next :: nat
  gb_sequence :: nat
  gb_mails :: "letter list"

record guest_env =
  ge_sequence :: "nat \<Rightarrow> string option"
  ge_uuid :: "nat \<Rightarrow> string"
  ge_sha256 :: "string \<Rightarrow> string"
  ge_hour :: nat
  ge_minute :: nat
  ge_template :: bool
  ge_letter :: "guest_visit \<Rightarrow> string"
  ge_quote :: "string \<Rightarrow> string"

datatype guest_exn = TooManyGuests nat date | TooManyVisits nat | NoVisit nat | NoEmail nat

type_synonym 'a guest_act = "(guest_book, guest_exn, 'a) act"

section \<open>Computed fields\<close>

definition party_count :: "guest_book \<Rightarrow> guest_visit \<Rightarrow> nat" where
  "party_count b v = 1 + length (filter (\<lambda>m. pm_visit m = vi_id v) (gb_party b))"

definition visit_count :: "guest_book \<Rightarrow> contact \<Rightarrow> nat" where
  "visit_count b g = length (filter (\<lambda>v. vi_guest v = gu_id g) (gb_visits b))"

section \<open>The QR code\<close>

definition pad2 :: "nat \<Rightarrow> string" where
  "pad2 n = (if n < 10 then ''0'' @ int_str (int n) else int_str (int n))"

text \<open>\<open>str(date)\<close>, for years of four digits.\<close>

definition iso_date :: "date \<Rightarrow> string" where
  "iso_date d = int_str (int (yr d)) @ ''-'' @ pad2 (mon d) @ ''-'' @ pad2 (mday d)"

definition contact_of :: "guest_book \<Rightarrow> guest_visit \<Rightarrow> contact option" where
  "contact_of b v = row_get gu_id (vi_guest v) (gb_contacts b)"

definition host_of :: "guest_book \<Rightarrow> guest_visit \<Rightarrow> affiliate option" where
  "host_of b v = row_get af_id (vi_affiliate v) (gb_hosts b)"

definition get_qr_payload :: "guest_book \<Rightarrow> guest_visit \<Rightarrow> (string \<times> json) list" where
  "get_qr_payload b v =
     [(''type'', JStr ''club_guest_visit''),
      (''token'', case vi_token v of None \<Rightarrow> JBool False | Some t \<Rightarrow> JStr t),
      (''visit'', JStr (gv_name v)),
      (''guest'', JStr (case contact_of b v of None \<Rightarrow> [] | Some g \<Rightarrow> gu_name g)),
      (''guest_id_number'', JStr (py_or (Option.bind (contact_of b v) gu_ident) [])),
      (''host'', JStr (case host_of b v of None \<Rightarrow> [] | Some a \<Rightarrow> af_name a)),
      (''host_number'', JStr (py_or (Option.bind (host_of b v) af_number) [])),
      (''date'', JStr (iso_date (gv_date v))),
      (''party_size'', JNum (int (party_count b v))),
      (''independent'', JBool (vi_independent v)),
      (''vehicle'', JStr (py_or (vi_plate v) []))]"

text \<open>\<open>json.dumps\<close> of an object without nested ones, with the default separators.\<close>

definition dumps_flat :: "(string \<times> json) list \<Rightarrow> string" where
  "dumps_flat kvs = ''{'' @ join_with '', '' (map (\<lambda>(k, x). dump_str k @ '': '' @ j_dumps x) kvs) @ ''}''"

text \<open>The text in the picture; a visit without a token has none.\<close>

definition compute_qr_code :: "guest_book \<Rightarrow> guest_visit \<Rightarrow> string option" where
  "compute_qr_code b v = (if \<not> truthy (vi_token v) then None else Some (dumps_flat (get_qr_payload b v)))"

definition generate_qr_token :: "guest_env \<Rightarrow> guest_visit \<Rightarrow> string" where
  "generate_qr_token e v =
     py_first 24 (ge_sha256 e (int_str (int (vi_id v)) @ ''-'' @ gv_name v @ ''-'' @ py_first 8 (ge_uuid e (vi_id v))))"

section \<open>The limits of a policy\<close>

definition counts :: "nat \<Rightarrow> guest_visit \<Rightarrow> bool" where
  "counts a v \<longleftrightarrow> vi_affiliate v = a \<and> vi_status v \<noteq> Cancelled"

definition same_day_count :: "guest_book \<Rightarrow> nat \<Rightarrow> date \<Rightarrow> nat" where
  "same_day_count b a d = length (filter (\<lambda>v. counts a v \<and> gv_date v = d) (gb_visits b))"

definition next_first :: "date \<Rightarrow> date" where
  "next_first d = (if mon d = 12 then Date (yr d + 1) 1 1 else Date (yr d) (mon d + 1) 1)"

definition month_visits :: "guest_book \<Rightarrow> nat \<Rightarrow> date \<Rightarrow> nat" where
  "month_visits b a d = length (filter (\<lambda>v. counts a v \<and> first_of_month d \<le> gv_date v \<and> gv_date v < next_first d) (gb_visits b))"

definition policy_of :: "guest_book \<Rightarrow> guest_visit \<Rightarrow> guest_policy option" where
  "policy_of b v = Option.bind (gv_policy v) (\<lambda>p. row_get gp_id p (gb_policies b))"

definition check_max_guests_per_visit :: "guest_book \<Rightarrow> guest_visit \<Rightarrow> guest_exn option" where
  "check_max_guests_per_visit b v =
     (if vi_status v = Cancelled then None
      else case policy_of b v of
        None \<Rightarrow> None
      | Some p \<Rightarrow> if gp_day p < int (same_day_count b (vi_affiliate v) (gv_date v)) then Some (TooManyGuests (vi_affiliate v) (gv_date v)) else None)"

definition check_max_visits_per_month :: "guest_book \<Rightarrow> guest_visit \<Rightarrow> guest_exn option" where
  "check_max_visits_per_month b v =
     (if vi_status v = Cancelled then None
      else case policy_of b v of
        None \<Rightarrow> None
      | Some p \<Rightarrow> if gp_month p < int (month_visits b (vi_affiliate v) (gv_date v)) then Some (TooManyVisits (vi_affiliate v)) else None)"

text \<open>Both constraints on the visits of a call, one constraint after the other.\<close>

definition first_violation :: "guest_book \<Rightarrow> guest_visit list \<Rightarrow> guest_exn option" where
  "first_violation b vs =
     (case List.map_filter (check_max_guests_per_visit b) vs @ List.map_filter (check_max_visits_per_month b) vs of
        [] \<Rightarrow> None
      | x # xs \<Rightarrow> Some x)"

section \<open>Creation and changes\<close>

text \<open>Each visit whose name is the placeholder takes the next number; the ids are consecutive.\<close>

fun number_visits :: "guest_env \<Rightarrow> nat \<Rightarrow> nat \<Rightarrow> guest_visit list \<Rightarrow> guest_visit list \<times> nat" where
  "number_visits e n i [] = ([], n)"
| "number_visits e n i (v # vs) =
     (if gv_name v = ''New''
      then (case number_visits e (n + 1) (i + 1) vs of (ws, k) \<Rightarrow> (v\<lparr>vi_id := i, gv_name := py_or (ge_sequence e n) ''New''\<rparr> # ws, k))
      else (case number_visits e n (i + 1) vs of (ws, k) \<Rightarrow> (v\<lparr>vi_id := i\<rparr> # ws, k)))"

definition with_token :: "guest_env \<Rightarrow> guest_visit \<Rightarrow> guest_visit" where
  "with_token e v = (if truthy (vi_token v) then v else v\<lparr>vi_token := Some (generate_qr_token e v)\<rparr>)"

definition visits_create :: "guest_env \<Rightarrow> guest_visit list \<Rightarrow> nat list guest_act" where
  "visits_create e vs = (\<lambda>b.
     case number_visits e (gb_sequence b) (gb_next b) vs of
       (ws, k) \<Rightarrow>
         (let b1 = b\<lparr>gb_visits := gb_visits b @ ws, gb_next := gb_next b + length ws, gb_sequence := k\<rparr>
          in case first_violation b1 ws of
               Some x \<Rightarrow> (Inl x, b)
             | None \<Rightarrow> (Inr (map vi_id ws), b1\<lparr>gb_visits := gb_visits b @ map (with_token e) ws\<rparr>)))"

definition write_visit :: "nat \<Rightarrow> (guest_visit \<Rightarrow> guest_visit) \<Rightarrow> guest_book \<Rightarrow> guest_book" where
  "write_visit i f b = b\<lparr>gb_visits := row_upd vi_id i f (gb_visits b)\<rparr>"

text \<open>A write of the host, the date or the policy checks the limits.\<close>

definition move_visit :: "nat \<Rightarrow> nat \<Rightarrow> date \<Rightarrow> nat option \<Rightarrow> unit guest_act" where
  "move_visit i a d p = (\<lambda>b.
     let b1 = write_visit i (\<lambda>v. v\<lparr>vi_affiliate := a, gv_date := d, gv_policy := p\<rparr>) b
     in case row_get vi_id i (gb_visits b1) of
          None \<Rightarrow> (Inl (NoVisit i), b)
        | Some v \<Rightarrow> (case first_violation b1 [v] of Some x \<Rightarrow> (Inl x, b) | None \<Rightarrow> (Inr (), b1)))"

text \<open>A write of the status does not.\<close>

definition set_visit_status :: "visit_status \<Rightarrow> nat \<Rightarrow> unit guest_act" where
  "set_visit_status s i = act_modify (write_visit i (\<lambda>v. v\<lparr>vi_status := s\<rparr>))"

definition hour_float :: "guest_env \<Rightarrow> rat" where
  "hour_float e = of_nat (ge_hour e) + of_nat (ge_minute e) / 60"

definition action_check_in :: "guest_env \<Rightarrow> nat list \<Rightarrow> unit guest_act" where
  "action_check_in e = for_each (\<lambda>i. act_modify (write_visit i (\<lambda>v. v\<lparr>gv_in := hour_float e, vi_status := CheckedIn\<rparr>)))"

definition action_check_out :: "guest_env \<Rightarrow> nat list \<Rightarrow> unit guest_act" where
  "action_check_out e = for_each (\<lambda>i. act_modify (write_visit i (\<lambda>v. v\<lparr>gv_out := hour_float e, vi_status := CheckedOut\<rparr>)))"

section \<open>Sharing the code\<close>

definition action_send_qr_email :: "guest_env \<Rightarrow> guest_visit \<Rightarrow> string guest_act" where
  "action_send_qr_email e v = (\<lambda>b.
     case Option.bind (contact_of b v) ct_email of
       None \<Rightarrow> (Inl (NoEmail (vi_guest v)), b)
     | Some mail \<Rightarrow>
         if mail = [] then (Inl (NoEmail (vi_guest v)), b)
         else (Inr mail, b\<lparr>gb_mails := gb_mails b @ [if ge_template e then FromTemplate (vi_id v) else Composed mail (ge_letter e v)]\<rparr>))"

text \<open>\<open>isdigit\<close> holds of the superscripts one, two and three as well.\<close>

definition phone_char :: "char \<Rightarrow> bool" where
  "phone_char c \<longleftrightarrow> (let n = of_char c :: nat in 48 \<le> n \<and> n \<le> 57 \<or> n \<in> set [43, 178, 179, 185])"

definition action_share_qr_whatsapp :: "guest_env \<Rightarrow> guest_visit \<Rightarrow> string guest_act" where
  "action_share_qr_whatsapp e v = (\<lambda>b.
     (Inr (''https://wa.me/'' @ filter phone_char (py_or (Option.bind (contact_of b v) ct_phone) []) @ ''?text='' @ ge_quote e (ge_letter e v)), b))"

section \<open>What the gate sees\<close>

definition gate_visit :: "guest_visit \<Rightarrow> visit" where
  "gate_visit v = (visit.truncate v)\<lparr>vi_date := ordinal (gv_date v)\<rparr>"

definition gate_book :: "guest_book \<Rightarrow> club \<Rightarrow> club" where
  "gate_book b c = c\<lparr>cl_visits := map gate_visit (gb_visits b), cl_guests := map guest.truncate (gb_contacts b),
     cl_party := gb_party b\<rparr>"

section \<open>The numbers that the limits bound\<close>

definition visits_of_month :: "guest_book \<Rightarrow> nat \<Rightarrow> nat \<Rightarrow> nat \<Rightarrow> nat" where
  "visits_of_month b a y m = length (filter (\<lambda>v. counts a v \<and> yr (gv_date v) = y \<and> mon (gv_date v) = m) (gb_visits b))"

definition limits_hold :: "guest_policy \<Rightarrow> guest_book \<Rightarrow> bool" where
  "limits_hold P b \<longleftrightarrow> (\<forall>a d. int (same_day_count b a d) \<le> max 0 (gp_day P)) \<and>
     (\<forall>a y m. int (visits_of_month b a y m) \<le> max 0 (gp_month P))"

definition visits_ok :: "guest_book \<Rightarrow> bool" where
  "visits_ok b \<longleftrightarrow> distinct (map vi_id (gb_visits b)) \<and> (\<forall>v \<in> set (gb_visits b). vi_id v < gb_next b \<and> valid_date (gv_date v))"

text \<open>The window from the first of the month to the first of the next one is the month.\<close>

lemma month_window:
  assumes "valid_date d" "valid_date v"
  shows "first_of_month d \<le> v \<and> v < next_first d \<longleftrightarrow> yr v = yr d \<and> mon v = mon d"
proof -
  have "1 \<le> mon d" "mon d \<le> 12" "1 \<le> mon v" "mon v \<le> 12" "1 \<le> mday v"
    using assms by (simp_all add: valid_date_def)
  then show ?thesis
    by (cases "mon d = 12") (auto simp: next_first_def first_of_month_def less_eq_date_def less_date_def)
qed

lemma month_visits_eq:
  assumes "visits_ok b" "valid_date d"
  shows "month_visits b a d = visits_of_month b a (yr d) (mon d)"
  unfolding month_visits_def visits_of_month_def
  using assms month_window [OF assms(2)] by (intro arg_cong [where f = length] filter_cong) (auto simp: visits_ok_def)

lemma filter_length_map_le:
  "(\<And>x. x \<in> set xs \<Longrightarrow> Q (f x) \<Longrightarrow> Q x) \<Longrightarrow> length (filter Q (map f xs)) \<le> length (filter Q xs)"
  by (induction xs) (auto simp: le_SucI)

text \<open>A change after which each visit that counts has passed the checks, or counted before it.\<close>

lemma limits_kept:
  assumes P: "row_get gp_id p (gb_policies b') = Some P"
    and ok: "visits_ok b'"
    and passed: "\<And>w. w \<in> set ws \<Longrightarrow> gv_policy w = Some p \<and> valid_date (gv_date w) \<and> (vi_status w \<noteq> Cancelled \<longrightarrow>
        check_max_guests_per_visit b' w = None \<and> check_max_visits_per_month b' w = None)"
    and old: "\<And>Q. \<forall>w \<in> set ws. \<not> Q w \<Longrightarrow> (\<And>v t. Q (v\<lparr>vi_token := t\<rparr>) = Q v) \<Longrightarrow>
        (\<And>v x. Q (v\<lparr>gv_in := x\<rparr>) = Q v) \<Longrightarrow> length (filter Q (gb_visits b')) \<le> length (filter Q (gb_visits b))"
    and "limits_hold P b"
  shows "limits_hold P b'"
proof -
  have day: "int (same_day_count b' a d) \<le> max 0 (gp_day P)" for a d
  proof (cases "\<exists>w \<in> set ws. counts a w \<and> gv_date w = d")
    case True
    then obtain w where w: "w \<in> set ws" "counts a w" "gv_date w = d" by blast
    with passed [OF w(1)] P show ?thesis
      by (auto simp: check_max_guests_per_visit_def policy_of_def counts_def split: if_splits)
  next
    case False
    then have "same_day_count b' a d \<le> same_day_count b a d"
      unfolding same_day_count_def by (intro old) (auto simp: counts_def)
    moreover have "int (same_day_count b a d) \<le> max 0 (gp_day P)" using assms(5) by (simp add: limits_hold_def)
    ultimately show ?thesis by linarith
  qed
  have month: "int (visits_of_month b' a y m) \<le> max 0 (gp_month P)" for a y m
  proof (cases "\<exists>w \<in> set ws. counts a w \<and> yr (gv_date w) = y \<and> mon (gv_date w) = m")
    case True
    then obtain w where w: "w \<in> set ws" "counts a w" "yr (gv_date w) = y" "mon (gv_date w) = m" by blast
    with passed [OF w(1)] P month_visits_eq [OF ok, of "gv_date w" a] show ?thesis
      by (auto simp: check_max_visits_per_month_def policy_of_def counts_def split: if_splits)
  next
    case False
    then have "visits_of_month b' a y m \<le> visits_of_month b a y m"
      unfolding visits_of_month_def by (intro old) (auto simp: counts_def)
    moreover have "int (visits_of_month b a y m) \<le> max 0 (gp_month P)" using assms(5) by (simp add: limits_hold_def)
    ultimately show ?thesis by linarith
  qed
  show ?thesis using day month by (simp add: limits_hold_def)
qed

lemma map_filter_Nil: "List.map_filter f xs = [] \<longleftrightarrow> (\<forall>x \<in> set xs. f x = None)"
  by (induction xs) (auto simp: List.map_filter_def split: option.split)

lemma first_violation_None:
  "first_violation b vs = None \<longleftrightarrow>
     (\<forall>v \<in> set vs. check_max_guests_per_visit b v = None \<and> check_max_visits_per_month b v = None)"
proof -
  have "(case L of [] \<Rightarrow> None | x # xs \<Rightarrow> Some x) = None \<longleftrightarrow> L = []" for L :: "guest_exn list" by (cases L) auto
  then show ?thesis by (auto simp: first_violation_def map_filter_Nil)
qed

section \<open>Creation\<close>

text \<open>A numbered visit is one of those given, but for the id, the name and the token.\<close>

definition same_visit :: "guest_visit \<Rightarrow> guest_visit \<Rightarrow> bool" where
  "same_visit w v \<longleftrightarrow> gv_date w = gv_date v \<and> gv_policy w = gv_policy v \<and> vi_status w = vi_status v \<and>
     vi_affiliate w = vi_affiliate v \<and> vi_guest w = vi_guest v \<and> vi_independent w = vi_independent v"

lemma number_visits_props:
  "number_visits e n i vs = (ws, k) \<Longrightarrow>
     map vi_id ws = [i..<i + length vs] \<and> length ws = length vs \<and> (\<forall>w \<in> set ws. \<exists>v \<in> set vs. same_visit w v)"
proof (induction vs arbitrary: n i ws k)
  case (Cons v vs)
  let ?n = "if gv_name v = ''New'' then n + 1 else n"
  let ?nm = "if gv_name v = ''New'' then py_or (ge_sequence e n) ''New'' else gv_name v"
  obtain ys k' where ys: "number_visits e ?n (i + 1) vs = (ys, k')" by fastforce
  have ih: "map vi_id ys = [i + 1..<i + 1 + length vs]" "length ys = length vs" "\<forall>w \<in> set ys. \<exists>v \<in> set vs. same_visit w v"
    using Cons.IH [OF ys] by simp_all
  have ws: "ws = v\<lparr>vi_id := i, gv_name := ?nm\<rparr> # ys"
    using Cons.prems ys by (cases "gv_name v = ''New''") auto
  then have "map vi_id ws = [i..<i + length (v # vs)]" using ih(1) upt_conv_Cons [of i "i + length (v # vs)"] by (simp del: upt_Suc)
  moreover have "same_visit (v\<lparr>vi_id := i, gv_name := ?nm\<rparr>) v" by (simp add: same_visit_def)
  ultimately show ?case using ih ws by auto
qed simp

lemma with_token_sel [simp]:
  "vi_id (with_token e v) = vi_id v" "gv_date (with_token e v) = gv_date v" "vi_affiliate (with_token e v) = vi_affiliate v"
  "vi_status (with_token e v) = vi_status v" "gv_policy (with_token e v) = gv_policy v"
  by (simp_all add: with_token_def)

lemma checks_ignore_tokens:
  assumes "gb_visits b' = gb_visits b @ map (with_token e) ws" "gb_policies b' = gb_policies b1" "gb_visits b1 = gb_visits b @ ws"
  shows "check_max_guests_per_visit b' v = check_max_guests_per_visit b1 v"
    "check_max_visits_per_month b' v = check_max_visits_per_month b1 v"
proof -
  have "length (filter Q (map (with_token e) ws)) = length (filter Q ws)" if "\<And>w. Q (with_token e w) = Q w" for Q
    using that by (induction ws) auto
  then have "same_day_count b' a d = same_day_count b1 a d" "month_visits b' a d = month_visits b1 a d" for a d
    using assms by (simp_all add: same_day_count_def month_visits_def counts_def)
  moreover have "policy_of b' v = policy_of b1 v" using assms by (simp add: policy_of_def)
  ultimately show "check_max_guests_per_visit b' v = check_max_guests_per_visit b1 v"
    "check_max_visits_per_month b' v = check_max_visits_per_month b1 v"
    by (simp_all add: check_max_guests_per_visit_def check_max_visits_per_month_def split: option.split)
qed

lemma visits_create_run:
  assumes "visits_create e vs b = (Inr ids, b')"
  obtains ws k where "number_visits e (gb_sequence b) (gb_next b) vs = (ws, k)" "ids = map vi_id ws"
    "b' = b\<lparr>gb_visits := gb_visits b @ map (with_token e) ws, gb_next := gb_next b + length ws, gb_sequence := k\<rparr>"
    "\<And>w. w \<in> set ws \<Longrightarrow> check_max_guests_per_visit b' w = None \<and> check_max_visits_per_month b' w = None"
proof -
  obtain ws k where n: "number_visits e (gb_sequence b) (gb_next b) vs = (ws, k)" by fastforce
  let ?b1 = "b\<lparr>gb_visits := gb_visits b @ ws, gb_next := gb_next b + length ws, gb_sequence := k\<rparr>"
  from assms n have v: "first_violation ?b1 ws = None"
    by (auto simp: visits_create_def Let_def split: option.splits)
  with assms n have r: "ids = map vi_id ws"
    "b' = b\<lparr>gb_visits := gb_visits b @ map (with_token e) ws, gb_next := gb_next b + length ws, gb_sequence := k\<rparr>"
    by (auto simp: visits_create_def Let_def)
  moreover have "check_max_guests_per_visit b' w = None \<and> check_max_visits_per_month b' w = None" if "w \<in> set ws" for w
    using checks_ignore_tokens [of b' b e ws ?b1 w] r v that by (simp add: first_violation_None)
  ultimately show ?thesis using that n by blast
qed

lemma visits_create_ok:
  assumes "visits_create e vs b = (Inr ids, b')" "visits_ok b" "\<forall>v \<in> set vs. valid_date (gv_date v)"
  shows "visits_ok b'"
proof -
  from assms(1) obtain ws k where n: "number_visits e (gb_sequence b) (gb_next b) vs = (ws, k)"
    and b': "b' = b\<lparr>gb_visits := gb_visits b @ map (with_token e) ws, gb_next := gb_next b + length ws, gb_sequence := k\<rparr>"
    by (rule visits_create_run)
  from number_visits_props [OF n] have ids: "map vi_id ws = [gb_next b..<gb_next b + length ws]"
    and ws: "\<forall>w \<in> set ws. \<exists>v \<in> set vs. same_visit w v" by simp_all
  from ids have sets: "vi_id ` set ws = {gb_next b..<gb_next b + length ws}" by (simp only: ids set_upt flip: set_map)
  have "valid_date (gv_date w)" if "w \<in> set ws" for w using ws that assms(3) by (auto simp: same_visit_def)
  moreover have "distinct (map vi_id ws)" by (simp add: ids)
  moreover have "map vi_id (map (with_token e) ws) = map vi_id ws" by simp
  moreover have "vi_id ` set (gb_visits b) \<inter> vi_id ` set ws = {}" 
    unfolding sets using assms(2) by (auto simp: visits_ok_def)
  moreover have "vi_id w < gb_next b + length ws" if "w \<in> set ws" for w
    using sets imageI [OF that, of vi_id] by simp
  ultimately show ?thesis using assms(2)
    by (auto simp: visits_ok_def b' intro: order_less_le_trans simp del: map_map)
qed

section \<open>Changes\<close>

lemma row_upd_filter_le:
  assumes "\<And>v. v \<in> set vs \<Longrightarrow> vi_id v = i \<Longrightarrow> Q (f v) \<Longrightarrow> Q v"
  shows "length (filter Q (row_upd vi_id i f vs)) \<le> length (filter Q vs)"
  unfolding row_upd_def using assms by (intro filter_length_map_le) (metis (full_types))

lemma write_visit_sel [simp]:
  "gb_policies (write_visit i f b) = gb_policies b" "gb_next (write_visit i f b) = gb_next b"
  "gb_visits (write_visit i f b) = row_upd vi_id i f (gb_visits b)"
  by (simp_all add: write_visit_def)

lemma write_visit_ok:
  assumes "visits_ok b" "\<And>v. vi_id (f v) = vi_id v" "\<And>v. valid_date (gv_date v) \<Longrightarrow> valid_date (gv_date (f v))"
  shows "visits_ok (write_visit i f b)"
  using assms by (auto simp: visits_ok_def map_key_row_upd in_set_row_upd)

text \<open>A write that adds no visit to those that count, such as a check-in of one that is not cancelled.\<close>

definition quiet :: "nat \<Rightarrow> (guest_visit \<Rightarrow> guest_visit) \<Rightarrow> guest_book \<Rightarrow> bool" where
  "quiet i f b \<longleftrightarrow> (\<forall>v. vi_id (f v) = vi_id v \<and> gv_date (f v) = gv_date v \<and> vi_affiliate (f v) = vi_affiliate v) \<and>
     (\<forall>v \<in> set (gb_visits b). vi_id v = i \<longrightarrow> vi_status (f v) \<noteq> Cancelled \<longrightarrow> vi_status v \<noteq> Cancelled)"

lemma quiet_write:
  assumes "quiet i f b" "visits_ok b" "limits_hold P b"
  shows "visits_ok (write_visit i f b) \<and> limits_hold P (write_visit i f b)"
proof
  show "visits_ok (write_visit i f b)" using assms(1,2) by (intro write_visit_ok) (simp_all add: quiet_def)
  have "same_day_count (write_visit i f b) a d \<le> same_day_count b a d" for a d
    unfolding same_day_count_def write_visit_sel using assms(1)
    by (intro row_upd_filter_le) (auto simp: quiet_def counts_def)
  moreover have "visits_of_month (write_visit i f b) a y m \<le> visits_of_month b a y m" for a y m
    unfolding visits_of_month_def write_visit_sel using assms(1)
    by (intro row_upd_filter_le) (auto simp: quiet_def counts_def)
  ultimately show "limits_hold P (write_visit i f b)" using assms(3) unfolding limits_hold_def
    by (meson of_nat_mono order_trans)
qed

definition alive :: "nat list \<Rightarrow> guest_book \<Rightarrow> bool" where
  "alive ids b \<longleftrightarrow> (\<forall>v \<in> set (gb_visits b). vi_id v \<in> set ids \<longrightarrow> vi_status v \<noteq> Cancelled)"

lemma status_loop:
  assumes "\<And>v. vi_id (f v) = vi_id v \<and> gv_date (f v) = gv_date v \<and> vi_affiliate (f v) = vi_affiliate v \<and> vi_status (f v) = s"
    and "s \<noteq> Cancelled" "alive ids b" "visits_ok b" "limits_hold P b"
  shows "visits_ok (snd (for_each (\<lambda>i. act_modify (write_visit i f)) ids b)) \<and>
     limits_hold P (snd (for_each (\<lambda>i. act_modify (write_visit i f)) ids b)) \<and>
     gb_policies (snd (for_each (\<lambda>i. act_modify (write_visit i f)) ids b)) = gb_policies b"
  using assms(3-5)
proof (induction ids arbitrary: b)
  case (Cons i ids)
  let ?b = "write_visit i f b"
  have "quiet i f b" using Cons.prems(1) assms(1) by (auto simp: quiet_def alive_def)
  then have "visits_ok ?b \<and> limits_hold P ?b" using quiet_write Cons.prems by blast
  moreover have "alive ids ?b" using Cons.prems(1) assms(1,2) by (auto simp: alive_def in_set_row_upd split: if_splits)
  ultimately show ?case using Cons.IH [of ?b] by simp
qed simp

lemma move_kept:
  assumes "valid_date d" "row_get gp_id p (gb_policies b) = Some P" "visits_ok b" "limits_hold P b"
  shows "visits_ok (snd (move_visit i a d (Some p) b)) \<and> limits_hold P (snd (move_visit i a d (Some p) b)) \<and>
     gb_policies (snd (move_visit i a d (Some p) b)) = gb_policies b"
proof -
  let ?f = "\<lambda>v. v\<lparr>vi_affiliate := a, gv_date := d, gv_policy := Some p\<rparr>"
  let ?b = "write_visit i ?f b"
  have ok: "visits_ok ?b" using assms(1,3) by (intro write_visit_ok) auto
  show ?thesis
  proof (cases "snd (move_visit i a d (Some p) b) = b")
    case True
    then show ?thesis using assms by simp
  next
    case False
    then obtain w where w: "row_get vi_id i (gb_visits ?b) = Some w" "first_violation ?b [w] = None"
      and b': "snd (move_visit i a d (Some p) b) = ?b"
      by (auto simp: move_visit_def Let_def split: option.splits)
    have in_b: "w \<in> set (gb_visits ?b)" "vi_id w = i" using row_get_in_set [OF w(1)] by auto
    then obtain v0 where v0: "w = (if vi_id v0 = i then ?f v0 else v0)" unfolding write_visit_sel in_set_row_upd by blast
    with in_b(2) have w': "gv_policy w = Some p \<and> gv_date w = d" by (cases "vi_id v0 = i") simp_all
    have "limits_hold P ?b"
    proof (rule limits_kept [where ws = "[w]" and p = p and b = b])
      show "row_get gp_id p (gb_policies ?b) = Some P" using assms(2) by simp
      show "gv_policy v = Some p \<and> valid_date (gv_date v) \<and> (vi_status v \<noteq> Cancelled \<longrightarrow>
          check_max_guests_per_visit ?b v = None \<and> check_max_visits_per_month ?b v = None)" if "v \<in> set [w]" for v
        using that w(2) w' assms(1) by (simp add: first_violation_None)
      show "length (filter Q (gb_visits ?b)) \<le> length (filter Q (gb_visits b))" if "\<forall>w \<in> set [w]. \<not> Q w" for Q
        unfolding write_visit_sel
      proof (rule row_upd_filter_le)
        fix v assume v: "v \<in> set (gb_visits b)" "vi_id v = i" "Q (?f v)"
        then have "?f v \<in> set (gb_visits ?b)" unfolding write_visit_sel in_set_row_upd by (intro bexI [of _ v]) simp_all
        moreover have "vi_id (?f v) = i" using v by simp
        ultimately have "?f v = w" using row_get_distinct [of vi_id "gb_visits ?b" "?f v"] ok w(1) by (simp add: visits_ok_def)
        with v(3) that show "Q v" by simp
      qed
    qed (use ok assms(4) in simp_all)
    with ok b' show ?thesis by simp
  qed
qed

lemma create_kept:
  assumes "list_all (\<lambda>v. gv_policy v = Some p \<and> valid_date (gv_date v)) vs"
    and "row_get gp_id p (gb_policies b) = Some P" "visits_ok b" "limits_hold P b"
  shows "visits_ok (snd (visits_create e vs b)) \<and> limits_hold P (snd (visits_create e vs b)) \<and>
     gb_policies (snd (visits_create e vs b)) = gb_policies b"
proof (cases "visits_create e vs b")
  case (Pair r b')
  show ?thesis
  proof (cases r)
    case (Inl x)
    then have "b' = b" using Pair by (auto simp: visits_create_def Let_def split: prod.splits option.splits)
    then show ?thesis using assms Pair by simp
  next
    case (Inr ids)
    with Pair have run: "visits_create e vs b = (Inr ids, b')" by simp
    then obtain ws k where n: "number_visits e (gb_sequence b) (gb_next b) vs = (ws, k)"
      and b': "b' = b\<lparr>gb_visits := gb_visits b @ map (with_token e) ws, gb_next := gb_next b + length ws, gb_sequence := k\<rparr>"
      and checks: "\<And>w. w \<in> set ws \<Longrightarrow> check_max_guests_per_visit b' w = None \<and> check_max_visits_per_month b' w = None"
      by (rule visits_create_run) blast
    have vs: "\<forall>v \<in> set vs. gv_policy v = Some p \<and> valid_date (gv_date v)" using assms(1) by (simp add: list_all_iff)
    have ok: "visits_ok b'" using visits_create_ok [OF run assms(3)] vs by blast
    have "limits_hold P b'"
    proof (rule limits_kept [where ws = ws and p = p and b = b])
      show "row_get gp_id p (gb_policies b') = Some P" using assms(2) by (simp add: b')
      show "gv_policy w = Some p \<and> valid_date (gv_date w) \<and> (vi_status w \<noteq> Cancelled \<longrightarrow>
          check_max_guests_per_visit b' w = None \<and> check_max_visits_per_month b' w = None)" if "w \<in> set ws" for w
        using that checks number_visits_props [OF n] vs by (auto simp: same_visit_def)
      show "length (filter Q (gb_visits b')) \<le> length (filter Q (gb_visits b))"
        if "\<forall>w \<in> set ws. \<not> Q w" "\<And>v t. Q (v\<lparr>vi_token := t\<rparr>) = Q v" for Q
      proof -
        have "\<not> Q (with_token e w)" if "w \<in> set ws" for w using that \<open>\<forall>w \<in> set ws. \<not> Q w\<close> \<open>\<And>v t. Q (v\<lparr>vi_token := t\<rparr>) = Q v\<close> by (simp add: with_token_def)
        then have "filter Q (map (with_token e) ws) = []" by (simp add: filter_empty_conv)
        then show ?thesis by (simp add: b')
      qed
    qed (use ok assms(4) in simp_all)
    with ok Pair show ?thesis by (simp add: b')
  qed
qed

text \<open>
  What the users of a policy do: visits are created and moved under it, checked in and out, and
  their status is set; none of these calls takes back a cancellation.
\<close>

inductive visit_step :: "nat \<Rightarrow> guest_book \<Rightarrow> guest_book \<Rightarrow> bool" for p where
  create: "list_all (\<lambda>v. gv_policy v = Some p \<and> valid_date (gv_date v)) vs \<Longrightarrow> visit_step p b (snd (visits_create e vs b))"
| move: "valid_date d \<Longrightarrow> visit_step p b (snd (move_visit i a d (Some p) b))"
| check_in: "alive ids b \<Longrightarrow> visit_step p b (snd (action_check_in e ids b))"
| check_out: "alive ids b \<Longrightarrow> visit_step p b (snd (action_check_out e ids b))"
| status: "s = Cancelled \<or> alive [i] b \<Longrightarrow> visit_step p b (snd (set_visit_status s i b))"

lemma visit_step_kept:
  "visit_step p b b' \<Longrightarrow> row_get gp_id p (gb_policies b) = Some P \<Longrightarrow> visits_ok b \<Longrightarrow> limits_hold P b \<Longrightarrow>
     visits_ok b' \<and> limits_hold P b' \<and> gb_policies b' = gb_policies b"
proof (induction rule: visit_step.induct)
  case (create vs b e) then show ?case by (intro create_kept)
next
  case (move d b i a) then show ?case by (intro move_kept)
next
  case (check_in ids b e) then show ?case unfolding action_check_in_def by (intro status_loop [where s = CheckedIn]) auto
next
  case (check_out ids b e) then show ?case unfolding action_check_out_def by (intro status_loop [where s = CheckedOut]) auto
next
  case (status s i b)
  have "quiet i (\<lambda>v. v\<lparr>vi_status := s\<rparr>) b" using status(1) by (auto simp: quiet_def alive_def)
  with status show ?case using quiet_write [of i "\<lambda>v. v\<lparr>vi_status := s\<rparr>" b P] by (simp add: set_visit_status_def)
qed

lemma visit_steps_kept:
  "(visit_step p)\<^sup>*\<^sup>* b b' \<Longrightarrow> row_get gp_id p (gb_policies b) = Some P \<Longrightarrow> visits_ok b \<Longrightarrow> limits_hold P b \<Longrightarrow>
     visits_ok b' \<and> limits_hold P b' \<and> gb_policies b' = gb_policies b"
proof (induction rule: rtranclp_induct)
  case (step y z)
  then have "visits_ok y \<and> limits_hold P y \<and> gb_policies y = gb_policies b" by blast
  with step(2,4) show ?case using visit_step_kept [of p y z P] by simp
qed simp

section \<open>The code at the gate\<close>

lemma dumps_flat_strip: "py_strip (dumps_flat kvs) = dumps_flat kvs"
  by (rule py_strip_id) (auto simp: dumps_flat_def py_space_def)

lemma find_only:
  assumes "v \<in> set vs" "P v" "\<And>w. w \<in> set vs \<Longrightarrow> P w \<Longrightarrow> w = v"
  shows "find P vs = Some v"
proof (cases "find P vs")
  case None
  then show ?thesis using assms(1,2) by (simp add: find_None)
next
  case (Some w)
  then show ?thesis using find_in_set [OF Some] assms(3) by blast
qed

lemma gate_visit_sel [simp]:
  "vi_id (gate_visit v) = vi_id v" "vi_date (gate_visit v) = ordinal (gv_date v)" "vi_token (gate_visit v) = vi_token v"
  "vi_affiliate (gate_visit v) = vi_affiliate v" "vi_guest (gate_visit v) = vi_guest v" "vi_status (gate_visit v) = vi_status v"
  "vi_independent (gate_visit v) = vi_independent v"
  by (simp_all add: gate_visit_def visit.truncate_def)

lemma token_from_code:
  assumes "vi_token v = Some t" "t \<noteq> []" "cx_loads cx (dumps_flat (get_qr_payload b v)) = Some (JObj (get_qr_payload b v))"
  shows "qr_token_of cx (dumps_flat (get_qr_payload b v)) = t"
proof -
  have "map_of (get_qr_payload b v) ''token'' = Some (JStr t)" using assms(1) by (simp add: get_qr_payload_def)
  with assms(2,3) show ?thesis by (simp add: qr_token_of_def dumps_flat_strip)
qed

section \<open>Properties\<close>


text \<open>
  Checking in a visit that was cancelled succeeds, although its place has been given away:
  the member then has more visits that day than the policy allows.
\<close>

theorem cancelled_visit_revived:
  assumes "row_get vi_id i (gb_visits b) = Some v" "vi_status v = Cancelled" "visits_ok b"
    and "policy_of b v = Some P" "int (same_day_count b (vi_affiliate v) (gv_date v)) = gp_day P"
  shows "\<exists>b'. action_check_in e [i] b = (Inr (), b') \<and> gp_day P < int (same_day_count b' (vi_affiliate v) (gv_date v))"
proof -
  let ?f = "\<lambda>v. v\<lparr>gv_in := hour_float e, vi_status := CheckedIn\<rparr>"
  have "length (filter Q (map (\<lambda>r. if vi_id r = i then ?f r else r) vs)) = length (filter Q vs) + 1"
    if "v \<in> set vs" "distinct (map vi_id vs)" "vi_id v = i" "\<not> Q v" "Q (?f v)" for Q vs
    using that
  proof (induction vs)
    case (Cons r vs)
    show ?case
    proof (cases "r = v")
      case True
      then have "map (\<lambda>r. if vi_id r = i then ?f r else r) vs = vs"
        using Cons.prems(2,3) by (intro map_idI) (auto simp: image_iff)
      with True Cons.prems show ?thesis by simp
    next
      case False
      then have "vi_id r \<noteq> i" using Cons.prems by (auto simp: image_iff)
      with False Cons show ?thesis by simp
    qed
  qed simp
  then have "same_day_count (write_visit i ?f b) (vi_affiliate v) (gv_date v) = same_day_count b (vi_affiliate v) (gv_date v) + 1"
    unfolding same_day_count_def write_visit_sel row_upd_def
    using assms(2,3) row_get_in_set [OF assms(1)] by (simp add: counts_def visits_ok_def)
  with assms(5) show ?thesis by (simp add: action_check_in_def)
qed

text \<open>
  C23: Every visit that a call creates has a code, and scanning it at the gate finds the guest of
  that visit: the guest is let in exactly on the day of the visit, while it is open, and when
  the guest may enter alone or the host has been granted entry since midnight. The text of the
  code is read back as it was written, and no other visit has the same token.
\<close>

theorem code_opens_the_gate:
  assumes "visits_create e vs b = (Inr ids, b')" "visits_ok b"
    and "v \<in> set (gb_visits b')" "vi_id v \<in> set ids" "\<And>x. ge_sha256 e x \<noteq> []"
    and "\<forall>w \<in> set (gb_visits b'). vi_token w = vi_token v \<longrightarrow> w = v"
    and "cx_loads cx (dumps_flat (get_qr_payload b' v)) = Some (JObj (get_qr_payload b' v))"
  shows "\<exists>code r. compute_qr_code b' v = Some code \<and> lookup_by_qr_code cx (gate_book b' c) code = Some r \<and>
     fo_person r = GuestRef (vi_guest v) \<and> fo_visit r = Some (vi_id v) \<and>
     (fo_allowed r \<longleftrightarrow> ordinal (gv_date v) = cx_today cx \<and> vi_status v \<in> {Registered, CheckedIn} \<and>
        (vi_independent v \<or> host_entry cx c (vi_affiliate v) \<noteq> None))"
proof -
  from assms(1) obtain ws k where n: "number_visits e (gb_sequence b) (gb_next b) vs = (ws, k)" and ids: "ids = map vi_id ws"
    and b': "b' = b\<lparr>gb_visits := gb_visits b @ map (with_token e) ws, gb_next := gb_next b + length ws, gb_sequence := k\<rparr>"
    by (rule visits_create_run)
  have "vi_id v \<in> {gb_next b..<gb_next b + length vs}"
    using assms(4) number_visits_props [OF n] unfolding ids by (metis set_upt atLeastLessThan_upt)
  then have "v \<notin> set (gb_visits b)" using assms(2) by (auto simp: visits_ok_def)
  then obtain w where w: "v = with_token e w" using assms(3) by (auto simp: b')
  have "generate_qr_token e w \<noteq> []" using assms(5) by (simp add: generate_qr_token_def py_first_def)
  then have "truthy (vi_token v)" by (simp add: w with_token_def truthy_def)
  then obtain t where t: "vi_token v = Some t" "t \<noteq> []" by (auto simp: truthy_def)
  let ?code = "dumps_flat (get_qr_payload b' v)"
  have code: "compute_qr_code b' v = Some ?code" using t by (simp add: compute_qr_code_def truthy_def)
  have tok: "qr_token_of cx ?code = t" using token_from_code [OF t assms(7)] .
  have one: "w = v" if "w \<in> set (gb_visits b')" "vi_token w = Some t" for w using assms(6) that t by simp
  have visits: "cl_visits (gate_book b' c) = map gate_visit (gb_visits b')" "cl_entries (gate_book b' c) = cl_entries c"
    by (simp_all add: gate_book_def)
  have found: "find (\<lambda>w. vi_token w = Some t) (cl_visits (gate_book b' c)) = Some (gate_visit v)"
    using assms(3) t(1) by (intro find_only) (auto simp: visits dest: one)
  have hosts: "host_entry cx (gate_book b' c) a = host_entry cx c a" for a by (simp add: host_entry_def visits)
  show ?thesis
  proof (cases "open_today cx (gate_visit v)")
    case True
    then have "find (\<lambda>w. vi_token w = Some t \<and> open_today cx w) (cl_visits (gate_book b' c)) = Some (gate_visit v)"
      using assms(3) t(1) by (intro find_only) (auto simp: visits dest: one)
    then have "lookup_by_qr_code cx (gate_book b' c) ?code = Some (resolve_guest_visit_access cx (gate_book b' c) (gate_visit v))"
      by (simp add: lookup_by_qr_code_def tok)
    with code True show ?thesis
      by (auto simp: resolve_guest_visit_access_def Let_def found_allowed_def open_today_def hosts)
  next
    case False
    then have "find (\<lambda>w. vi_token w = Some t \<and> open_today cx w) (cl_visits (gate_book b' c)) = None"
      by (auto simp: find_None visits dest: one)
    then have "lookup_by_qr_code cx (gate_book b' c) ?code =
        Some ((found_person Guest (GuestRef (vi_guest v)) False (WrongDay (ordinal (gv_date v)) (cx_today cx) (vi_status v)))\<lparr>fo_visit := Some (vi_id v)\<rparr>)"
      by (simp add: lookup_by_qr_code_def tok found)
    with code False show ?thesis by (auto simp: found_person_def open_today_def)
  qed
qed

section \<open>Witnesses\<close>

definition demo_visit :: "nat \<Rightarrow> visit_status \<Rightarrow> guest_visit" where
  "demo_visit i s = \<lparr>vi_id = i, vi_affiliate = 7, vi_guest = 3, vi_date = 0, vi_status = s, vi_independent = True, vi_plate = None,
     vi_token = None, gv_name = ''New'', gv_date = Date 2026 5 9, gv_policy = Some 1, gv_in = 0, gv_out = 0\<rparr>"

definition demo_guests :: "guest_visit list \<Rightarrow> guest_book" where
  "demo_guests vs = \<lparr>gb_visits = vs, gb_policies = [\<lparr>gp_id = 1, gp_day = 1, gp_month = 4\<rparr>], gb_contacts = [], gb_party = [],
     gb_hosts = [], gb_next = 10, gb_sequence = 0, gb_mails = []\<rparr>"

definition demo_guest_env :: guest_env where
  "demo_guest_env = \<lparr>ge_sequence = \<lambda>n. Some ''V1'', ge_uuid = \<lambda>n. ''u'', ge_sha256 = \<lambda>s. CHR ''s'' # s, ge_hour = 14, ge_minute = 30,
     ge_template = False, ge_letter = \<lambda>v. [], ge_quote = id\<rparr>"

lemma demo_guests_ok: "visits_ok (demo_guests [])" "visits_ok (demo_guests [demo_visit 1 Cancelled, demo_visit 2 Registered])"
  by (simp_all add: visits_ok_def demo_guests_def demo_visit_def valid_date_def days_in_def)


theorem cancelled_visit_revived_witness:
  "1 < int (same_day_count (snd (action_check_in demo_guest_env [1] (demo_guests [demo_visit 1 Cancelled, demo_visit 2 Registered]))) 7 (Date 2026 5 9))"
proof -
  let ?b = "demo_guests [demo_visit 1 Cancelled, demo_visit 2 Registered]"
  have "\<exists>b'. action_check_in demo_guest_env [1] ?b = (Inr (), b') \<and>
      gp_day \<lparr>gp_id = 1, gp_day = 1, gp_month = 4\<rparr> < int (same_day_count b' (vi_affiliate (demo_visit 1 Cancelled)) (gv_date (demo_visit 1 Cancelled)))"
    by (rule cancelled_visit_revived [OF _ _ demo_guests_ok(2)])
      (simp_all add: demo_guests_def demo_visit_def row_simps policy_of_def same_day_count_def counts_def)
  then show ?thesis by (auto simp: demo_visit_def)
qed

definition demo_created :: guest_visit where
  "demo_created = (demo_visit 10 Registered)\<lparr>gv_name := ''V1'', vi_token := Some (generate_qr_token demo_guest_env ((demo_visit 10 Registered)\<lparr>gv_name := ''V1''\<rparr>))\<rparr>"

lemma demo_create:
  "visits_create demo_guest_env [demo_visit 0 Registered] (demo_guests []) =
     (Inr [10], (demo_guests [demo_created])\<lparr>gb_next := 11, gb_sequence := 1\<rparr>)"
  by (simp add: visits_create_def demo_guests_def demo_created_def demo_visit_def demo_guest_env_def Let_def first_violation_def
      List.map_filter_def check_max_guests_per_visit_def check_max_visits_per_month_def policy_of_def row_simps same_day_count_def month_visits_def
      counts_def with_token_def truthy_def py_or_def)

definition demo_gate :: call_context where
  "demo_gate = \<lparr>cx_now = 0, cx_today = ordinal (Date 2026 5 9), cx_ilike = \<lambda>a b. a = b,
     cx_loads = \<lambda>s. Some (JObj (get_qr_payload ((demo_guests [demo_created])\<lparr>gb_next := 11, gb_sequence := 1\<rparr>) demo_created)),
     cx_render = \<lambda>j. [], cx_sequence = \<lambda>n. None\<rparr>"

theorem code_opens_the_gate_witness:
  "\<exists>r. lookup_by_qr_code demo_gate (gate_book ((demo_guests [demo_created])\<lparr>gb_next := 11, gb_sequence := 1\<rparr>)
       \<lparr>cl_affiliates = [], cl_employees = [], cl_vehicles = [], cl_guests = [], cl_visits = [], cl_party = [], cl_staff = [],
        cl_registrations = [], cl_participants = [], cl_entries = [], cl_sequence = 0\<rparr>)
     (dumps_flat (get_qr_payload ((demo_guests [demo_created])\<lparr>gb_next := 11, gb_sequence := 1\<rparr>) demo_created)) = Some r \<and> fo_allowed r"
proof -
  let ?b = "(demo_guests [demo_created])\<lparr>gb_next := 11, gb_sequence := 1\<rparr>"
  have "demo_created \<in> set (gb_visits ?b)" "vi_id demo_created \<in> set [10]" "\<forall>w \<in> set (gb_visits ?b). vi_token w = vi_token demo_created \<longrightarrow> w = demo_created"
    by (simp_all add: demo_guests_def demo_created_def demo_visit_def)
  moreover have "ge_sha256 demo_guest_env x \<noteq> []" for x by (simp add: demo_guest_env_def)
  moreover have "cx_loads demo_gate (dumps_flat (get_qr_payload ?b demo_created)) = Some (JObj (get_qr_payload ?b demo_created))"
    by (simp add: demo_gate_def)
  ultimately obtain code r where "compute_qr_code ?b demo_created = Some code"
    "lookup_by_qr_code demo_gate (gate_book ?b \<lparr>cl_affiliates = [], cl_employees = [], cl_vehicles = [], cl_guests = [], cl_visits = [], cl_party = [], cl_staff = [],
        cl_registrations = [], cl_participants = [], cl_entries = [], cl_sequence = 0\<rparr>) code = Some r"
    "fo_allowed r \<longleftrightarrow> ordinal (gv_date demo_created) = cx_today demo_gate \<and> vi_status demo_created \<in> {Registered, CheckedIn} \<and>
        (vi_independent demo_created \<or> host_entry demo_gate \<lparr>cl_affiliates = [], cl_employees = [], cl_vehicles = [], cl_guests = [], cl_visits = [], cl_party = [], cl_staff = [],
        cl_registrations = [], cl_participants = [], cl_entries = [], cl_sequence = 0\<rparr> (vi_affiliate demo_created) \<noteq> None)"
    using code_opens_the_gate [OF demo_create demo_guests_ok(1)] by metis
  moreover from this(1) have "code = dumps_flat (get_qr_payload ?b demo_created)" by (simp add: compute_qr_code_def split: if_splits)
  moreover have "ordinal (gv_date demo_created) = cx_today demo_gate" "vi_status demo_created = Registered" "vi_independent demo_created"
    by (simp_all add: demo_created_def demo_visit_def demo_gate_def)
  ultimately show ?thesis by blast
qed

end
