(* ===== verification/SpecText.thy ===== *)
theory SpecText
  imports SlackIntake Signing
begin

text \<open>
  The texts of the spec generator (agents/agents/spec_generator): intake.py reads an issue and
  classifies it, bug_repro.py judges a bug report, drafter.py turns the answer of the language model
  into a spec, and refiner.py takes a reply into it.

  A day is the text that \<open>strftime\<close> gives; a time stamp is a count of microseconds with a
  mark that tells whether it carries a time zone. Characters beyond U+00FF are left out of the texts.
\<close>

section \<open>Reading a payload\<close>

text \<open>\<open>d.get(k) or ''\<close> as a text, and \<open>int(d.get(k) or 0)\<close>.\<close>

definition str_or_empty :: "json \<Rightarrow> string \<Rightarrow> py_exn + string" where
  "str_or_empty j k = res_bind (j_get j k JNull) (\<lambda>v. if j_true v then j_str v else Inr [])"

fun j_int :: "json \<Rightarrow> py_exn + int" where
  "j_int (JNum n) = Inr n"
| "j_int (JBool b) = Inr (if b then 1 else 0)"
| "j_int (JStr s) = (case py_int s of None \<Rightarrow> Inl (ValueErr s) | Some n \<Rightarrow> Inr n)"
| "j_int _ = Inl ShapeError"

definition int_or_zero :: "json \<Rightarrow> string \<Rightarrow> py_exn + int" where
  "int_or_zero j k = res_bind (j_get j k JNull) (\<lambda>v. if j_true v then j_int v else Inr 0)"

datatype stamp = Stamp (aware: bool) (micros: int)

text \<open>Python does not subtract a time with a zone and one without.\<close>

definition stamp_diff :: "stamp \<Rightarrow> stamp \<Rightarrow> py_exn + int" where
  "stamp_diff a b = (if aware a = aware b then Inr (micros a - micros b) else Inl CompareTypeError)"

fun parse_iso :: "(string \<Rightarrow> stamp option) \<Rightarrow> json \<Rightarrow> stamp option" where
  "parse_iso rd (JStr s) = (if s = [] then None else rd (py_replace ''Z'' ''+00:00'' s))"
| "parse_iso rd _ = None"

text \<open>The names among the labels; the list or whatever stands for none.\<close>

fun label_name :: "json \<Rightarrow> py_exn + string option" where
  "label_name (JStr s) = Inr (Some s)"
| "label_name (JObj kvs) =
     (case map_of kvs ''name'' of None \<Rightarrow> Inr None | Some v \<Rightarrow> Inr (if j_true v then Some (j_format v) else None))"
| "label_name _ = Inr None"

definition normalise_labels :: "json \<Rightarrow> py_exn + string list" where
  "normalise_labels field =
     (if \<not> j_true field then Inr []
      else res_bind (j_list field) (\<lambda>items. res_bind (res_map label_name items) (\<lambda>ns. Inr (List.map_filter id ns))))"

section \<open>Intake\<close>

datatype classification = Feature | BugReport | Sensitive | Stale | Unrouted

datatype spec_kind = Design | FixBrief | NoSpec

definition non_routing :: "string list" where
  "non_routing = [''intent-confirmed'', ''spec-drafted'', ''awaiting-reporter-confirm'']"

definition stale_after :: int where "stale_after = 30 * 86400 * 1000000"

definition looks_sensitive :: "string \<Rightarrow> bool" where
  "looks_sensitive s = list_ex (\<lambda>p. re_search p s) default_sensitive_patterns"

definition classify_intake :: "string list \<Rightarrow> string \<Rightarrow> string \<Rightarrow> stamp option \<Rightarrow> stamp \<Rightarrow> py_exn + classification \<times> spec_kind" where
  "classify_intake labels title body created now =
     (if looks_sensitive title \<or> looks_sensitive body then Inr (Sensitive, NoSpec)
      else res_bind (case created of None \<Rightarrow> Inr 0 | Some t \<Rightarrow> stamp_diff now t) (\<lambda>age.
        if created \<noteq> None \<and> stale_after < age then Inr (Stale, NoSpec)
        else let label_set = filter (\<lambda>l. l \<notin> set non_routing) labels
             in Inr (if ''feature-request'' \<in> set label_set then (Feature, Design)
                     else if ''bug'' \<in> set label_set then (BugReport, FixBrief)
                     else (Unrouted, NoSpec))))"

record intake =
  ix_action :: string
  ix_number :: int
  ix_title :: string
  ix_body :: string
  ix_author :: string
  ix_url :: string
  ix_repo :: string
  ix_labels :: "string list"
  ix_class :: classification
  ix_kind :: spec_kind
  ix_created :: "stamp option"

definition parse_intake :: "(string \<Rightarrow> stamp option) \<Rightarrow> stamp \<Rightarrow> json \<Rightarrow> py_exn + intake" where
  "parse_intake rd now payload =
     res_bind (j_get payload ''action'' JNull) (\<lambda>action.
     res_bind (get_obj payload ''issue'') (\<lambda>issue.
     res_bind (get_obj payload ''repository'') (\<lambda>repo.
     res_bind (res_bind (j_get issue ''labels'' (JList [])) normalise_labels) (\<lambda>labels.
     res_bind (str_or_empty issue ''title'') (\<lambda>title.
     res_bind (str_or_empty issue ''body'') (\<lambda>body.
     res_bind (j_get issue ''created_at'' JNull) (\<lambda>created.
     res_bind (classify_intake labels (py_strip title) body (parse_iso rd created) now) (\<lambda>(c, k).
     res_bind (int_or_zero issue ''number'') (\<lambda>number.
     res_bind (res_bind (get_obj issue ''user'') (\<lambda>u. get_str u ''login'' [])) (\<lambda>author.
     res_bind (get_str issue ''html_url'' []) (\<lambda>url.
     res_bind (get_str repo ''full_name'' []) (\<lambda>full_name.
     Inr \<lparr>ix_action = (if j_true action then j_format action else ''synthetic''), ix_number = number, ix_title = py_strip title,
          ix_body = body, ix_author = author, ix_url = url, ix_repo = full_name, ix_labels = labels, ix_class = c, ix_kind = k,
          ix_created = parse_iso rd created\<rparr>))))))))))))"

section \<open>The judgement of a bug report\<close>

datatype repro_outcome = ReproConfirmed | NeedsReproInfo | NeedsFixture

text \<open>The confidence in hundredths.\<close>

record repro =
  rp_outcome :: repro_outcome
  rp_confidence :: nat
  rp_reasons :: "string list"

fun outcome_str :: "repro_outcome \<Rightarrow> string" where
  "outcome_str ReproConfirmed = ''repro-confirmed''"
| "outcome_str NeedsReproInfo = ''needs-repro-info''"
| "outcome_str NeedsFixture = ''needs-fixture''"

definition repro_label :: "repro \<Rightarrow> string" where
  "repro_label r = ''repro:'' @ outcome_str (rp_outcome r)"

text \<open>The source of a pattern, with a tilde for each backslash.\<close>

definition pat_src :: "string \<Rightarrow> string" where
  "pat_src s = map (\<lambda>c. if c = CHR 0x7E then CHR 0x5C else c) s"

definition seqs :: "regex list \<Rightarrow> regex" where
  "seqs rs = foldr Seq rs Empty"

definition word_after :: "string \<Rightarrow> regex" where
  "word_after s = seqs [Boundary, ilit s, many1 py_space, many1 word_char, Boundary]"

definition order_number :: "string \<Rightarrow> regex" where
  "order_number s = seqs [Boundary, ilit s, Chars digit_char 3 None, Boundary]"

definition fixture_patterns :: "(string \<times> regex) list" where
  "fixture_patterns =
     [(pat_src ''(?i)~bcustomer~s+~w+~b'', word_after ''customer''),
      (pat_src ''(?i)~btenant~s+~w+~b'', word_after ''tenant''),
      (pat_src ''(?i)~b(production|live|prod)~s+(data|database|tenant)~b'',
         seqs [Boundary, alts [ilit ''production'', ilit ''live'', ilit ''prod''], many1 py_space,
           alts [ilit ''data'', ilit ''database'', ilit ''tenant''], Boundary]),
      (pat_src ''(?i)~baccount~s+number~s+[~w-]+'',
         seqs [Boundary, ilit ''account'', many1 py_space, ilit ''number'', many1 py_space, many1 (\<lambda>c. word_char c \<or> c = CHR ''-'')]),
      (pat_src ''(?i)~binvoice~s+#?~d+'',
         seqs [Boundary, ilit ''invoice'', many1 py_space, opt (\<lambda>c. c = CHR ''#''), many1 digit_char]),
      (pat_src ''(?i)~bSO~d{3,}~b'', order_number ''SO''),
      (pat_src ''(?i)~bPO~d{3,}~b'', order_number ''PO''),
      (pat_src ''(?i)https?://[~w.-]+~.goliatt~.co/'',
         seqs [ilit ''http'', opt (\<lambda>c. py_lower_char c = CHR ''s''), lit ''://'', many1 (\<lambda>c. word_char c \<or> any_of ''.-'' c),
           ilit ''.goliatt.co/''])]"

text \<open>A pattern that starts with a caret, with and without the multi-line flag.\<close>

fun search_lines :: "regex \<Rightarrow> string \<Rightarrow> string \<Rightarrow> bool" where
  "search_lines r pre s =
     ((pre = [] \<or> hd pre = CHR 0x0A) \<and> matches r (pre, s) \<noteq> [] \<or>
      (case s of [] \<Rightarrow> False | c # cs \<Rightarrow> search_lines r (c # pre) cs))"

declare search_lines.simps [simp del]

definition steps_re :: regex where
  "steps_re = seqs [Chars py_space 0 None, Alt (Seq (many1 digit_char) (one (any_of ''.)''))) (one (any_of ''-*'')), one py_space]"

definition error_re :: regex where
  "error_re = alts [ilit ''traceback'', seqs [ilit ''error'', one (any_of '':-''), one py_space], Seq (ilit ''exception'') Boundary,
     seqs [ilit ''stack'', opt (\<lambda>c. py_space c \<or> any_of ''_-'' c), ilit ''trace'']]"

definition version_re :: regex where
  "version_re = alts [seqs [ilit ''odoo'', Chars py_space 0 None, many1 digit_char],
     seqs [ilit ''v'', many1 digit_char, lit ''.'', many1 digit_char],
     seqs [ilit ''version'', many1 (\<lambda>c. c = CHR '':'' \<or> py_space c), one digit_char]]"

definition browser_re :: regex where
  "browser_re = alts [ilit ''chrome'', ilit ''firefox'', ilit ''safari'', ilit ''edge'', ilit ''playwright'']"

definition repro_signals :: "string \<Rightarrow> string list" where
  "repro_signals body =
     (if search_lines steps_re [] body then [''has_numbered_or_bulleted_steps''] else []) @
     (if re_search error_re body then [''mentions_error_or_traceback''] else []) @
     (if re_search version_re body then [''mentions_version''] else []) @
     (if re_search browser_re body then [''mentions_browser''] else [])"

definition fixture_hits :: "string \<Rightarrow> string \<Rightarrow> string list" where
  "fixture_hits title body =
     map fst (filter (\<lambda>(src, p). re_search p (py_strip (title @ [CHR 0x0A] @ body))) fixture_patterns)"

definition classify_repro :: "string \<Rightarrow> string \<Rightarrow> repro" where
  "classify_repro title body =
     (let hits = fixture_hits title body; reasons = repro_signals body; score = length reasons
      in if hits \<noteq> []
         then \<lparr>rp_outcome = NeedsFixture, rp_confidence = min 100 (50 + 20 * length hits),
               rp_reasons = map (\<lambda>p. ''fixture_hit:'' @ p) (take 3 hits)\<rparr>
         else if length (py_strip body) < 80
         then \<lparr>rp_outcome = NeedsReproInfo, rp_confidence = 70, rp_reasons = reasons @ [''body_too_short'']\<rparr>
         else if 2 \<le> score
         then \<lparr>rp_outcome = ReproConfirmed, rp_confidence = min 100 (50 + 15 * score), rp_reasons = reasons\<rparr>
         else \<lparr>rp_outcome = NeedsReproInfo, rp_confidence = 60,
               rp_reasons = (if reasons = [] then [''no_repro_signal_detected''] else reasons)\<rparr>)"

fun comment_for_outcome :: "repro_outcome \<Rightarrow> string" where
  "comment_for_outcome ReproConfirmed =
     ''Your report has enough detail for a fix-brief draft. Confirm the spec captures your intent.''"
| "comment_for_outcome NeedsFixture =
     '':lock: This looks like it references production data. I'm routing this to security-lead so they can prepare a sanitised agentlab fixture before we draft a fix-brief.''"
| "comment_for_outcome NeedsReproInfo =
     ''I couldn't see a clean repro in the report. Could you add: the exact steps (numbered), the error you saw (copy/paste any traceback), the Odoo version, and the browser?''"

section \<open>The object in an answer\<close>

definition fence :: string where "fence = ''```''"

text \<open>\<open>(\{.*?\})\s*```\<close> from behind the brace: the first closing brace before a fence.\<close>

fun lazy_close :: "string \<Rightarrow> string \<Rightarrow> string option" where
  "lazy_close acc [] = None"
| "lazy_close acc (c # cs) =
     (if c = CHR ''}'' \<and> prefix fence (py_lstrip cs) then Some (rev (c # acc)) else lazy_close (c # acc) cs)"

definition fenced_at :: "string \<Rightarrow> string option" where
  "fenced_at s =
     (if prefix fence s
      then let try_from = (\<lambda>r. case py_lstrip r of
                 [] \<Rightarrow> None | c # cs \<Rightarrow> if c = CHR ''{'' then lazy_close [c] cs else None);
               rest = drop 3 s
           in (case (if prefix ''json'' rest then try_from (drop 4 rest) else None) of
                 Some b \<Rightarrow> Some b
               | None \<Rightarrow> try_from rest)
      else None)"

fun fenced_block :: "string \<Rightarrow> string option" where
  "fenced_block s =
     (case fenced_at s of
        Some b \<Rightarrow> Some b
      | None \<Rightarrow> (case s of [] \<Rightarrow> None | c # cs \<Rightarrow> fenced_block cs))"

declare fenced_block.simps [simp del]

text \<open>The text up to the brace that closes the first one, braces in strings included.\<close>

fun balanced :: "int \<Rightarrow> string \<Rightarrow> string \<Rightarrow> string option" where
  "balanced depth acc [] = None"
| "balanced depth acc (c # cs) =
     (if c = CHR ''{'' then balanced (depth + 1) (c # acc) cs
      else if c = CHR ''}''
      then if depth - 1 = 0 then Some (rev (c # acc)) else balanced (depth - 1) (c # acc) cs
      else balanced depth (c # acc) cs)"

definition extract_json :: "(string \<Rightarrow> json option) \<Rightarrow> string \<Rightarrow> json" where
  "extract_json dec s =
     (let body = (case fenced_block s of None \<Rightarrow> s | Some b \<Rightarrow> b)
      in case balanced 0 [] (dropWhile (\<lambda>c. c \<noteq> CHR ''{'') body) of
           None \<Rightarrow> JObj []
         | Some blob \<Rightarrow> (case dec blob of None \<Rightarrow> JObj [] | Some j \<Rightarrow> j))"

section \<open>The drafter\<close>

definition design_sections :: "(string \<times> string) list" where
  "design_sections =
     [(''goal'', ''One paragraph: the outcome and who benefits.''),
      (''non_goals'', ''Bullets explicitly out of scope.''),
      (''tenancy_impact'', ''MANDATORY non-empty. Does this touch tenant boundary, require per-tenant migration, change saas_tenant_gate? Could data leak across tenants?''),
      (''data_model'', ''New models, fields, indexes. Use Odoo ORM snippets if applicable.''),
      (''api_surface'', ''New/changed controllers, RPC, JSON, webhooks.''),
      (''security_model'', ''Record rules, ACLs, sensitive data exposure, one-paragraph tenancy-isolation argument.''),
      (''test_plan'', ''Unit, integration, E2E (Playwright on agentlab), adversarial.''),
      (''rollout_plan'', ''Feature-flagged? Which wave first? Migration cost? Rollback path?''),
      (''observability'', ''Logs, metrics, alerts.''),
      (''open_questions'', ''MANDATORY: at least one numbered question for the reporter.'')]"

definition fix_sections :: "(string \<times> string) list" where
  "fix_sections =
     [(''symptom'', ''The user's report  quote relevant lines.''),
      (''repro'', ''Numbered minimal repro steps on a fresh tenant.''),
      (''affected_tenants'', ''Tenants impacted, severity, workaround availability.''),
      (''root_cause'', ''The actual bug. Cite file:line if known, otherwise 'TBD  pending repro'.''),
      (''proposed_fix'', ''Diff sketch. Pseudocode is fine.''),
      (''regression_test'', ''The test that would have caught this. Pseudocode is fine.''),
      (''rollout'', ''Hotfix or normal wave? Feature-flagged?'')]"

definition sections_of :: "spec_kind \<Rightarrow> (string \<times> string) list" where
  "sections_of k = (if k = Design then design_sections else fix_sections)"

definition headings_of :: "spec_kind \<Rightarrow> (string \<times> string) list" where
  "headings_of k =
     (if k = Design
      then [(''1. Goal'', ''goal''), (''2. Non-goals'', ''non_goals''), (''3. Tenancy impact'', ''tenancy_impact''),
            (''4. Data model changes'', ''data_model''), (''5. API surface'', ''api_surface''), (''6. Security model'', ''security_model''),
            (''7. Test plan'', ''test_plan''), (''8. Rollout plan'', ''rollout_plan''), (''9. Observability'', ''observability''),
            (''10. Open questions'', ''open_questions'')]
      else [(''1. Symptom'', ''symptom''), (''2. Repro'', ''repro''), (''3. Affected tenants & severity'', ''affected_tenants''),
            (''4. Root cause'', ''root_cause''), (''5. Proposed fix'', ''proposed_fix''), (''6. Regression test'', ''regression_test''),
            (''7. Rollout'', ''rollout'')])"

fun kind_str :: "spec_kind \<Rightarrow> string" where
  "kind_str Design = ''design''"
| "kind_str FixBrief = ''fix''"
| "kind_str NoSpec = []"

record drafted =
  dr_slug :: string
  dr_path :: string
  dr_markdown :: string
  dr_questions :: "string list"

text \<open>\<open>re.sub\<close> of every run of other characters by a hyphen, \<open>strip('-')\<close> and the cut.\<close>

definition slug_char :: "char \<Rightarrow> bool" where
  "slug_char c \<longleftrightarrow> (let n = of_char c :: nat in 48 \<le> n \<and> n \<le> 57 \<or> 65 \<le> n \<and> n \<le> 90 \<or> 97 \<le> n \<and> n \<le> 122)"

definition slugify :: "string \<Rightarrow> string" where
  "slugify title =
     (let s = re_sub (many1 (\<lambda>c. \<not> slug_char c)) ''-'' (py_lower title);
          slug = py_rstrip_char (CHR ''-'') (dropWhile (\<lambda>c. c = CHR ''-'') s)
      in py_first 60 (if slug = [] then ''untitled'' else slug))"

definition spec_path_of :: "string \<Rightarrow> string \<Rightarrow> spec_kind \<Rightarrow> string" where
  "spec_path_of today slug k =
     ''docs/superpowers/specs/'' @ today @ ''-'' @ slug @ ''-'' @ (if k = Design then ''design'' else ''fix'') @ ''.md''"

text \<open>\<open>isinstance(value, str) and len(value.strip()) >= 16\<close>, and \<open>'?' in (value or '')\<close>.\<close>

fun non_empty :: "json option \<Rightarrow> bool" where
  "non_empty (Some (JStr s)) = (16 \<le> length (py_strip s))"
| "non_empty _ = False"

fun has_question :: "json \<Rightarrow> py_exn + bool" where
  "has_question (JStr s) = Inr (CHR ''?'' \<in> set s)"
| "has_question (JList l) = Inr (JStr ''?'' \<in> set l)"
| "has_question (JObj kvs) = Inr (map_of kvs ''?'' \<noteq> None)"
| "has_question j = (if j_true j then Inl ShapeError else Inr False)"

definition dict_put :: "string \<Rightarrow> json \<Rightarrow> (string \<times> json) list \<Rightarrow> (string \<times> json) list" where
  "dict_put k v kvs =
     (if map_of kvs k = None then kvs @ [(k, v)] else map (\<lambda>(a, b). if a = k then (a, v) else (a, b)) kvs)"

definition dict_or :: "(string \<times> json) list \<Rightarrow> string \<Rightarrow> json \<Rightarrow> json" where
  "dict_or kvs k d = (case map_of kvs k of None \<Rightarrow> d | Some v \<Rightarrow> v)"

definition no_impact_text :: string where
  "no_impact_text = ''No impact identified from the issue body. The reporter should confirm: does this touch any per-tenant data, require a per-tenant migration, or change `saas_tenant_gate` configuration?''"

text \<open>The sections that a design spec must have are filled in when the answer leaves them out.\<close>

definition fill_gaps :: "(string \<times> json) list \<Rightarrow> py_exn + (string \<times> json) list" where
  "fill_gaps filled0 =
     (let filled = (if non_empty (map_of filled0 ''tenancy_impact'') then filled0
                    else dict_put ''tenancy_impact'' (JStr no_impact_text) filled0);
          qs = dict_or filled ''open_questions'' (JStr [])
      in res_bind (has_question qs) (\<lambda>asked.
           if asked then Inr filled
           else res_bind (j_str qs) (\<lambda>existing.
             Inr (dict_put ''open_questions''
                    (JStr (py_strip (py_rstrip existing @ [CHR 0x0A] @ ''1. Can you confirm the intent of this request?''))) filled))))"

text \<open>\<open>re.match(r'\s*\d+[.)]\s+(.*\?)\s*$', line)\<close>, the group stripped.\<close>

definition question_of :: "string \<Rightarrow> string option" where
  "question_of line =
     (let r = py_lstrip line; rest = dropWhile digit_char r
      in if rest = r \<or> rest = [] \<or> hd rest \<notin> set ''.)'' then None
         else let t = tl rest; q = py_strip t
              in if t = [] \<or> \<not> py_space (hd t) \<or> q = [] \<or> last q \<noteq> CHR ''?'' then None else Some q)"

definition extract_questions :: "json \<Rightarrow> py_exn + string list" where
  "extract_questions v =
     (if j_true v then res_bind (j_str v) (\<lambda>s. Inr (List.map_filter question_of (py_splitlines s))) else Inr [])"

fun section_body :: "json option \<Rightarrow> py_exn + string" where
  "section_body None = Inr ''_To be filled  see open questions._''"
| "section_body (Some v) =
     (if j_true v then res_bind (j_str v) (\<lambda>s. Inr (py_strip s)) else Inr ''_To be filled  see open questions._'')"

definition nl :: string where "nl = [CHR 0x0A]"

definition spec_header :: "spec_kind \<Rightarrow> string \<Rightarrow> int \<Rightarrow> string \<Rightarrow> string" where
  "spec_header k title number today =
     ''# '' @ title @ (if k = Design then ''  Design Spec'' else ''  Fix Brief'') @ nl @ nl @
     ''**Date:** '' @ today @ nl @
     ''**Author:** spec-generator-bot (drafted from issue #'' @ int_str number @ '')'' @ nl @
     ''**Status:** Draft'' @ nl @
     ''**Spec type:** '' @ (if k = Design then ''design spec'' else ''fix-brief'') @ nl @
     ''**Linked issue:** #'' @ int_str number @ nl @ nl @ ''---'' @ nl @ nl"

definition render_spec :: "spec_kind \<Rightarrow> string \<Rightarrow> int \<Rightarrow> string \<Rightarrow> (string \<times> json) list \<Rightarrow> py_exn + string" where
  "render_spec k title number today filled =
     res_bind (res_map (\<lambda>(heading, key). res_bind (section_body (map_of filled key)) (\<lambda>body.
         Inr (''## '' @ heading @ nl @ nl @ body @ nl))) (headings_of k)) (\<lambda>secs.
       let extras = filter (\<lambda>(a, v). a \<notin> fst ` set (sections_of k)) filled;
           notes = (if extras = [] then [] else (''## Notes from drafter'' @ nl) # map (\<lambda>(a, v). ''**'' @ a @ '':** '' @ j_format v @ nl) extras)
       in Inr (py_rstrip (join_with nl (spec_header k title number today # secs @ notes)) @ nl))"

definition draft_system_prompt :: string where
  "draft_system_prompt = ''You are the Spec Generator agent. You convert a free-form GitHub issue into a structured spec section by section. Reply with a single JSON object whose keys match the requested section names and whose values are the markdown content of that section (no headings  the renderer adds them). Be concrete and short. If the issue body lacks the info for a section, write what is known and add a numbered open question.''"

definition draft_prompt :: "int \<Rightarrow> string \<Rightarrow> string \<Rightarrow> spec_kind \<Rightarrow> string" where
  "draft_prompt number title body k =
     ''Issue #'' @ int_str number @ ''  kind='' @ kind_str k @ nl @ ''Title: '' @ title @ nl @ nl @ ''Body:'' @ nl @ body @ nl @ nl @
     ''Fill out these sections as JSON keys (no markdown headings inside):'' @ nl @
     join_with nl (map (\<lambda>(name, hint). ''  - '' @ name @ '': '' @ hint) (sections_of k)) @ nl @ nl @ ''Return ONLY the JSON object.''"

text \<open>What the drafter makes of the answer.\<close>

definition drafted_from :: "(string \<Rightarrow> json option) \<Rightarrow> string \<Rightarrow> int \<Rightarrow> string \<Rightarrow> spec_kind \<Rightarrow> string \<Rightarrow> py_exn + drafted" where
  "drafted_from dec today number title k answer =
     (case extract_json dec answer of
        JObj kvs \<Rightarrow>
          res_bind (if k = Design then fill_gaps kvs else Inr kvs) (\<lambda>filled.
          res_bind (render_spec k title number today filled) (\<lambda>md.
          res_bind (extract_questions (dict_or filled ''open_questions'' (JStr []))) (\<lambda>qs.
          Inr \<lparr>dr_slug = slugify title, dr_path = spec_path_of today (slugify title) k, dr_markdown = md, dr_questions = qs\<rparr>)))
      | _ \<Rightarrow> Inl ShapeError)"

section \<open>The refiner\<close>

record refined =
  rf_markdown :: string
  rf_summary :: string
  rf_remaining :: "string list"
  rf_confirmed :: bool

definition template_needles :: "spec_kind \<Rightarrow> string list" where
  "template_needles k =
     (if k = Design then [''## 1. Goal'', ''## 3. Tenancy impact'', ''## 10. Open questions'']
      else [''## 1. Symptom'', ''## 2. Repro'', ''## 4. Root cause''])"

definition has_template_headings :: "spec_kind \<Rightarrow> string \<Rightarrow> bool" where
  "has_template_headings k md \<longleftrightarrow> list_all (\<lambda>n. py_in n md) (template_needles k)"

definition refine_system_prompt :: string where
  "refine_system_prompt = ''You are the Spec Generator agent refining an existing draft spec. The reporter just replied with a clarification, additional context, or a correction. Integrate their reply into the spec markdown WITHOUT restructuring it: keep the same headings and section order; only change the section bodies that the reply affects. Preserve all section headings exactly. Reply with a single JSON object: {\"markdown\": \"...full updated spec...\", \"summary\": \"one-line what changed\", \"remaining_questions\": [\"question?\", ...], \"confirmed\": false}.''"

definition refine_prompt :: "spec_kind \<Rightarrow> string \<Rightarrow> string \<Rightarrow> string" where
  "refine_prompt k current reply =
     ''Spec kind: '' @ kind_str k @ ''.'' @ nl @ nl @ ''=== Current spec ==='' @ nl @ current @ nl @ ''=== End ==='' @ nl @ nl @
     ''=== Reporter reply ==='' @ nl @ reply @ nl @ ''=== End ==='' @ nl @ nl @ ''Return the updated spec JSON object.''"

definition remaining_of :: "json \<Rightarrow> string list" where
  "remaining_of v =
     (case v of JList l \<Rightarrow> map py_strip (filter (\<lambda>q. py_strip q \<noteq> []) (map j_format l)) | _ \<Rightarrow> [])"

definition refined_from :: "(string \<Rightarrow> json option) \<Rightarrow> string \<Rightarrow> spec_kind \<Rightarrow> string \<Rightarrow> py_exn + refined" where
  "refined_from dec current k answer =
     (let payload = extract_json dec answer
      in res_bind (str_or_empty payload ''markdown'') (\<lambda>md0.
         res_bind (str_or_empty payload ''summary'') (\<lambda>sum0.
         res_bind (j_get payload ''remaining_questions'' JNull) (\<lambda>qs.
         res_bind (j_get payload ''confirmed'' (JBool False)) (\<lambda>conf.
           let md1 = (if py_strip md0 = [] then current else py_strip md0);
               md = (if has_template_headings k md1 then md1 else current);
               summary = (if py_strip sum0 = [] then ''spec revised'' else py_strip sum0)
           in Inr \<lparr>rf_markdown = (if md \<noteq> [] \<and> last md = CHR 0x0A then md else md @ nl), rf_summary = py_first 200 summary,
                   rf_remaining = remaining_of qs, rf_confirmed = j_true conf\<rparr>)))))"

section \<open>Headings\<close>

lemma py_in_iff: "py_in pat s \<longleftrightarrow> (\<exists>xs ys. s = xs @ pat @ ys)"
proof
  assume "py_in pat s"
  then obtain i where "py_find pat s = Some i" by (auto simp: py_in_def)
  then have "s = take i s @ drop i s" "prefix pat (drop i s)" using py_find_Some by simp_all
  then show "\<exists>xs ys. s = xs @ pat @ ys" unfolding prefix_def by metis
next
  assume "\<exists>xs ys. s = xs @ pat @ ys"
  then show "py_in pat s" using py_in_append by blast
qed

lemma py_in_trans: "py_in a b \<Longrightarrow> py_in b c \<Longrightarrow> py_in a c"
  unfolding py_in_iff by (metis append.assoc)

lemma py_in_appendI: "py_in a b \<Longrightarrow> py_in a (b @ c)" "py_in a c \<Longrightarrow> py_in a (b @ c)"
  unfolding py_in_iff by (metis append.assoc)+

lemma py_in_refl: "py_in a a"
  unfolding py_in_iff by (metis append_Nil append_Nil2)

lemma py_in_join: "x \<in> set xs \<Longrightarrow> py_in x (join_with sep xs)"
proof (induction sep xs rule: join_with.induct)
  case (3 sep s t rest)
  then show ?case by (auto intro: py_in_appendI py_in_refl)
qed (auto intro: py_in_refl)

lemma py_in_rstrip:
  assumes "py_in n s" "n \<noteq> []" "\<not> py_space (last n)"
  shows "py_in n (py_rstrip s)"
proof -
  from assms(1) obtain xs ys where s: "s = xs @ n @ ys" by (auto simp: py_in_iff)
  from assms(2,3) obtain m c where n: "n = m @ [c]" "\<not> py_space c" by (cases n rule: rev_cases) auto
  have "dropWhile py_space (zs @ c # rest) = dropWhile py_space zs @ c # rest" for zs rest
    using n(2) by (induction zs) auto
  then have "py_rstrip s = xs @ n @ py_rstrip ys" by (simp add: s py_rstrip_def n(1))
  then show ?thesis by (simp add: py_in_append)
qed

lemma res_map_Inr: "res_map f xs = Inr ys \<Longrightarrow> x \<in> set xs \<Longrightarrow> \<exists>y \<in> set ys. f x = Inr y"
  by (induction xs arbitrary: ys) (auto simp: res_bind_Inr)

text \<open>A drafted spec has every heading of its template.\<close>

lemma render_spec_heading:
  assumes "render_spec k title number today filled = Inr md" "(h, key) \<in> set (headings_of k)" "h \<noteq> []" "\<not> py_space (last h)"
  shows "py_in (''## '' @ h) md"
proof -
  from assms(1) obtain secs extra where secs: "res_map (\<lambda>(heading, key). res_bind (section_body (map_of filled key)) (\<lambda>body.
         Inr (''## '' @ heading @ nl @ nl @ body @ nl))) (headings_of k) = Inr secs"
    and md: "md = py_rstrip (join_with nl (spec_header k title number today # secs @ extra)) @ nl"
    unfolding render_spec_def res_bind_Inr Let_def by blast
  from res_map_Inr [OF secs assms(2)] obtain body where sec: "''## '' @ h @ nl @ nl @ body @ nl \<in> set secs"
    by (auto simp: res_bind_Inr)
  have "py_in (''## '' @ h) ((''## '' @ h) @ nl @ nl @ body @ nl)" by (rule py_in_appendI(1) [OF py_in_refl])
  moreover have "py_in ((''## '' @ h) @ nl @ nl @ body @ nl) (join_with nl (spec_header k title number today # secs @ extra))"
    using sec by (intro py_in_join) simp
  ultimately have "py_in (''## '' @ h) (join_with nl (spec_header k title number today # secs @ extra))" by (rule py_in_trans)
  then have "py_in (''## '' @ h) (py_rstrip (join_with nl (spec_header k title number today # secs @ extra)))"
    using assms(3,4) by (intro py_in_rstrip) simp_all
  then show ?thesis unfolding md by (rule py_in_appendI(1))
qed

lemma render_spec_headings:
  assumes "render_spec k title number today filled = Inr md"
  shows "has_template_headings k md"
proof -
  have "list_all (\<lambda>n. \<exists>h key. n = ''## '' @ h \<and> (h, key) \<in> set (headings_of k) \<and> h \<noteq> [] \<and> \<not> py_space (last h)) (template_needles k)"
    by (simp add: template_needles_def headings_of_def py_space_def)
  then have "py_in n md" if n: "n \<in> set (template_needles k)" for n
  proof -
    from \<open>list_all _ _\<close> n obtain h key where "n = ''## '' @ h" "(h, key) \<in> set (headings_of k)" "h \<noteq> []" "\<not> py_space (last h)"
      unfolding list_all_iff by meson
    then show ?thesis using render_spec_heading [OF assms] by simp
  qed
  then show ?thesis by (simp add: has_template_headings_def list_all_iff)
qed

lemma drafted_headings:
  assumes "drafted_from dec today number title k answer = Inr d"
  shows "has_template_headings k (dr_markdown d)" "dr_path d = spec_path_of today (slugify title) k" "dr_slug d = slugify title"
  using assms render_spec_headings
  by (auto simp: drafted_from_def res_bind_Inr split: json.splits if_splits)

lemma refined_headings:
  assumes "refined_from dec current k answer = Inr r" "has_template_headings k current"
  shows "has_template_headings k (rf_markdown r)"
proof -
  have nl: "has_template_headings k md \<Longrightarrow> has_template_headings k (if b then md else md @ nl)" for md b
    by (auto simp: has_template_headings_def list_all_iff intro: py_in_appendI)
  from assms(1) obtain md1 where "rf_markdown r = (let md = if has_template_headings k md1 then md1 else current
      in if md \<noteq> [] \<and> last md = CHR 0x0A then md else md @ nl)"
    unfolding refined_from_def Let_def res_bind_Inr by fastforce
  moreover have "has_template_headings k (if has_template_headings k md1 then md1 else current)" for md1 using assms(2) by simp
  ultimately show ?thesis unfolding Let_def using nl by metis
qed

section \<open>The file name\<close>

lemma sub_class_chars:
  "c \<in> set (sub_from (many1 p) repl pre s) \<Longrightarrow> c \<in> set repl \<or> \<not> p c"
proof (induction "many1 p" repl pre s rule: sub_from.induct)
  case (1 repl pre s)
  show ?case
  proof (cases s)
    case Nil
    then show ?thesis using 1(4) by (simp add: sub_from_Nil)
  next
    case (Cons d ds)
    show ?thesis
    proof (cases "matches (many1 p) (pre, s)")
      case Nil
      then have "\<not> p d" using Cons by (auto simp: run_lengths_def Let_def split: if_splits)
      then show ?thesis using 1 Nil Cons by (auto simp: sub_from_miss)
    next
      case hit: (Cons m ms)
      then obtain pre' s' where m: "m = (pre', s')" by (cases m)
      show ?thesis
      proof (cases "length s' < length s")
        case True
        then show ?thesis using 1(2) [OF Cons hit m [symmetric]] 1(4) Cons hit m by (subst (asm) sub_from.simps) auto
      next
        case False
        have "matches (many1 p) (pre, s) \<noteq> []" using hit by simp
        then have "length s' < length s" using hit m Cons by (auto simp: run_lengths_def Let_def split: if_splits)
        with False show ?thesis by simp
      qed
    qed
  qed
qed

lemma py_rstrip_char_set: "set (py_rstrip_char c s) \<subseteq> set s"
  using set_dropWhileD by (fastforce simp: py_rstrip_char_def)

lemma in_first_or: "c \<in> set (py_first n (if t = [] then u else t)) \<Longrightarrow> c \<in> set u \<or> c \<in> set t"
  by (auto simp: py_first_def split: if_splits dest: in_set_takeD)

lemma slugify_chars: "c \<in> set (slugify title) \<Longrightarrow> slug_char c \<or> c = CHR ''-''"
proof -
  assume c: "c \<in> set (slugify title)"
  let ?s = "re_sub (many1 (\<lambda>c. \<not> slug_char c)) ''-'' (py_lower title)"
  have s: "d \<in> set ?s \<Longrightarrow> slug_char d \<or> d = CHR ''-''" for d
    using sub_class_chars [of d "\<lambda>c. \<not> slug_char c" "''-''" "[]" "py_lower title"] by (auto simp: re_sub_def)
  have u: "slug_char d" if "d \<in> set ''untitled''" for d using that by (auto simp: slug_char_def)
  let ?t = "py_rstrip_char (CHR ''-'') (dropWhile (\<lambda>c. c = CHR ''-'') ?s)"
  have t: "d \<in> set ?s" if "d \<in> set ?t" for d
    using that py_rstrip_char_set set_dropWhileD by fast
  from c have "c \<in> set ''untitled'' \<or> c \<in> set ?t" unfolding slugify_def Let_def by (rule in_first_or)
  then show ?thesis
  proof
    assume "c \<in> set ''untitled''"
    then show ?thesis by (rule disjI1 [OF u])
  next
    assume "c \<in> set ?t"
    then show ?thesis by (rule s [OF t])
  qed
qed

lemma slugify_length: "1 \<le> length (slugify title) \<and> length (slugify title) \<le> 60"
proof -
  have "slugify title \<noteq> []" by (auto simp: slugify_def Let_def py_first_def)
  then show ?thesis by (simp add: slugify_def Let_def py_first_def Suc_le_eq)
qed

lemma kind_of_spec_path: "suffix ''-fix.md'' (spec_path_of today slug k) \<longleftrightarrow> k \<noteq> Design"
proof -
  have "suffix ''-fix.md'' (xs @ ''-design.md'') = False" for xs by (simp add: suffix_to_prefix)
  moreover have "spec_path_of today slug Design = (''docs/superpowers/specs/'' @ today @ ''-'' @ slug) @ ''-design.md''"
    by (simp add: spec_path_of_def)
  moreover have "k \<noteq> Design \<Longrightarrow> spec_path_of today slug k = (''docs/superpowers/specs/'' @ today @ ''-'' @ slug) @ ''-fix.md''"
    by (simp add: spec_path_of_def)
  ultimately show ?thesis by (metis suffixI)
qed

end
