(* ===== verification/SpecAgent.thy ===== *)
theory SpecAgent
  imports SpecText
begin

text \<open>
  The handlers of the spec generator (agents/agents/spec_generator/core.py): \<open>run_spec\<close> turns an
  issue into a draft on a branch of its own and a pull request, \<open>iterate\<close> takes a reply of the
  reporter into the draft or marks the intent as confirmed, and \<open>sweep_drafts\<close> confirms the drafts that
  nobody answered.

  The state is the list of the calls made on the ports, which are parameters: the language model, git,
  the pull requests, the issue tracker and the notifier. Log lines are left out, and so are the
  fields of an issue handle that its adapters do not read.
\<close>

section \<open>The ports\<close>

datatype spec_call =
    Chat string string nat
  | ListIssues "string list"
  | Checkout string
  | ReadFile string
  | WriteFile string string
  | CommitFile string string string string
  | Push string
  | OpenPr string string string "string list"
  | CommentOn int string
  | AddLabel int string
  | RemoveLabel int string
  | Notify string string

type_synonym 'a spec_act = "(spec_call list, py_exn, 'a) act"

record spec_config =
  sc_shadow :: json
  sc_bot_login :: string
  sc_bot_email :: string
  sc_channel :: string

record pull_request =
  pu_number :: int
  pu_url :: string

record spec_env =
  se_config :: spec_config
  se_llm :: bool
  se_repo :: bool
  se_issues :: bool
  se_notifier :: bool
  se_do :: "spec_call list \<Rightarrow> spec_call \<Rightarrow> py_exn + unit"
  se_text :: "spec_call list \<Rightarrow> spec_call \<Rightarrow> py_exn + string"
  se_open :: "spec_call list \<Rightarrow> spec_call \<Rightarrow> py_exn + pull_request"
  se_list :: "spec_call list \<Rightarrow> spec_call \<Rightarrow> py_exn + string list"
  se_now :: stamp
  se_today :: string
  se_iso :: "string \<Rightarrow> stamp option"
  se_loads :: "string \<Rightarrow> json option"

definition port :: "(spec_call list \<Rightarrow> spec_call \<Rightarrow> py_exn + 'a) \<Rightarrow> spec_call \<Rightarrow> 'a spec_act" where
  "port answer c = (\<lambda>cs. (answer cs c, cs @ [c]))"

text \<open>A call whose errors are swallowed.\<close>

definition attempt :: "unit spec_act \<Rightarrow> unit spec_act" where
  "attempt m = (\<lambda>cs. (Inr (), snd (m cs)))"

definition when_do :: "bool \<Rightarrow> unit spec_act \<Rightarrow> unit spec_act" where
  "when_do b m = (if b then m else act_return ())"

definition shadowed :: "spec_env \<Rightarrow> bool" where
  "shadowed e \<longleftrightarrow> j_true (sc_shadow (se_config e))"

definition notify :: "spec_env \<Rightarrow> string \<Rightarrow> unit spec_act" where
  "notify e summary = when_do (se_notifier e) (attempt (port (se_do e) (Notify (sc_channel (se_config e)) summary)))"

definition commit_as_bot :: "spec_env \<Rightarrow> string \<Rightarrow> string \<Rightarrow> unit spec_act" where
  "commit_as_bot e path message =
     port (se_do e) (CommitFile path message (sc_bot_login (se_config e)) (sc_bot_email (se_config e)))"

definition spec_branch :: "int \<Rightarrow> string" where
  "spec_branch n = ''agent/spec-'' @ int_str n"

section \<open>A new draft\<close>

text \<open>The search for a draft that exists already; an error counts as none.\<close>

definition has_existing_spec_pr :: "spec_env \<Rightarrow> string \<Rightarrow> bool spec_act" where
  "has_existing_spec_pr e branch =
     (if \<not> se_issues e then act_return False
      else (\<lambda>cs. case port (se_list e) (ListIssues [''spec-drafted'']) cs of
                   (Inl x, cs') \<Rightarrow> (Inr False, cs')
                 | (Inr bodies, cs') \<Rightarrow> (Inr (list_ex (\<lambda>b. py_in branch b) bodies), cs')))"

definition hundredths :: "nat \<Rightarrow> string" where
  "hundredths n = int_str (int (n div 100)) @ ''.'' @ int_str (int (n mod 100 div 10)) @ int_str (int (n mod 10))"

definition pr_body :: "int \<Rightarrow> string \<Rightarrow> string \<Rightarrow> string list \<Rightarrow> spec_kind \<Rightarrow> repro option \<Rightarrow> string" where
  "pr_body number url path questions k rep =
     (let questions_md = (if questions = [] then ''- (none surfaced)'' else join_with nl (map (\<lambda>q. ''- '' @ q) questions));
          repro_block = (case rep of None \<Rightarrow> []
            | Some r \<Rightarrow> nl @ ''## Bug repro classifier'' @ nl @ nl @ ''Outcome: `'' @ outcome_str (rp_outcome r) @ ''` (confidence '' @
                hundredths (rp_confidence r) @ '')'' @ nl @ ''Evidence: '' @
                (if rp_reasons r = [] then ''none'' else join_with '', '' (rp_reasons r)) @ nl)
      in ''Drafted from issue #'' @ int_str number @ '' ('' @ url @ '').'' @ nl @ nl @
         ''Kind: '' @ kind_str k @ '' spec'' @ nl @ ''Spec: '' @ path @ nl @ nl @
         ''## Open questions for the reporter'' @ nl @ nl @ questions_md @ nl @ repro_block @ nl @
         ''This PR is `awaiting-reporter-confirm`. Comment `/confirm` on the linked issue (or stay silent 24h) to flip the `intent-confirmed` label and trigger the Implementation Agent.'' @ nl)"

definition numbered :: "string list \<Rightarrow> string list" where
  "numbered qs = map (\<lambda>(i, q). int_str (int i + 1) @ ''. '' @ q) (enumerate 0 qs)"

definition issue_comment_body :: "string \<Rightarrow> string list \<Rightarrow> repro option \<Rightarrow> string" where
  "issue_comment_body url questions rep =
     (let ask = (if questions \<noteq> []
                 then ''Please confirm the intent and answer these '' @ int_str (int (length questions)) @ '' question(s):'' @ nl @ nl @
                      join_with nl (numbered questions)
                 else ''Please confirm the intent by commenting `/confirm`.'');
          repro_line = (case rep of None \<Rightarrow> [] | Some r \<Rightarrow> nl @ nl @ comment_for_outcome (rp_outcome r))
      in '':memo: I drafted a spec for this issue at '' @ url @ ''.'' @ nl @ nl @ ask @ repro_line @ nl @ nl @
         ''_If you don't reply within 24h I'll auto-confirm and start implementation. Comment `/reopen` within 7 days of that to halt._'')"

definition draft_labels :: "string list" where
  "draft_labels = [''spec-drafted'', ''awaiting-reporter-confirm'']"

definition draft :: "spec_env \<Rightarrow> intake \<Rightarrow> drafted spec_act" where
  "draft e ix =
     act_bind (port (se_text e) (Chat draft_system_prompt (draft_prompt (ix_number ix) (ix_title ix) (ix_body ix) (ix_kind ix)) 4096)) (\<lambda>answer.
     act_lift (drafted_from (se_loads e) (se_today e) (ix_number ix) (ix_title ix) (ix_kind ix) answer))"

definition publish_draft :: "spec_env \<Rightarrow> intake \<Rightarrow> repro option \<Rightarrow> drafted \<Rightarrow> unit spec_act" where
  "publish_draft e ix rep d =
     act_seq (port (se_do e) (Checkout (spec_branch (ix_number ix))))
     (act_seq (port (se_do e) (WriteFile (dr_path d) (dr_markdown d)))
     (act_seq (commit_as_bot e (dr_path d) (''[spec-generator] draft: '' @ dr_slug d))
     (act_seq (port (se_do e) (Push (spec_branch (ix_number ix))))
     (act_bind (port (se_open e) (OpenPr (spec_branch (ix_number ix)) (''[agent:spec-generator] spec: '' @ dr_slug d)
                  (pr_body (ix_number ix) (ix_url ix) (dr_path d) (dr_questions d) (ix_kind ix) rep)
                  (draft_labels @ (case rep of None \<Rightarrow> [] | Some r \<Rightarrow> [repro_label r])))) (\<lambda>pr.
      act_seq (port (se_do e) (CommentOn (ix_number ix) (issue_comment_body (pu_url pr) (dr_questions d) rep)))
        (notify e ('':memo: Spec drafted for #'' @ int_str (ix_number ix) @ '': '' @ pu_url pr)))))))"

definition draft_intake :: "spec_env \<Rightarrow> intake \<Rightarrow> unit spec_act" where
  "draft_intake e ix =
     (if ix_number ix = 0 then act_return ()
      else act_bind (has_existing_spec_pr e (spec_branch (ix_number ix))) (\<lambda>known.
        if known then act_return ()
        else if \<not> se_llm e \<or> \<not> se_repo e \<or> \<not> se_issues e then act_return ()
        else let rep = (if ix_class ix = BugReport then Some (classify_repro (ix_title ix) (ix_body ix)) else None)
             in act_bind (draft e ix) (\<lambda>d. if shadowed e then act_return () else publish_draft e ix rep d)))"

definition run_spec :: "spec_env \<Rightarrow> json \<Rightarrow> unit spec_act" where
  "run_spec e payload =
     act_bind (act_lift (parse_intake (se_iso e) (se_now e) payload)) (\<lambda>ix.
       if ix_class ix = Unrouted then act_return ()
       else if ix_class ix = Sensitive
       then notify e ('':warning: Issue #'' @ int_str (ix_number ix) @ '' ('' @ ix_url ix @
              '') looks sensitive (billing / security / legal). Routing to support inbox.'')
       else if ix_class ix = Stale then act_return ()
       else draft_intake e ix)"

section \<open>A reply\<close>

definition awaiting_labels :: "string list" where
  "awaiting_labels = [''spec-drafted'', ''awaiting-reporter-confirm'', ''awaiting-reporter-reconfirm'']"

definition stale_labels :: "string list" where
  "stale_labels = [''awaiting-reporter-confirm'', ''awaiting-reporter-reconfirm'']"

definition says_confirm :: "string \<Rightarrow> bool" where
  "says_confirm s \<longleftrightarrow> (let r = Seq (ilit ''/confirm'') Boundary
     in matches r ([], s) \<noteq> [] \<or> re_search (Seq (one py_space) r) s)"

definition confirmed_text :: string where
  "confirmed_text = '':white_check_mark: Intent confirmed. The Implementation Agent will pick up from here. Comment `/reopen` within 7 days to halt.''"

text \<open>The label that starts the implementation; the labels that wait are dropped as far as possible.\<close>

definition label_confirmed :: "spec_env \<Rightarrow> int \<Rightarrow> string list \<Rightarrow> unit spec_act" where
  "label_confirmed e target labels =
     act_seq (port (se_do e) (AddLabel target ''intent-confirmed''))
       (for_each (\<lambda>l. when_do (l \<in> set labels) (attempt (port (se_do e) (RemoveLabel target l)))) stale_labels)"

definition mark_intent :: "spec_env \<Rightarrow> int \<Rightarrow> int \<Rightarrow> string list \<Rightarrow> unit spec_act" where
  "mark_intent e issue pr labels =
     (if ''intent-confirmed'' \<in> set labels then act_return ()
      else if shadowed e then act_return ()
      else if \<not> se_issues e then act_return ()
      else act_seq (label_confirmed e (if pr \<noteq> 0 then pr else issue) labels)
             (port (se_do e) (CommentOn issue confirmed_text)))"

definition refinement_ack_body :: "refined \<Rightarrow> string" where
  "refinement_ack_body r =
     join_with nl ([ '':memo: Updated the spec with your reply.'', [], ''**What changed:** '' @ rf_summary r] @
       (if rf_remaining r \<noteq> []
        then [[], ''Anything else? '' @ int_str (int (length (rf_remaining r))) @ '' open question(s) remain:'', []] @ numbered (rf_remaining r)
        else [[], ''No open questions left  comment `/confirm` to proceed.'']))"

definition refine :: "spec_env \<Rightarrow> string \<Rightarrow> string \<Rightarrow> spec_kind \<Rightarrow> refined spec_act" where
  "refine e current reply k =
     act_bind (port (se_text e) (Chat refine_system_prompt (refine_prompt k current reply) 6000)) (\<lambda>answer.
     act_lift (refined_from (se_loads e) current k answer))"

definition kind_of_path :: "string \<Rightarrow> spec_kind" where
  "kind_of_path path = (if suffix ''-fix.md'' path then FixBrief else Design)"

definition take_in_reply :: "spec_env \<Rightarrow> int \<Rightarrow> string \<Rightarrow> string \<Rightarrow> unit spec_act" where
  "take_in_reply e issue path reply =
     act_seq (port (se_do e) (Checkout (spec_branch issue)))
     (act_bind (port (se_text e) (ReadFile path)) (\<lambda>current.
      act_bind (refine e current reply (kind_of_path path)) (\<lambda>r.
        if shadowed e then act_return ()
        else act_seq (when_do (rf_markdown r \<noteq> current)
               (act_seq (port (se_do e) (WriteFile path (rf_markdown r)))
               (act_seq (commit_as_bot e path (''[spec-generator] revise per reporter Q&A: '' @ rf_summary r))
                  (port (se_do e) (Push (spec_branch issue))))))
             (port (se_do e) (CommentOn issue (refinement_ack_body r))))))"

text \<open>What a comment says, once the payload is read.\<close>

record spec_reply =
  sr_issue :: int
  sr_pr :: int
  sr_path :: string
  sr_labels :: "string list"
  sr_login :: json
  sr_type :: json
  sr_body :: string

definition parse_reply :: "json \<Rightarrow> py_exn + spec_reply" where
  "parse_reply payload =
     res_bind (get_obj payload ''issue'') (\<lambda>issue.
     res_bind (get_obj payload ''comment'') (\<lambda>comment.
     res_bind (j_get issue ''number'' JNull) (\<lambda>n.
     res_bind (if j_true n then j_int n else int_or_zero payload ''issue_number'') (\<lambda>number.
     res_bind (int_or_zero payload ''pr_number'') (\<lambda>pr.
     res_bind (str_or_empty payload ''spec_path'') (\<lambda>path.
     res_bind (res_bind (j_get issue ''labels'' (JList [])) normalise_labels) (\<lambda>labels.
     res_bind (get_obj comment ''user'') (\<lambda>user.
     res_bind (j_get user ''login'' (JStr [])) (\<lambda>login.
     res_bind (j_get user ''type'' JNull) (\<lambda>ty.
     res_bind (str_or_empty comment ''body'') (\<lambda>body.
     Inr \<lparr>sr_issue = number, sr_pr = pr, sr_path = path, sr_labels = labels, sr_login = login, sr_type = ty, sr_body = py_strip body\<rparr>)))))))))))"

definition from_bot :: "spec_env \<Rightarrow> spec_reply \<Rightarrow> bool" where
  "from_bot e r \<longleftrightarrow> sr_login r = JStr (sc_bot_login (se_config e)) \<or> sr_type r = JStr ''Bot''"

definition awaiting :: "spec_reply \<Rightarrow> bool" where
  "awaiting r \<longleftrightarrow> list_ex (\<lambda>l. l \<in> set awaiting_labels) (sr_labels r)"

definition on_reply :: "spec_env \<Rightarrow> spec_reply \<Rightarrow> unit spec_act" where
  "on_reply e r =
     (if sr_issue r = 0 then act_return ()
      else if \<not> awaiting r then act_return ()
      else if from_bot e r then act_return ()
      else if sr_body r = [] then act_return ()
      else if says_confirm (sr_body r) then mark_intent e (sr_issue r) (sr_pr r) (sr_labels r)
      else if \<not> se_llm e \<or> \<not> se_repo e \<or> \<not> se_issues e then act_return ()
      else if sr_path r = [] then act_return ()
      else take_in_reply e (sr_issue r) (sr_path r) (sr_body r))"

definition iterate :: "spec_env \<Rightarrow> json \<Rightarrow> unit spec_act" where
  "iterate e payload = act_bind (act_lift (parse_reply payload)) (on_reply e)"

section \<open>The sweep\<close>

record candidate =
  ca_pr :: json
  ca_issue :: json
  ca_branch :: string
  ca_path :: string
  ca_labels :: "json list"
  ca_updated :: "stamp option"
  ca_spec :: json

record decision =
  de_pr :: int
  de_branch :: string
  de_path :: string
  de_confirm :: bool
  de_reason :: string

record sweep_summary =
  ss_decisions :: "decision list"
  ss_confirmed :: "int list"
  ss_act :: bool

definition auto_confirm_after :: int where "auto_confirm_after = 86400 * 1000000"

definition needs_clarification_marker :: string where "needs_clarification_marker = ''[NEEDS CLARIFICATION]''"

text \<open>\<open>int(x)\<close> of a quotient drops the fraction, toward zero.\<close>

definition trunc_div :: "int \<Rightarrow> int \<Rightarrow> int" where
  "trunc_div a b = (if 0 \<le> a then a div b else - ((- a) div b))"

text \<open>\<open>str(d.get(k) or '')\<close>.\<close>

definition shown_or_empty :: "json \<Rightarrow> string \<Rightarrow> py_exn + string" where
  "shown_or_empty j k = res_bind (j_get j k JNull) (\<lambda>v. Inr (if j_true v then j_format v else []))"

definition int_or_0 :: "json \<Rightarrow> py_exn + int" where
  "int_or_0 v = (if j_true v then j_int v else Inr 0)"

definition parse_candidate :: "(string \<Rightarrow> stamp option) \<Rightarrow> json \<Rightarrow> py_exn + candidate" where
  "parse_candidate rd cand =
     res_bind (j_get cand ''pr_number'' JNull) (\<lambda>pr.
     res_bind (shown_or_empty cand ''branch'') (\<lambda>branch.
     res_bind (shown_or_empty cand ''spec_path'') (\<lambda>path.
     res_bind (res_bind (j_get cand ''labels'' (JList [])) j_list) (\<lambda>labels.
     res_bind (j_get cand ''updated_at'' JNull) (\<lambda>updated.
     res_bind (j_get cand ''spec_body'' JNull) (\<lambda>body.
     res_bind (j_get cand ''issue_number'' JNull) (\<lambda>issue.
     Inr \<lparr>ca_pr = pr, ca_issue = issue, ca_branch = branch, ca_path = path, ca_labels = labels, ca_updated = parse_iso rd updated, ca_spec = body\<rparr>)))))))"

definition spec_body_of :: "candidate \<Rightarrow> py_exn + string" where
  "spec_body_of c = (if j_true (ca_spec c) then j_str (ca_spec c) else Inr [])"

definition decide_sweep :: "stamp \<Rightarrow> candidate \<Rightarrow> py_exn + decision" where
  "decide_sweep now c =
     res_bind (int_or_0 (ca_pr c)) (\<lambda>n.
     let d = (\<lambda>confirm reason. \<lparr>de_pr = n, de_branch = ca_branch c, de_path = ca_path c, de_confirm = confirm, de_reason = reason\<rparr>)
     in if JStr ''intent-confirmed'' \<in> set (ca_labels c) then Inr (d False ''already_confirmed'')
        else case ca_updated c of
          None \<Rightarrow> Inr (d False ''no_updated_at'')
        | Some t \<Rightarrow>
            res_bind (stamp_diff now t) (\<lambda>age.
              if age < auto_confirm_after then Inr (d False (''too_young:'' @ int_str (trunc_div age 1000000) @ ''s''))
              else res_bind (spec_body_of c) (\<lambda>body.
                if py_in needs_clarification_marker body then Inr (d False ''needs_clarification_marker'')
                else Inr (d True (''silent_for:'' @ int_str (trunc_div age (3600 * 1000000)) @ ''h'')))))"

definition silence_text :: string where
  "silence_text = '':hourglass_flowing_sand: No further input received within 24h; treating the spec as confirmed. Comment `/reopen` within 7 days to halt implementation.''"

definition sweep_target :: "candidate \<Rightarrow> py_exn + int" where
  "sweep_target c = (if j_true (ca_pr c) then j_int (ca_pr c) else int_or_0 (ca_issue c))"

definition confirm_candidate :: "spec_env \<Rightarrow> candidate \<Rightarrow> int spec_act" where
  "confirm_candidate e c =
     act_bind (act_lift (sweep_target c)) (\<lambda>target.
     act_seq (port (se_do e) (AddLabel target ''intent-confirmed''))
     (act_seq (for_each (\<lambda>l. when_do (JStr l \<in> set (ca_labels c)) (attempt (port (se_do e) (RemoveLabel target l)))) stale_labels)
     (act_bind (act_lift (int_or_0 (ca_issue c))) (\<lambda>issue.
      act_seq (when_do (issue \<noteq> 0) (port (se_do e) (CommentOn issue silence_text))) (act_return target)))))"

fun sweep_loop :: "spec_env \<Rightarrow> stamp \<Rightarrow> bool \<Rightarrow> json list \<Rightarrow> (decision list \<times> int list) spec_act" where
  "sweep_loop e now acts [] = act_return ([], [])"
| "sweep_loop e now acts (j # js) =
     act_bind (act_lift (parse_candidate (se_iso e) j)) (\<lambda>c.
     act_bind (act_lift (decide_sweep now c)) (\<lambda>d.
     act_bind (if de_confirm d \<and> acts \<and> se_issues e then act_bind (confirm_candidate e c) (\<lambda>n. act_return [n]) else act_return []) (\<lambda>n.
     act_bind (sweep_loop e now acts js) (\<lambda>r. act_return (d # fst r, n @ snd r)))))"

definition sweep_drafts :: "spec_env \<Rightarrow> json \<Rightarrow> sweep_summary spec_act" where
  "sweep_drafts e payload =
     act_bind (act_lift (res_bind (j_get payload ''candidates'' JNull) (\<lambda>v. if j_true v then j_list v else Inr []))) (\<lambda>cands.
     act_bind (act_lift (j_get payload ''now'' JNull)) (\<lambda>now.
     act_bind (act_lift (j_get payload ''dry_run'' (JBool False))) (\<lambda>dry.
       let t = (case parse_iso (se_iso e) now of None \<Rightarrow> se_now e | Some t \<Rightarrow> t);
           acts = \<not> (j_true dry \<or> shadowed e)
       in act_bind (sweep_loop e t acts cands) (\<lambda>r.
            act_return \<lparr>ss_decisions = fst r, ss_confirmed = snd r, ss_act = acts\<rparr>))))"

section \<open>The calls of a handler\<close>

datatype spec_event = Opened json | Replied json | Swept json

definition handle :: "spec_env \<Rightarrow> spec_event \<Rightarrow> unit spec_act" where
  "handle e ev = (case ev of
     Opened j \<Rightarrow> run_spec e j | Replied j \<Rightarrow> iterate e j | Swept j \<Rightarrow> act_bind (sweep_drafts e j) (\<lambda>_. act_return ()))"

text \<open>A handler only adds calls, all of one sort.\<close>

definition grows :: "(spec_call \<Rightarrow> bool) \<Rightarrow> spec_call list \<Rightarrow> spec_call list \<Rightarrow> bool" where
  "grows G cs cs' \<longleftrightarrow> (\<exists>new. cs' = cs @ new \<and> list_all G new)"

abbreviation makes :: "(spec_call \<Rightarrow> bool) \<Rightarrow> 'a spec_act \<Rightarrow> bool" where
  "makes G m \<equiv> valid (\<lambda>_. True) (grows G) m"

named_theorems makes_intros

lemma grows_refl: "grows G cs cs"
  by (simp add: grows_def)

lemma grows_trans: "grows G a b \<Longrightarrow> grows G b c \<Longrightarrow> grows G a c"
  by (auto simp: grows_def)

lemma makes_return [makes_intros]: "makes G (act_return x)"
  by (rule valid_return) (rule grows_refl)

lemma makes_lift [makes_intros]: "makes G (act_lift r)"
  by (rule validI) (simp add: grows_refl)

lemma makes_port [makes_intros]: "G c \<Longrightarrow> makes G (port f c)"
  by (rule validI) (simp add: port_def grows_def)

lemma makes_bind_result:
  "makes G m \<Longrightarrow> (\<And>w x w'. m w = (Inr x, w') \<Longrightarrow> makes G (k x)) \<Longrightarrow> makes G (act_bind m k)"
  by (rule valid_bind [where Q = "\<lambda>_. True"]) (auto dest: validD grows_trans)

lemma makes_bind [makes_intros]: "makes G m \<Longrightarrow> (\<And>x. makes G (k x)) \<Longrightarrow> makes G (act_bind m k)"
  by (rule makes_bind_result)

lemma makes_if [makes_intros]: "(b \<Longrightarrow> makes G m) \<Longrightarrow> (\<not> b \<Longrightarrow> makes G n) \<Longrightarrow> makes G (if b then m else n)"
  by simp

lemma makes_let [makes_intros]: "makes G (f x) \<Longrightarrow> makes G (let y = x in f y)"
  by simp

lemma makes_attempt [makes_intros]: "makes G m \<Longrightarrow> makes G (attempt m)"
  by (simp add: valid_def attempt_def)

lemma makes_when [makes_intros]: "(b \<Longrightarrow> makes G m) \<Longrightarrow> makes G (when_do b m)"
  by (cases b) (simp_all add: when_do_def makes_return del: act_simps)

lemma makes_each [makes_intros]: "(\<And>x. x \<in> set xs \<Longrightarrow> makes G (f x)) \<Longrightarrow> makes G (for_each f xs)"
  by (induction xs) (auto simp del: act_simps intro!: makes_return makes_bind)

lemma makes_weaken: "makes G m \<Longrightarrow> (\<And>c. G c \<Longrightarrow> H c) \<Longrightarrow> makes H m"
  by (erule valid_weaken) (auto simp: grows_def list_all_iff)

lemma makes_probe [makes_intros]: "G (ListIssues [''spec-drafted'']) \<Longrightarrow> makes G (has_existing_spec_pr e b)"
  by (rule validI) (auto simp: has_existing_spec_pr_def port_def grows_def split: sum.split)

lemma makes_notify [makes_intros]: "(\<And>s. G (Notify (sc_channel (se_config e)) s)) \<Longrightarrow> makes G (notify e s)"
  unfolding notify_def by (intro makes_intros)

lemma makes_commit [makes_intros]:
  "(\<And>a b c d. G (CommitFile a b c d)) \<Longrightarrow> makes G (commit_as_bot e p s)"
  unfolding commit_as_bot_def by (intro makes_intros)

section \<open>Shadow mode\<close>

fun is_write :: "spec_call \<Rightarrow> bool" where
  "is_write (WriteFile p s) = True"
| "is_write (CommitFile p s n m) = True"
| "is_write (Push b) = True"
| "is_write (OpenPr h t b ls) = True"
| "is_write (CommentOn n s) = True"
| "is_write (AddLabel n l) = True"
| "is_write (RemoveLabel n l) = True"
| "is_write _ = False"

lemma shadow_run: "shadowed e \<Longrightarrow> makes (\<lambda>c. \<not> is_write c) (run_spec e payload)"
  unfolding run_spec_def draft_intake_def draft_def by (intro makes_intros) (simp_all add: shadowed_def)

lemma shadow_reply: "shadowed e \<Longrightarrow> makes (\<lambda>c. \<not> is_write c) (iterate e payload)"
  unfolding iterate_def on_reply_def mark_intent_def take_in_reply_def refine_def by (intro makes_intros) simp_all

lemma makes_loop_idle: "\<not> acts \<or> \<not> se_issues e \<Longrightarrow> makes G (sweep_loop e now acts js)"
proof (induction js)
  case (Cons j js)
  then show ?case unfolding sweep_loop.simps by (intro makes_intros) auto
qed (auto intro: makes_return simp del: act_simps)

lemma shadow_sweep: "shadowed e \<Longrightarrow> makes (\<lambda>c. \<not> is_write c) (sweep_drafts e payload)"
  unfolding sweep_drafts_def by (intro makes_intros makes_loop_idle) simp_all

section \<open>Headings\<close>

fun well_formed_write :: "spec_call \<Rightarrow> bool" where
  "well_formed_write (WriteFile p md) = has_template_headings (kind_of_path p) md"
| "well_formed_write _ = True"

text \<open>A file that is read holds what the agent wrote into it before.\<close>

definition reads_back :: "spec_env \<Rightarrow> bool" where
  "reads_back e \<longleftrightarrow> (\<forall>cs p md. se_text e cs (ReadFile p) = Inr md \<longrightarrow> WriteFile p md \<in> set cs)"

lemma template_needles_path: "template_needles (kind_of_path (spec_path_of today slug k)) = template_needles k"
  by (simp add: kind_of_path_def kind_of_spec_path template_needles_def)

lemma headings_run: "makes well_formed_write (run_spec e payload)"
proof -
  have draft: "makes well_formed_write (act_bind (draft e ix) (\<lambda>d. if shadowed e then act_return () else publish_draft e ix rep d))" for ix rep
  proof (rule makes_bind_result)
    show "makes well_formed_write (draft e ix)" unfolding draft_def by (intro makes_intros) simp
  next
    fix w d w'
    assume "draft e ix w = (Inr d, w')"
    then obtain answer where "drafted_from (se_loads e) (se_today e) (ix_number ix) (ix_title ix) (ix_kind ix) answer = Inr d"
      by (auto simp: draft_def port_def split: sum.splits)
    note d = drafted_headings [OF this]
    have "has_template_headings (kind_of_path (dr_path d)) (dr_markdown d)"
      using d(1) unfolding d(2) has_template_headings_def template_needles_path .
    then show "makes well_formed_write (if shadowed e then act_return () else publish_draft e ix rep d)"
      unfolding publish_draft_def by (intro makes_intros) simp_all
  qed
  show ?thesis unfolding run_spec_def draft_intake_def by (intro makes_intros draft) simp_all
qed

lemma headings_reply:
  assumes "reads_back e"
  shows "valid (list_all well_formed_write) (grows well_formed_write) (iterate e payload)"
proof -
  let ?P = "list_all well_formed_write"
  have weak: "makes well_formed_write m \<Longrightarrow> valid ?P (grows well_formed_write) m" for m :: "'a spec_act" by (erule valid_weaken) simp_all
  have step: "valid ?P (grows well_formed_write) (act_bind m k)"
    if "makes well_formed_write m" "\<And>w x w'. ?P w \<Longrightarrow> m w = (Inr x, w') \<Longrightarrow> valid ?P (grows well_formed_write) (k x)"
    for m :: "'a spec_act" and k :: "'a \<Rightarrow> unit spec_act"
  proof (rule valid_bind [where Q = ?P])
    fix w x w' assume "?P w" "m w = (x, w')"
    then show "grows well_formed_write w w' \<and> ?P w'" using that(1) by (auto simp: grows_def dest!: validD)
  qed (use that(2) grows_trans in blast)+
  have reply: "valid ?P (grows well_formed_write) (take_in_reply e issue path said)" for issue path said
    unfolding take_in_reply_def
  proof (rule step, (intro makes_intros; simp), rule step, (intro makes_intros; simp))
    fix w current w'
    assume P: "?P w" "port (se_text e) (ReadFile path) w = (Inr current, w')"
    then have "WriteFile path current \<in> set w" using assms by (simp add: port_def reads_back_def)
    with P(1) have cur: "has_template_headings (kind_of_path path) current" by (auto simp: list_all_iff)
    let ?k = "\<lambda>r. if shadowed e then act_return () else act_seq (when_do (rf_markdown r \<noteq> current)
               (act_seq (port (se_do e) (WriteFile path (rf_markdown r)))
               (act_seq (commit_as_bot e path (''[spec-generator] revise per reporter Q&A: '' @ rf_summary r))
                  (port (se_do e) (Push (spec_branch issue))))))
             (port (se_do e) (CommentOn issue (refinement_ack_body r)))"
    have "makes well_formed_write (act_bind (refine e current said (kind_of_path path)) ?k)"
    proof (rule makes_bind_result)
      show "makes well_formed_write (refine e current said (kind_of_path path))" unfolding refine_def by (intro makes_intros) simp
    next
      fix u r u'
      assume "refine e current said (kind_of_path path) u = (Inr r, u')"
      then obtain answer where "refined_from (se_loads e) current (kind_of_path path) answer = Inr r"
        by (auto simp: refine_def port_def split: sum.splits)
      then have "has_template_headings (kind_of_path path) (rf_markdown r)" by (rule refined_headings [OF _ cur])
      then show "makes well_formed_write (?k r)" by (intro makes_intros) simp_all
    qed
    then show "valid ?P (grows well_formed_write) (act_bind (refine e current said (kind_of_path path)) ?k)" by (rule weak)
  qed
  have mark: "makes well_formed_write (mark_intent e issue pr labels)" for issue pr labels
    unfolding mark_intent_def label_confirmed_def by (intro makes_intros) simp_all
  show ?thesis unfolding iterate_def on_reply_def
    by (intro valid_bind_lift valid_if reply weak [OF mark] weak [OF makes_return] grows_refl)
qed

lemma headings_sweep: "makes well_formed_write (sweep_drafts e payload)"
proof -
  have "makes well_formed_write (sweep_loop e now acts js)" for now acts js
    by (induction js) (auto simp del: act_simps simp: confirm_candidate_def intro!: makes_intros)
  then show ?thesis unfolding sweep_drafts_def by (intro makes_intros)
qed

section \<open>The label that starts the implementation\<close>

fun intent_of :: "spec_call \<Rightarrow> int option" where
  "intent_of (AddLabel n l) = (if l = ''intent-confirmed'' then Some n else None)"
| "intent_of _ = None"

definition labelled :: "spec_call list \<Rightarrow> int list" where
  "labelled cs = List.map_filter intent_of cs"

lemma labelled_simps [simp]:
  "labelled [] = []" "labelled (xs @ ys) = labelled xs @ labelled ys"
  "labelled [c] = (case intent_of c of None \<Rightarrow> [] | Some n \<Rightarrow> [n])"
  by (simp_all add: labelled_def List.map_filter_def split: option.split)

lemma labelled_none: "list_all (\<lambda>c. intent_of c = None) new \<Longrightarrow> labelled new = []"
  by (induction new) (simp_all add: labelled_def List.map_filter_def)

lemma labelled_iff: "AddLabel n ''intent-confirmed'' \<in> set cs \<longleftrightarrow> n \<in> set (labelled cs)"
proof -
  have "intent_of c = Some n \<longleftrightarrow> c = AddLabel n ''intent-confirmed''" for c by (cases c) auto
  then show ?thesis by (induction cs) (auto simp: labelled_def List.map_filter_def split: option.splits)
qed

text \<open>The drafts that the sweep has to confirm.\<close>

definition due :: "stamp \<Rightarrow> candidate \<Rightarrow> bool" where
  "due now c \<longleftrightarrow> JStr ''intent-confirmed'' \<notin> set (ca_labels c) \<and>
     (case ca_updated c of None \<Rightarrow> False | Some t \<Rightarrow> aware t = aware now \<and> auto_confirm_after \<le> micros now - micros t) \<and>
     (case spec_body_of c of Inl x \<Rightarrow> False | Inr body \<Rightarrow> \<not> py_in needs_clarification_marker body)"

lemma decide_due: "decide_sweep now c = Inr d \<Longrightarrow> de_confirm d \<longleftrightarrow> due now c"
  unfolding decide_sweep_def due_def res_bind_Inr Let_def
  by (cases "ca_updated c"; cases "spec_body_of c") (auto simp: stamp_diff_def split: if_splits)

lemma makes_no_intent_port: "intent_of c = None \<Longrightarrow> makes (\<lambda>c. intent_of c = None) (port f c)"
  by (rule makes_port)

lemma label_step:
  assumes "port f (AddLabel n ''intent-confirmed'') cs = (Inr u, cs1)" "makes (\<lambda>c. intent_of c = None) m" "m cs1 = (x, cs2)"
  shows "\<exists>new. cs2 = cs @ new \<and> labelled new = [n]"
proof -
  from assms(1) have cs1: "cs1 = cs @ [AddLabel n ''intent-confirmed'']" by (simp add: port_def)
  from validD [OF assms(2) TrueI assms(3)] obtain new where "cs2 = cs1 @ new" "list_all (\<lambda>c. intent_of c = None) new"
    by (auto simp: grows_def)
  then have "cs2 = cs @ [AddLabel n ''intent-confirmed''] @ new" "labelled ([AddLabel n ''intent-confirmed''] @ new) = [n]"
    by (simp_all add: cs1 labelled_none del: append.simps)
  then show ?thesis by blast
qed

lemma drops_no_intent: "l \<in> set stale_labels \<Longrightarrow> intent_of (RemoveLabel n l) = None"
  by simp

lemma confirm_candidate_run:
  assumes "confirm_candidate e c cs = (x, cs')"
  shows "\<exists>new. cs' = cs @ new \<and> (labelled new = [] \<or> (\<exists>n. sweep_target c = Inr n \<and> labelled new = [n])) \<and>
     (\<forall>n. x = Inr n \<longrightarrow> sweep_target c = Inr n \<and> labelled new = [n])"
proof (cases "sweep_target c")
  case (Inl y)
  with assms show ?thesis by (intro exI [of _ "[]"]) (auto simp: confirm_candidate_def)
next
  case (Inr n)
  let ?rest = "act_seq (for_each (\<lambda>l. when_do (JStr l \<in> set (ca_labels c)) (attempt (port (se_do e) (RemoveLabel n l)))) stale_labels)
     (act_bind (act_lift (int_or_0 (ca_issue c))) (\<lambda>issue.
      act_seq (when_do (issue \<noteq> 0) (port (se_do e) (CommentOn issue silence_text))) (act_return n)))"
  have m: "makes (\<lambda>c. intent_of c = None) ?rest" by (intro makes_intros) simp_all
  have ret: "?rest w = (Inr k, w') \<Longrightarrow> k = n" for w k w'
    by (auto simp: when_do_def split: prod.splits sum.splits if_splits)
  have run: "confirm_candidate e c cs = act_seq (port (se_do e) (AddLabel n ''intent-confirmed'')) ?rest cs"
    by (simp add: confirm_candidate_def Inr)
  obtain u cs1 where p: "port (se_do e) (AddLabel n ''intent-confirmed'') cs = (u, cs1)" by fastforce
  then have cs1: "cs1 = cs @ [AddLabel n ''intent-confirmed'']" by (simp add: port_def)
  show ?thesis
  proof (cases u)
    case (Inl y)
    with assms run p show ?thesis by (intro exI [of _ "[AddLabel n ''intent-confirmed'']"]) (auto simp: cs1 Inr)
  next
    case u: (Inr v)
    with run p assms have r: "?rest cs1 = (x, cs')" by (simp del: for_each.simps act_simps add: act_bind_def)
    from label_step [OF p [unfolded u] m r] obtain new where "cs' = cs @ new" "labelled new = [n]" by blast
    moreover have "x = Inr k \<Longrightarrow> k = n" for k using ret r by blast
    ultimately show ?thesis by (intro exI [of _ new]) (auto simp: Inr)
  qed
qed

lemma sweep_loop_run:
  "sweep_loop e now acts js cs = (x, cs') \<Longrightarrow> acts \<and> se_issues e \<Longrightarrow>
     \<exists>new. cs' = cs @ new \<and>
       (\<forall>n \<in> set (labelled new). \<exists>j \<in> set js. \<exists>c. parse_candidate (se_iso e) j = Inr c \<and> due now c \<and> sweep_target c = Inr n) \<and>
       (\<forall>r. x = Inr r \<longrightarrow> labelled new = snd r \<and>
          (\<exists>cands. res_map (parse_candidate (se_iso e)) js = Inr cands \<and> map Inr (snd r) = map sweep_target (filter (due now) cands)))"
proof (induction js arbitrary: cs x cs')
  case (Cons j js)
  show ?case
  proof (cases "parse_candidate (se_iso e) j")
    case (Inl y)
    with Cons.prems show ?thesis by (intro exI [of _ "[]"]) auto
  next
    case c: (Inr c)
    show ?thesis
    proof (cases "decide_sweep now c")
      case (Inl y)
      with c Cons.prems show ?thesis by (intro exI [of _ "[]"]) auto
    next
      case d: (Inr d)
      let ?m = "if de_confirm d then act_bind (confirm_candidate e c) (\<lambda>n. act_return [n]) else act_return []"
      obtain u cs1 where m: "?m cs = (u, cs1)" by fastforce
      have due: "de_confirm d = due now c" by (rule decide_due [OF d])
      have "\<exists>new. cs1 = cs @ new \<and> (\<forall>n \<in> set (labelled new). due now c \<and> sweep_target c = Inr n) \<and>
          (\<forall>ns. u = Inr ns \<longrightarrow> labelled new = ns \<and> map Inr ns = map sweep_target (filter (due now) [c]))"
      proof (cases "de_confirm d")
        case True
        obtain v cs2 where v: "confirm_candidate e c cs = (v, cs2)" by fastforce
        from confirm_candidate_run [OF v] obtain new where new: "cs2 = cs @ new"
          "labelled new = [] \<or> (\<exists>n. sweep_target c = Inr n \<and> labelled new = [n])"
          "\<forall>n. v = Inr n \<longrightarrow> sweep_target c = Inr n \<and> labelled new = [n]" by blast
        have "cs1 = cs2" "u = (case v of Inl y \<Rightarrow> Inl y | Inr n \<Rightarrow> Inr [n])" using m True v by (auto split: sum.splits)
        with new True due show ?thesis by (intro exI [of _ new]) (auto split: sum.splits)
      next
        case False
        with m due show ?thesis by (intro exI [of _ "[]"]) auto
      qed
      then obtain new1 where new1: "cs1 = cs @ new1" "\<forall>n \<in> set (labelled new1). due now c \<and> sweep_target c = Inr n"
        "\<forall>ns. u = Inr ns \<longrightarrow> labelled new1 = ns \<and> map Inr ns = map sweep_target (filter (due now) [c])" by blast
      show ?thesis
      proof (cases u)
        case (Inl y)
        with m c d Cons.prems have "x = Inl y" "cs' = cs1" by auto
        with new1 c show ?thesis by (intro exI [of _ new1]) auto
      next
        case u: (Inr ns)
        obtain r cs2 where l: "sweep_loop e now acts js cs1 = (r, cs2)" by fastforce
        from Cons.IH [OF l Cons.prems(2)] obtain new2 where new2: "cs2 = cs1 @ new2"
          "\<forall>n \<in> set (labelled new2). \<exists>j \<in> set js. \<exists>c. parse_candidate (se_iso e) j = Inr c \<and> due now c \<and> sweep_target c = Inr n"
          "\<forall>q. r = Inr q \<longrightarrow> labelled new2 = snd q \<and>
             (\<exists>cands. res_map (parse_candidate (se_iso e)) js = Inr cands \<and> map Inr (snd q) = map sweep_target (filter (due now) cands))" by blast
        have res: "cs' = cs2" "x = (case r of Inl y \<Rightarrow> Inl y | Inr q \<Rightarrow> Inr (d # fst q, ns @ snd q))"
          using Cons.prems m u l c d by (auto split: sum.splits)
        show ?thesis
        proof (intro exI [of _ "new1 @ new2"] conjI allI impI)
          show "cs' = cs @ new1 @ new2" using res new1(1) new2(1) by simp
          show "\<forall>n \<in> set (labelled (new1 @ new2)). \<exists>j' \<in> set (j # js). \<exists>c. parse_candidate (se_iso e) j' = Inr c \<and> due now c \<and> sweep_target c = Inr n"
            using new1(2) new2(2) c by auto
        next
          fix q' assume "x = Inr q'"
          with res(2) obtain q where q: "r = Inr q" "q' = (d # fst q, ns @ snd q)" by (cases r) auto
          show "labelled (new1 @ new2) = snd q'" using new1(3) new2(3) u q by simp
          from new2(3) q obtain cands where cands: "res_map (parse_candidate (se_iso e)) js = Inr cands"
            "map Inr (snd q) = map sweep_target (filter (due now) cands)" by blast
          have "map Inr ns = map sweep_target (filter (due now) [c])" using new1(3) u by blast
          with cands q c show "\<exists>cands. res_map (parse_candidate (se_iso e)) (j # js) = Inr cands \<and>
              map Inr (snd q') = map sweep_target (filter (due now) cands)"
            by (intro exI [of _ "c # cands"]) (auto split: if_splits)
        qed
      qed
    qed
  qed
qed simp

lemma no_intent_run: "makes (\<lambda>c. intent_of c = None) (run_spec e payload)"
  unfolding run_spec_def draft_intake_def draft_def publish_draft_def by (intro makes_intros) simp_all

lemma intent_reply:
  assumes "iterate e payload cs = (x, cs @ new)" "n \<in> set (labelled new)"
  shows "\<exists>r. parse_reply payload = Inr r \<and> awaiting r \<and> \<not> from_bot e r \<and> says_confirm (sr_body r) \<and> \<not> shadowed e \<and>
     n = (if sr_pr r \<noteq> 0 then sr_pr r else sr_issue r)"
proof -
  have free: "makes (\<lambda>c. intent_of c = None) m \<Longrightarrow> m cs = (x, cs @ new) \<Longrightarrow> False" for m :: "unit spec_act"
    using assms(2) by (auto dest!: validD simp: grows_def labelled_none)
  from assms(1) obtain r where r: "parse_reply payload = Inr r" "on_reply e r cs = (x, cs @ new)"
    using free [of "act_lift (Inl undefined)"] assms(2) by (cases "parse_reply payload") (auto simp: iterate_def)
  have rep: "makes (\<lambda>c. intent_of c = None) (take_in_reply e i p s)" for i p s
    unfolding take_in_reply_def refine_def by (intro makes_intros) simp_all
  have ret: "makes (\<lambda>c. intent_of c = None) (act_return () :: unit spec_act)" by (rule makes_return)
  have conds: "awaiting r" "\<not> from_bot e r" "says_confirm (sr_body r)"
    using r(2) free [OF ret] free [OF rep] unfolding on_reply_def by (auto simp del: act_simps split: if_splits)
  then have mark: "mark_intent e (sr_issue r) (sr_pr r) (sr_labels r) cs = (x, cs @ new)"
    using r(2) free [OF ret] unfolding on_reply_def by (auto simp del: act_simps split: if_splits)
  let ?t = "if sr_pr r \<noteq> 0 then sr_pr r else sr_issue r"
  have live: "\<not> shadowed e" "act_seq (label_confirmed e ?t (sr_labels r)) (port (se_do e) (CommentOn (sr_issue r) confirmed_text)) cs = (x, cs @ new)"
    using mark free [OF ret] unfolding mark_intent_def by (auto simp del: act_simps split: if_splits)
  have "makes (\<lambda>c. \<forall>n. intent_of c = Some n \<longrightarrow> n = ?t)
      (act_seq (label_confirmed e ?t (sr_labels r)) (port (se_do e) (CommentOn (sr_issue r) confirmed_text)))"
    unfolding label_confirmed_def by (intro makes_intros) simp_all
  from validD [OF this TrueI live(2)] have "list_all (\<lambda>c. \<forall>n. intent_of c = Some n \<longrightarrow> n = ?t) new" by (simp add: grows_def)
  then have "n = ?t" using assms(2) by (auto simp: labelled_def List.map_filter_def list_all_iff)
  with r(1) conds live(1) show ?thesis by blast
qed

section \<open>Properties\<close>

text \<open>The drafts handed to a sweep, and the time it goes by.\<close>

definition candidates_of :: "json \<Rightarrow> json list" where
  "candidates_of payload = (case j_get payload ''candidates'' JNull of Inr (JList js) \<Rightarrow> js | _ \<Rightarrow> [])"

definition sweep_time :: "spec_env \<Rightarrow> json \<Rightarrow> stamp" where
  "sweep_time e payload =
     (case j_get payload ''now'' JNull of
        Inr j \<Rightarrow> (case parse_iso (se_iso e) j of None \<Rightarrow> se_now e | Some t \<Rightarrow> t)
      | Inl x \<Rightarrow> se_now e)"

lemma sweep_run:
  assumes "sweep_drafts e payload cs = (x, cs')" "n \<in> set (labelled (drop (length cs) cs')) \<or> x = Inr s"
  shows "\<exists>t acts dry r. t = sweep_time e payload \<and> j_get payload ''dry_run'' (JBool False) = Inr dry \<and>
     acts = (\<not> (j_true dry \<or> shadowed e)) \<and> sweep_loop e t acts (candidates_of payload) cs = (r, cs') \<and>
     (x = Inr s \<longrightarrow> (\<exists>q. r = Inr q \<and> s = \<lparr>ss_decisions = fst q, ss_confirmed = snd q, ss_act = acts\<rparr>))"
  using assms unfolding sweep_drafts_def candidates_of_def sweep_time_def
  by (auto simp: res_bind_def Let_def split: sum.splits prod.splits if_splits json.splits elim: j_list.elims)

text \<open>
  C12: The label that starts the implementation is set only on a signal: a handler sets it when a
  person, not the bot, answers /confirm on an issue whose draft waits, or when the sweep finds a
  draft that has been silent for 24 hours, is not confirmed and has no open clarification.
\<close>

theorem intent_needs_signal:
  assumes "handle e ev cs = (x, cs @ new)" "AddLabel n ''intent-confirmed'' \<in> set new"
  shows "(\<exists>payload r. ev = Replied payload \<and> parse_reply payload = Inr r \<and> awaiting r \<and> \<not> from_bot e r \<and>
       says_confirm (sr_body r) \<and> n = (if sr_pr r \<noteq> 0 then sr_pr r else sr_issue r)) \<or>
     (\<exists>payload. ev = Swept payload \<and> (\<exists>j c. j \<in> set (candidates_of payload) \<and> parse_candidate (se_iso e) j = Inr c \<and>
       due (sweep_time e payload) c \<and> sweep_target c = Inr n))"
proof -
  have n: "n \<in> set (labelled new)" using assms(2) by (simp add: labelled_iff)
  show ?thesis
  proof (cases ev)
    case (Opened payload)
    then have run: "run_spec e payload cs = (x, cs @ new)" using assms(1) by (simp add: handle_def)
    from validD [OF no_intent_run TrueI run] have "labelled new = []" by (auto simp: grows_def labelled_none)
    with n show ?thesis by simp
  next
    case (Replied payload)
    then have "iterate e payload cs = (x, cs @ new)" using assms(1) by (simp add: handle_def)
    from intent_reply [OF this n] Replied show ?thesis by blast
  next
    case (Swept payload)
    then obtain y where run: "sweep_drafts e payload cs = (y, cs @ new)"
      using assms(1) by (auto simp: handle_def split: prod.splits sum.splits)
    from sweep_run [OF run, of n undefined] n obtain acts r where loop: "sweep_loop e (sweep_time e payload) acts (candidates_of payload) cs = (r, cs @ new)"
      by auto
    have live: "acts \<and> se_issues e"
    proof (rule ccontr)
      assume "\<not> (acts \<and> se_issues e)"
      then have "makes (\<lambda>c. intent_of c = None) (sweep_loop e (sweep_time e payload) acts (candidates_of payload))"
        by (intro makes_loop_idle) simp
      from validD [OF this TrueI loop] n show False by (auto simp: grows_def labelled_none)
    qed
    from sweep_loop_run [OF loop live] n obtain j c where "j \<in> set (candidates_of payload)" "parse_candidate (se_iso e) j = Inr c"
      "due (sweep_time e payload) c" "sweep_target c = Inr n" by auto
    with Swept show ?thesis by blast
  qed
qed

text \<open>
  A live sweep that ends confirms the drafts that are due, each once and in the order given, and no
  other, and reports just those.
\<close>

theorem sweep_confirms_the_due:
  assumes "sweep_drafts e payload cs = (Inr s, cs')" "se_issues e" "\<not> shadowed e" "j_get payload ''dry_run'' (JBool False) = Inr (JBool False)"
  shows "\<exists>cands. res_map (parse_candidate (se_iso e)) (candidates_of payload) = Inr cands \<and>
     map Inr (ss_confirmed s) = map sweep_target (filter (due (sweep_time e payload)) cands) \<and>
     labelled cs' = labelled cs @ ss_confirmed s"
proof -
  from sweep_run [OF assms(1), of _ s] assms(3,4) obtain q where
    loop: "sweep_loop e (sweep_time e payload) True (candidates_of payload) cs = (Inr q, cs')" and s: "ss_confirmed s = snd q" by auto
  from sweep_loop_run [OF loop] assms(2) s show ?thesis by auto
qed

text \<open>
  In shadow mode no handler writes: no file, commit, push, pull request, comment or label, whatever
  the payload and the answers of the ports.
\<close>

theorem shadow_mode_writes_nothing:
  assumes "shadowed e"
  shows "filter is_write (snd (handle e ev cs)) = filter is_write cs"
proof -
  have "makes (\<lambda>c. \<not> is_write c) (handle e ev)"
    using shadow_run [OF assms] shadow_reply [OF assms] shadow_sweep [OF assms] unfolding handle_def
    by (cases ev) (auto simp del: act_simps intro!: makes_intros)
  then have "grows (\<lambda>c. \<not> is_write c) cs (snd (handle e ev cs))" by (simp add: valid_def)
  then show ?thesis by (auto simp: grows_def list_all_iff filter_empty_conv)
qed

inductive agent_step :: "spec_call list \<Rightarrow> spec_call list \<Rightarrow> bool" where
  "reads_back e \<Longrightarrow> agent_step cs (snd (handle e ev cs))"

lemma agent_step_headings:
  assumes "agent_step cs cs'" "list_all well_formed_write cs"
  shows "list_all well_formed_write cs'"
proof -
  from assms(1) obtain e ev where e: "reads_back e" "cs' = snd (handle e ev cs)" by (blast elim: agent_step.cases)
  have weak: "makes well_formed_write m \<Longrightarrow> valid (list_all well_formed_write) (grows well_formed_write) m" for m :: "unit spec_act"
    by (erule valid_weaken) simp_all
  have "makes well_formed_write (act_bind (sweep_drafts e j) (\<lambda>_. act_return ()))" for j by (intro makes_intros headings_sweep)
  then have "valid (list_all well_formed_write) (grows well_formed_write) (handle e ev)"
    using headings_reply [OF e(1)] weak headings_run unfolding handle_def by (cases ev) simp_all
  with assms(2) e(2) show ?thesis by (auto simp: valid_def grows_def)
qed


text \<open>
  The search for an existing draft looks for the branch as a part of the texts: once the draft
  of an issue whose number starts with the same digits is mentioned, an issue gets no draft.
\<close>

theorem longer_number_blocks_draft:
  assumes "parse_intake (se_iso e) (se_now e) payload = Inr ix" "ix_class ix = Feature \<or> ix_class ix = BugReport" "se_issues e"
    and "spec_branch m = spec_branch (ix_number ix) @ digits"
    and "se_list e cs (ListIssues [''spec-drafted'']) = Inr bodies" "before @ spec_branch m @ behind \<in> set bodies"
  shows "fst (run_spec e payload cs) = Inr () \<and> filter is_write (snd (run_spec e payload cs)) = filter is_write cs"
proof -
  have "py_in (spec_branch (ix_number ix)) (before @ spec_branch m @ behind)" using assms(4) by (simp add: py_in_append)
  then have "list_ex (\<lambda>b. py_in (spec_branch (ix_number ix)) b) bodies" using assms(6) by (auto simp: list_ex_iff)
  with assms show ?thesis by (auto simp: run_spec_def draft_intake_def has_existing_spec_pr_def port_def)
qed

text \<open>
  A bug report that needs a sanitised fixture is drafted all the same: its spec is written and a
  pull request is opened, with the label that says that it must not be.
\<close>

theorem fixture_report_still_drafted:
  assumes "parse_intake (se_iso e) (se_now e) payload = Inr ix" "ix_class ix = BugReport" "ix_number ix \<noteq> 0"
    and "rp_outcome (classify_repro (ix_title ix) (ix_body ix)) = NeedsFixture"
    and "se_llm e" "se_repo e" "se_issues e" "\<not> shadowed e"
    and "\<And>cs c. se_list e cs c = Inr []" "\<And>cs c. se_do e cs c = Inr ()" "\<And>cs c. se_text e cs c = Inr answer" "\<And>cs c. se_open e cs c = Inr pr"
    and "drafted_from (se_loads e) (se_today e) (ix_number ix) (ix_title ix) (ix_kind ix) answer = Inr d"
  shows "WriteFile (dr_path d) (dr_markdown d) \<in> set (snd (run_spec e payload cs)) \<and>
     (\<exists>title body. OpenPr (spec_branch (ix_number ix)) title body (draft_labels @ [''repro:needs-fixture'']) \<in> set (snd (run_spec e payload cs)))"
  using assms by (cases "se_notifier e") (simp_all add: run_spec_def draft_intake_def has_existing_spec_pr_def draft_def publish_draft_def
      commit_as_bot_def repro_label_def port_def notify_def when_do_def attempt_def Let_def, blast+)

text \<open>
  The file of a draft lies in the directory of the specs, whatever the title of the issue: the
  part of the name that comes from the title has 1 to 60 letters, digits and hyphens.
\<close>

theorem draft_stays_in_directory:
  assumes "drafted_from dec today number title k answer = Inr d"
  shows "dr_path d = ''docs/superpowers/specs/'' @ today @ ''-'' @ dr_slug d @ (if k = Design then ''-design.md'' else ''-fix.md'') \<and>
     list_all (\<lambda>c. slug_char c \<or> c = CHR ''-'') (dr_slug d) \<and> 1 \<le> length (dr_slug d) \<and> length (dr_slug d) \<le> 60"
  using drafted_headings(2,3) [OF assms] slugify_chars slugify_length by (auto simp: spec_path_of_def list_all_iff)

section \<open>Witnesses\<close>

definition demo_spec_env :: "json \<Rightarrow> string list \<Rightarrow> spec_env" where
  "demo_spec_env shadow bodies = \<lparr>se_config = \<lparr>sc_shadow = shadow, sc_bot_login = ''bot'', sc_bot_email = ''b'', sc_channel = ''c''\<rparr>,
     se_llm = True, se_repo = True, se_issues = True, se_notifier = False, se_do = \<lambda>cs c. Inr (), 
     se_text = \<lambda>cs c. (case c of ReadFile p \<Rightarrow> Inl ShapeError | _ \<Rightarrow> Inr []), se_open = \<lambda>cs c. Inr \<lparr>pu_number = 9, pu_url = ''u''\<rparr>,
     se_list = \<lambda>cs c. Inr bodies, se_now = Stamp True 172800000000, se_today = ''2026-05-27'',
     se_iso = \<lambda>s. Some (Stamp True 0), se_loads = \<lambda>s. None\<rparr>"

definition demo_issue :: json where
  "demo_issue = JObj [(''issue'', JObj [(''number'', JNum 1), (''title'', JStr ''tenant x''), (''labels'', JList [JStr ''bug''])])]"

definition demo_ix :: intake where
  "demo_ix = \<lparr>ix_action = ''synthetic'', ix_number = 1, ix_title = ''tenant x'', ix_body = [], ix_author = [], ix_url = [], ix_repo = [],
     ix_labels = [''bug''], ix_class = BugReport, ix_kind = FixBrief, ix_created = None\<rparr>"

lemma demo_not_sensitive: "looks_sensitive ''tenant x'' = False" "looks_sensitive [] = False"
  by code_simp+

lemma demo_strip: "py_strip ''tenant x'' = ''tenant x''"
  by code_simp

lemma demo_parse: "parse_intake rd now demo_issue = Inr demo_ix"
  by (simp add: parse_intake_def demo_issue_def demo_ix_def get_obj_def j_or_def normalise_labels_def List.map_filter_def str_or_empty_def
      demo_strip classify_intake_def demo_not_sensitive non_routing_def int_or_zero_def get_str_def)

lemma demo_fixture: "rp_outcome (classify_repro ''tenant x'' []) = NeedsFixture"
  by code_simp

lemma demo_drafted: "\<exists>d. drafted_from dec today n t FixBrief [] = Inr d"
  by (simp add: drafted_from_def extract_json_def fenced_block.simps fenced_at_def fence_def render_spec_def headings_of_def
      extract_questions_def dict_or_def Let_def)

theorem fixture_report_still_drafted_witness:
  "\<exists>title body. OpenPr (spec_branch 1) title body (draft_labels @ [''repro:needs-fixture''])
     \<in> set (snd (run_spec ((demo_spec_env (JBool False) [])\<lparr>se_text := \<lambda>cs c. Inr []\<rparr>) demo_issue []))"
proof -
  let ?e = "(demo_spec_env (JBool False) [])\<lparr>se_text := \<lambda>cs c. Inr []\<rparr>"
  obtain d where d: "drafted_from (se_loads ?e) (se_today ?e) (ix_number demo_ix) (ix_title demo_ix) (ix_kind demo_ix) [] = Inr d"
    using demo_drafted [of "se_loads ?e" "se_today ?e" 1 "''tenant x''"] by (auto simp: demo_ix_def)
  have fix1: "rp_outcome (classify_repro (ix_title demo_ix) (ix_body demo_ix)) = NeedsFixture" using demo_fixture by (simp add: demo_ix_def)
  have "ix_class demo_ix = BugReport" "ix_number demo_ix = 1" by (simp_all add: demo_ix_def)
  then show ?thesis
    using fixture_report_still_drafted [OF demo_parse _ _ fix1 _ _ _ _ _ _ _ _ d, where pr = "\<lparr>pu_number = 9, pu_url = ''u''\<rparr>" and cs = "[]"]
    by (simp add: demo_spec_env_def shadowed_def)
qed

theorem longer_number_blocks_draft_witness:
  "filter is_write (snd (run_spec (demo_spec_env (JBool False) [''Drafted on agent/spec-12'']) demo_issue [])) = []"
proof -
  let ?e = "demo_spec_env (JBool False) [''Drafted on agent/spec-12'']"
  have "spec_branch 12 = spec_branch (ix_number demo_ix) @ ''2''" by (simp add: demo_ix_def) code_simp
  moreover have "''Drafted on '' @ spec_branch 12 @ [] = ''Drafted on agent/spec-12''" by code_simp
  then have "''Drafted on '' @ spec_branch 12 @ [] \<in> set [''Drafted on agent/spec-12'']" by simp
  ultimately have "fst (run_spec ?e demo_issue []) = Inr () \<and> filter is_write (snd (run_spec ?e demo_issue [])) = filter is_write []"
    by (intro longer_number_blocks_draft [OF demo_parse, where m = 12 and digits = "''2''" and before = "''Drafted on ''" and behind = "[]"
          and bodies = "[''Drafted on agent/spec-12'']"])
      (simp_all add: demo_ix_def demo_spec_env_def)
  then show ?thesis by simp
qed

theorem shadow_mode_writes_nothing_witness:
  "filter is_write (snd (handle (demo_spec_env (JBool True) []) (Opened demo_issue) [])) = []"
  using shadow_mode_writes_nothing [of "demo_spec_env (JBool True) []"] by (simp add: shadowed_def demo_spec_env_def)

definition demo_cand :: json where
  "demo_cand = JObj [(''pr_number'', JNum 9), (''issue_number'', JNum 1), (''updated_at'', JStr ''t''), (''labels'', JList [])]"

definition demo_sweep :: json where
  "demo_sweep = JObj [(''candidates'', JList [demo_cand])]"

lemma demo_sweep_run:
  "\<exists>s. sweep_drafts (demo_spec_env (JBool False) []) demo_sweep [] =
     (Inr s, [AddLabel 9 ''intent-confirmed'', CommentOn 1 silence_text]) \<and> ss_confirmed s = [9]"
proof -
  have "py_in needs_clarification_marker [] = False" by code_simp
  then show ?thesis
  by (simp add: sweep_drafts_def demo_sweep_def demo_cand_def demo_spec_env_def shadowed_def parse_candidate_def shown_or_empty_def
      decide_sweep_def int_or_0_def stamp_diff_def auto_confirm_after_def spec_body_of_def confirm_candidate_def sweep_target_def port_def
      stale_labels_def when_do_def Let_def)
qed

theorem sweep_confirms_the_due_witness:
  "\<exists>s. fst (sweep_drafts (demo_spec_env (JBool False) []) demo_sweep []) = Inr s \<and>
     labelled (snd (sweep_drafts (demo_spec_env (JBool False) []) demo_sweep [])) = ss_confirmed s \<and> ss_confirmed s = [9]"
proof -
  obtain s where s: "sweep_drafts (demo_spec_env (JBool False) []) demo_sweep [] =
     (Inr s, [AddLabel 9 ''intent-confirmed'', CommentOn 1 silence_text])" "ss_confirmed s = [9]" using demo_sweep_run by blast
  have "se_issues (demo_spec_env (JBool False) [])" "\<not> shadowed (demo_spec_env (JBool False) [])"
    "j_get demo_sweep ''dry_run'' (JBool False) = Inr (JBool False)"
    by (simp_all add: demo_spec_env_def shadowed_def demo_sweep_def)
  from sweep_confirms_the_due [OF s(1) this] s show ?thesis by auto
qed

theorem intent_needs_signal_witness:
  "\<exists>j c. j \<in> set (candidates_of demo_sweep) \<and> parse_candidate (se_iso (demo_spec_env (JBool False) [])) j = Inr c \<and> sweep_target c = Inr 9"
proof -
  have "handle (demo_spec_env (JBool False) []) (Swept demo_sweep) [] = (Inr (), [] @ [AddLabel 9 ''intent-confirmed'', CommentOn 1 silence_text])"
    using demo_sweep_run by (auto simp: handle_def)
  from intent_needs_signal [OF this, of 9] show ?thesis by auto
qed


theorem draft_stays_in_directory_witness:
  "\<exists>d. drafted_from (\<lambda>s. None) ''2026-05-27'' 1 ''../x'' FixBrief [] = Inr d \<and> list_all (\<lambda>c. slug_char c \<or> c = CHR ''-'') (dr_slug d)"
proof -
  obtain d where d: "drafted_from (\<lambda>s. None) ''2026-05-27'' 1 ''../x'' FixBrief [] = Inr d" using demo_drafted by blast
  with draft_stays_in_directory [OF d] show ?thesis by blast
qed

end
