(* ===== verification/PyRound.thy ===== *)
theory PyRound
  imports Complex_Main Prelude
begin

text \<open>
  Python's \<open>round(x, k)\<close>: the nearest multiple of 10 to the minus k, ties to the even one. Amounts
  are \<open>rat\<close>; what binary floats add to them is left out.
\<close>

definition round_half_even :: "rat \<Rightarrow> int" where
  "round_half_even x =
     (let n = \<lfloor>x\<rfloor>; d = x - of_int n
      in if d < 1/2 then n else if 1/2 < d then n + 1 else if even n then n else n + 1)"

definition py_round :: "nat \<Rightarrow> rat \<Rightarrow> rat" where
  "py_round k x = of_int (round_half_even (x * 10 ^ k)) / 10 ^ k"

text \<open>A multiple of that power, such as an amount in whole cents.\<close>

definition to_digits :: "nat \<Rightarrow> rat \<Rightarrow> bool" where
  "to_digits k x \<longleftrightarrow> of_int \<lfloor>x * 10 ^ k\<rfloor> = x * 10 ^ k"

lemma round_half_even_int [simp]: "round_half_even (of_int n) = n"
  by (simp add: round_half_even_def)

lemma round_half_even_near: "\<bar>of_int (round_half_even x) - x\<bar> \<le> 1/2"
proof -
  have "of_int \<lfloor>x\<rfloor> \<le> x" "x < of_int \<lfloor>x\<rfloor> + 1" by linarith+
  then show ?thesis by (simp add: round_half_even_def Let_def abs_le_iff)
qed

lemma round_half_even_mono: "x \<le> y \<Longrightarrow> round_half_even x \<le> round_half_even y"
proof -
  assume le: "x \<le> y"
  then have fl: "\<lfloor>x\<rfloor> \<le> \<lfloor>y\<rfloor>" by (rule floor_mono)
  show ?thesis
  proof (cases "\<lfloor>x\<rfloor> = \<lfloor>y\<rfloor>")
    case True
    with le show ?thesis by (auto simp: round_half_even_def Let_def)
  next
    case False
    with fl have "\<lfloor>x\<rfloor> + 1 \<le> \<lfloor>y\<rfloor>" by simp
    moreover have "round_half_even x \<le> \<lfloor>x\<rfloor> + 1" "\<lfloor>y\<rfloor> \<le> round_half_even y"
      by (simp_all add: round_half_even_def Let_def)
    ultimately show ?thesis by linarith
  qed
qed

lemma to_digits_iff: "to_digits k x \<longleftrightarrow> (\<exists>n. x = of_int n / 10 ^ k)"
proof
  assume "to_digits k x"
  then have "of_int \<lfloor>x * 10 ^ k\<rfloor> / 10 ^ k = x * 10 ^ k / 10 ^ k" unfolding to_digits_def by (rule arg_cong)
  then have "x = of_int \<lfloor>x * 10 ^ k\<rfloor> / 10 ^ k" by simp
  then show "\<exists>n. x = of_int n / 10 ^ k" ..
next
  assume "\<exists>n. x = of_int n / 10 ^ k"
  then obtain n where "x = of_int n / 10 ^ k" ..
  then have "x * 10 ^ k = of_int n" by simp
  then show "to_digits k x" by (simp add: to_digits_def)
qed

lemma to_digits_round [simp]: "to_digits k (py_round k x)"
  unfolding to_digits_iff py_round_def by blast

lemma to_digits_0 [simp]: "to_digits k 0"
  by (simp add: to_digits_def)

lemma to_digits_diff: "to_digits k x \<Longrightarrow> to_digits k y \<Longrightarrow> to_digits k (x - y)"
  unfolding to_digits_iff by (metis diff_divide_distrib of_int_diff)

lemma to_digits_add: "to_digits k x \<Longrightarrow> to_digits k y \<Longrightarrow> to_digits k (x + y)"
  unfolding to_digits_iff by (metis add_divide_distrib of_int_add)

lemma py_round_id: "to_digits k x \<Longrightarrow> py_round k x = x"
  by (auto simp: to_digits_iff py_round_def)

lemma py_round_mono: "x \<le> y \<Longrightarrow> py_round k x \<le> py_round k y"
  unfolding py_round_def by (intro divide_right_mono) (simp_all add: round_half_even_mono)

lemma py_round_0 [simp]: "py_round k 0 = 0"
  by (simp add: py_round_id)

lemma py_round_nonneg: "0 \<le> x \<Longrightarrow> 0 \<le> py_round k x"
  using py_round_mono [of 0 x k] by simp

lemma py_round_le: "x \<le> y \<Longrightarrow> to_digits k y \<Longrightarrow> py_round k x \<le> y"
  using py_round_mono [of x y k] by (simp add: py_round_id)

lemma py_round_near: "\<bar>py_round k x - x\<bar> \<le> 1 / (2 * 10 ^ k)"
proof -
  let ?n = "of_int (round_half_even (x * 10 ^ k)) :: rat"
  have "\<bar>py_round k x - x\<bar> = \<bar>(?n - x * 10 ^ k) / 10 ^ k\<bar>" by (simp add: py_round_def diff_divide_distrib)
  also have "\<dots> = \<bar>?n - x * 10 ^ k\<bar> / 10 ^ k" by (simp add: abs_divide)
  also have "\<dots> \<le> (1/2) / 10 ^ k" by (intro divide_right_mono round_half_even_near) simp
  finally show ?thesis by simp
qed

end
