(* ===== verification/FixedAssets.thy ===== *)
theory FixedAssets
  imports PyRound PyDate
begin

text \<open>
  custom-addons/co_fixed_assets/models: assets with their depreciation schedule, the entries that
  depreciation and disposal leave in the accounting, and the monthly job.

  The accounting of Odoo is not under src/: an entry is kept as it was handed over, and
  \<open>ae_refused\<close> says which entries raise. Amounts are \<open>rat\<close>; a call that raises is rolled back.
\<close>

section \<open>Records\<close>

datatype asset_state = AsDraft | AsRunning | AsClosed | AsDisposed

datatype depr_method = Linear | Degressive

record depr_line =
  dl_id :: nat
  dl_sequence :: nat
  dl_date :: date
  dl_amount :: rat
  dl_remaining :: rat
  dl_move :: "nat option"

record asset_category =
  ac_journal :: "nat option"
  ac_asset_account :: "nat option"
  ac_depreciation_account :: "nat option"
  ac_expense_account :: "nat option"
  ac_method :: "depr_method option"
  ac_life :: int
  ac_salvage_percentage :: rat

record fixed_asset =
  fa_id :: nat
  fa_code :: string
  fa_purchase_date :: date
  fa_purchase :: rat
  fa_salvage :: rat
  fa_method :: depr_method
  fa_life :: int
  fa_factor :: rat
  fa_journal :: "nat option"
  fa_asset_account :: "nat option"
  fa_depreciation_account :: "nat option"
  fa_expense_account :: "nat option"
  fa_state :: asset_state
  fa_disposal_date :: "date option"
  fa_disposal_move :: "nat option"
  fa_lines :: "depr_line list"

record maintenance =
  mt_asset :: nat
  mt_cost :: rat

text \<open>What an entry is for, and its lines: account, debit, credit.\<close>

datatype entry_ref = DepreciationOf nat nat | DisposalOf nat

record asset_entry =
  ee_id :: nat
  ee_journal :: "nat option"
  ee_date :: date
  ee_ref :: entry_ref
  ee_lines :: "(nat option \<times> rat \<times> rat) list"

record asset_world =
  aw_assets :: "fixed_asset list"
  aw_entries :: "asset_entry list"
  aw_maintenance :: "maintenance list"
  aw_next :: nat
  aw_sequence :: nat

record asset_env =
  ae_today :: date
  ae_sequence :: "nat \<Rightarrow> string option"
  ae_refused :: "asset_entry \<Rightarrow> bool"

datatype asset_exn =
    OnlyDraftConfirmed | NoJournal | NoAccounts | OnlyRunningClosed | PostedEntriesExist | OnlyRunningOrClosedDisposed
  | AlreadyPosted | EntryRefused | NoAsset nat
  | PurchaseNotPositive | SalvageNegative | SalvageTooHigh | LifeTooShort | PercentageOutOfRange | CostNegative

type_synonym 'a asset_act = "(asset_world, asset_exn, 'a) act"

section \<open>Computed fields\<close>

definition depreciable_value :: "fixed_asset \<Rightarrow> rat" where
  "depreciable_value a = fa_purchase a - fa_salvage a"

definition posted_lines :: "fixed_asset \<Rightarrow> depr_line list" where
  "posted_lines a = filter (\<lambda>l. dl_move l \<noteq> None) (fa_lines a)"

definition accumulated_depreciation :: "fixed_asset \<Rightarrow> rat" where
  "accumulated_depreciation a = sum_list (map dl_amount (posted_lines a))"

definition book_value :: "fixed_asset \<Rightarrow> rat" where
  "book_value a = fa_purchase a - accumulated_depreciation a"

definition cumulative_amount :: "fixed_asset \<Rightarrow> depr_line \<Rightarrow> rat" where
  "cumulative_amount a l = sum_list (map dl_amount (filter (\<lambda>k. dl_sequence k \<le> dl_sequence l) (posted_lines a)))"

definition depreciation_count :: "fixed_asset \<Rightarrow> nat" where
  "depreciation_count a = length (fa_lines a)"

definition move_count :: "fixed_asset \<Rightarrow> nat" where
  "move_count a =
     length (remdups (List.map_filter dl_move (fa_lines a) @ (case fa_disposal_move a of None \<Rightarrow> [] | Some m \<Rightarrow> [m])))"

definition maintenance_count :: "asset_world \<Rightarrow> nat \<Rightarrow> nat" where
  "maintenance_count w i = length (filter (\<lambda>m. mt_asset m = i) (aw_maintenance w))"

section \<open>Defaults and constraints\<close>

definition or_keep :: "'a option \<Rightarrow> 'a option \<Rightarrow> 'a option" where
  "or_keep new old = (case new of None \<Rightarrow> old | Some x \<Rightarrow> Some x)"

definition onchange_category :: "asset_category \<Rightarrow> fixed_asset \<Rightarrow> fixed_asset" where
  "onchange_category c a =
     a\<lparr>fa_journal := or_keep (ac_journal c) (fa_journal a),
       fa_asset_account := or_keep (ac_asset_account c) (fa_asset_account a),
       fa_depreciation_account := or_keep (ac_depreciation_account c) (fa_depreciation_account a),
       fa_expense_account := or_keep (ac_expense_account c) (fa_expense_account a),
       fa_method := (case ac_method c of None \<Rightarrow> fa_method a | Some m \<Rightarrow> m),
       fa_life := (if ac_life c \<noteq> 0 then ac_life c else fa_life a),
       fa_salvage := (if ac_salvage_percentage c \<noteq> 0 \<and> fa_purchase a \<noteq> 0 then fa_purchase a * ac_salvage_percentage c / 100 else fa_salvage a)\<rparr>"

definition check_purchase_value :: "fixed_asset \<Rightarrow> asset_exn option" where
  "check_purchase_value a = (if fa_purchase a \<le> 0 then Some PurchaseNotPositive else None)"

definition check_salvage_value :: "fixed_asset \<Rightarrow> asset_exn option" where
  "check_salvage_value a =
     (if fa_salvage a < 0 then Some SalvageNegative
      else if fa_purchase a \<le> fa_salvage a then Some SalvageTooHigh
      else None)"

definition check_useful_life :: "fixed_asset \<Rightarrow> asset_exn option" where
  "check_useful_life a = (if fa_life a < 1 then Some LifeTooShort else None)"

text \<open>One constraint after the other, each on all assets of the call.\<close>

definition check_assets :: "fixed_asset list \<Rightarrow> asset_exn list" where
  "check_assets as =
     List.map_filter check_purchase_value as @ List.map_filter check_salvage_value as @ List.map_filter check_useful_life as"

definition check_category :: "asset_category \<Rightarrow> asset_exn option" where
  "check_category c =
     (if ac_salvage_percentage c < 0 \<or> 100 < ac_salvage_percentage c then Some PercentageOutOfRange
      else if ac_life c \<noteq> 0 \<and> ac_life c < 1 then Some LifeTooShort
      else None)"

definition check_cost :: "maintenance \<Rightarrow> asset_exn option" where
  "check_cost m = (if mt_cost m < 0 then Some CostNegative else None)"

text \<open>Each asset whose code is the placeholder takes the next number.\<close>

fun number_assets :: "asset_env \<Rightarrow> nat \<Rightarrow> nat \<Rightarrow> fixed_asset list \<Rightarrow> fixed_asset list \<times> nat" where
  "number_assets e n i [] = ([], n)"
| "number_assets e n i (a # as) =
     (if fa_code a = ''New''
      then (case number_assets e (n + 1) (i + 1) as of (bs, k) \<Rightarrow> (a\<lparr>fa_id := i, fa_code := py_or (ae_sequence e n) ''New''\<rparr> # bs, k))
      else (case number_assets e n (i + 1) as of (bs, k) \<Rightarrow> (a\<lparr>fa_id := i\<rparr> # bs, k)))"

definition create_assets :: "asset_env \<Rightarrow> fixed_asset list \<Rightarrow> unit asset_act" where
  "create_assets e as = (\<lambda>w.
     case number_assets e (aw_sequence w) (aw_next w) as of
       (bs, k) \<Rightarrow>
         (case check_assets bs of
            x # xs \<Rightarrow> (Inl x, w)
          | [] \<Rightarrow> (Inr (), w\<lparr>aw_assets := aw_assets w @ bs, aw_next := aw_next w + length bs, aw_sequence := k\<rparr>)))"

section \<open>The schedule\<close>

definition schedule_line :: "nat \<Rightarrow> date \<Rightarrow> rat \<Rightarrow> rat \<Rightarrow> depr_line" where
  "schedule_line s d amount remaining =
     \<lparr>dl_id = 0, dl_sequence = s, dl_date = d, dl_amount = amount, dl_remaining = remaining, dl_move = None\<rparr>"

text \<open>\<open>k\<close> periods of \<open>n\<close> are left; \<open>past\<close> is the sum of the lines so far.\<close>

fun linear_lines :: "rat \<Rightarrow> nat \<Rightarrow> nat \<Rightarrow> rat \<Rightarrow> rat \<Rightarrow> date \<Rightarrow> depr_line list" where
  "linear_lines whole n 0 remaining past d = []"
| "linear_lines whole n (Suc k) remaining past d =
     (let amount = (if k = 0 then remaining else py_round 2 (whole / of_nat n));
          remaining' = (if k = 0 then remaining else remaining - amount)
      in schedule_line (n - k) d amount (py_round 2 (whole - past - amount))
         # linear_lines whole n k remaining' (past + amount) (add_months 1 d))"

fun degressive_lines :: "rat \<Rightarrow> nat \<Rightarrow> nat \<Rightarrow> rat \<Rightarrow> date \<Rightarrow> depr_line list" where
  "degressive_lines rate n 0 remaining d = []"
| "degressive_lines rate n (Suc k) remaining d =
     (let amount0 = py_round 2 (min (max (remaining * rate) (remaining / of_nat (Suc k))) remaining);
          amount = (if k = 0 then py_round 2 remaining else amount0);
          remaining' = py_round 2 (remaining - amount)
      in schedule_line (n - k) d amount remaining'
         # (if remaining' \<le> 0 then [] else degressive_lines rate n k remaining' (add_months 1 d)))"

definition first_period :: "fixed_asset \<Rightarrow> date" where
  "first_period a = first_of_month (add_months 1 (fa_purchase_date a))"

definition new_schedule :: "fixed_asset \<Rightarrow> depr_line list" where
  "new_schedule a =
     (let whole = depreciable_value a; n = nat (fa_life a)
      in if whole \<le> 0 \<or> fa_life a \<le> 0 then []
         else case fa_method a of
           Linear \<Rightarrow> linear_lines whole n n whole 0 (first_period a)
         | Degressive \<Rightarrow> degressive_lines (1 / of_nat n * fa_factor a) n n whole (first_period a))"

fun number_lines :: "nat \<Rightarrow> depr_line list \<Rightarrow> depr_line list" where
  "number_lines i [] = []"
| "number_lines i (l # ls) = l\<lparr>dl_id := i\<rparr> # number_lines (Suc i) ls"

definition write_asset :: "nat \<Rightarrow> (fixed_asset \<Rightarrow> fixed_asset) \<Rightarrow> asset_world \<Rightarrow> asset_world" where
  "write_asset i f w = w\<lparr>aw_assets := row_upd fa_id i f (aw_assets w)\<rparr>"

definition with_asset :: "nat \<Rightarrow> (fixed_asset \<Rightarrow> 'a asset_act) \<Rightarrow> 'a asset_act" where
  "with_asset i k = (\<lambda>w. case row_get fa_id i (aw_assets w) of None \<Rightarrow> (Inl (NoAsset i), w) | Some a \<Rightarrow> k a w)"

definition generate_schedule :: "nat \<Rightarrow> unit asset_act" where
  "generate_schedule i = with_asset i (\<lambda>a w.
     (Inr (), (write_asset i (\<lambda>b. b\<lparr>fa_lines := posted_lines a @ number_lines (aw_next w) (new_schedule a)\<rparr>) w)
        \<lparr>aw_next := aw_next w + length (new_schedule a)\<rparr>))"

section \<open>The workflow\<close>

definition confirm_asset :: "nat \<Rightarrow> unit asset_act" where
  "confirm_asset i = with_asset i (\<lambda>a.
     if fa_state a \<noteq> AsDraft then act_raise OnlyDraftConfirmed
     else if fa_journal a = None then act_raise NoJournal
     else if fa_asset_account a = None \<or> fa_depreciation_account a = None \<or> fa_expense_account a = None then act_raise NoAccounts
     else act_seq (act_modify (write_asset i (\<lambda>a. a\<lparr>fa_state := AsRunning\<rparr>))) (generate_schedule i))"

definition close_asset :: "nat \<Rightarrow> unit asset_act" where
  "close_asset i = with_asset i (\<lambda>a.
     if fa_state a \<noteq> AsRunning then act_raise OnlyRunningClosed
     else act_modify (write_asset i (\<lambda>a. a\<lparr>fa_state := AsClosed\<rparr>)))"

definition reset_asset :: "nat \<Rightarrow> unit asset_act" where
  "reset_asset i = with_asset i (\<lambda>a.
     if posted_lines a \<noteq> [] then act_raise PostedEntriesExist
     else act_modify (write_asset i (\<lambda>a. a\<lparr>fa_lines := [], fa_state := AsDraft\<rparr>)))"

text \<open>\<open>create\<close> and \<open>action_post\<close> of the accounting.\<close>

definition post_entry :: "asset_env \<Rightarrow> asset_entry \<Rightarrow> nat asset_act" where
  "post_entry e x = (\<lambda>w.
     let y = x\<lparr>ee_id := aw_next w\<rparr>
     in if ae_refused e y then (Inl EntryRefused, w)
        else (Inr (aw_next w), w\<lparr>aw_entries := aw_entries w @ [y], aw_next := aw_next w + 1\<rparr>))"

definition disposal_entry :: "asset_env \<Rightarrow> fixed_asset \<Rightarrow> asset_entry" where
  "disposal_entry e a =
     \<lparr>ee_id = 0, ee_journal = fa_journal a, ee_date = ae_today e, ee_ref = DisposalOf (fa_id a),
      ee_lines = [(fa_depreciation_account a, accumulated_depreciation a, 0),
                  (fa_expense_account a, book_value a, 0),
                  (fa_asset_account a, 0, fa_purchase a)]\<rparr>"

definition dispose_asset :: "asset_env \<Rightarrow> nat \<Rightarrow> unit asset_act" where
  "dispose_asset e i = with_asset i (\<lambda>a.
     if fa_state a \<noteq> AsRunning \<and> fa_state a \<noteq> AsClosed then act_raise OnlyRunningOrClosedDisposed
     else if book_value a \<le> 0
     then act_modify (write_asset i (\<lambda>a. a\<lparr>fa_state := AsDisposed, fa_disposal_date := Some (ae_today e)\<rparr>))
     else act_bind (post_entry e (disposal_entry e a)) (\<lambda>m.
       act_modify (write_asset i (\<lambda>a. a\<lparr>fa_state := AsDisposed, fa_disposal_date := Some (ae_today e), fa_disposal_move := Some m\<rparr>))))"

definition depreciation_entry :: "fixed_asset \<Rightarrow> depr_line \<Rightarrow> asset_entry" where
  "depreciation_entry a l =
     \<lparr>ee_id = 0, ee_journal = fa_journal a, ee_date = dl_date l, ee_ref = DepreciationOf (fa_id a) (dl_id l),
      ee_lines = [(fa_expense_account a, dl_amount l, 0), (fa_depreciation_account a, 0, dl_amount l)]\<rparr>"

definition set_line_move :: "nat \<Rightarrow> nat \<Rightarrow> fixed_asset \<Rightarrow> fixed_asset" where
  "set_line_move j m a = a\<lparr>fa_lines := row_upd dl_id j (\<lambda>l. l\<lparr>dl_move := Some m\<rparr>) (fa_lines a)\<rparr>"

definition post_depreciation_entry :: "asset_env \<Rightarrow> nat \<Rightarrow> depr_line \<Rightarrow> unit asset_act" where
  "post_depreciation_entry e i l = with_asset i (\<lambda>a.
     if dl_move l \<noteq> None then act_raise AlreadyPosted
     else act_bind (post_entry e (depreciation_entry a l)) (\<lambda>m. act_modify (write_asset i (set_line_move (dl_id l) m))))"

definition due_lines :: "asset_env \<Rightarrow> fixed_asset \<Rightarrow> depr_line list" where
  "due_lines e a = sort_key dl_date (filter (\<lambda>l. dl_move l = None \<and> dl_date l \<le> ae_today e) (fa_lines a))"

definition post_asset :: "asset_env \<Rightarrow> nat \<Rightarrow> unit asset_act" where
  "post_asset e i = with_asset i (\<lambda>a.
     if fa_state a \<noteq> AsRunning then act_return ()
     else act_seq (for_each (post_depreciation_entry e i) (due_lines e a))
       (with_asset i (\<lambda>a'. if book_value a' \<le> fa_salvage a' then close_asset i else act_return ())))"

definition action_confirm_assets :: "nat list \<Rightarrow> unit asset_act" where
  "action_confirm_assets ids = rolled_back (for_each confirm_asset ids)"

definition action_close_assets :: "nat list \<Rightarrow> unit asset_act" where
  "action_close_assets ids = rolled_back (for_each close_asset ids)"

definition action_set_to_draft :: "nat list \<Rightarrow> unit asset_act" where
  "action_set_to_draft ids = rolled_back (for_each reset_asset ids)"

definition action_dispose :: "asset_env \<Rightarrow> nat list \<Rightarrow> unit asset_act" where
  "action_dispose e ids = rolled_back (for_each (dispose_asset e) ids)"

definition action_post_depreciation :: "asset_env \<Rightarrow> nat list \<Rightarrow> unit asset_act" where
  "action_post_depreciation e ids = rolled_back (for_each (post_asset e) ids)"

definition running_ids :: "asset_world \<Rightarrow> nat list" where
  "running_ids w = map fa_id (filter (\<lambda>a. fa_state a = AsRunning) (aw_assets w))"

definition cron_post_depreciation :: "asset_env \<Rightarrow> unit asset_act" where
  "cron_post_depreciation e = (\<lambda>w. action_post_depreciation e (running_ids w) w)"

section \<open>Schedules\<close>

fun months_from :: "date \<Rightarrow> nat \<Rightarrow> date list" where
  "months_from d 0 = []"
| "months_from d (Suc k) = d # months_from (add_months 1 d) k"

text \<open>What is asked of a way to spread an amount over a number of months.\<close>

locale schedule_rule =
  fixes spread :: "rat \<Rightarrow> nat \<Rightarrow> date \<Rightarrow> depr_line list"
  assumes adds_up: "0 < n \<Longrightarrow> 0 \<le> whole \<Longrightarrow> to_digits 2 whole \<Longrightarrow> sum_list (map dl_amount (spread whole n d)) = whole"
    and monthly: "\<exists>k \<le> n. map dl_date (spread whole n d) = months_from d k \<and> map dl_sequence (spread whole n d) = [1..<k + 1]"
    and open_lines: "l \<in> set (spread whole n d) \<Longrightarrow> dl_move l = None"
begin

lemma at_most_n: "length (spread whole n d) \<le> n"
  using monthly [of n whole d] by (metis add_diff_cancel_right' length_map length_upt)

lemma one_per_month:
  "map dl_date (spread whole n d) = months_from d (length (spread whole n d))"
  "map dl_sequence (spread whole n d) = [1..<length (spread whole n d) + 1]"
  using monthly [of n whole d] by (metis add_diff_cancel_right' length_map length_upt)+

end

lemma linear_sum: "sum_list (map dl_amount (linear_lines whole n (Suc k) remaining past d)) = remaining"
  by (induction k arbitrary: remaining past d) (simp_all add: Let_def schedule_line_def)

lemma linear_shape:
  "k \<le> n \<Longrightarrow> map dl_date (linear_lines whole n k remaining past d) = months_from d k \<and>
     map dl_sequence (linear_lines whole n k remaining past d) = [n - k + 1..<n + 1] \<and>
     (\<forall>l \<in> set (linear_lines whole n k remaining past d). dl_move l = None)"
  by (induction k arbitrary: remaining past d) (auto simp: Let_def schedule_line_def upt_conv_Cons Suc_diff_Suc)

lemma degressive_amount_bounds:
  assumes "0 \<le> remaining" "to_digits 2 remaining"
  shows "0 \<le> py_round 2 (min (max (remaining * rate) (remaining / of_nat (Suc k))) remaining)"
    "py_round 2 (min (max (remaining * rate) (remaining / of_nat (Suc k))) remaining) \<le> remaining"
proof -
  have "0 \<le> remaining / of_nat (Suc k)" using assms(1) by simp
  then show "0 \<le> py_round 2 (min (max (remaining * rate) (remaining / of_nat (Suc k))) remaining)"
    using assms(1) by (intro py_round_nonneg) (simp add: le_max_iff_disj)
  show "py_round 2 (min (max (remaining * rate) (remaining / of_nat (Suc k))) remaining) \<le> remaining"
    using assms(2) by (intro py_round_le) simp_all
qed

lemma degressive_sum:
  "0 \<le> remaining \<Longrightarrow> to_digits 2 remaining \<Longrightarrow>
     sum_list (map dl_amount (degressive_lines rate n (Suc k) remaining d)) = remaining"
proof (induction k arbitrary: remaining d)
  case 0
  then show ?case by (simp add: Let_def schedule_line_def py_round_id)
next
  case (Suc k)
  let ?a = "py_round 2 (min (max (remaining * rate) (remaining / of_nat (Suc (Suc k)))) remaining)"
  have b: "0 \<le> ?a" "?a \<le> remaining" using degressive_amount_bounds Suc.prems by blast+
  have rest: "py_round 2 (remaining - ?a) = remaining - ?a"
    using Suc.prems(2) by (intro py_round_id to_digits_diff) simp_all
  have digits: "to_digits 2 (remaining - ?a)" using Suc.prems(2) by (intro to_digits_diff) simp_all
  show ?case
  proof (cases "remaining - ?a \<le> 0")
    case True
    with b have "?a = remaining" by linarith
    with True rest show ?thesis by (simp only: degressive_lines.simps Let_def if_False nat.simps) (simp add: schedule_line_def)
  next
    case False
    then have "sum_list (map dl_amount (degressive_lines rate n (Suc k) (remaining - ?a) (add_months 1 d))) = remaining - ?a"
      using Suc.IH digits by simp
    with False rest show ?thesis
      by (subst degressive_lines.simps) (simp only: Let_def if_False nat.simps list.map sum_list.Cons, simp add: schedule_line_def)
  qed
qed

lemma degressive_shape:
  "k \<le> n \<Longrightarrow> \<exists>j \<le> k. map dl_date (degressive_lines rate n k remaining d) = months_from d j \<and>
     map dl_sequence (degressive_lines rate n k remaining d) = [n - k + 1..<n - k + j + 1] \<and>
     (\<forall>l \<in> set (degressive_lines rate n k remaining d). dl_move l = None)"
proof (induction k arbitrary: remaining d)
  case (Suc k)
  define amount where "amount = (if k = 0 then py_round 2 remaining
     else py_round 2 (min (max (remaining * rate) (remaining / of_nat (Suc k))) remaining))"
  define rest where "rest = py_round 2 (remaining - amount)"
  have step: "degressive_lines rate n (Suc k) remaining d =
      schedule_line (n - k) d amount rest # (if rest \<le> 0 then [] else degressive_lines rate n k rest (add_months 1 d))"
    by (simp add: Let_def amount_def rest_def)
  show ?case
  proof (cases "rest \<le> 0")
    case True
    then show ?thesis unfolding step by (intro exI [of _ 1]) (use Suc.prems in \<open>auto simp: schedule_line_def\<close>)
  next
    case False
    from Suc.IH [of rest "add_months 1 d"] Suc.prems obtain j where j: "j \<le> k"
      "map dl_date (degressive_lines rate n k rest (add_months 1 d)) = months_from (add_months 1 d) j"
      "map dl_sequence (degressive_lines rate n k rest (add_months 1 d)) = [n - k + 1..<n - k + j + 1]"
      "\<forall>l \<in> set (degressive_lines rate n k rest (add_months 1 d)). dl_move l = None" by auto
    have up: "[n - Suc k + 1..<n - Suc k + Suc j + 1] = (n - k) # [n - k + 1..<n - k + j + 1]"
      using Suc.prems by (simp add: upt_conv_Cons Suc_diff_Suc del: upt_Suc)
    show ?thesis unfolding step
      by (intro exI [of _ "Suc j"]) (use j False up in \<open>auto simp: schedule_line_def simp del: upt_Suc\<close>)
  qed
qed simp

interpretation linear: schedule_rule "\<lambda>whole n d. linear_lines whole n n whole 0 d"
proof unfold_locales
  fix n :: nat and whole d
  show "0 < n \<Longrightarrow> sum_list (map dl_amount (linear_lines whole n n whole 0 d)) = whole"
    using linear_sum [of whole n "n - 1"] by simp
  show "\<exists>k \<le> n. map dl_date (linear_lines whole n n whole 0 d) = months_from d k \<and>
      map dl_sequence (linear_lines whole n n whole 0 d) = [1..<k + 1]"
    using linear_shape [of n n whole whole 0 d] by (intro exI [of _ n]) simp
  show "l \<in> set (linear_lines whole n n whole 0 d) \<Longrightarrow> dl_move l = None" for l
    using linear_shape [of n n whole whole 0 d] by simp
qed

interpretation degressive: schedule_rule "\<lambda>whole n d. degressive_lines (1 / of_nat n * factor) n n whole d" for factor
proof unfold_locales
  fix n :: nat and whole d
  show "0 < n \<Longrightarrow> 0 \<le> whole \<Longrightarrow> to_digits 2 whole \<Longrightarrow>
      sum_list (map dl_amount (degressive_lines (1 / of_nat n * factor) n n whole d)) = whole"
    using degressive_sum [of whole "1 / of_nat n * factor" n "n - 1"] by simp
  show "\<exists>k \<le> n. map dl_date (degressive_lines (1 / of_nat n * factor) n n whole d) = months_from d k \<and>
      map dl_sequence (degressive_lines (1 / of_nat n * factor) n n whole d) = [1..<k + 1]"
    using degressive_shape [of n n "1 / of_nat n * factor" whole d] by auto
  show "l \<in> set (degressive_lines (1 / of_nat n * factor) n n whole d) \<Longrightarrow> dl_move l = None" for l
    using degressive_shape [of n n "1 / of_nat n * factor" whole d] by auto
qed

text \<open>The schedule of an asset that the constraints accept.\<close>

lemma checked_asset: "check_assets [a] = [] \<Longrightarrow> 0 < depreciable_value a \<and> 1 \<le> fa_life a"
  by (auto simp: check_assets_def List.map_filter_def check_purchase_value_def check_salvage_value_def check_useful_life_def
      depreciable_value_def split: if_splits)

lemma new_schedule_props:
  assumes "check_assets [a] = []" "to_digits 2 (depreciable_value a)"
  shows "sum_list (map dl_amount (new_schedule a)) = depreciable_value a"
    "length (new_schedule a) \<le> nat (fa_life a)"
    "map dl_date (new_schedule a) = months_from (first_period a) (length (new_schedule a))"
    "map dl_sequence (new_schedule a) = [1..<length (new_schedule a) + 1]"
    "l \<in> set (new_schedule a) \<Longrightarrow> dl_move l = None"
proof -
  have pos: "0 < depreciable_value a" "1 \<le> fa_life a" using checked_asset [OF assms(1)] by auto
  have eq: "new_schedule a = (case fa_method a of
      Linear \<Rightarrow> linear_lines (depreciable_value a) (nat (fa_life a)) (nat (fa_life a)) (depreciable_value a) 0 (first_period a)
    | Degressive \<Rightarrow> degressive_lines (1 / of_nat (nat (fa_life a)) * fa_factor a) (nat (fa_life a)) (nat (fa_life a)) (depreciable_value a) (first_period a))"
    using pos by (auto simp: new_schedule_def Let_def)
  show "sum_list (map dl_amount (new_schedule a)) = depreciable_value a"
    unfolding eq using pos assms(2) linear.adds_up [where n = "nat (fa_life a)" and whole = "depreciable_value a"]
      degressive.adds_up [where n = "nat (fa_life a)" and whole = "depreciable_value a" and factor = "fa_factor a"]
    by (cases "fa_method a") simp_all
  show "length (new_schedule a) \<le> nat (fa_life a)"
    unfolding eq using linear.at_most_n degressive.at_most_n by (cases "fa_method a") simp_all
  show "map dl_date (new_schedule a) = months_from (first_period a) (length (new_schedule a))"
    unfolding eq using linear.one_per_month(1) degressive.one_per_month(1) by (cases "fa_method a") simp_all
  show "map dl_sequence (new_schedule a) = [1..<length (new_schedule a) + 1]"
    unfolding eq using linear.one_per_month(2) degressive.one_per_month(2) by (cases "fa_method a") simp_all
  show "l \<in> set (new_schedule a) \<Longrightarrow> dl_move l = None"
    unfolding eq using linear.open_lines degressive.open_lines by (cases "fa_method a") simp_all
qed

section \<open>The accounting and the assets\<close>

definition entry_debit :: "asset_entry \<Rightarrow> rat" where
  "entry_debit x = sum_list (map (\<lambda>(acc, d, c). d) (ee_lines x))"

definition entry_credit :: "asset_entry \<Rightarrow> rat" where
  "entry_credit x = sum_list (map (\<lambda>(acc, d, c). c) (ee_lines x))"

fun depreciates :: "nat \<Rightarrow> entry_ref \<Rightarrow> bool" where
  "depreciates i (DepreciationOf j l) \<longleftrightarrow> i = j"
| "depreciates i (DisposalOf j) \<longleftrightarrow> False"

text \<open>What the entries say that an asset has lost.\<close>

definition ledger :: "nat \<Rightarrow> asset_world \<Rightarrow> rat" where
  "ledger i w = sum_list (map entry_debit (filter (\<lambda>x. depreciates i (ee_ref x)) (aw_entries w)))"

definition asset_ok :: "asset_world \<Rightarrow> fixed_asset \<Rightarrow> bool" where
  "asset_ok w a \<longleftrightarrow> fa_id a < aw_next w \<and> distinct (map dl_id (fa_lines a)) \<and> (\<forall>l \<in> set (fa_lines a). dl_id l < aw_next w) \<and>
     accumulated_depreciation a = ledger (fa_id a) w \<and> (fa_state a = AsDraft \<longrightarrow> posted_lines a = [])"

definition assets_ok :: "asset_world \<Rightarrow> bool" where
  "assets_ok w \<longleftrightarrow> distinct (map fa_id (aw_assets w)) \<and> (\<forall>a \<in> set (aw_assets w). asset_ok w a) \<and>
     (\<forall>x \<in> set (aw_entries w). entry_debit x = entry_credit x) \<and>
     (\<forall>i. aw_next w \<le> i \<longrightarrow> ledger i w = 0)"

lemma write_asset_sel [simp]:
  "aw_entries (write_asset i f w) = aw_entries w" "aw_next (write_asset i f w) = aw_next w"
  "aw_assets (write_asset i f w) = row_upd fa_id i f (aw_assets w)" "ledger j (write_asset i f w) = ledger j w"
  by (simp_all add: write_asset_def ledger_def)

lemma row_asset: "assets_ok w \<Longrightarrow> row_get fa_id i (aw_assets w) = Some a \<Longrightarrow> a \<in> set (aw_assets w) \<and> fa_id a = i \<and> asset_ok w a"
  using row_get_in_set [of fa_id i "aw_assets w" a] by (simp add: assets_ok_def)

text \<open>Only the asset that is written has to be looked at.\<close>

lemma write_ok:
  assumes "assets_ok w" "row_get fa_id i (aw_assets w) = Some a" "\<And>a. fa_id (f a) = fa_id a" "asset_ok w (f a)"
  shows "assets_ok (write_asset i f w)"
proof -
  have a: "a \<in> set (aw_assets w)" "fa_id a = i" using row_asset [OF assms(1,2)] by auto
  have "asset_ok (write_asset i f w) b" if b: "b \<in> set (aw_assets (write_asset i f w))" for b
  proof -
    from b obtain c where c: "c \<in> set (aw_assets w)" "b = (if fa_id c = i then f c else c)"
      unfolding write_asset_sel in_set_row_upd by blast
    have same: "asset_ok (write_asset i f w) x = asset_ok w x" for x by (simp add: asset_ok_def)
    show ?thesis
    proof (cases "fa_id c = i")
      case True
      then have "c = a" using row_get_distinct [of fa_id "aw_assets w" c] c(1) assms(1,2) by (simp add: assets_ok_def)
      with c True assms(4) show ?thesis by (simp add: same)
    next
      case False
      with c assms(1) show ?thesis by (simp add: same assets_ok_def)
    qed
  qed
  then show ?thesis using assms(1,3) by (simp add: assets_ok_def map_key_row_upd)
qed

lemma with_asset_inv:
  assumes "I w" "\<And>a. row_get fa_id i (aw_assets w) = Some a \<Longrightarrow> I (snd (k a w))"
  shows "I (snd (with_asset i k w))"
  using assms by (simp add: with_asset_def split: option.split)

lemma state_ok:
  assumes "assets_ok w" "row_get fa_id i (aw_assets w) = Some a" "s \<noteq> AsDraft"
  shows "assets_ok (write_asset i (\<lambda>a. a\<lparr>fa_state := s\<rparr>) w)"
  using assms(3) row_asset [OF assms(1,2)]
  by (intro write_ok [OF assms(1,2)]) (simp_all add: asset_ok_def posted_lines_def accumulated_depreciation_def)

lemma close_ok: "assets_ok w \<Longrightarrow> assets_ok (snd (close_asset i w))"
  unfolding close_asset_def by (rule with_asset_inv) (auto intro: state_ok)

lemma number_lines_props:
  "map dl_id (number_lines i ls) = [i..<i + length ls]" "map dl_amount (number_lines i ls) = map dl_amount ls"
  "map dl_date (number_lines i ls) = map dl_date ls" "map dl_move (number_lines i ls) = map dl_move ls"
  by (induction i ls rule: number_lines.induct) (simp_all add: upt_conv_Cons del: upt_Suc)

lemma posted_append: "map dl_move ls = map (\<lambda>_. None) ls' \<Longrightarrow> filter (\<lambda>l. dl_move l \<noteq> None) ls = []"
  by (induction ls arbitrary: ls') (auto simp: Cons_eq_map_conv)

lemma degressive_open: "l \<in> set (degressive_lines rate n n whole d) \<Longrightarrow> dl_move l = None"
  using degressive_shape [of n n rate whole d] by auto

lemma new_schedule_open: "l \<in> set (new_schedule a) \<Longrightarrow> dl_move l = None"
  by (auto simp: new_schedule_def Let_def split: if_splits depr_method.splits intro: linear.open_lines degressive_open)

lemma number_lines_open: "l \<in> set (number_lines i (new_schedule a)) \<Longrightarrow> dl_move l = None"
proof -
  assume "l \<in> set (number_lines i (new_schedule a))"
  then have "dl_move l \<in> set (map dl_move (number_lines i (new_schedule a)))" by simp
  then show ?thesis using new_schedule_open by (auto simp: number_lines_props)
qed

lemma generate_ok:
  assumes "assets_ok w" "row_get fa_id i (aw_assets w) = Some a" "fa_state a \<noteq> AsDraft"
  shows "assets_ok (snd (generate_schedule i w))"
proof -
  let ?n = "length (new_schedule a)"
  let ?w = "w\<lparr>aw_next := aw_next w + ?n\<rparr>"
  let ?f = "\<lambda>b. b\<lparr>fa_lines := posted_lines a @ number_lines (aw_next w) (new_schedule a)\<rparr>"
  have later: "assets_ok ?w"
    using assms(1) by (auto simp: assets_ok_def asset_ok_def ledger_def intro!: trans_less_add1)
  have a: "asset_ok w a" using row_asset [OF assms(1,2)] by simp
  have ids: "aw_next w \<le> dl_id l \<and> dl_id l < aw_next w + ?n" if "l \<in> set (number_lines (aw_next w) (new_schedule a))" for l
  proof -
    have "dl_id l \<in> set (map dl_id (number_lines (aw_next w) (new_schedule a)))" using that by simp
    then show ?thesis by (simp only: number_lines_props set_upt) simp
  qed
  have posted: "posted_lines (?f a) = posted_lines a"
    using number_lines_open by (auto simp: posted_lines_def filter_empty_conv)
  have "distinct (map dl_id (number_lines (aw_next w) (new_schedule a)))" by (simp add: number_lines_props)
  moreover have "distinct (map dl_id (posted_lines a))" using a by (simp add: asset_ok_def posted_lines_def distinct_map_filter)
  moreover have "dl_id l < aw_next w" if "l \<in> set (posted_lines a)" for l using a that by (simp add: asset_ok_def posted_lines_def)
  ultimately have "distinct (map dl_id (fa_lines (?f a)))" "\<forall>l \<in> set (fa_lines (?f a)). dl_id l < aw_next w + ?n"
    using ids by (fastforce intro: trans_less_add1)+
  then have "asset_ok ?w (?f a)"
    using a assms(3) posted by (simp add: asset_ok_def accumulated_depreciation_def ledger_def)
  then have "assets_ok (write_asset i ?f ?w)" using assms(2) by (intro write_ok [OF later]) simp_all
  moreover have "snd (generate_schedule i w) = write_asset i ?f ?w"
    using assms(2) by (simp add: generate_schedule_def with_asset_def write_asset_def row_upd_def)
  ultimately show ?thesis by simp
qed

lemma confirm_ok: "assets_ok w \<Longrightarrow> assets_ok (snd (confirm_asset i w))"
  unfolding confirm_asset_def
proof (rule with_asset_inv, assumption)
  fix a
  assume w: "assets_ok w" "row_get fa_id i (aw_assets w) = Some a"
  let ?w = "write_asset i (\<lambda>a. a\<lparr>fa_state := AsRunning\<rparr>) w"
  have "row_get fa_id i (aw_assets ?w) = Some (a\<lparr>fa_state := AsRunning\<rparr>)" using w(2) by (simp add: row_get_upd_same)
  moreover have "fa_state (a\<lparr>fa_state := AsRunning\<rparr>) \<noteq> AsDraft" by simp
  moreover have "assets_ok ?w" using state_ok [OF w] by simp
  ultimately have "assets_ok (snd (generate_schedule i ?w))" using generate_ok by blast
  then show "assets_ok (snd ((if fa_state a \<noteq> AsDraft then act_raise OnlyDraftConfirmed
     else if fa_journal a = None then act_raise NoJournal
     else if fa_asset_account a = None \<or> fa_depreciation_account a = None \<or> fa_expense_account a = None then act_raise NoAccounts
     else act_seq (act_modify (write_asset i (\<lambda>a. a\<lparr>fa_state := AsRunning\<rparr>))) (generate_schedule i)) w))"
    using w(1) by simp
qed

lemma reset_ok: "assets_ok w \<Longrightarrow> assets_ok (snd (reset_asset i w))"
  unfolding reset_asset_def
proof (rule with_asset_inv, assumption)
  fix a
  assume w: "assets_ok w" "row_get fa_id i (aw_assets w) = Some a"
  have "assets_ok (write_asset i (\<lambda>a. a\<lparr>fa_lines := [], fa_state := AsDraft\<rparr>) w)" if "posted_lines a = []"
    using row_asset [OF w] that
    by (intro write_ok [OF w]) (auto simp: asset_ok_def accumulated_depreciation_def posted_lines_def)
  then show "assets_ok (snd ((if posted_lines a \<noteq> [] then act_raise PostedEntriesExist
     else act_modify (write_asset i (\<lambda>a. a\<lparr>fa_lines := [], fa_state := AsDraft\<rparr>))) w))"
    using w(1) by simp
qed

section \<open>Entries\<close>

definition with_entry :: "asset_entry \<Rightarrow> asset_world \<Rightarrow> asset_world" where
  "with_entry x w = w\<lparr>aw_entries := aw_entries w @ [x\<lparr>ee_id := aw_next w\<rparr>], aw_next := aw_next w + 1\<rparr>"

lemma with_entry_sel [simp]: "aw_assets (with_entry x w) = aw_assets w" "aw_next (with_entry x w) = aw_next w + 1"
  "aw_entries (with_entry x w) = aw_entries w @ [x\<lparr>ee_id := aw_next w\<rparr>]"
  by (simp_all add: with_entry_def)

lemma post_entry_run:
  "post_entry e x w = (if ae_refused e (x\<lparr>ee_id := aw_next w\<rparr>) then (Inl EntryRefused, w) else (Inr (aw_next w), with_entry x w))"
  by (simp add: post_entry_def with_entry_def Let_def)

lemma ledger_with_entry: "ledger i (with_entry x w) = ledger i w + (if depreciates i (ee_ref x) then entry_debit x else 0)"
  by (simp add: ledger_def with_entry_def entry_debit_def)

lemma asset_ok_other:
  "asset_ok w a \<Longrightarrow> \<not> depreciates (fa_id a) (ee_ref x) \<Longrightarrow> asset_ok (with_entry x w) a"
  by (auto simp: asset_ok_def ledger_with_entry less_SucI)

lemma balanced_entries:
  "entry_debit (disposal_entry e a) = entry_credit (disposal_entry e a)"
  "entry_debit (depreciation_entry a l) = entry_credit (depreciation_entry a l)" "entry_debit (depreciation_entry a l) = dl_amount l"
  by (simp_all add: entry_debit_def entry_credit_def disposal_entry_def depreciation_entry_def book_value_def)

lemma entry_id_sums [simp]: "entry_debit (x\<lparr>ee_id := n\<rparr>) = entry_debit x" "entry_credit (x\<lparr>ee_id := n\<rparr>) = entry_credit x"
  by (simp_all add: entry_debit_def entry_credit_def)

lemma dispose_ok: "assets_ok w \<Longrightarrow> assets_ok (snd (dispose_asset e i w))"
  unfolding dispose_asset_def
proof (rule with_asset_inv, assumption)
  fix a
  assume w: "assets_ok w" "row_get fa_id i (aw_assets w) = Some a"
  let ?x = "disposal_entry e a"
  have ref: "\<not> depreciates j (ee_ref ?x)" for j by (simp add: disposal_entry_def)
  have w1: "assets_ok (with_entry ?x w)"
    using w(1) asset_ok_other ref balanced_entries(1) [of e a]
    by (auto simp: assets_ok_def ledger_with_entry)
  have gone: "assets_ok (write_asset i (\<lambda>a. a\<lparr>fa_state := AsDisposed, fa_disposal_date := d, fa_disposal_move := m\<rparr>) v)"
    if "assets_ok v" "row_get fa_id i (aw_assets v) = Some a" for v d m
    using row_asset [OF that] by (intro write_ok [OF that]) (simp_all add: asset_ok_def posted_lines_def accumulated_depreciation_def)
  have gone0: "assets_ok (write_asset i (\<lambda>a. a\<lparr>fa_state := AsDisposed, fa_disposal_date := d\<rparr>) w)" for d
    using row_asset [OF w] by (intro write_ok [OF w]) (simp_all add: asset_ok_def posted_lines_def accumulated_depreciation_def)
  show "assets_ok (snd ((if fa_state a \<noteq> AsRunning \<and> fa_state a \<noteq> AsClosed then act_raise OnlyRunningOrClosedDisposed
     else if book_value a \<le> 0
     then act_modify (write_asset i (\<lambda>a. a\<lparr>fa_state := AsDisposed, fa_disposal_date := Some (ae_today e)\<rparr>))
     else act_bind (post_entry e ?x) (\<lambda>m.
       act_modify (write_asset i (\<lambda>a. a\<lparr>fa_state := AsDisposed, fa_disposal_date := Some (ae_today e), fa_disposal_move := Some m\<rparr>)))) w))"
    using w gone [OF w1] gone0 by (simp add: post_entry_run)
qed

lemma set_move_lines:
  "distinct (map dl_id ls) \<Longrightarrow> l \<in> set ls \<Longrightarrow> dl_move l = None \<Longrightarrow>
     sum_list (map dl_amount (filter (\<lambda>l. dl_move l \<noteq> None) (row_upd dl_id (dl_id l) (\<lambda>l. l\<lparr>dl_move := Some m\<rparr>) ls))) =
     sum_list (map dl_amount (filter (\<lambda>l. dl_move l \<noteq> None) ls)) + (dl_amount l :: rat)"
proof (induction ls)
  case (Cons k ls)
  show ?case
  proof (cases "k = l")
    case True
    then have "row_upd dl_id (dl_id l) (\<lambda>l. l\<lparr>dl_move := Some m\<rparr>) ls = ls"
      unfolding row_upd_def using Cons.prems(1) by (intro map_idI) (auto simp: image_iff)
    with True Cons.prems(3) show ?thesis by (simp add: row_simps)
  next
    case False
    then have "dl_id k \<noteq> dl_id l" using Cons.prems(1,2) by (auto simp: image_iff)
    with False Cons show ?thesis by (simp add: row_simps)
  qed
qed simp

text \<open>The same lines, of which those with the given ids have been posted.\<close>

definition progress :: "nat set \<Rightarrow> depr_line list \<Rightarrow> depr_line list \<Rightarrow> bool" where
  "progress ids ls ls' \<longleftrightarrow> list_all2 (\<lambda>l l'. dl_id l' = dl_id l \<and> dl_date l' = dl_date l \<and> dl_amount l' = dl_amount l \<and>
     (dl_move l' \<noteq> None \<longleftrightarrow> dl_move l \<noteq> None \<or> dl_id l \<in> ids)) ls ls'"

lemma progress_refl: "progress {} ls ls"
  by (simp add: progress_def list.rel_refl)

lemma progress_trans: "progress A xs ys \<Longrightarrow> progress B ys zs \<Longrightarrow> progress (A \<union> B) xs zs"
proof -
  assume p: "progress A xs ys" "progress B ys zs"
  show ?thesis unfolding progress_def by (rule list_all2_trans [OF _ p [unfolded progress_def]]) auto
qed

lemma progress_one: "progress {j} ls (row_upd dl_id j (\<lambda>l. l\<lparr>dl_move := Some m\<rparr>) ls)"
  by (induction ls) (auto simp: progress_def row_simps)

text \<open>Posting one line that is open.\<close>

lemma post_one:
  assumes "assets_ok w" "row_get fa_id i (aw_assets w) = Some a" "l \<in> set (fa_lines a)" "dl_move l = None"
    and "fa_state a \<noteq> AsDraft" "post_depreciation_entry e i l w = (x, w')"
  shows "(x = Inl EntryRefused \<and> w' = w \<and> ae_refused e ((depreciation_entry a l)\<lparr>ee_id := aw_next w\<rparr>)) \<or>
     (x = Inr () \<and> \<not> ae_refused e ((depreciation_entry a l)\<lparr>ee_id := aw_next w\<rparr>) \<and> assets_ok w' \<and>
      row_get fa_id i (aw_assets w') = Some (set_line_move (dl_id l) (aw_next w) a) \<and>
      (\<forall>j. j \<noteq> i \<longrightarrow> row_get fa_id j (aw_assets w') = row_get fa_id j (aw_assets w)))"
proof (cases "ae_refused e ((depreciation_entry a l)\<lparr>ee_id := aw_next w\<rparr>)")
  case True
  with assms show ?thesis by (auto simp: post_depreciation_entry_def with_asset_def post_entry_run)
next
  case False
  let ?x = "depreciation_entry a l" and ?m = "aw_next w"
  let ?w = "with_entry ?x w" and ?f = "set_line_move (dl_id l) (aw_next w)"
  have res: "x = Inr ()" "w' = write_asset i ?f ?w"
    using assms False by (auto simp: post_depreciation_entry_def with_asset_def post_entry_run)
  have a: "fa_id a = i" "asset_ok w a" "a \<in> set (aw_assets w)" using row_asset [OF assms(1,2)] by auto
  have keep: "fa_id (?f b) = fa_id b" "fa_state (?f b) = fa_state b" for b by (simp_all add: set_line_move_def)
  have ref: "depreciates j (ee_ref ?x) \<longleftrightarrow> j = i" for j using a(1) by (simp add: depreciation_entry_def)
  have next_ids: "map dl_id (fa_lines (?f a)) = map dl_id (fa_lines a)" by (simp add: set_line_move_def map_key_row_upd)
  have acc: "accumulated_depreciation (?f a) = accumulated_depreciation a + dl_amount l"
    using set_move_lines [of "fa_lines a" l ?m] a(2) assms(3,4)
    by (simp add: accumulated_depreciation_def posted_lines_def set_line_move_def asset_ok_def)
  have ok: "asset_ok ?w (?f a)"
    using a(1,2) acc ref assms(3,5) keep next_ids balanced_entries(3) [of a l]
    by (auto simp: asset_ok_def ledger_with_entry less_SucI set_line_move_def in_set_row_upd)
  have others: "asset_ok ?w b" if "b \<in> set (aw_assets w)" "b \<noteq> a" for b
  proof -
    have "fa_id b \<noteq> i" using that row_get_distinct [of fa_id "aw_assets w" b] assms(1,2) by (auto simp: assets_ok_def)
    then show ?thesis using that(1) assms(1) ref by (intro asset_ok_other) (auto simp: assets_ok_def)
  qed
  have same: "asset_ok w' b = asset_ok ?w b" for b by (simp add: res(2) asset_ok_def)
  have "asset_ok w' b" if "b \<in> set (aw_assets w')" for b
  proof -
    from that obtain c where c: "c \<in> set (aw_assets w)" "b = (if fa_id c = i then ?f c else c)"
      unfolding res(2) write_asset_sel with_entry_sel in_set_row_upd by blast
    show ?thesis
    proof (cases "c = a")
      case True
      with c a(1) ok show ?thesis by (simp add: same)
    next
      case False
      then have "fa_id c \<noteq> i" using c(1) row_get_distinct [of fa_id "aw_assets w" c] assms(1,2) by (auto simp: assets_ok_def)
      with c others False show ?thesis by (simp add: same)
    qed
  qed
  moreover have "\<forall>x \<in> set (aw_entries w'). entry_debit x = entry_credit x"
    using assms(1) balanced_entries(2) [of a l] by (auto simp: res(2) assets_ok_def)
  moreover have "ledger j w' = 0" if "aw_next w' \<le> j" for j
  proof -
    have "j \<noteq> i" using that a(1,2) by (auto simp: res(2) asset_ok_def)
    then show ?thesis using that assms(1) ref by (simp add: res(2) ledger_with_entry assets_ok_def)
  qed
  ultimately have "assets_ok w'" using assms(1) keep by (simp add: assets_ok_def res(2) map_key_row_upd)
  moreover have "row_get fa_id i (aw_assets w') = Some (?f a)" "j \<noteq> i \<Longrightarrow> row_get fa_id j (aw_assets w') = row_get fa_id j (aw_assets w)" for j
    using assms(2) keep by (simp_all add: res(2) row_get_upd_same row_get_upd_other)
  ultimately show ?thesis using res False by blast
qed

lemma for_each_Cons_run:
  "for_each f (i # ids) s = (case f i s of (Inl e, s') \<Rightarrow> (Inl e, s') | (Inr u, s') \<Rightarrow> for_each f ids s')"
  by (auto split: prod.splits sum.splits)

text \<open>Posting lines that are open, one after the other.\<close>

lemma post_loop:
  assumes "assets_ok w" "row_get fa_id i (aw_assets w) = Some a" "fa_state a \<noteq> AsDraft"
    and "set ls \<subseteq> set (fa_lines a)" "distinct (map dl_id ls)" "\<forall>l \<in> set ls. dl_move l = None"
    and "for_each (post_depreciation_entry e i) ls w = (x, w')"
  shows "(x = Inr () \<or> x = Inl EntryRefused) \<and> assets_ok w' \<and> (\<forall>j. j \<noteq> i \<longrightarrow> row_get fa_id j (aw_assets w') = row_get fa_id j (aw_assets w)) \<and>
     (\<exists>k. row_get fa_id i (aw_assets w') = Some (a\<lparr>fa_lines := k\<rparr>) \<and> (x = Inr () \<longrightarrow> progress (dl_id ` set ls) (fa_lines a) k)) \<and>
     (x = Inr () \<longrightarrow> (\<forall>l \<in> set ls. \<exists>n. \<not> ae_refused e ((depreciation_entry a l)\<lparr>ee_id := n\<rparr>))) \<and>
     (x = Inl EntryRefused \<longrightarrow> (\<exists>y. ae_refused e y))"
  using assms
proof (induction ls arbitrary: w a)
  case Nil
  then have run: "x = Inr ()" "w' = w" by simp_all
  have "\<exists>k. row_get fa_id i (aw_assets w) = Some (a\<lparr>fa_lines := k\<rparr>) \<and> progress {} (fa_lines a) k"
    using Nil.prems(2) progress_refl by (intro exI [of _ "fa_lines a"]) simp
  then show ?case using run Nil.prems(1) by simp
next
  case (Cons l ls)
  obtain y v where one: "post_depreciation_entry e i l w = (y, v)" by fastforce
  have l: "l \<in> set (fa_lines a)" "dl_move l = None" using Cons.prems(4,6) by simp_all
  from post_one [OF Cons.prems(1,2) l Cons.prems(3) one] show ?case
  proof (elim disjE conjE)
    assume y: "y = Inl EntryRefused" "v = w" "ae_refused e ((depreciation_entry a l)\<lparr>ee_id := aw_next w\<rparr>)"
    then have "x = Inl EntryRefused" "w' = w" using Cons.prems(7) one by (auto simp: for_each_Cons_run simp del: for_each.simps)
    moreover have "a = a\<lparr>fa_lines := fa_lines a\<rparr>" by simp
    ultimately have "\<exists>k. row_get fa_id i (aw_assets w') = Some (a\<lparr>fa_lines := k\<rparr>) \<and> (x = Inr () \<longrightarrow> progress (dl_id ` set (l # ls)) (fa_lines a) k)"
      using Cons.prems(2) by (metis Inl_Inr_False)
    then show ?thesis using \<open>x = _\<close> \<open>w' = w\<close> Cons.prems(1) y(3) by blast
  next
    assume y: "y = Inr ()" "assets_ok v" "row_get fa_id i (aw_assets v) = Some (set_line_move (dl_id l) (aw_next w) a)"
      "\<not> ae_refused e ((depreciation_entry a l)\<lparr>ee_id := aw_next w\<rparr>)"
      "\<forall>j. j \<noteq> i \<longrightarrow> row_get fa_id j (aw_assets v) = row_get fa_id j (aw_assets w)"
    let ?a = "set_line_move (dl_id l) (aw_next w) a"
    have rest: "for_each (post_depreciation_entry e i) ls v = (x, w')"
      using Cons.prems(7) one y(1) by (simp add: for_each_Cons_run del: for_each.simps)
    have sub: "set ls \<subseteq> set (fa_lines ?a)"
    proof
      fix k assume "k \<in> set ls"
      then have "k \<in> set (fa_lines a)" "dl_id k \<noteq> dl_id l" using Cons.prems(4,5) by (auto simp: image_iff)
      then show "k \<in> set (fa_lines ?a)" unfolding set_line_move_def by (force simp: in_set_row_upd)
    qed
    have state: "fa_state ?a \<noteq> AsDraft" using Cons.prems(3) by (simp add: set_line_move_def)
    have entry: "depreciation_entry ?a k = depreciation_entry a k" for k by (simp add: depreciation_entry_def set_line_move_def)
    from Cons.IH [OF y(2,3) state sub _ _ rest] Cons.prems(5,6) obtain k where ih:
      "x = Inr () \<or> x = Inl EntryRefused" "assets_ok w'" "\<forall>j. j \<noteq> i \<longrightarrow> row_get fa_id j (aw_assets w') = row_get fa_id j (aw_assets v)"
      "row_get fa_id i (aw_assets w') = Some (?a\<lparr>fa_lines := k\<rparr>)" "x = Inr () \<longrightarrow> progress (dl_id ` set ls) (fa_lines ?a) k"
      "x = Inr () \<longrightarrow> (\<forall>l \<in> set ls. \<exists>n. \<not> ae_refused e ((depreciation_entry ?a l)\<lparr>ee_id := n\<rparr>))"
      "x = Inl EntryRefused \<longrightarrow> (\<exists>y. ae_refused e y)" by auto
    have p: "progress {dl_id l} (fa_lines a) (fa_lines ?a)" by (simp add: set_line_move_def progress_one)
    have "?a\<lparr>fa_lines := k\<rparr> = a\<lparr>fa_lines := k\<rparr>" by (simp add: set_line_move_def)
    moreover have "x = Inr () \<longrightarrow> progress (dl_id ` set (l # ls)) (fa_lines a) k"
      using progress_trans [OF p] ih(5) by fastforce
    ultimately have made: "\<exists>k. row_get fa_id i (aw_assets w') = Some (a\<lparr>fa_lines := k\<rparr>) \<and> (x = Inr () \<longrightarrow> progress (dl_id ` set (l # ls)) (fa_lines a) k)"
      using ih(4) by auto
    have "\<forall>j. j \<noteq> i \<longrightarrow> row_get fa_id j (aw_assets w') = row_get fa_id j (aw_assets w)" using ih(3) y(5) by simp
    moreover have "x = Inr () \<longrightarrow> (\<forall>l \<in> set (l # ls). \<exists>n. \<not> ae_refused e ((depreciation_entry a l)\<lparr>ee_id := n\<rparr>))"
      using ih(6) y(4) unfolding entry by (metis set_ConsD)
    ultimately show ?thesis using ih(1,2,7) made by (intro conjI)
  qed
qed

lemma due_lines_props:
  "set (due_lines e a) = {l \<in> set (fa_lines a). dl_move l = None \<and> dl_date l \<le> ae_today e}"
  "distinct (map dl_id (fa_lines a)) \<Longrightarrow> distinct (map dl_id (due_lines e a))"
proof -
  show "set (due_lines e a) = {l \<in> set (fa_lines a). dl_move l = None \<and> dl_date l \<le> ae_today e}"
    by (auto simp: due_lines_def)
  assume d: "distinct (map dl_id (fa_lines a))"
  then have "distinct (fa_lines a)" "inj_on dl_id (set (fa_lines a))" by (simp_all add: distinct_map)
  then have "distinct (due_lines e a)" "inj_on dl_id (set (due_lines e a))" by (auto simp: due_lines_def inj_on_def)
  then show "distinct (map dl_id (due_lines e a))" by (simp add: distinct_map)
qed

text \<open>A run over one asset: it raises only when the accounting refuses an entry.\<close>

lemma post_asset_run:
  assumes "assets_ok w" "row_get fa_id i (aw_assets w) = Some a" "post_asset e i w = (x, w')"
  shows "(x = Inr () \<or> x = Inl EntryRefused \<and> (\<exists>y. ae_refused e y)) \<and> assets_ok w' \<and>
     (\<forall>j. j \<noteq> i \<longrightarrow> row_get fa_id j (aw_assets w') = row_get fa_id j (aw_assets w)) \<and>
     (x = Inr () \<and> fa_state a = AsRunning \<longrightarrow>
        (\<forall>l \<in> set (due_lines e a). \<exists>n. \<not> ae_refused e ((depreciation_entry a l)\<lparr>ee_id := n\<rparr>)) \<and>
        (\<exists>k. progress (dl_id ` set (due_lines e a)) (fa_lines a) k \<and>
          row_get fa_id i (aw_assets w') = Some (a\<lparr>fa_lines := k, fa_state :=
            (if book_value (a\<lparr>fa_lines := k\<rparr>) \<le> fa_salvage a then AsClosed else AsRunning)\<rparr>)))"
proof (cases "fa_state a = AsRunning")
  case False
  with assms show ?thesis by (simp add: post_asset_def with_asset_def)
next
  case True
  obtain y v where loop: "for_each (post_depreciation_entry e i) (due_lines e a) w = (y, v)" by fastforce
  have a: "distinct (map dl_id (fa_lines a))" using row_asset [OF assms(1,2)] by (simp add: asset_ok_def)
  have state: "fa_state a \<noteq> AsDraft" using True by simp
  have "set (due_lines e a) \<subseteq> set (fa_lines a)" "\<forall>l \<in> set (due_lines e a). dl_move l = None"
    by (auto simp: due_lines_props)
  from post_loop [OF assms(1,2) state this(1) due_lines_props(2) [OF a] this(2) loop] obtain k where v:
    "y = Inr () \<or> y = Inl EntryRefused" "assets_ok v" "\<forall>j. j \<noteq> i \<longrightarrow> row_get fa_id j (aw_assets v) = row_get fa_id j (aw_assets w)"
    "row_get fa_id i (aw_assets v) = Some (a\<lparr>fa_lines := k\<rparr>)" "y = Inr () \<longrightarrow> progress (dl_id ` set (due_lines e a)) (fa_lines a) k"
    "y = Inr () \<longrightarrow> (\<forall>l \<in> set (due_lines e a). \<exists>n. \<not> ae_refused e ((depreciation_entry a l)\<lparr>ee_id := n\<rparr>))"
    "y = Inl EntryRefused \<longrightarrow> (\<exists>y. ae_refused e y)" by blast
  let ?finish = "with_asset i (\<lambda>a'. if book_value a' \<le> fa_salvage a' then close_asset i else act_return ())"
  have run: "post_asset e i w = (case y of Inl z \<Rightarrow> (Inl z, v) | Inr u \<Rightarrow> ?finish v)"
    using assms(2) True loop by (auto simp: post_asset_def with_asset_def split: sum.splits)
  show ?thesis
  proof (cases y)
    case (Inl z)
    then have "x = Inl z" "w' = v" using run assms(3) by simp_all
    moreover have "z = EntryRefused" using v(1) Inl by simp
    ultimately show ?thesis using v(2,3,7) Inl by blast
  next
    case (Inr u)
    have finish_run_eq: "(x, w') = (Inr (), if book_value (a\<lparr>fa_lines := k\<rparr>) \<le> fa_salvage a
        then write_asset i (\<lambda>a. a\<lparr>fa_state := AsClosed\<rparr>) v else v)"
      using run Inr assms(3) v(4) True by (auto simp: with_asset_def close_asset_def)
    have "row_get fa_id i (aw_assets w') = Some (a\<lparr>fa_lines := k, fa_state := (if book_value (a\<lparr>fa_lines := k\<rparr>) \<le> fa_salvage a then AsClosed else AsRunning)\<rparr>)"
      using finish_run_eq v(4) True by (auto simp: row_get_upd_same)
    moreover have "j \<noteq> i \<Longrightarrow> row_get fa_id j (aw_assets w') = row_get fa_id j (aw_assets w)" for j
      using finish_run_eq v(3) by (auto simp: row_get_upd_other split: if_splits)
    moreover have "assets_ok w'" using finish_run_eq v(2) state_ok [OF v(2,4)] by (auto split: if_splits)
    moreover have "x = Inr ()" using finish_run_eq by simp
    moreover have "\<forall>l \<in> set (due_lines e a). \<exists>n. \<not> ae_refused e ((depreciation_entry a l)\<lparr>ee_id := n\<rparr>)"
      "progress (dl_id ` set (due_lines e a)) (fa_lines a) k" using v(5,6) Inr by simp_all
    ultimately show ?thesis by blast
  qed
qed

lemma post_asset_ok: "assets_ok w \<Longrightarrow> assets_ok (snd (post_asset e i w))"
proof -
  assume w: "assets_ok w"
  obtain x w' where run: "post_asset e i w = (x, w')" by fastforce
  show ?thesis
  proof (cases "row_get fa_id i (aw_assets w)")
    case None
    with w show ?thesis by (simp add: post_asset_def with_asset_def)
  next
    case (Some a)
    from post_asset_run [OF w this run] run show ?thesis by simp
  qed
qed

lemmas workflow_ok = confirm_ok close_ok reset_ok dispose_ok post_asset_ok

lemma many_ok:
  assumes "\<And>i w. assets_ok w \<Longrightarrow> assets_ok (snd (f i w))" "assets_ok w"
  shows "assets_ok (snd (rolled_back (for_each f ids) w))"
  by (rule rolled_back_inv [where I = assets_ok, OF for_each_inv [where I = assets_ok] assms(2)]) (use assms(1) in blast)

lemma number_assets_props:
  "number_assets e n i as = (bs, k) \<Longrightarrow> map fa_id bs = [i..<i + length as] \<and> length bs = length as \<and>
     (\<forall>b \<in> set bs. \<exists>a \<in> set as. fa_lines b = fa_lines a \<and> fa_state b = fa_state a)"
proof (induction as arbitrary: n i bs k)
  case (Cons a as)
  let ?n = "if fa_code a = ''New'' then n + 1 else n"
  let ?b = "a\<lparr>fa_id := i, fa_code := (if fa_code a = ''New'' then py_or (ae_sequence e n) ''New'' else fa_code a)\<rparr>"
  obtain cs k' where cs: "number_assets e ?n (i + 1) as = (cs, k')" by fastforce
  have bs: "bs = ?b # cs" using Cons.prems cs by (cases "fa_code a = ''New''") auto
  with Cons.IH [OF cs] upt_conv_Cons [of i "i + length (a # as)"] show ?case by (auto simp del: upt_Suc)
qed simp

text \<open>New assets have no lines yet.\<close>

lemma create_ok:
  assumes "assets_ok w" "\<forall>a \<in> set as. fa_lines a = []"
  shows "assets_ok (snd (create_assets e as w))"
proof -
  obtain bs k where n: "number_assets e (aw_sequence w) (aw_next w) as = (bs, k)" by fastforce
  let ?w = "w\<lparr>aw_assets := aw_assets w @ bs, aw_next := aw_next w + length bs, aw_sequence := k\<rparr>"
  from number_assets_props [OF n] have ids: "map fa_id bs = [aw_next w..<aw_next w + length bs]"
    and lines: "\<forall>b \<in> set bs. fa_lines b = []" using assms(2) by auto
  have range: "aw_next w \<le> fa_id b \<and> fa_id b < aw_next w + length bs" if "b \<in> set bs" for b
  proof -
    have "fa_id b \<in> set (map fa_id bs)" using that by simp
    then show ?thesis by (simp only: ids set_upt) simp
  qed
  have "asset_ok ?w b" if "b \<in> set bs" for b
    using range [OF that] lines that assms(1)
    by (simp add: asset_ok_def accumulated_depreciation_def posted_lines_def assets_ok_def ledger_def)
  moreover have "asset_ok ?w b" if "b \<in> set (aw_assets w)" for b
    using that assms(1) by (auto simp: assets_ok_def asset_ok_def ledger_def intro: trans_less_add1)
  moreover have "distinct (map fa_id (aw_assets w @ bs))"
  proof -
    have "distinct (map fa_id bs)" by (simp add: ids)
    moreover have "fa_id a < aw_next w" if "a \<in> set (aw_assets w)" for a using that assms(1) by (simp add: assets_ok_def asset_ok_def)
    ultimately show ?thesis using assms(1) range by (fastforce simp: assets_ok_def)
  qed
  moreover have "ledger i ?w = ledger i w" for i by (simp add: ledger_def)
  ultimately have "assets_ok ?w" using assms(1) by (auto simp: assets_ok_def)
  then show ?thesis using assms(1) n by (auto simp: create_assets_def split: list.split)
qed

section \<open>The monthly job\<close>

definition accepted :: "asset_env \<Rightarrow> fixed_asset \<Rightarrow> bool" where
  "accepted e a \<longleftrightarrow> (\<forall>l \<in> set (due_lines e a). \<exists>n. \<not> ae_refused e ((depreciation_entry a l)\<lparr>ee_id := n\<rparr>))"

definition posted_up_to :: "asset_env \<Rightarrow> fixed_asset \<Rightarrow> fixed_asset \<Rightarrow> bool" where
  "posted_up_to e a b \<longleftrightarrow> (\<exists>k. progress (dl_id ` set (due_lines e a)) (fa_lines a) k \<and>
     b = a\<lparr>fa_lines := k, fa_state := (if book_value (a\<lparr>fa_lines := k\<rparr>) \<le> fa_salvage a then AsClosed else AsRunning)\<rparr>)"

lemma post_assets_run:
  assumes "assets_ok w" "distinct ids" "\<forall>j \<in> set ids. row_get fa_id j (aw_assets w) \<noteq> None"
    and "for_each (post_asset e) ids w = (x, w')"
  shows "(x = Inr () \<or> x = Inl EntryRefused \<and> (\<exists>y. ae_refused e y)) \<and>
     (\<forall>j. j \<notin> set ids \<longrightarrow> row_get fa_id j (aw_assets w') = row_get fa_id j (aw_assets w)) \<and>
     (x = Inr () \<longrightarrow> (\<forall>j \<in> set ids. \<forall>a. row_get fa_id j (aw_assets w) = Some a \<and> fa_state a = AsRunning \<longrightarrow>
        accepted e a \<and> (\<exists>b. row_get fa_id j (aw_assets w') = Some b \<and> posted_up_to e a b)))"
  using assms
proof (induction ids arbitrary: w)
  case (Cons i ids)
  obtain y v where head: "post_asset e i w = (y, v)" by fastforce
  obtain a where a: "row_get fa_id i (aw_assets w) = Some a" using Cons.prems(3) by auto
  note one = post_asset_run [OF Cons.prems(1) a head]
  show ?case
  proof (cases y)
    case (Inl z)
    then have "x = Inl z" "w' = v" using Cons.prems(4) head by (simp_all add: for_each_Cons_run del: for_each.simps)
    with one Inl show ?thesis by auto
  next
    case (Inr u)
    have rest: "for_each (post_asset e) ids v = (x, w')"
      using Cons.prems(4) head Inr by (simp add: for_each_Cons_run del: for_each.simps)
    have same: "row_get fa_id j (aw_assets v) = row_get fa_id j (aw_assets w)" if "j \<noteq> i" for j using one that by simp
    have ids: "i \<notin> set ids" "distinct ids" using Cons.prems(2) by simp_all
    then have "\<forall>j \<in> set ids. row_get fa_id j (aw_assets v) \<noteq> None" using Cons.prems(3) same by (metis list.set_intros(2))
    from Cons.IH [OF _ ids(2) this rest] one have later:
      "x = Inr () \<or> x = Inl EntryRefused \<and> (\<exists>y. ae_refused e y)"
      "\<forall>j. j \<notin> set ids \<longrightarrow> row_get fa_id j (aw_assets w') = row_get fa_id j (aw_assets v)"
      "x = Inr () \<longrightarrow> (\<forall>j \<in> set ids. \<forall>a. row_get fa_id j (aw_assets v) = Some a \<and> fa_state a = AsRunning \<longrightarrow>
        accepted e a \<and> (\<exists>b. row_get fa_id j (aw_assets w') = Some b \<and> posted_up_to e a b))" by blast+
    have "accepted e a \<and> (\<exists>b. row_get fa_id i (aw_assets v) = Some b \<and> posted_up_to e a b)" if "fa_state a = AsRunning"
      using one Inr that unfolding accepted_def posted_up_to_def by blast
    then have here: "accepted e a \<and> (\<exists>b. row_get fa_id i (aw_assets w') = Some b \<and> posted_up_to e a b)" if "fa_state a = AsRunning"
      using that later(2) ids(1) by simp
    have "accepted e b \<and> (\<exists>c. row_get fa_id j (aw_assets w') = Some c \<and> posted_up_to e b c)"
      if j: "j \<in> set (i # ids)" "row_get fa_id j (aw_assets w) = Some b" "fa_state b = AsRunning" "x = Inr ()" for j b
    proof (cases "j = i")
      case True
      with j a here show ?thesis by simp
    next
      case False
      with j same later(3) show ?thesis by simp
    qed
    moreover have "\<forall>j. j \<notin> set (i # ids) \<longrightarrow> row_get fa_id j (aw_assets w') = row_get fa_id j (aw_assets w)"
      using later(2) same by simp
    ultimately show ?thesis using later(1) by blast
  qed
qed simp

lemma running_ids_props:
  assumes "assets_ok w"
  shows "distinct (running_ids w)" "\<forall>j \<in> set (running_ids w). row_get fa_id j (aw_assets w) \<noteq> None"
    "row_get fa_id i (aw_assets w) = Some a \<Longrightarrow> fa_state a = AsRunning \<Longrightarrow> i \<in> set (running_ids w)"
proof -
  show "distinct (running_ids w)" using assms by (simp add: running_ids_def assets_ok_def distinct_map_filter)
  show "\<forall>j \<in> set (running_ids w). row_get fa_id j (aw_assets w) \<noteq> None" by (auto simp: running_ids_def row_get_None)
  assume "row_get fa_id i (aw_assets w) = Some a" "fa_state a = AsRunning"
  then show "i \<in> set (running_ids w)" using row_get_in_set by (fastforce simp: running_ids_def)
qed

lemma cron_run:
  assumes "assets_ok w" "cron_post_depreciation e w = (x, w')"
  shows "(x = Inl EntryRefused \<and> w' = w \<and> (\<exists>y. ae_refused e y)) \<or>
     (x = Inr () \<and> (\<forall>i a. row_get fa_id i (aw_assets w) = Some a \<and> fa_state a = AsRunning \<longrightarrow>
        accepted e a \<and> (\<exists>b. row_get fa_id i (aw_assets w') = Some b \<and> posted_up_to e a b)))"
proof -
  obtain y v where run: "for_each (post_asset e) (running_ids w) w = (y, v)" by fastforce
  have out: "(x, w') = (case y of Inl z \<Rightarrow> (Inl z, w) | Inr u \<Rightarrow> (Inr u, v))"
    using assms(2) run by (auto simp: cron_post_depreciation_def action_post_depreciation_def rolled_back_def split: sum.splits)
  note all = post_assets_run [OF assms(1) running_ids_props(1,2) [OF assms(1)] run]
  show ?thesis
  proof (cases y)
    case (Inl z)
    with out all show ?thesis by auto
  next
    case (Inr u)
    with out have "x = Inr ()" "w' = v" by auto
    with all Inr running_ids_props(3) [OF assms(1)] show ?thesis by blast
  qed
qed

text \<open>When every line is due, all of the schedule is posted.\<close>

lemma progress_all: "progress A ls k \<Longrightarrow> dl_id ` set ls \<subseteq> A \<Longrightarrow> filter (\<lambda>l. dl_move l \<noteq> None) k = k \<and> map dl_amount k = map dl_amount ls"
  unfolding progress_def by (induction ls k rule: list_all2_induct) auto

lemma all_due_closes:
  assumes "posted_up_to e a b" "\<forall>l \<in> set (fa_lines a). dl_move l = None \<and> dl_date l \<le> ae_today e"
    and "sum_list (map dl_amount (fa_lines a)) = depreciable_value a"
  shows "fa_state b = AsClosed \<and> book_value b = fa_salvage b"
proof -
  obtain k where k: "progress (dl_id ` set (due_lines e a)) (fa_lines a) k"
    "b = a\<lparr>fa_lines := k, fa_state := (if book_value (a\<lparr>fa_lines := k\<rparr>) \<le> fa_salvage a then AsClosed else AsRunning)\<rparr>"
    using assms(1) unfolding posted_up_to_def by blast
  have "dl_id ` set (fa_lines a) \<subseteq> dl_id ` set (due_lines e a)" using assms(2) by (auto simp: due_lines_props(1))
  from progress_all [OF k(1) this] have "accumulated_depreciation (a\<lparr>fa_lines := k\<rparr>) = depreciable_value a"
    using assms(3) by (simp add: accumulated_depreciation_def posted_lines_def)
  then have "book_value (a\<lparr>fa_lines := k\<rparr>) = fa_salvage a" by (simp add: book_value_def depreciable_value_def)
  moreover have "book_value b = book_value (a\<lparr>fa_lines := k\<rparr>)"
    using k(2) by (simp add: book_value_def accumulated_depreciation_def posted_lines_def)
  ultimately show ?thesis using k(2) by simp
qed

lemma months_from_mono: "m \<le> n \<Longrightarrow> set (months_from d m) \<subseteq> set (months_from d n)"
proof (induction m arbitrary: d n)
  case (Suc m)
  then obtain k where "n = Suc k" "m \<le> k" by (cases n) auto
  with Suc.IH show ?case by auto
qed simp

lemma number_lines_shape: "length (number_lines i ls) = length ls" "map dl_sequence (number_lines i ls) = map dl_sequence ls"
  by (induction ls arbitrary: i) auto

section \<open>What a confirmed asset looks like\<close>

lemma confirm_run:
  assumes "row_get fa_id i (aw_assets w) = Some a" "confirm_asset i w = (Inr (), w')"
  shows "fa_state a = AsDraft \<and> fa_journal a \<noteq> None \<and> fa_asset_account a \<noteq> None \<and> fa_depreciation_account a \<noteq> None \<and> fa_expense_account a \<noteq> None \<and>
     row_get fa_id i (aw_assets w') = Some (a\<lparr>fa_state := AsRunning, fa_lines := posted_lines a @ number_lines (aw_next w) (new_schedule a)\<rparr>)"
proof -
  have same: "new_schedule (a\<lparr>fa_state := AsRunning\<rparr>) = new_schedule a" "posted_lines (a\<lparr>fa_state := AsRunning\<rparr>) = posted_lines a"
    by (simp_all add: new_schedule_def depreciable_value_def first_period_def posted_lines_def Let_def cong: if_cong depr_method.case_cong)
  show ?thesis using assms
    by (auto simp: confirm_asset_def with_asset_def generate_schedule_def row_get_upd_same same split: if_splits)
qed

text \<open>The steps of the component; each may see another day, another sequence and another accounting.\<close>

inductive asset_step :: "asset_world \<Rightarrow> asset_world \<Rightarrow> bool" where
  "\<forall>a \<in> set as. fa_lines a = [] \<Longrightarrow> asset_step w (snd (create_assets e as w))"
| "asset_step w (snd (action_confirm_assets ids w))"
| "asset_step w (snd (action_close_assets ids w))"
| "asset_step w (snd (action_set_to_draft ids w))"
| "asset_step w (snd (action_dispose e ids w))"
| "asset_step w (snd (action_post_depreciation e ids w))"
| "asset_step w (snd (cron_post_depreciation e w))"

definition no_assets :: asset_world where
  "no_assets = \<lparr>aw_assets = [], aw_entries = [], aw_maintenance = [], aw_next = 0, aw_sequence = 0\<rparr>"

lemma asset_step_ok: "asset_step w v \<Longrightarrow> assets_ok w \<Longrightarrow> assets_ok v"
  by (induction rule: asset_step.induct)
    (simp_all add: create_ok many_ok workflow_ok action_confirm_assets_def action_close_assets_def action_set_to_draft_def
      action_dispose_def action_post_depreciation_def cron_post_depreciation_def)

lemma reachable_ok: "asset_step\<^sup>*\<^sup>* no_assets w \<Longrightarrow> assets_ok w"
proof (induction rule: rtranclp_induct)
  case base
  then show ?case by (simp add: assets_ok_def no_assets_def ledger_def)
qed (rule asset_step_ok)

section \<open>Properties\<close>

lemma draft_unposted: "assets_ok w \<Longrightarrow> row_get fa_id i (aw_assets w) = Some a \<Longrightarrow> fa_state a = AsDraft \<Longrightarrow> posted_lines a = []"
  using row_asset [of w i a] by (simp add: asset_ok_def)

text \<open>An example: 1000.00 over three months, 100.00 left.\<close>

definition laptop :: fixed_asset where
  "laptop = \<lparr>fa_id = 0, fa_code = ''New'', fa_purchase_date = Date 2024 1 15, fa_purchase = 1000, fa_salvage = 100,
     fa_method = Linear, fa_life = 3, fa_factor = 2, fa_journal = Some 1, fa_asset_account = Some 2,
     fa_depreciation_account = Some 3, fa_expense_account = Some 4, fa_state = AsDraft, fa_disposal_date = None,
     fa_disposal_move = None, fa_lines = []\<rparr>"

definition books_open :: asset_env where
  "books_open = \<lparr>ae_today = Date 2024 6 30, ae_sequence = (\<lambda>n. None), ae_refused = (\<lambda>x. False)\<rparr>"

definition books_closed :: asset_env where
  "books_closed = books_open\<lparr>ae_refused := (\<lambda>x. True)\<rparr>"

definition with_laptop :: asset_world where
  "with_laptop = snd (create_assets books_open [laptop] no_assets)"

lemma laptop_row: "row_get fa_id 0 (aw_assets with_laptop) = Some laptop"
  by (simp add: with_laptop_def create_assets_def laptop_def no_assets_def books_open_def check_assets_def check_purchase_value_def
      check_salvage_value_def check_useful_life_def map_filter_simps row_simps py_or_def)

lemma laptop_reached: "asset_step\<^sup>*\<^sup>* no_assets with_laptop"
  unfolding with_laptop_def by (rule r_into_rtranclp [where r = asset_step], rule asset_step.intros(1)) (simp add: laptop_def)

lemma laptop_checked: "check_assets [laptop] = []" "to_digits 2 (depreciable_value laptop)"
proof -
  show "check_assets [laptop] = []"
    by (simp add: check_assets_def check_purchase_value_def check_salvage_value_def check_useful_life_def laptop_def map_filter_simps)
  have "depreciable_value laptop = 900" by (simp add: depreciable_value_def laptop_def)
  then show "to_digits 2 (depreciable_value laptop)" by (simp add: to_digits_def)
qed

lemma laptop_confirmed: "\<exists>w'. confirm_asset 0 with_laptop = (Inr (), w')"
proof -
  have "fst (confirm_asset 0 with_laptop) = Inr ()"
    by (simp add: confirm_asset_def with_asset_def laptop_row generate_schedule_def row_get_upd_same) (simp add: laptop_def)
  then show ?thesis by (metis prod.collapse)
qed

lemma laptop_running:
  "\<exists>w1 b. confirm_asset 0 with_laptop = (Inr (), w1) \<and> row_get fa_id 0 (aw_assets w1) = Some b \<and> fa_state b = AsRunning \<and>
     sum_list (map dl_amount (fa_lines b)) = 900 \<and> posted_lines b = [] \<and> length (fa_lines b) \<le> 3 \<and>
     map dl_date (fa_lines b) = months_from (first_period laptop) (length (fa_lines b)) \<and> b = laptop\<lparr>fa_state := AsRunning, fa_lines := fa_lines b\<rparr>"
proof -
  let ?ls = "number_lines (aw_next with_laptop) (new_schedule laptop)"
  obtain w1 where w1: "confirm_asset 0 with_laptop = (Inr (), w1)" using laptop_confirmed by blast
  have "posted_lines laptop = []" by (simp add: posted_lines_def laptop_def)
  then have "row_get fa_id 0 (aw_assets w1) = Some (laptop\<lparr>fa_state := AsRunning, fa_lines := ?ls\<rparr>)"
    using confirm_run [OF laptop_row w1] by simp
  moreover have "posted_lines (laptop\<lparr>fa_state := AsRunning, fa_lines := ?ls\<rparr>) = []"
    using number_lines_open by (auto simp: posted_lines_def filter_empty_conv)
  moreover have "depreciable_value laptop = 900" "nat (fa_life laptop) = 3" by (simp_all add: depreciable_value_def laptop_def)
  ultimately show ?thesis using w1 new_schedule_props(1-3) [OF laptop_checked]
    by (intro exI [of _ w1] exI [of _ "laptop\<lparr>fa_state := AsRunning, fa_lines := ?ls\<rparr>"]) (simp add: number_lines_props number_lines_shape)
qed

text \<open>
  C25: confirming an asset that passed its checks writes the whole depreciable value into the schedule.
\<close>

theorem schedule_adds_up:
  assumes "asset_step\<^sup>*\<^sup>* no_assets w" "row_get fa_id i (aw_assets w) = Some a"
    and "check_assets [a] = []" "to_digits 2 (depreciable_value a)" "confirm_asset i w = (Inr (), w')"
  shows "\<exists>b. row_get fa_id i (aw_assets w') = Some b \<and> fa_state b = AsRunning \<and>
     sum_list (map dl_amount (fa_lines b)) = fa_purchase a - fa_salvage a \<and> length (fa_lines b) \<le> nat (fa_life a) \<and>
     map dl_date (fa_lines b) = months_from (first_period a) (length (fa_lines b)) \<and>
     map dl_sequence (fa_lines b) = [1..<length (fa_lines b) + 1] \<and> posted_lines b = []"
proof -
  let ?ls = "number_lines (aw_next w) (new_schedule a)"
  have "fa_state a = AsDraft" using confirm_run [OF assms(2,5)] by simp
  then have "posted_lines a = []" using draft_unposted [OF reachable_ok [OF assms(1)] assms(2)] by simp
  then have b: "row_get fa_id i (aw_assets w') = Some (a\<lparr>fa_state := AsRunning, fa_lines := ?ls\<rparr>)"
    using confirm_run [OF assms(2,5)] by simp
  have "posted_lines (a\<lparr>fa_state := AsRunning, fa_lines := ?ls\<rparr>) = []"
    using number_lines_open by (auto simp: posted_lines_def filter_empty_conv)
  with b new_schedule_props(1-4) [OF assms(3,4)] show ?thesis
    by (simp add: number_lines_props number_lines_shape depreciable_value_def)
qed

theorem schedule_adds_up_witness: "\<exists>w' b. confirm_asset 0 with_laptop = (Inr (), w') \<and> row_get fa_id 0 (aw_assets w') = Some b \<and>
   sum_list (map dl_amount (fa_lines b)) = 900"
proof -
  obtain w' where w': "confirm_asset 0 with_laptop = (Inr (), w')" using laptop_confirmed by blast
  from schedule_adds_up [OF laptop_reached laptop_row laptop_checked w'] w' show ?thesis by (auto simp: laptop_def)
qed





text \<open>
  one due line whose entry the accounting refuses stops the job for all assets.
\<close>

theorem refused_entry_blocks_all:
  assumes "asset_step\<^sup>*\<^sup>* no_assets w" "row_get fa_id i (aw_assets w) = Some a" "fa_state a = AsRunning"
    and "l \<in> set (due_lines e a)" "\<forall>n. ae_refused e ((depreciation_entry a l)\<lparr>ee_id := n\<rparr>)"
  shows "cron_post_depreciation e w = (Inl EntryRefused, w)"
proof -
  obtain x w' where run: "cron_post_depreciation e w = (x, w')" by fastforce
  have "\<not> accepted e a" using assms(4,5) unfolding accepted_def by blast
  with cron_run [OF reachable_ok [OF assms(1)] run] assms(2,3) show ?thesis using run by blast
qed

theorem refused_entry_blocks_all_witness: "\<exists>w1. asset_step\<^sup>*\<^sup>* no_assets w1 \<and> fa_id laptop \<in> set (running_ids w1) \<and> cron_post_depreciation books_closed w1 = (Inl EntryRefused, w1)"
proof -
  obtain w1 b where w1: "confirm_asset 0 with_laptop = (Inr (), w1)" "row_get fa_id 0 (aw_assets w1) = Some b" "fa_state b = AsRunning"
    "sum_list (map dl_amount (fa_lines b)) = 900" "posted_lines b = []"
    and dates: "length (fa_lines b) \<le> 3" "map dl_date (fa_lines b) = months_from (first_period laptop) (length (fa_lines b))"
    using laptop_running by blast
  have reached: "asset_step\<^sup>*\<^sup>* no_assets w1"
    using laptop_reached asset_step.intros(2) [of with_laptop "[0]"] w1(1) by (simp add: action_confirm_assets_def rolled_back_def)
  have "fa_lines b \<noteq> []" using w1(4) by auto
  then obtain l where l: "l \<in> set (fa_lines b)" using hd_in_set by blast
  have "dl_date l \<in> set (months_from (first_period laptop) (length (fa_lines b)))" using l by (simp flip: dates(2))
  then have "dl_date l \<in> set (months_from (first_period laptop) 3)" using months_from_mono [OF dates(1)] by blast
  moreover have "\<forall>d \<in> set (months_from (first_period laptop) 3). d \<le> ae_today books_closed" by code_simp
  moreover have "dl_move l = None" using l w1(5) by (auto simp: posted_lines_def filter_empty_conv)
  ultimately have "l \<in> set (due_lines books_closed b)" using l by (simp add: due_lines_props(1))
  from refused_entry_blocks_all [OF reached w1(2,3) this] have "cron_post_depreciation books_closed w1 = (Inl EntryRefused, w1)"
    by (simp add: books_closed_def)
  moreover have "fa_id laptop \<in> set (running_ids w1)"
    using running_ids_props(3) [OF reachable_ok [OF reached] w1(2,3)] by (simp add: laptop_def)
  ultimately show ?thesis using reached by blast
qed

text \<open>
  an asset disposed of before its first entry can be reset, confirmed and disposed of again; its value leaves the books twice.
\<close>

theorem disposed_twice:
  assumes "row_get fa_id i (aw_assets w) = Some a" "fa_state a = AsRunning \<or> fa_state a = AsClosed" "posted_lines a = []"
    and "0 < fa_purchase a" "fa_journal a \<noteq> None" "fa_asset_account a \<noteq> None" "fa_depreciation_account a \<noteq> None" "fa_expense_account a \<noteq> None"
    and "\<forall>x. \<not> ae_refused e x"
  shows "\<exists>w'. act_seq (action_dispose e [i]) (act_seq (action_set_to_draft [i]) (act_seq (action_confirm_assets [i]) (action_dispose e [i]))) w = (Inr (), w') \<and>
     map ee_lines (filter (\<lambda>x. ee_ref x = DisposalOf i) (aw_entries w')) =
     map ee_lines (filter (\<lambda>x. ee_ref x = DisposalOf i) (aw_entries w)) @
       replicate 2 [(fa_depreciation_account a, 0, 0), (fa_expense_account a, fa_purchase a, 0), (fa_asset_account a, 0, fa_purchase a)]"
proof -
  have i: "fa_id a = i" using row_get_in_set [OF assms(1)] by simp
  have dispose: "\<exists>w'. action_dispose e [i] v = (Inr (), w') \<and> aw_entries w' = aw_entries v @ [(disposal_entry e b)\<lparr>ee_id := aw_next v\<rparr>] \<and>
      row_get fa_id i (aw_assets w') = Some (b\<lparr>fa_state := AsDisposed, fa_disposal_date := Some (ae_today e), fa_disposal_move := Some (aw_next v)\<rparr>)"
    if "row_get fa_id i (aw_assets v) = Some b" "fa_state b = AsRunning \<or> fa_state b = AsClosed" "0 < book_value b" for v b
    using that assms(9)
    by (auto simp: action_dispose_def rolled_back_def dispose_asset_def with_asset_def post_entry_run with_entry_def row_get_upd_same)
  have worth: "book_value a = fa_purchase a" "accumulated_depreciation a = 0" using assms(3) by (simp_all add: book_value_def accumulated_depreciation_def)
  let ?a1 = "a\<lparr>fa_state := AsDisposed, fa_disposal_date := Some (ae_today e), fa_disposal_move := Some (aw_next w)\<rparr>"
  from dispose [OF assms(1,2)] worth assms(4) obtain w1 where w1: "action_dispose e [i] w = (Inr (), w1)"
    "aw_entries w1 = aw_entries w @ [(disposal_entry e a)\<lparr>ee_id := aw_next w\<rparr>]" "row_get fa_id i (aw_assets w1) = Some ?a1" by auto
  let ?a2 = "?a1\<lparr>fa_lines := [], fa_state := AsDraft\<rparr>"
  have "posted_lines ?a1 = []" using assms(3) by (simp add: posted_lines_def)
  then obtain w2 where w2: "action_set_to_draft [i] w1 = (Inr (), w2)" "aw_entries w2 = aw_entries w1" "row_get fa_id i (aw_assets w2) = Some ?a2"
    using w1(3) by (auto simp: action_set_to_draft_def rolled_back_def reset_asset_def with_asset_def row_get_upd_same)
  let ?ls = "number_lines (aw_next w2) (new_schedule ?a2)"
  let ?a3 = "?a2\<lparr>fa_state := AsRunning, fa_lines := ?ls\<rparr>"
  obtain w3 where c: "confirm_asset i w2 = (Inr (), w3)" "aw_entries w3 = aw_entries w2"
    using w2(3) assms(5-8) by (auto simp: confirm_asset_def with_asset_def generate_schedule_def row_get_upd_same)
  then have w3: "action_confirm_assets [i] w2 = (Inr (), w3)" by (simp add: action_confirm_assets_def rolled_back_def)
  have "row_get fa_id i (aw_assets w3) = Some ?a3" using confirm_run [OF w2(3) c(1)] by (simp add: posted_lines_def)
  moreover have "posted_lines ?a3 = []" using number_lines_open by (auto simp: posted_lines_def filter_empty_conv)
  then have worth3: "book_value ?a3 = fa_purchase a" "accumulated_depreciation ?a3 = 0" by (simp_all add: book_value_def accumulated_depreciation_def)
  ultimately obtain w4 where w4: "action_dispose e [i] w3 = (Inr (), w4)" "aw_entries w4 = aw_entries w3 @ [(disposal_entry e ?a3)\<lparr>ee_id := aw_next w3\<rparr>]"
    using dispose [of w3 ?a3] assms(4) by auto
  have "ee_ref (disposal_entry e b) = DisposalOf (fa_id b)" for b by (simp add: disposal_entry_def)
  then have "map ee_lines (filter (\<lambda>x. ee_ref x = DisposalOf i) (aw_entries w4)) =
     map ee_lines (filter (\<lambda>x. ee_ref x = DisposalOf i) (aw_entries w)) @ [ee_lines (disposal_entry e a), ee_lines (disposal_entry e ?a3)]"
    using i by (simp add: w4(2) c(2) w2(2) w1(2))
  moreover have "ee_lines (disposal_entry e a) = [(fa_depreciation_account a, 0, 0), (fa_expense_account a, fa_purchase a, 0), (fa_asset_account a, 0, fa_purchase a)]"
    "ee_lines (disposal_entry e ?a3) = ee_lines (disposal_entry e a)"
    using worth worth3 by (simp_all add: disposal_entry_def)
  ultimately show ?thesis using w1(1) w2(1) w3 w4(1) by (simp add: numeral_2_eq_2)
qed

theorem disposed_twice_witness: "\<exists>w1 w2. confirm_asset 0 with_laptop = (Inr (), w1) \<and>
   act_seq (action_dispose books_open [0]) (act_seq (action_set_to_draft [0]) (act_seq (action_confirm_assets [0]) (action_dispose books_open [0]))) w1 = (Inr (), w2) \<and>
   2 \<le> length (filter (\<lambda>x. ee_ref x = DisposalOf 0) (aw_entries w2))"
proof -
  obtain w1 b where w1: "confirm_asset 0 with_laptop = (Inr (), w1)" "row_get fa_id 0 (aw_assets w1) = Some b" "fa_state b = AsRunning" "posted_lines b = []"
    and b: "b = laptop\<lparr>fa_state := AsRunning, fa_lines := fa_lines b\<rparr>"
    using laptop_running by blast
  have set: "0 < fa_purchase b" "fa_journal b \<noteq> None" "fa_asset_account b \<noteq> None" "fa_depreciation_account b \<noteq> None" "fa_expense_account b \<noteq> None"
    by (subst b, simp add: laptop_def)+
  have open_books: "\<forall>x. \<not> ae_refused books_open x" by (simp add: books_open_def)
  obtain w2 where w2: "act_seq (action_dispose books_open [0]) (act_seq (action_set_to_draft [0]) (act_seq (action_confirm_assets [0]) (action_dispose books_open [0]))) w1 = (Inr (), w2)"
    "map ee_lines (filter (\<lambda>x. ee_ref x = DisposalOf 0) (aw_entries w2)) =
       map ee_lines (filter (\<lambda>x. ee_ref x = DisposalOf 0) (aw_entries w1)) @
       replicate 2 [(fa_depreciation_account b, 0, 0), (fa_expense_account b, fa_purchase b, 0), (fa_asset_account b, 0, fa_purchase b)]"
    using disposed_twice [OF w1(2) disjI1 [OF w1(3)] w1(4) set open_books] by blast
  have "length (filter (\<lambda>x. ee_ref x = DisposalOf 0) (aw_entries w2)) = length (filter (\<lambda>x. ee_ref x = DisposalOf 0) (aw_entries w1)) + 2"
    using arg_cong [where f = length, OF w2(2)] by simp
  then show ?thesis using w1(1) w2(1) by (metis le_add2)
qed

end
