(* ===== verification/Payroll.thy ===== *)
theory Payroll
  imports PyRound PyDate
begin

text \<open>
  custom-addons/co_payroll: payslips with their earnings, deductions, contributions and provisions,
  employee loans, and the monthly social security filing (PILA).

  Amounts are \<open>rat\<close>; the constants of the year and the open contract of an employee, which the
  addon searches in the database, are rows of the world. A call that raises is rolled back.
\<close>

section \<open>Records\<close>

datatype slip_state = SlDraft | SlComputed | SlConfirmed | SlCancelled

datatype line_type = Earning | Deduction | Employer | Provision

datatype loan_state = LnDraft | LnApproved | LnPaying | LnPaid | LnCancelled

datatype pila_state = PlDraft | PlGenerated | PlFiled | PlCancelled

datatype surcharge = HED | HEN | HEDDF | HENDF | RN | RDD | RDDN

record payroll_constants =
  pc_year :: nat
  pc_smlmv :: rat
  pc_uvt :: rat
  pc_transport :: rat

record contract =
  co_id :: nat
  co_employee :: nat
  co_open :: bool
  co_wage :: rat
  co_integral_salary :: bool
  co_transport_allowance :: rat
  co_arl_rate :: "rat option"
  co_start :: date
  co_end :: "date option"

record overtime =
  ov_employee :: nat
  ov_date :: date
  ov_type :: surcharge
  ov_hours :: rat
  ov_amount :: rat
  ov_slip :: "nat option"
  ov_applied :: bool

record deduction =
  de_employee :: nat
  de_date :: date
  de_amount :: rat
  de_slip :: "nat option"
  de_applied :: bool

record loan_payment =
  pm_amount :: rat
  pm_date :: date
  pm_slip :: "nat option"

record loan =
  ln_id :: nat
  ln_employee :: nat
  ln_amount :: rat
  ln_installment :: rat
  ln_state :: loan_state
  ln_payments :: "loan_payment list"

record family_member =
  fm_employee :: nat
  fm_dependent :: bool
  fm_active :: bool

record slip_line =
  sl_code :: string
  sl_type :: line_type
  sl_amount :: rat
  sl_sequence :: nat

record payslip =
  ps_id :: nat
  ps_name :: string
  ps_employee :: nat
  ps_contract :: "nat option"
  ps_from :: date
  ps_to :: date
  ps_worked_days :: rat
  ps_total_days :: rat
  ps_company :: nat
  ps_state :: slip_state
  basic_salary :: rat
  transport_allowance :: rat
  overtime_amount :: rat
  commissions :: rat
  bonuses :: rat
  other_earnings :: rat
  ibc :: rat
  eps_employee :: rat
  afp_employee :: rat
  solidarity_fund :: rat
  withholding_tax :: rat
  manual_deductions :: rat
  loan_deductions :: rat
  eps_employer :: rat
  afp_employer :: rat
  arl_employer :: rat
  caja_compensacion :: rat
  icbf :: rat
  sena :: rat
  prima_provision :: rat
  cesantias_provision :: rat
  intereses_cesantias_provision :: rat
  vacaciones_provision :: rat
  total_earnings :: rat
  total_deductions :: rat
  total_employer :: rat
  total_provisions :: rat
  net_pay :: rat
  ps_lines :: "slip_line list"

record pila_line =
  pl_employee :: nat
  pl_slip :: nat
  pl_ibc :: rat
  pl_eps_employee :: rat
  pl_eps_employer :: rat
  pl_afp_employee :: rat
  pl_afp_employer :: rat
  pl_arl :: rat
  pl_caja :: rat
  pl_icbf :: rat
  pl_sena :: rat
  pl_solidarity :: rat

record pila =
  pi_id :: nat
  pi_month :: nat
  pi_year :: nat
  pi_company :: nat
  pi_state :: pila_state
  pi_lines :: "pila_line list"

record payroll =
  pw_constants :: "payroll_constants list"
  pw_contracts :: "contract list"
  pw_overtime :: "overtime list"
  pw_deductions :: "deduction list"
  pw_loans :: "loan list"
  pw_family :: "family_member list"
  pw_slips :: "payslip list"
  pw_pilas :: "pila list"
  pw_next :: nat
  pw_sequence :: nat

record payroll_env =
  pe_today :: date
  pe_sequence :: "nat \<Rightarrow> string option"

datatype payroll_exn = OnlyDraftComputed | OnlyComputedConfirmed | OnlyDraftGenerated | NoSlip nat | NoPila nat

type_synonym 'a payroll_act = "(payroll, payroll_exn, 'a) act"

section \<open>Constants of the year\<close>

definition get_current :: "payroll_env \<Rightarrow> payroll \<Rightarrow> payroll_constants option" where
  "get_current e w =
     (case find (\<lambda>c. pc_year c = yr (pe_today e)) (pw_constants w) of
        Some c \<Rightarrow> Some c
      | None \<Rightarrow> (case rev (sort_key pc_year (pw_constants w)) of [] \<Rightarrow> None | c # _ \<Rightarrow> Some c))"

definition smlmv_of :: "payroll_constants option \<Rightarrow> rat" where
  "smlmv_of c = (case c of None \<Rightarrow> 1300000 | Some k \<Rightarrow> pc_smlmv k)"

definition uvt_of :: "payroll_constants option \<Rightarrow> rat" where
  "uvt_of c = (case c of None \<Rightarrow> 47065 | Some k \<Rightarrow> pc_uvt k)"

text \<open>The settings dialog writes the row of its year, or creates it.\<close>

definition set_values :: "payroll_env \<Rightarrow> nat \<Rightarrow> rat \<Rightarrow> rat \<Rightarrow> rat \<Rightarrow> payroll \<Rightarrow> payroll" where
  "set_values e y smlmv uvt transport w =
     (let year = (if y \<noteq> 0 then y else yr (pe_today e));
          c = \<lparr>pc_year = year, pc_smlmv = smlmv, pc_uvt = uvt, pc_transport = transport\<rparr>
      in if year \<in> pc_year ` set (pw_constants w)
         then w\<lparr>pw_constants := row_upd pc_year year (\<lambda>_. c) (pw_constants w)\<rparr>
         else w\<lparr>pw_constants := pw_constants w @ [c]\<rparr>)"

definition compute_transport_allowance :: "payroll_constants option \<Rightarrow> contract \<Rightarrow> contract" where
  "compute_transport_allowance c k =
     k\<lparr>co_transport_allowance :=
        (if co_integral_salary k then 0
         else if co_wage k \<le> 2 * smlmv_of c then (case c of None \<Rightarrow> 162000 | Some x \<Rightarrow> pc_transport x)
         else 0)\<rparr>"

section \<open>Overtime\<close>

fun surcharge_rate :: "surcharge \<Rightarrow> rat" where
  "surcharge_rate HED = 125 / 100"
| "surcharge_rate HEN = 175 / 100"
| "surcharge_rate HEDDF = 2"
| "surcharge_rate HENDF = 250 / 100"
| "surcharge_rate RN = 35 / 100"
| "surcharge_rate RDD = 75 / 100"
| "surcharge_rate RDDN = 110 / 100"

definition overtime_value :: "contract option \<Rightarrow> overtime \<Rightarrow> rat" where
  "overtime_value k r =
     (case k of
        Some c \<Rightarrow> if ov_hours r \<noteq> 0 then py_round 0 (co_wage c / 240 * surcharge_rate (ov_type r) * ov_hours r) else 0
      | None \<Rightarrow> 0)"

section \<open>Loans\<close>

definition total_paid :: "loan \<Rightarrow> rat" where
  "total_paid l = sum_list (map pm_amount (ln_payments l))"

definition remaining_balance :: "loan \<Rightarrow> rat" where
  "remaining_balance l = ln_amount l - total_paid l"

definition number_of_installments :: "loan \<Rightarrow> int" where
  "number_of_installments l = (if 0 < ln_installment l then \<lceil>ln_amount l / ln_installment l\<rceil> else 0)"

definition register_payment :: "payroll_env \<Rightarrow> rat \<Rightarrow> nat option \<Rightarrow> loan \<Rightarrow> loan" where
  "register_payment e amount slip l =
     (if remaining_balance l \<le> 0 then l
      else let l' = l\<lparr>ln_payments := ln_payments l @
                 [\<lparr>pm_amount = min amount (remaining_balance l), pm_date = pe_today e, pm_slip = slip\<rparr>]\<rparr>
           in if remaining_balance l' \<le> 0 then l'\<lparr>ln_state := LnPaid\<rparr>
              else if ln_state l = LnApproved then l'\<lparr>ln_state := LnPaying\<rparr>
              else l')"

definition set_loan_state :: "loan_state \<Rightarrow> nat list \<Rightarrow> payroll \<Rightarrow> payroll" where
  "set_loan_state s ids w = w\<lparr>pw_loans := map (\<lambda>l. if ln_id l \<in> set ids then l\<lparr>ln_state := s\<rparr> else l) (pw_loans w)\<rparr>"

definition action_approve_loans :: "nat list \<Rightarrow> payroll \<Rightarrow> payroll" where
  "action_approve_loans = set_loan_state LnApproved"

definition action_start_paying :: "nat list \<Rightarrow> payroll \<Rightarrow> payroll" where
  "action_start_paying = set_loan_state LnPaying"

definition action_mark_paid :: "nat list \<Rightarrow> payroll \<Rightarrow> payroll" where
  "action_mark_paid = set_loan_state LnPaid"

definition action_cancel_loans :: "nat list \<Rightarrow> payroll \<Rightarrow> payroll" where
  "action_cancel_loans = set_loan_state LnCancelled"

definition action_reset_loans :: "nat list \<Rightarrow> payroll \<Rightarrow> payroll" where
  "action_reset_loans = set_loan_state LnDraft"

section \<open>Amounts of a payslip\<close>

definition compute_contract :: "payroll \<Rightarrow> payslip \<Rightarrow> payslip" where
  "compute_contract w s =
     s\<lparr>ps_contract := map_option co_id (find (\<lambda>k. co_employee k = ps_employee s \<and> co_open k) (pw_contracts w))\<rparr>"

definition contract_of :: "payroll \<Rightarrow> payslip \<Rightarrow> contract option" where
  "contract_of w s = (case ps_contract s of None \<Rightarrow> None | Some k \<Rightarrow> row_get co_id k (pw_contracts w))"

definition compute_basic_salary :: "payroll \<Rightarrow> payslip \<Rightarrow> payslip" where
  "compute_basic_salary w s =
     (case contract_of w s of
        Some k \<Rightarrow>
          if ps_total_days s \<noteq> 0
          then (let proportion = ps_worked_days s / ps_total_days s
                in s\<lparr>basic_salary := py_round 0 (co_wage k * proportion),
                     transport_allowance := py_round 0 (co_transport_allowance k * proportion)\<rparr>)
          else s\<lparr>basic_salary := 0, transport_allowance := 0\<rparr>
      | None \<Rightarrow> s\<lparr>basic_salary := 0, transport_allowance := 0\<rparr>)"

definition open_overtime :: "payslip \<Rightarrow> overtime \<Rightarrow> bool" where
  "open_overtime s r \<longleftrightarrow> ov_employee r = ps_employee s \<and> ps_from s \<le> ov_date r \<and> ov_date r \<le> ps_to s \<and> \<not> ov_applied r"

definition open_deduction :: "payslip \<Rightarrow> deduction \<Rightarrow> bool" where
  "open_deduction s r \<longleftrightarrow> de_employee r = ps_employee s \<and> ps_from s \<le> de_date r \<and> de_date r \<le> ps_to s \<and> \<not> de_applied r"

definition open_loan :: "payslip \<Rightarrow> loan \<Rightarrow> bool" where
  "open_loan s l \<longleftrightarrow> ln_employee l = ps_employee s \<and> ln_state l \<in> {LnApproved, LnPaying} \<and> 0 < remaining_balance l"

definition compute_overtime :: "payroll \<Rightarrow> payslip \<Rightarrow> payslip" where
  "compute_overtime w s = s\<lparr>overtime_amount := sum_list (map ov_amount (filter (open_overtime s) (pw_overtime w)))\<rparr>"

definition compute_ibc :: "payslip \<Rightarrow> payslip" where
  "compute_ibc s = s\<lparr>ibc := basic_salary s + overtime_amount s + commissions s + bonuses s + other_earnings s\<rparr>"

definition compute_deductions :: "payroll_constants option \<Rightarrow> payslip \<Rightarrow> payslip" where
  "compute_deductions c s =
     s\<lparr>eps_employee := py_round 0 (ibc s * 4 / 100), afp_employee := py_round 0 (ibc s * 4 / 100),
       solidarity_fund := (if 4 * smlmv_of c \<le> ibc s then py_round 0 (ibc s * 1 / 100) else 0)\<rparr>"

text \<open>Art. 383: from, to, marginal rate and the tax of the ranges below.\<close>

definition uvt_table :: "(rat \<times> rat option \<times> rat \<times> rat) list" where
  "uvt_table =
     [(0, Some 95, 0, 0), (95, Some 150, 19 / 100, 0), (150, Some 360, 28 / 100, 1045 / 100),
      (360, Some 640, 33 / 100, 6925 / 100), (640, Some 945, 35 / 100, 16165 / 100),
      (945, Some 2300, 37 / 100, 26840 / 100), (2300, None, 39 / 100, 77015 / 100)]"

fun lookup_range :: "rat \<Rightarrow> (rat \<times> rat option \<times> rat \<times> rat) list \<Rightarrow> rat" where
  "lookup_range x [] = 0"
| "lookup_range x ((lo, hi, rate, base) # rs) =
     (if (case hi of None \<Rightarrow> True | Some h \<Rightarrow> x \<le> h) then base + (x - lo) * rate else lookup_range x rs)"

definition compute_uvt_tax :: "rat \<Rightarrow> rat \<Rightarrow> rat" where
  "compute_uvt_tax uvt_income uvt_value = lookup_range uvt_income uvt_table * uvt_value"

definition dependents :: "payroll \<Rightarrow> nat \<Rightarrow> nat" where
  "dependents w i = length (filter (\<lambda>m. fm_employee m = i \<and> fm_dependent m \<and> fm_active m) (pw_family w))"

definition compute_withholding_tax :: "payroll_constants option \<Rightarrow> payroll \<Rightarrow> payslip \<Rightarrow> payslip" where
  "compute_withholding_tax c w s =
     (let uvt = uvt_of c
      in if ibc s = 0 \<or> uvt = 0 then s\<lparr>withholding_tax := 0\<rparr>
         else let base = ibc s - eps_employee s - afp_employee s;
                  taxable = (if 0 < dependents w (ps_employee s) then base - min (base * 10 / 100) (32 * uvt) else base)
              in s\<lparr>withholding_tax := py_round 0 (max (compute_uvt_tax (taxable / uvt) uvt) 0)\<rparr>)"

definition compute_manual_deductions :: "payroll \<Rightarrow> payslip \<Rightarrow> payslip" where
  "compute_manual_deductions w s =
     s\<lparr>manual_deductions := sum_list (map de_amount (filter (open_deduction s) (pw_deductions w)))\<rparr>"

definition next_installment :: "loan \<Rightarrow> rat" where
  "next_installment l = min (ln_installment l) (remaining_balance l)"

definition compute_loan_deductions :: "payroll \<Rightarrow> payslip \<Rightarrow> payslip" where
  "compute_loan_deductions w s =
     s\<lparr>loan_deductions := sum_list (map next_installment (filter (open_loan s) (pw_loans w)))\<rparr>"

definition compute_employer :: "payroll_constants option \<Rightarrow> payroll \<Rightarrow> payslip \<Rightarrow> payslip" where
  "compute_employer c w s =
     (let k = contract_of w s;
          arl_rate = (case k of None \<Rightarrow> 522 / 100000 | Some x \<Rightarrow> (case co_arl_rate x of None \<Rightarrow> 522 / 100000 | Some r \<Rightarrow> r / 100));
          exempt = (case k of None \<Rightarrow> False | Some x \<Rightarrow> co_wage x \<le> 10 * smlmv_of c)
      in s\<lparr>eps_employer := py_round 0 (ibc s * 85 / 1000), afp_employer := py_round 0 (ibc s * 12 / 100),
           arl_employer := py_round 0 (ibc s * arl_rate), caja_compensacion := py_round 0 (ibc s * 4 / 100),
           icbf := (if exempt then 0 else py_round 0 (ibc s * 3 / 100)),
           sena := (if exempt then 0 else py_round 0 (ibc s * 2 / 100))\<rparr>)"

definition compute_provisions :: "payroll \<Rightarrow> payslip \<Rightarrow> payslip" where
  "compute_provisions w s =
     (let none = s\<lparr>prima_provision := 0, cesantias_provision := 0, intereses_cesantias_provision := 0, vacaciones_provision := 0\<rparr>
      in case contract_of w s of
           None \<Rightarrow> none
         | Some k \<Rightarrow>
             if ps_total_days s = 0 \<or> co_integral_salary k then none
             else let cesantias = py_round 0 ((basic_salary s + transport_allowance s) / 12)
                  in s\<lparr>prima_provision := py_round 0 ((basic_salary s + transport_allowance s) / 12),
                       cesantias_provision := cesantias,
                       intereses_cesantias_provision := py_round 0 (cesantias * 12 / 100 / 12),
                       vacaciones_provision := py_round 0 (basic_salary s * 15 / 360)\<rparr>)"

definition compute_totals :: "payslip \<Rightarrow> payslip" where
  "compute_totals s =
     (let earnings = basic_salary s + transport_allowance s + overtime_amount s + commissions s + bonuses s + other_earnings s;
          deductions = eps_employee s + afp_employee s + solidarity_fund s + withholding_tax s + manual_deductions s + loan_deductions s
      in s\<lparr>total_earnings := earnings, total_deductions := deductions,
           total_employer := eps_employer s + afp_employer s + arl_employer s + caja_compensacion s + icbf s + sena s,
           total_provisions := prima_provision s + cesantias_provision s + intereses_cesantias_provision s + vacaciones_provision s,
           net_pay := earnings - deductions\<rparr>)"

definition lines_data :: "payslip \<Rightarrow> (string \<times> line_type \<times> rat \<times> nat) list" where
  "lines_data s =
     [(''BASIC'', Earning, basic_salary s, 10), (''TRANSPORT'', Earning, transport_allowance s, 20),
      (''OVERTIME'', Earning, overtime_amount s, 30), (''COMMISSIONS'', Earning, commissions s, 40),
      (''BONUSES'', Earning, bonuses s, 50), (''OTHER_EARN'', Earning, other_earnings s, 60),
      (''EPS_EE'', Deduction, eps_employee s, 100), (''AFP_EE'', Deduction, afp_employee s, 110),
      (''SOLIDARITY'', Deduction, solidarity_fund s, 120), (''WITHHOLDING'', Deduction, withholding_tax s, 130),
      (''MANUAL_DED'', Deduction, manual_deductions s, 140), (''LOAN_DED'', Deduction, loan_deductions s, 150),
      (''EPS_ER'', Employer, eps_employer s, 200), (''AFP_ER'', Employer, afp_employer s, 210),
      (''ARL_ER'', Employer, arl_employer s, 220), (''CAJA'', Employer, caja_compensacion s, 230),
      (''ICBF_ER'', Employer, icbf s, 240), (''SENA_ER'', Employer, sena s, 250),
      (''PRIMA'', Provision, prima_provision s, 300), (''CESANTIAS'', Provision, cesantias_provision s, 310),
      (''INT_CESANT'', Provision, intereses_cesantias_provision s, 320), (''VACACIONES'', Provision, vacaciones_provision s, 330)]"

definition generate_lines :: "payslip \<Rightarrow> payslip" where
  "generate_lines s =
     s\<lparr>ps_lines := map (\<lambda>(code, t, x, q). \<lparr>sl_code = code, sl_type = t, sl_amount = x, sl_sequence = q\<rparr>)
                    (filter (\<lambda>(code, t, x, q). x \<noteq> 0) (lines_data s))\<rparr>"

section \<open>Payslips\<close>

definition compute_slip :: "payroll_env \<Rightarrow> payroll \<Rightarrow> payslip \<Rightarrow> payslip" where
  "compute_slip e w s =
     (let c = get_current e w;
          s1 = compute_ibc (compute_overtime w (compute_basic_salary w s));
          s2 = compute_loan_deductions w (compute_manual_deductions w (compute_withholding_tax c w (compute_deductions c s1)))
      in compute_totals (compute_provisions w (compute_employer c w s2)))"

definition write_slip :: "nat \<Rightarrow> (payslip \<Rightarrow> payslip) \<Rightarrow> payroll \<Rightarrow> payroll" where
  "write_slip i f w = w\<lparr>pw_slips := row_upd ps_id i f (pw_slips w)\<rparr>"

definition with_slip :: "nat \<Rightarrow> (payslip \<Rightarrow> 'a payroll_act) \<Rightarrow> 'a payroll_act" where
  "with_slip i k = (\<lambda>w. case row_get ps_id i (pw_slips w) of None \<Rightarrow> (Inl (NoSlip i), w) | Some s \<Rightarrow> k s w)"

text \<open>A new payslip takes a number, and its amounts are computed from what the caller set.\<close>

definition create_slip :: "payroll_env \<Rightarrow> payslip \<Rightarrow> payroll \<Rightarrow> payroll" where
  "create_slip e s w =
     (let numbered = (if ps_name s = ''New'' then s\<lparr>ps_name := py_or (pe_sequence e (pw_sequence w)) ''New''\<rparr> else s);
          s1 = numbered\<lparr>ps_id := pw_next w, ps_state := SlDraft, ps_lines := []\<rparr>
      in w\<lparr>pw_slips := pw_slips w @ [compute_slip e w (compute_contract w s1)], pw_next := pw_next w + 1,
           pw_sequence := (if ps_name s = ''New'' then pw_sequence w + 1 else pw_sequence w)\<rparr>)"

definition compute_payslip :: "payroll_env \<Rightarrow> nat \<Rightarrow> unit payroll_act" where
  "compute_payslip e i = with_slip i (\<lambda>s.
     if ps_state s \<noteq> SlDraft then act_raise OnlyDraftComputed
     else (\<lambda>w. (Inr (), write_slip i (\<lambda>s. (generate_lines (compute_slip e w s))\<lparr>ps_state := SlComputed\<rparr>) w)))"

definition apply_records :: "payslip \<Rightarrow> payroll \<Rightarrow> payroll" where
  "apply_records s w =
     w\<lparr>pw_overtime := map (\<lambda>r. if open_overtime s r then r\<lparr>ov_applied := True, ov_slip := Some (ps_id s)\<rparr> else r) (pw_overtime w),
       pw_deductions := map (\<lambda>r. if open_deduction s r then r\<lparr>de_applied := True, de_slip := Some (ps_id s)\<rparr> else r) (pw_deductions w)\<rparr>"

definition pay_installment :: "payroll_env \<Rightarrow> payslip \<Rightarrow> loan \<Rightarrow> loan" where
  "pay_installment e s l =
     (if open_loan s l \<and> 0 < next_installment l then register_payment e (next_installment l) (Some (ps_id s)) l else l)"

definition confirm_payslip :: "payroll_env \<Rightarrow> nat \<Rightarrow> unit payroll_act" where
  "confirm_payslip e i = with_slip i (\<lambda>s.
     if ps_state s \<noteq> SlComputed then act_raise OnlyComputedConfirmed
     else act_modify (\<lambda>w.
       write_slip i (\<lambda>s. s\<lparr>ps_state := SlConfirmed\<rparr>)
         ((apply_records s w)\<lparr>pw_loans := map (pay_installment e s) (pw_loans w)\<rparr>)))"

definition action_compute :: "payroll_env \<Rightarrow> nat list \<Rightarrow> unit payroll_act" where
  "action_compute e ids = rolled_back (for_each (compute_payslip e) ids)"

definition action_confirm :: "payroll_env \<Rightarrow> nat list \<Rightarrow> unit payroll_act" where
  "action_confirm e ids = rolled_back (for_each (confirm_payslip e) ids)"

definition cancel_payslips :: "nat list \<Rightarrow> payroll \<Rightarrow> payroll" where
  "cancel_payslips ids w = w\<lparr>pw_slips := map (\<lambda>s. if ps_id s \<in> set ids then s\<lparr>ps_state := SlCancelled\<rparr> else s) (pw_slips w)\<rparr>"

definition action_reset_draft :: "nat list \<Rightarrow> payroll \<Rightarrow> payroll" where
  "action_reset_draft ids w =
     (let mine = (\<lambda>slip. \<exists>i \<in> set ids. slip = Some i)
      in w\<lparr>pw_slips := map (\<lambda>s. if ps_id s \<in> set ids then s\<lparr>ps_lines := [], ps_state := SlDraft\<rparr> else s) (pw_slips w),
           pw_overtime := map (\<lambda>r. if mine (ov_slip r) then r\<lparr>ov_applied := False, ov_slip := None\<rparr> else r) (pw_overtime w),
           pw_deductions := map (\<lambda>r. if mine (de_slip r) then r\<lparr>de_applied := False, de_slip := None\<rparr> else r) (pw_deductions w)\<rparr>)"

text \<open>A write of the earnings that are typed in recomputes what depends on them, and not the lines.\<close>

definition recompute_from_ibc :: "payroll_env \<Rightarrow> payroll \<Rightarrow> payslip \<Rightarrow> payslip" where
  "recompute_from_ibc e w s =
     (let c = get_current e w
      in compute_totals (compute_provisions w (compute_employer c w (compute_withholding_tax c w (compute_deductions c (compute_ibc s))))))"

definition edit_earnings :: "payroll_env \<Rightarrow> nat \<Rightarrow> rat \<Rightarrow> rat \<Rightarrow> rat \<Rightarrow> payroll \<Rightarrow> payroll" where
  "edit_earnings e i c b x w =
     write_slip i (\<lambda>s. recompute_from_ibc e w (s\<lparr>commissions := c, bonuses := b, other_earnings := x\<rparr>)) w"

section \<open>The monthly filing\<close>

definition in_period :: "pila \<Rightarrow> payslip \<Rightarrow> bool" where
  "in_period p s \<longleftrightarrow> ps_state s = SlConfirmed \<and> Date (pi_year p) (pi_month p) 1 \<le> ps_from s \<and>
     ps_from s \<le> Date (pi_year p) (pi_month p) 28 \<and> ps_company s = pi_company p"

definition pila_line_of :: "payslip \<Rightarrow> pila_line" where
  "pila_line_of s =
     \<lparr>pl_employee = ps_employee s, pl_slip = ps_id s, pl_ibc = ibc s, pl_eps_employee = eps_employee s,
      pl_eps_employer = eps_employer s, pl_afp_employee = afp_employee s, pl_afp_employer = afp_employer s,
      pl_arl = arl_employer s, pl_caja = caja_compensacion s, pl_icbf = icbf s, pl_sena = sena s,
      pl_solidarity = solidarity_fund s\<rparr>"

definition generate_pila :: "nat \<Rightarrow> unit payroll_act" where
  "generate_pila i = (\<lambda>w. case row_get pi_id i (pw_pilas w) of
     None \<Rightarrow> (Inl (NoPila i), w)
   | Some p \<Rightarrow>
       if pi_state p \<noteq> PlDraft then (Inl OnlyDraftGenerated, w)
       else (Inr (), w\<lparr>pw_pilas := row_upd pi_id i (\<lambda>p. p\<lparr>pi_lines := map pila_line_of (filter (in_period p) (pw_slips w)),
                                                            pi_state := PlGenerated\<rparr>) (pw_pilas w)\<rparr>))"

definition generate_pilas :: "nat list \<Rightarrow> unit payroll_act" where
  "generate_pilas ids = rolled_back (for_each generate_pila ids)"

definition set_pila :: "(pila \<Rightarrow> pila) \<Rightarrow> nat list \<Rightarrow> payroll \<Rightarrow> payroll" where
  "set_pila f ids w = w\<lparr>pw_pilas := map (\<lambda>p. if pi_id p \<in> set ids then f p else p) (pw_pilas w)\<rparr>"

definition action_file :: "nat list \<Rightarrow> payroll \<Rightarrow> payroll" where
  "action_file = set_pila (\<lambda>p. p\<lparr>pi_state := PlFiled\<rparr>)"

definition action_cancel_pila :: "nat list \<Rightarrow> payroll \<Rightarrow> payroll" where
  "action_cancel_pila = set_pila (\<lambda>p. p\<lparr>pi_state := PlCancelled\<rparr>)"

definition action_reset_pila :: "nat list \<Rightarrow> payroll \<Rightarrow> payroll" where
  "action_reset_pila = set_pila (\<lambda>p. p\<lparr>pi_lines := [], pi_state := PlDraft\<rparr>)"

definition pila_line_total :: "pila_line \<Rightarrow> rat" where
  "pila_line_total l = pl_eps_employee l + pl_eps_employer l + pl_afp_employee l + pl_afp_employer l + pl_arl l + pl_caja l
     + pl_icbf l + pl_sena l + pl_solidarity l"

definition pila_column :: "(pila_line \<Rightarrow> rat) \<Rightarrow> pila \<Rightarrow> rat" where
  "pila_column f p = sum_list (map f (pi_lines p))"

definition grand_total :: "pila \<Rightarrow> rat" where
  "grand_total p = pila_column pl_eps_employee p + pila_column pl_eps_employer p + pila_column pl_afp_employee p
     + pila_column pl_afp_employer p + pila_column pl_arl p + pila_column pl_caja p + pila_column pl_icbf p
     + pila_column pl_sena p + pila_column pl_solidarity p"

section \<open>Ending a contract\<close>

datatype termination_reason = Mutual | JustCause | NoCause | Resignation | EndOfTerm | Retirement

record liquidation =
  lq_pending_salary :: rat
  lq_prima :: rat
  lq_cesantias :: rat
  lq_intereses :: rat
  lq_vacaciones :: rat
  lq_indemnizacion :: rat
  lq_total :: rat

definition compute_liquidation :: "contract \<Rightarrow> date \<Rightarrow> termination_reason \<Rightarrow> liquidation" where
  "compute_liquidation k fin reason =
     (let salary = co_wage k;
          days_year = of_int (ordinal fin - ordinal (Date (yr fin) 1 1) + 1) :: rat;
          days_total = of_int (ordinal fin - ordinal (co_start k) + 1) :: rat;
          pending = salary / 30 * of_nat (mday fin);
          prima = salary * days_year / 360;
          cesantias = salary * days_year / 360;
          intereses = cesantias * days_year * (12 / 100) / 360;
          vacaciones = salary * days_year / 720;
          indemnizacion = (if reason = NoCause then salary * max 1 (days_total / 365) else 0)
      in \<lparr>lq_pending_salary = pending, lq_prima = prima, lq_cesantias = cesantias, lq_intereses = intereses,
          lq_vacaciones = vacaciones, lq_indemnizacion = indemnizacion,
          lq_total = pending + prima + cesantias + intereses + vacaciones + indemnizacion\<rparr>)"

definition confirm_termination :: "nat \<Rightarrow> date \<Rightarrow> payroll \<Rightarrow> payroll" where
  "confirm_termination i fin w = w\<lparr>pw_contracts := row_upd co_id i (\<lambda>k. k\<lparr>co_end := Some fin, co_open := False\<rparr>) (pw_contracts w)\<rparr>"

section \<open>What the computations keep\<close>

lemmas slip_steps = compute_contract_def compute_basic_salary_def compute_overtime_def compute_ibc_def compute_deductions_def
  compute_withholding_tax_def compute_manual_deductions_def compute_loan_deductions_def compute_employer_def compute_provisions_def
  compute_totals_def

definition slip_key :: "payslip \<Rightarrow> nat \<times> nat \<times> nat option \<times> date \<times> date \<times> nat \<times> slip_state \<times> slip_line list" where
  "slip_key s = (ps_id s, ps_employee s, ps_contract s, ps_from s, ps_to s, ps_company s, ps_state s, ps_lines s)"

lemma slip_key_steps [simp]:
  "slip_key (compute_basic_salary w s) = slip_key s" "slip_key (compute_overtime w s) = slip_key s" "slip_key (compute_ibc s) = slip_key s"
  "slip_key (compute_deductions c s) = slip_key s" "slip_key (compute_withholding_tax c w s) = slip_key s"
  "slip_key (compute_manual_deductions w s) = slip_key s" "slip_key (compute_loan_deductions w s) = slip_key s"
  "slip_key (compute_employer c w s) = slip_key s" "slip_key (compute_provisions w s) = slip_key s" "slip_key (compute_totals s) = slip_key s"
  by (simp_all add: slip_key_def slip_steps Let_def split: option.split)

lemma slip_key_compute [simp]: "slip_key (compute_slip e w s) = slip_key s" "slip_key (recompute_from_ibc e w s) = slip_key s"
  by (simp_all add: compute_slip_def recompute_from_ibc_def Let_def)

lemma compute_slip_sel [simp]:
  "ps_id (compute_slip e w s) = ps_id s" "ps_employee (compute_slip e w s) = ps_employee s" "ps_from (compute_slip e w s) = ps_from s"
  "ps_to (compute_slip e w s) = ps_to s" "ps_state (compute_slip e w s) = ps_state s"
  using slip_key_compute(1) [of e w s] by (simp_all add: slip_key_def)

lemma generate_lines_sel [simp]:
  "ps_id (generate_lines s) = ps_id s" "ps_employee (generate_lines s) = ps_employee s" "ps_state (generate_lines s) = ps_state s"
  "ps_from (generate_lines s) = ps_from s" "ps_to (generate_lines s) = ps_to s" "loan_deductions (generate_lines s) = loan_deductions s"
  by (simp_all add: generate_lines_def)

lemma compute_run:
  assumes "compute_payslip e i w = (Inr (), w')"
  shows "\<exists>s. row_get ps_id i (pw_slips w) = Some s \<and> ps_state s = SlDraft \<and>
     w' = write_slip i (\<lambda>s. (generate_lines (compute_slip e w s))\<lparr>ps_state := SlComputed\<rparr>) w \<and>
     row_get ps_id i (pw_slips w') = Some ((generate_lines (compute_slip e w s))\<lparr>ps_state := SlComputed\<rparr>)"
proof (cases "row_get ps_id i (pw_slips w)")
  case None
  with assms show ?thesis by (simp add: compute_payslip_def with_slip_def)
next
  case (Some s)
  with assms have "ps_state s = SlDraft" "w' = write_slip i (\<lambda>s. (generate_lines (compute_slip e w s))\<lparr>ps_state := SlComputed\<rparr>) w"
    by (auto simp: compute_payslip_def with_slip_def split: if_splits)
  with Some show ?thesis by (simp add: write_slip_def row_get_upd_same)
qed

section \<open>Lines\<close>

definition lines_total :: "line_type \<Rightarrow> payslip \<Rightarrow> rat" where
  "lines_total t s = sum_list (map sl_amount (filter (\<lambda>l. sl_type l = t) (ps_lines s)))"

lemma sum_nonzero: "sum_list (map snd (filter (\<lambda>p. fst p = t) (filter (\<lambda>p. snd p \<noteq> 0) xs))) = sum_list (map snd (filter (\<lambda>p. fst p = t) xs))"
  for xs :: "('t \<times> rat) list"
  by (induction xs) auto

lemma lines_total_data:
  "lines_total t (generate_lines s) = sum_list (map snd (filter (\<lambda>p. fst p = t) (map (\<lambda>(code, t, x, q). (t, x)) (lines_data s))))"
proof -
  have "sum_list (map sl_amount (filter (\<lambda>l. sl_type l = t) (map (\<lambda>(code, t, x, q). \<lparr>sl_code = code, sl_type = t, sl_amount = x, sl_sequence = q\<rparr>) xs))) =
      sum_list (map snd (filter (\<lambda>p. fst p = t) (map (\<lambda>(code, t, x, q). (t, x)) xs)))" for xs :: "(string \<times> line_type \<times> rat \<times> nat) list"
    by (induction xs) auto
  then have "lines_total t (generate_lines s) =
      sum_list (map snd (filter (\<lambda>p. fst p = t) (map (\<lambda>(code, t, x, q). (t, x)) (filter (\<lambda>(code, t, x, q). x \<noteq> 0) (lines_data s)))))"
    by (simp add: lines_total_def generate_lines_def)
  also have "map (\<lambda>(code, t, x, q). (t, x)) (filter (\<lambda>(code, t, x, q). x \<noteq> 0) xs) = filter (\<lambda>p. snd p \<noteq> 0) (map (\<lambda>(code, t, x, q). (t, x)) xs)"
    for xs :: "(string \<times> line_type \<times> rat \<times> nat) list"
    by (induction xs) auto
  finally show ?thesis by (simp only: sum_nonzero)
qed

lemma lines_total_types:
  "lines_total Earning (generate_lines s) = basic_salary s + transport_allowance s + overtime_amount s + commissions s + bonuses s + other_earnings s"
  "lines_total Deduction (generate_lines s) = eps_employee s + afp_employee s + solidarity_fund s + withholding_tax s + manual_deductions s + loan_deductions s"
  "lines_total Employer (generate_lines s) = eps_employer s + afp_employer s + arl_employer s + caja_compensacion s + icbf s + sena s"
  "lines_total Provision (generate_lines s) = prima_provision s + cesantias_provision s + intereses_cesantias_provision s + vacaciones_provision s"
  unfolding lines_total_data lines_data_def by simp_all

lemma compute_slip_totals: "\<exists>s'. compute_slip e w s = compute_totals s'"
  unfolding compute_slip_def Let_def by blast

definition adds_up :: "payslip \<Rightarrow> bool" where
  "adds_up s \<longleftrightarrow> lines_total Earning s = total_earnings s \<and> lines_total Deduction s = total_deductions s \<and>
     lines_total Employer s = total_employer s \<and> lines_total Provision s = total_provisions s"

lemma generated_add_up:
  "s = compute_totals s' \<Longrightarrow> adds_up (generate_lines s) \<and> net_pay (generate_lines s) = total_earnings (generate_lines s) - total_deductions (generate_lines s)"
  unfolding adds_up_def lines_total_types by (simp add: compute_totals_def generate_lines_def Let_def)

section \<open>The withholding table\<close>

text \<open>What the ranges mean: each part of the income is taxed at the rate of its range.\<close>

definition marginal_tax :: "rat \<Rightarrow> rat" where
  "marginal_tax x = sum_list (map (\<lambda>(lo, hi, rate, base). rate * max 0 ((case hi of None \<Rightarrow> x | Some h \<Rightarrow> min x h) - lo)) uvt_table)"

lemma range_cases:
  fixes x :: rat
  obtains "x \<le> 95" | "95 < x" "x \<le> 150" | "150 < x" "x \<le> 360" | "360 < x" "x \<le> 640" | "640 < x" "x \<le> 945" | "945 < x" "x \<le> 2300" | "2300 < x"
  by linarith

lemma table_is_marginal: "lookup_range x uvt_table = marginal_tax x + (if 2300 < x then 4 / 10 else 0)"
  by (rule range_cases [of x]) (simp_all add: uvt_table_def marginal_tax_def max_def min_def field_simps)

section \<open>Loans\<close>

definition loan_ok :: "loan \<Rightarrow> bool" where
  "loan_ok l \<longleftrightarrow> (\<forall>p \<in> set (ln_payments l). 0 < pm_amount p \<and> pm_amount p \<le> ln_installment l) \<and> total_paid l \<le> max 0 (ln_amount l)"

lemma register_payment_run:
  assumes "0 < remaining_balance l"
  shows "register_payment e amount slip l = l\<lparr>ln_payments := ln_payments l @ [\<lparr>pm_amount = min amount (remaining_balance l), pm_date = pe_today e, pm_slip = slip\<rparr>],
     ln_state := (if remaining_balance l \<le> amount then LnPaid else if ln_state l = LnApproved then LnPaying else ln_state l)\<rparr>"
  using assms by (auto simp: register_payment_def Let_def remaining_balance_def total_paid_def min_def)

lemma pay_installment_run:
  assumes "open_loan s l" "0 < ln_installment l"
  shows "pay_installment e s l = l\<lparr>ln_payments := ln_payments l @ [\<lparr>pm_amount = next_installment l, pm_date = pe_today e, pm_slip = Some (ps_id s)\<rparr>],
     ln_state := (if remaining_balance l \<le> ln_installment l then LnPaid else LnPaying)\<rparr>"
proof -
  have "0 < remaining_balance l" "0 < next_installment l" using assms by (auto simp: open_loan_def next_installment_def)
  moreover have "min (next_installment l) (remaining_balance l) = next_installment l" by (simp add: next_installment_def)
  moreover have "remaining_balance l \<le> next_installment l \<longleftrightarrow> remaining_balance l \<le> ln_installment l" by (auto simp: next_installment_def)
  ultimately show ?thesis using assms(1) by (auto simp: pay_installment_def register_payment_run open_loan_def)
qed

lemma pay_installment_sel [simp]:
  "ln_id (pay_installment e s l) = ln_id l" "ln_amount (pay_installment e s l) = ln_amount l" "ln_installment (pay_installment e s l) = ln_installment l"
  "ln_employee (pay_installment e s l) = ln_employee l"
  by (simp_all add: pay_installment_def register_payment_def Let_def)

lemma pay_installment_ok: "loan_ok l \<Longrightarrow> loan_ok (pay_installment e s l)"
proof (cases "open_loan s l \<and> 0 < ln_installment l")
  case True
  assume ok: "loan_ok l"
  have "0 < next_installment l" "next_installment l \<le> ln_installment l" "next_installment l \<le> remaining_balance l"
    using True by (auto simp: open_loan_def next_installment_def)
  then show ?thesis using ok True
    by (auto simp: pay_installment_run loan_ok_def total_paid_def remaining_balance_def)
next
  case False
  then have "pay_installment e s l = l" by (auto simp: pay_installment_def next_installment_def)
  then show "loan_ok l \<Longrightarrow> loan_ok (pay_installment e s l)" by simp
qed

definition loans_ok :: "payroll \<Rightarrow> bool" where
  "loans_ok w \<longleftrightarrow> (\<forall>l \<in> set (pw_loans w). loan_ok l)"

lemma loan_state_ok: "loan_ok (l\<lparr>ln_state := t\<rparr>) = loan_ok l"
  by (simp add: loan_ok_def total_paid_def)

lemma set_loan_state_ok: "loans_ok w \<Longrightarrow> loans_ok (set_loan_state t ids w)"
  by (auto simp: loans_ok_def set_loan_state_def loan_state_ok)

lemma write_slip_sel [simp]:
  "pw_loans (write_slip i f w) = pw_loans w" "pw_overtime (write_slip i f w) = pw_overtime w" "pw_deductions (write_slip i f w) = pw_deductions w"
  "pw_slips (write_slip i f w) = row_upd ps_id i f (pw_slips w)"
  by (simp_all add: write_slip_def)

lemma slip_action_loans:
  "loans_ok w \<Longrightarrow> loans_ok (snd (compute_payslip e i w))" "loans_ok w \<Longrightarrow> loans_ok (snd (confirm_payslip e i w))"
  "loans_ok w \<Longrightarrow> loans_ok (snd (generate_pila i w))"
  by (auto simp: compute_payslip_def confirm_payslip_def generate_pila_def with_slip_def loans_ok_def apply_records_def
      intro: pay_installment_ok split: option.splits)

lemma rolled_back_each: "(\<And>i w. I w \<Longrightarrow> I (snd (f i w))) \<Longrightarrow> I w \<Longrightarrow> I (snd (rolled_back (for_each f ids) w))"
  by (rule rolled_back_inv [where I = I, OF for_each_inv [where I = I]]) blast+

text \<open>The steps of the component. Other addons write contracts, constants, overtime, deductions and families as they like.\<close>

inductive payroll_step :: "payroll \<Rightarrow> payroll \<Rightarrow> bool" where
  "payroll_step w (create_slip e s w)"
| "payroll_step w (snd (action_compute e ids w))"
| "payroll_step w (snd (action_confirm e ids w))"
| "payroll_step w (cancel_payslips ids w)"
| "payroll_step w (action_reset_draft ids w)"
| "payroll_step w (edit_earnings e i c b x w)"
| "payroll_step w (w\<lparr>pw_loans := pw_loans w @ [l\<lparr>ln_id := pw_next w, ln_payments := []\<rparr>], pw_next := pw_next w + 1\<rparr>)"
| "payroll_step w (set_loan_state t ids w)"
| "payroll_step w (set_values e y m u t w)"
| "payroll_step w (w\<lparr>pw_contracts := ks, pw_overtime := os, pw_deductions := ds, pw_family := fs\<rparr>)"
| "payroll_step w (w\<lparr>pw_pilas := pw_pilas w @ [p\<lparr>pi_id := pw_next w, pi_lines := []\<rparr>], pw_next := pw_next w + 1\<rparr>)"
| "payroll_step w (snd (generate_pilas ids w))"
| "payroll_step w (set_pila f ids w)"
| "payroll_step w (confirm_termination i d w)"

definition empty_payroll :: payroll where
  "empty_payroll = \<lparr>pw_constants = [], pw_contracts = [], pw_overtime = [], pw_deductions = [], pw_loans = [], pw_family = [],
     pw_slips = [], pw_pilas = [], pw_next = 0, pw_sequence = 0\<rparr>"

lemma step_loans: "payroll_step w v \<Longrightarrow> loans_ok w \<Longrightarrow> loans_ok v"
proof (induction rule: payroll_step.induct)
  case 2
  then show ?case unfolding action_compute_def by (rule rolled_back_each [rotated]) (rule slip_action_loans)
next
  case 3
  then show ?case unfolding action_confirm_def by (rule rolled_back_each [rotated]) (rule slip_action_loans)
next
  case 7
  then show ?case by (simp add: loans_ok_def) (simp add: loan_ok_def total_paid_def)
next
  case 12
  then show ?case unfolding generate_pilas_def by (rule rolled_back_each [rotated]) (rule slip_action_loans)
qed (simp_all add: set_loan_state_ok, simp_all add: loans_ok_def create_slip_def cancel_payslips_def action_reset_draft_def edit_earnings_def
  set_values_def set_pila_def confirm_termination_def Let_def)

lemma reachable_loans: "payroll_step\<^sup>*\<^sup>* empty_payroll w \<Longrightarrow> loans_ok w"
  by (induction rule: rtranclp_induct) (auto simp: loans_ok_def empty_payroll_def intro: step_loans [unfolded loans_ok_def, rule_format])

section \<open>The monthly filing\<close>

lemma row_sum_add: "sum_list (map (\<lambda>x. f x + g x) xs) = sum_list (map f xs) + sum_list (map g xs)" for f :: "'a \<Rightarrow> rat"
  by (rule sum_list_addf)

lemma grand_total_rows: "grand_total p = sum_list (map pila_line_total (pi_lines p))"
  unfolding pila_line_total_def row_sum_add grand_total_def pila_column_def by simp

definition contributions :: "payslip \<Rightarrow> rat" where
  "contributions s = eps_employee s + eps_employer s + afp_employee s + afp_employer s + arl_employer s + caja_compensacion s
     + icbf s + sena s + solidarity_fund s"

lemma pila_line_total_of: "pila_line_total (pila_line_of s) = contributions s"
  by (simp add: pila_line_total_def pila_line_of_def contributions_def)

lemma in_period_days:
  "in_period p s \<longleftrightarrow> ps_state s = SlConfirmed \<and> ps_company s = pi_company p \<and> yr (ps_from s) = pi_year p \<and> mon (ps_from s) = pi_month p \<and>
     1 \<le> mday (ps_from s) \<and> mday (ps_from s) \<le> 28"
  by (auto simp: in_period_def less_eq_date_def)

lemma generate_pila_run:
  assumes "generate_pila i w = (Inr (), w')"
  shows "\<exists>p. row_get pi_id i (pw_pilas w) = Some p \<and> pi_state p = PlDraft \<and>
     row_get pi_id i (pw_pilas w') = Some (p\<lparr>pi_lines := map pila_line_of (filter (in_period p) (pw_slips w)), pi_state := PlGenerated\<rparr>)"
  using assms by (auto simp: generate_pila_def row_get_upd_same split: option.splits if_splits)

section \<open>Runs\<close>

lemma action_compute_run:
  assumes "row_get ps_id i (pw_slips w) = Some s" "ps_state s = SlDraft"
  shows "action_compute e [i] w = (Inr (), write_slip i (\<lambda>s. (generate_lines (compute_slip e w s))\<lparr>ps_state := SlComputed\<rparr>) w)"
  using assms by (simp add: action_compute_def rolled_back_def compute_payslip_def with_slip_def)

lemma action_confirm_run:
  assumes "row_get ps_id i (pw_slips w) = Some s" "ps_state s = SlComputed"
  shows "\<exists>v. action_confirm e [i] w = (Inr (), v) \<and> pw_loans v = map (pay_installment e s) (pw_loans w) \<and>
     pw_slips v = row_upd ps_id i (\<lambda>s. s\<lparr>ps_state := SlConfirmed\<rparr>) (pw_slips w)"
  using assms by (simp add: action_confirm_def rolled_back_def confirm_payslip_def with_slip_def apply_records_def)

lemma confirmed_row: "row_get ps_id i (row_upd ps_id j (\<lambda>s. s\<lparr>ps_state := t\<rparr>) xs) =
    (if i = j then map_option (\<lambda>s. s\<lparr>ps_state := t\<rparr>) (row_get ps_id i xs) else row_get ps_id i xs)"
  by (simp add: row_get_upd_same row_get_upd_other)

lemma reset_row: "row_get ps_id i (pw_slips (action_reset_draft [i] w)) = map_option (\<lambda>s. s\<lparr>ps_lines := [], ps_state := SlDraft\<rparr>) (row_get ps_id i (pw_slips w))"
proof -
  have "pw_slips (action_reset_draft [i] w) = row_upd ps_id i (\<lambda>s. s\<lparr>ps_lines := [], ps_state := SlDraft\<rparr>) (pw_slips w)"
    by (simp add: action_reset_draft_def row_upd_def Let_def)
  then show ?thesis by (simp add: row_get_upd_same)
qed

lemma pay_twice:
  assumes "open_loan s l" "0 < ln_installment l" "2 * ln_installment l \<le> remaining_balance l" "ps_id s' = ps_id s" "ps_employee s' = ps_employee s"
  shows "ln_payments (pay_installment e s' (pay_installment e s l)) =
     ln_payments l @ replicate 2 \<lparr>pm_amount = ln_installment l, pm_date = pe_today e, pm_slip = Some (ps_id s)\<rparr>"
proof -
  have nxt: "next_installment l = ln_installment l" using assms(2,3) by (simp add: next_installment_def)
  let ?l = "pay_installment e s l"
  have l: "?l = l\<lparr>ln_payments := ln_payments l @ [\<lparr>pm_amount = ln_installment l, pm_date = pe_today e, pm_slip = Some (ps_id s)\<rparr>], ln_state := LnPaying\<rparr>"
    using pay_installment_run [OF assms(1,2), of e] assms(2,3) nxt by simp
  have left: "remaining_balance ?l = remaining_balance l - ln_installment l" by (simp add: l remaining_balance_def total_paid_def)
  have "open_loan s' ?l" using assms left by (auto simp: open_loan_def l)
  moreover have "next_installment ?l = ln_installment l" using left assms(3) by (simp add: next_installment_def l)
  ultimately show ?thesis using pay_installment_run [of s' ?l e] assms(2,4) by (simp add: l numeral_2_eq_2)
qed

lemma open_loan_employee: "ps_employee s = ps_employee s' \<Longrightarrow> open_loan s = open_loan s'"
  by (rule ext) (simp add: open_loan_def)

lemma compute_slip_loans: "loan_deductions (compute_slip e w s) = sum_list (map next_installment (filter (open_loan s) (pw_loans w)))"
proof -
  have keep: "loan_deductions (compute_totals t) = loan_deductions t" "loan_deductions (compute_provisions w t) = loan_deductions t"
    "loan_deductions (compute_employer c w t) = loan_deductions t" for t c
    unfolding compute_totals_def compute_provisions_def compute_employer_def Let_def by (simp_all split: option.split)
  have rule: "loan_deductions (compute_loan_deductions w t) = sum_list (map next_installment (filter (open_loan s) (pw_loans w)))"
    if "slip_key t = slip_key s" for t
  proof -
    have "open_loan t = open_loan s" using that by (intro open_loan_employee) (simp add: slip_key_def)
    then show ?thesis by (simp add: compute_loan_deductions_def)
  qed
  show ?thesis unfolding compute_slip_def Let_def keep by (rule rule) simp
qed

section \<open>An example\<close>

definition clerk :: payroll_env where
  "clerk = \<lparr>pe_today = Date 2024 3 31, pe_sequence = (\<lambda>n. None)\<rparr>"

definition car_loan :: loan where
  "car_loan = \<lparr>ln_id = 0, ln_employee = 7, ln_amount = 1000, ln_installment = 300, ln_state = LnApproved, ln_payments = []\<rparr>"

definition march_slip :: payslip where
  "march_slip = \<lparr>ps_id = 0, ps_name = ''SLIP/1'', ps_employee = 7, ps_contract = None, ps_from = Date 2024 3 31, ps_to = Date 2024 3 31,
     ps_worked_days = 30, ps_total_days = 30, ps_company = 1, ps_state = SlDraft, basic_salary = 0, transport_allowance = 0,
     overtime_amount = 0, commissions = 500, bonuses = 0, other_earnings = 0, ibc = 0, eps_employee = 0, afp_employee = 0,
     solidarity_fund = 0, withholding_tax = 0, manual_deductions = 0, loan_deductions = 0, eps_employer = 0, afp_employer = 0,
     arl_employer = 0, caja_compensacion = 0, icbf = 0, sena = 0, prima_provision = 0, cesantias_provision = 0,
     intereses_cesantias_provision = 0, vacaciones_provision = 0, total_earnings = 0, total_deductions = 0, total_employer = 0,
     total_provisions = 0, net_pay = 0, ps_lines = []\<rparr>"

definition with_loan :: payroll where
  "with_loan = empty_payroll\<lparr>pw_loans := pw_loans empty_payroll @ [car_loan\<lparr>ln_id := pw_next empty_payroll, ln_payments := []\<rparr>], pw_next := pw_next empty_payroll + 1\<rparr>"

definition with_march :: payroll where
  "with_march = create_slip clerk march_slip with_loan"

definition computed_march :: payroll where
  "computed_march = snd (action_compute clerk [1] with_march)"

lemma march_reached:
  "payroll_step\<^sup>*\<^sup>* empty_payroll with_march" "payroll_step\<^sup>*\<^sup>* empty_payroll computed_march"
  "payroll_step\<^sup>*\<^sup>* empty_payroll (snd (action_confirm clerk [1] computed_march))"
proof -
  have "payroll_step empty_payroll with_loan" unfolding with_loan_def by (rule payroll_step.intros(7))
  moreover have "payroll_step with_loan with_march" unfolding with_march_def by (rule payroll_step.intros(1))
  ultimately show one: "payroll_step\<^sup>*\<^sup>* empty_payroll with_march" by (meson rtranclp.simps)
  moreover have "payroll_step with_march computed_march" unfolding computed_march_def by (rule payroll_step.intros(2))
  ultimately show two: "payroll_step\<^sup>*\<^sup>* empty_payroll computed_march" by (rule rtranclp.rtrancl_into_rtrancl)
  show "payroll_step\<^sup>*\<^sup>* empty_payroll (snd (action_confirm clerk [1] computed_march))"
    using two payroll_step.intros(3) by (rule rtranclp.rtrancl_into_rtrancl)
qed

lemma march_slips:
  "\<exists>s. row_get ps_id 1 (pw_slips with_march) = Some s \<and> ps_state s = SlDraft"
  "\<exists>s. row_get ps_id 1 (pw_slips computed_march) = Some s \<and> ps_state s = SlComputed \<and> ps_employee s = 7"
  "pw_loans computed_march = [car_loan]"
proof -
  let ?n = "march_slip\<lparr>ps_id := 1, ps_state := SlDraft, ps_lines := []\<rparr>"
  let ?s = "compute_slip clerk with_loan (compute_contract with_loan ?n)"
  have key: "slip_key (compute_contract w s) = slip_key s" if "pw_contracts w = []" "ps_contract s = None" for w s
    using that by (simp add: compute_contract_def slip_key_def)
  have "slip_key ?s = slip_key ?n"
    by (simp add: key with_loan_def empty_payroll_def march_slip_def)
  then have s: "ps_id ?s = 1" "ps_state ?s = SlDraft" "ps_employee ?s = 7" by (auto simp: slip_key_def march_slip_def)
  have slips: "pw_slips with_march = [?s]"
    by (simp add: with_march_def create_slip_def Let_def march_slip_def with_loan_def empty_payroll_def)
  then have row: "row_get ps_id 1 (pw_slips with_march) = Some ?s" using s by (simp add: row_simps)
  with s show "\<exists>s. row_get ps_id 1 (pw_slips with_march) = Some s \<and> ps_state s = SlDraft" by blast
  show "\<exists>s. row_get ps_id 1 (pw_slips computed_march) = Some s \<and> ps_state s = SlComputed \<and> ps_employee s = 7"
    using row s by (simp add: computed_march_def action_compute_run row_get_upd_same)
  have "pw_loans with_march = [car_loan]" by (simp add: with_march_def create_slip_def Let_def with_loan_def empty_payroll_def car_loan_def)
  then show "pw_loans computed_march = [car_loan]" using row s by (simp add: computed_march_def action_compute_run)
qed

lemma march_open: "ps_employee s = 7 \<Longrightarrow> open_loan s car_loan" "0 < ln_installment car_loan" "2 * ln_installment car_loan \<le> remaining_balance car_loan"
  by (simp_all add: open_loan_def car_loan_def remaining_balance_def total_paid_def)

section \<open>Properties\<close>

text \<open>
  C28: the lines of a computed payslip add up to its totals, none of them is zero, and the net pay is what is earned less what is deducted.
\<close>

theorem payslip_lines_add_up:
  assumes "compute_payslip e i w = (Inr (), w')"
  shows "\<exists>s. row_get ps_id i (pw_slips w') = Some s \<and> ps_state s = SlComputed \<and>
     lines_total Earning s = total_earnings s \<and> lines_total Deduction s = total_deductions s \<and>
     lines_total Employer s = total_employer s \<and> lines_total Provision s = total_provisions s \<and>
     net_pay s = lines_total Earning s - lines_total Deduction s \<and> (\<forall>l \<in> set (ps_lines s). sl_amount l \<noteq> 0)"
proof -
  obtain s where row: "row_get ps_id i (pw_slips w') = Some ((generate_lines (compute_slip e w s))\<lparr>ps_state := SlComputed\<rparr>)"
    using compute_run [OF assms] by blast
  obtain s' where "compute_slip e w s = compute_totals s'" using compute_slip_totals by blast
  from generated_add_up [OF this] have sums: "adds_up (generate_lines (compute_slip e w s))"
    "net_pay (generate_lines (compute_slip e w s)) = total_earnings (generate_lines (compute_slip e w s)) - total_deductions (generate_lines (compute_slip e w s))" by auto
  have "lines_total t (x\<lparr>ps_state := SlComputed\<rparr>) = lines_total t x" for t x by (simp add: lines_total_def)
  moreover have "\<forall>l \<in> set (ps_lines (generate_lines (compute_slip e w s))). sl_amount l \<noteq> 0" by (auto simp: generate_lines_def)
  ultimately show ?thesis using row sums by (auto simp: adds_up_def)
qed

theorem payslip_lines_add_up_witness: "\<exists>w' s. compute_payslip clerk 1 with_march = (Inr (), w') \<and> row_get ps_id 1 (pw_slips w') = Some s \<and>
   ps_state s = SlComputed \<and> net_pay s = lines_total Earning s - lines_total Deduction s"
proof -
  obtain w' where w': "compute_payslip clerk 1 with_march = (Inr (), w')"
    using march_slips(1) by (auto simp: compute_payslip_def with_slip_def)
  from payslip_lines_add_up [OF w'] w' show ?thesis by blast
qed

text \<open>
  C29: the withholding table taxes each part of the income at the rate of its range, up to 2300 UVT; above, it adds 0.4 UVT.
\<close>

theorem withholding_is_marginal: "compute_uvt_tax x v = (marginal_tax x + (if 2300 < x then 4 / 10 else 0)) * v"
  by (simp add: compute_uvt_tax_def table_is_marginal)



text \<open>
  a confirmed payslip that is reset, computed and confirmed again pays its loans a second time.
\<close>

theorem reset_pays_loans_twice:
  assumes "row_get ps_id i (pw_slips w) = Some s" "ps_state s = SlComputed" "l \<in> set (pw_loans w)" "open_loan s l"
    and "0 < ln_installment l" "2 * ln_installment l \<le> remaining_balance l"
  shows "\<exists>w' l'. act_seq (action_confirm e [i]) (act_seq (act_modify (action_reset_draft [i])) (act_seq (action_compute e [i]) (action_confirm e [i]))) w = (Inr (), w') \<and>
     l' \<in> set (pw_loans w') \<and> ln_id l' = ln_id l \<and>
     ln_payments l' = ln_payments l @ replicate 2 \<lparr>pm_amount = ln_installment l, pm_date = pe_today e, pm_slip = Some i\<rparr>"
proof -
  have i: "ps_id s = i" using row_get_in_set [OF assms(1)] by simp
  obtain v where v: "action_confirm e [i] w = (Inr (), v)" "pw_loans v = map (pay_installment e s) (pw_loans w)"
    "pw_slips v = row_upd ps_id i (\<lambda>s. s\<lparr>ps_state := SlConfirmed\<rparr>) (pw_slips w)" using action_confirm_run [OF assms(1,2)] by blast
  let ?r = "action_reset_draft [i] v"
  let ?s = "s\<lparr>ps_state := SlDraft, ps_lines := []\<rparr>"
  have row: "row_get ps_id i (pw_slips ?r) = Some ?s" using assms(1) by (simp add: reset_row v(3) confirmed_row)
  let ?c = "write_slip i (\<lambda>s. (generate_lines (compute_slip e ?r s))\<lparr>ps_state := SlComputed\<rparr>) ?r"
  let ?s' = "(generate_lines (compute_slip e ?r ?s))\<lparr>ps_state := SlComputed\<rparr>"
  have c: "action_compute e [i] ?r = (Inr (), ?c)" by (rule action_compute_run [OF row]) simp
  have row': "row_get ps_id i (pw_slips ?c) = Some ?s'" using row by (simp add: row_get_upd_same)
  obtain w' where w': "action_confirm e [i] ?c = (Inr (), w')" "pw_loans w' = map (pay_installment e ?s') (pw_loans ?c)"
    using action_confirm_run [OF row', of e] by auto
  have "pw_loans ?c = map (pay_installment e s) (pw_loans w)" by (simp add: action_reset_draft_def v(2))
  then have "pay_installment e ?s' (pay_installment e s l) \<in> set (pw_loans w')" using w'(2) assms(3) by simp
  moreover have "ln_payments (pay_installment e ?s' (pay_installment e s l)) =
      ln_payments l @ replicate 2 \<lparr>pm_amount = ln_installment l, pm_date = pe_today e, pm_slip = Some i\<rparr>"
    using pay_twice [OF assms(4-6), of ?s' e] i by simp
  ultimately show ?thesis using v(1) c w'(1) by (intro exI [of _ w'] exI [of _ "pay_installment e ?s' (pay_installment e s l)"]) simp
qed

theorem reset_pays_loans_twice_witness: "\<exists>w' l'. l' \<in> set (pw_loans w') \<and> ln_id l' = 0 \<and>
   act_seq (action_confirm clerk [1]) (act_seq (act_modify (action_reset_draft [1])) (act_seq (action_compute clerk [1]) (action_confirm clerk [1]))) computed_march = (Inr (), w') \<and>
   length (ln_payments l') = 2"
proof -
  obtain s where s: "row_get ps_id 1 (pw_slips computed_march) = Some s" "ps_state s = SlComputed" "ps_employee s = 7" using march_slips(2) by blast
  have l: "car_loan \<in> set (pw_loans computed_march)" using march_slips(3) by simp
  have ends: "ln_id car_loan = 0" "ln_payments car_loan = []" by (simp_all add: car_loan_def)
  from reset_pays_loans_twice [OF s(1,2) l march_open(1) [OF s(3)] march_open(2,3), of clerk] show ?thesis unfolding ends by fastforce
qed

text \<open>
  C32: a filing has one line for each confirmed payslip of its company that starts on the 1st to the 28th of its month, and its total is their contributions.
\<close>

theorem filing_covers_month_to_28th:
  assumes "generate_pila i w = (Inr (), w')"
  shows "\<exists>p p' ss. row_get pi_id i (pw_pilas w) = Some p \<and> row_get pi_id i (pw_pilas w') = Some p' \<and> pi_state p' = PlGenerated \<and>
     ss = filter (\<lambda>s. ps_state s = SlConfirmed \<and> ps_company s = pi_company p \<and> yr (ps_from s) = pi_year p \<and> mon (ps_from s) = pi_month p \<and>
            1 \<le> mday (ps_from s) \<and> mday (ps_from s) \<le> 28) (pw_slips w) \<and>
     map pl_slip (pi_lines p') = map ps_id ss \<and> grand_total p' = sum_list (map contributions ss)"
proof -
  obtain p where p: "row_get pi_id i (pw_pilas w) = Some p"
    "row_get pi_id i (pw_pilas w') = Some (p\<lparr>pi_lines := map pila_line_of (filter (in_period p) (pw_slips w)), pi_state := PlGenerated\<rparr>)"
    using generate_pila_run [OF assms] by blast
  let ?p = "p\<lparr>pi_lines := map pila_line_of (filter (in_period p) (pw_slips w)), pi_state := PlGenerated\<rparr>"
  have "map pl_slip (pi_lines ?p) = map ps_id (filter (in_period p) (pw_slips w))" by (simp add: pila_line_of_def comp_def)
  moreover have "grand_total ?p = sum_list (map contributions (filter (in_period p) (pw_slips w)))"
    by (simp add: grand_total_rows pila_line_total_of comp_def)
  ultimately show ?thesis using p by (intro exI [of _ p] exI [of _ ?p] exI [of _ "filter (in_period p) (pw_slips w)"]) (simp add: in_period_days [abs_def])
qed

theorem filing_covers_month_to_28th_witness: "\<exists>w p'. row_get pi_id 0 (pw_pilas w) = Some p' \<and> grand_total p' = 0 \<and>
   generate_pila 0 (empty_payroll\<lparr>pw_pilas := [\<lparr>pi_id = 0, pi_month = 3, pi_year = 2024, pi_company = 1, pi_state = PlDraft, pi_lines = []\<rparr>],
     pw_slips := [march_slip\<lparr>ps_state := SlConfirmed, eps_employee := 40\<rparr>]\<rparr>) = (Inr (), w)"
proof -
  let ?p = "\<lparr>pi_id = 0, pi_month = 3, pi_year = 2024, pi_company = 1, pi_state = PlDraft, pi_lines = []\<rparr>"
  let ?w = "empty_payroll\<lparr>pw_pilas := [?p], pw_slips := [march_slip\<lparr>ps_state := SlConfirmed, eps_employee := 40\<rparr>]\<rparr>"
  have p: "row_get pi_id 0 (pw_pilas ?w) = Some ?p" by (simp add: row_simps)
  then obtain w where w: "generate_pila 0 ?w = (Inr (), w)" by (simp add: generate_pila_def)
  from filing_covers_month_to_28th [OF w] p w show ?thesis by (auto simp: march_slip_def)
qed

text \<open>
  C31: when two payslips of an employee are computed before either is confirmed, both deduct the last installment of a loan, which is paid once.
\<close>

theorem last_installment_deducted_twice:
  assumes "row_get ps_id i (pw_slips w) = Some s" "ps_state s = SlDraft" "row_get ps_id j (pw_slips w) = Some t" "ps_state t = SlDraft" "i \<noteq> j"
    and "ps_employee t = ps_employee s" "filter (open_loan s) (pw_loans w) = [l]" "0 < ln_installment l" "remaining_balance l \<le> ln_installment l"
  shows "\<exists>w' s' t' l'. act_seq (action_compute e [i, j]) (action_confirm e [i, j]) w = (Inr (), w') \<and>
     row_get ps_id i (pw_slips w') = Some s' \<and> row_get ps_id j (pw_slips w') = Some t' \<and> ps_state s' = SlConfirmed \<and> ps_state t' = SlConfirmed \<and>
     loan_deductions s' = remaining_balance l \<and> loan_deductions t' = remaining_balance l \<and>
     l' \<in> set (pw_loans w') \<and> ln_id l' = ln_id l \<and> total_paid l' = total_paid l + remaining_balance l"
proof -
  let ?f = "\<lambda>w s. (generate_lines (compute_slip e w s))\<lparr>ps_state := SlComputed\<rparr>"
  let ?w1 = "write_slip i (?f w) w"
  let ?w2 = "write_slip j (?f ?w1) ?w1"
  have t1: "row_get ps_id j (pw_slips ?w1) = Some t" using assms(3,5) by (simp add: row_get_upd_other)
  have "compute_payslip e i w = (Inr (), ?w1)" using assms(1,2) by (simp add: compute_payslip_def with_slip_def)
  moreover have "compute_payslip e j ?w1 = (Inr (), ?w2)" using t1 assms(4) by (simp add: compute_payslip_def with_slip_def)
  ultimately have compute: "action_compute e [i, j] w = (Inr (), ?w2)" by (simp add: action_compute_def rolled_back_def)
  have s2: "row_get ps_id i (pw_slips ?w2) = Some (?f w s)" and t2: "row_get ps_id j (pw_slips ?w2) = Some (?f ?w1 t)"
    using assms(1,3,5) by (simp_all add: row_get_upd_same row_get_upd_other)
  obtain w3 where w3: "confirm_payslip e i ?w2 = (Inr (), w3)" "pw_loans w3 = map (pay_installment e (?f w s)) (pw_loans w)"
    "pw_slips w3 = row_upd ps_id i (\<lambda>s. s\<lparr>ps_state := SlConfirmed\<rparr>) (pw_slips ?w2)"
    using s2 by (simp add: confirm_payslip_def with_slip_def apply_records_def)
  have t3: "row_get ps_id j (pw_slips w3) = Some (?f ?w1 t)" using t2 assms(5) by (simp add: w3(3) row_get_upd_other del: write_slip_sel)
  obtain w4 where w4: "confirm_payslip e j w3 = (Inr (), w4)" "pw_loans w4 = map (pay_installment e (?f ?w1 t)) (pw_loans w3)"
    "pw_slips w4 = row_upd ps_id j (\<lambda>s. s\<lparr>ps_state := SlConfirmed\<rparr>) (pw_slips w3)"
    using t3 by (simp add: confirm_payslip_def with_slip_def apply_records_def)
  have run: "action_confirm e [i, j] ?w2 = (Inr (), w4)" using w3(1) w4(1) by (simp add: action_confirm_def rolled_back_def)
  have rows: "row_get ps_id i (pw_slips w4) = Some ((?f w s)\<lparr>ps_state := SlConfirmed\<rparr>)" "row_get ps_id j (pw_slips w4) = Some ((?f ?w1 t)\<lparr>ps_state := SlConfirmed\<rparr>)"
    using s2 t3 assms(5) by (simp_all add: w4(3) w3(3) confirmed_row del: write_slip_sel)
  have "l \<in> set (filter (open_loan s) (pw_loans w))" using assms(7) by simp
  then have l: "open_loan s l" "l \<in> set (pw_loans w)" by simp_all
  have nxt: "next_installment l = remaining_balance l" using assms(9) by (simp add: next_installment_def)
  have "open_loan t = open_loan s" using assms(6) by (rule open_loan_employee)
  then have ded: "loan_deductions (?f w s) = remaining_balance l" "loan_deductions (?f ?w1 t) = remaining_balance l"
    using assms(7) nxt by (simp_all add: compute_slip_loans)
  have "open_loan (?f w s) l" using l(1) open_loan_employee [of "?f w s" s] by simp
  from pay_installment_run [OF this assms(8), of e] have paid: "total_paid (pay_installment e (?f w s) l) = total_paid l + remaining_balance l"
    by (simp add: total_paid_def nxt)
  then have "remaining_balance (pay_installment e (?f w s) l) = 0" by (simp add: remaining_balance_def)
  then have "pay_installment e (?f ?w1 t) (pay_installment e (?f w s) l) = pay_installment e (?f w s) l"
    by (subst (1) pay_installment_def) (simp add: open_loan_def)
  then have "pay_installment e (?f w s) l \<in> set (pw_loans w4)" using l(2) by (force simp: w4(2) w3(2))
  then show ?thesis using compute run rows ded paid
    by (intro exI [of _ w4] exI [of _ "(?f w s)\<lparr>ps_state := SlConfirmed\<rparr>"] exI [of _ "(?f ?w1 t)\<lparr>ps_state := SlConfirmed\<rparr>"]
        exI [of _ "pay_installment e (?f w s) l"]) simp
qed

theorem last_installment_deducted_twice_witness: "\<exists>w' s' t'. loan_deductions s' = 1000 \<and> loan_deductions t' = 1000 \<and>
   row_get ps_id 1 (pw_slips w') = Some s' \<and> row_get ps_id 2 (pw_slips w') = Some t' \<and> ps_state t' = SlConfirmed \<and>
   act_seq (action_compute clerk [1, 2]) (action_confirm clerk [1, 2])
     (empty_payroll\<lparr>pw_loans := [car_loan\<lparr>ln_installment := 1000\<rparr>], pw_slips := [march_slip\<lparr>ps_id := 1\<rparr>, march_slip\<lparr>ps_id := 2\<rparr>]\<rparr>) = (Inr (), w')"
proof -
  let ?l = "car_loan\<lparr>ln_installment := 1000\<rparr>"
  let ?s = "march_slip\<lparr>ps_id := 1\<rparr>"
  let ?t = "march_slip\<lparr>ps_id := 2\<rparr>"
  let ?w = "empty_payroll\<lparr>pw_loans := [?l], pw_slips := [?s, ?t]\<rparr>"
  have rows: "row_get ps_id 1 (pw_slips ?w) = Some ?s" "row_get ps_id 2 (pw_slips ?w) = Some ?t" by (simp_all add: row_simps)
  have drafts: "ps_state ?s = SlDraft" "ps_state ?t = SlDraft" "ps_employee ?t = ps_employee ?s" "(1::nat) \<noteq> 2" by (simp_all add: march_slip_def)
  have l: "filter (open_loan ?s) (pw_loans ?w) = [?l]" "0 < ln_installment ?l" "remaining_balance ?l \<le> ln_installment ?l" "remaining_balance ?l = 1000"
    by (simp_all add: open_loan_def car_loan_def march_slip_def remaining_balance_def total_paid_def)
  from last_installment_deducted_twice [OF rows(1) drafts(1) rows(2) drafts(2,4,3) l(1-3), of clerk] show ?thesis unfolding l(4) by blast
qed

end
