(* ===== verification/PayrollForms.thy ===== *)
theory PayrollForms
  imports Payroll ClubGuests
begin

text \<open>
  The forms of custom-addons/co_payroll around the payslip: the placeholder of the electronic
  payroll and the hiring request. How Python prints an amount is a parameter.
\<close>

section \<open>Electronic payroll\<close>

datatype form_state = FoDraft | FoGenerated | FoSent | FoAccepted | FoRejected | FoCancelled

text \<open>A \<open>Char\<close> that was never written is False, which an f-string prints as such.\<close>

record electronic_payroll =
  el_id :: nat
  el_name :: string
  el_slip :: nat
  el_document_type :: string
  el_employer_nit :: "string option"
  el_employer_name :: "string option"
  el_document_number :: "string option"
  el_xml :: "string option"
  el_filename :: "string option"
  el_state :: form_state

record company_card =
  cc_vat :: "string option"
  cc_name :: "string option"

record forms_env =
  fe_sequence :: "nat \<Rightarrow> string option"
  fe_amount :: "rat \<Rightarrow> string"
  fe_company :: "nat \<Rightarrow> company_card"
  fe_identification :: "nat \<Rightarrow> string option"
  fe_slip :: "nat \<Rightarrow> payslip"
  fe_user :: nat

record forms =
  fo_electronic :: "electronic_payroll list"
  fo_next :: nat
  fo_sequence :: nat

definition show_char :: "string option \<Rightarrow> string" where
  "show_char x = (case x of None \<Rightarrow> ''False'' | Some s \<Rightarrow> s)"

definition or_empty :: "string option \<Rightarrow> string" where
  "or_empty x = (case x of None \<Rightarrow> [] | Some s \<Rightarrow> s)"

definition create_electronic :: "forms_env \<Rightarrow> electronic_payroll \<Rightarrow> forms \<Rightarrow> forms" where
  "create_electronic e r w =
     w\<lparr>fo_electronic := fo_electronic w @
          [r\<lparr>el_id := fo_next w, el_name := (if el_name r = ''New'' then py_or (fe_sequence e (fo_sequence w)) ''New'' else el_name r)\<rparr>],
       fo_next := fo_next w + 1,
       fo_sequence := (if el_name r = ''New'' then fo_sequence w + 1 else fo_sequence w)\<rparr>"

definition xml_line :: "nat \<Rightarrow> string \<Rightarrow> string \<Rightarrow> string" where
  "xml_line n tag body = replicate n (CHR 0x20) @ ''<'' @ tag @ ''>'' @ body @ ''</'' @ tag @ ''>'' @ [CHR 0x0A]"

definition build_xml_placeholder :: "forms_env \<Rightarrow> electronic_payroll \<Rightarrow> string" where
  "build_xml_placeholder e r =
     (let s = fe_slip e (el_slip r)
      in ''<?xml version=\"1.0\" encoding=\"UTF-8\"?>'' @ [CHR 0x0A] @
         ''<!-- PLACEHOLDER - Not a valid DIAN document -->'' @ [CHR 0x0A] @
         ''<NominaIndividual>'' @ [CHR 0x0A] @
         xml_line 4 ''NumeroDocumento'' (el_name r) @
         xml_line 4 ''TipoDocumento'' (el_document_type r) @
         ''    <Empleador>'' @ [CHR 0x0A] @
         xml_line 8 ''NIT'' (show_char (el_employer_nit r)) @
         xml_line 8 ''Nombre'' (show_char (el_employer_name r)) @
         ''    </Empleador>'' @ [CHR 0x0A] @
         ''    <Trabajador>'' @ [CHR 0x0A] @
         xml_line 8 ''NumeroDocumento'' (show_char (el_document_number r)) @
         ''    </Trabajador>'' @ [CHR 0x0A] @
         ''    <Periodo>'' @ [CHR 0x0A] @
         xml_line 8 ''FechaIngreso'' (iso_date (ps_from s)) @
         xml_line 8 ''FechaRetiro'' (iso_date (ps_to s)) @
         ''    </Periodo>'' @ [CHR 0x0A] @
         xml_line 4 ''DevengadosTotal'' (fe_amount e (total_earnings s)) @
         xml_line 4 ''DeduccionesTotal'' (fe_amount e (total_deductions s)) @
         xml_line 4 ''ComprobanteTotal'' (fe_amount e (net_pay s)) @
         ''</NominaIndividual>'')"

definition generate_xml :: "forms_env \<Rightarrow> electronic_payroll \<Rightarrow> electronic_payroll" where
  "generate_xml e r =
     (let s = fe_slip e (el_slip r); c = fe_company e (ps_company s)
      in r\<lparr>el_employer_nit := Some (or_empty (cc_vat c)), el_employer_name := Some (or_empty (cc_name c)),
           el_document_number := Some (or_empty (fe_identification e (ps_employee s))),
           el_xml := Some (build_xml_placeholder e r), el_filename := Some (''NE_'' @ el_name r @ ''.xml''),
           el_state := FoGenerated\<rparr>)"

definition set_electronic :: "(electronic_payroll \<Rightarrow> electronic_payroll) \<Rightarrow> nat list \<Rightarrow> forms \<Rightarrow> forms" where
  "set_electronic f ids w = w\<lparr>fo_electronic := map (\<lambda>r. if el_id r \<in> set ids then f r else r) (fo_electronic w)\<rparr>"

definition action_generate_xml :: "forms_env \<Rightarrow> nat list \<Rightarrow> forms \<Rightarrow> forms" where
  "action_generate_xml e = set_electronic (generate_xml e)"

definition action_cancel_electronic :: "nat list \<Rightarrow> forms \<Rightarrow> forms" where
  "action_cancel_electronic = set_electronic (\<lambda>r. r\<lparr>el_state := FoCancelled\<rparr>)"

definition action_reset_electronic :: "nat list \<Rightarrow> forms \<Rightarrow> forms" where
  "action_reset_electronic = set_electronic (\<lambda>r. r\<lparr>el_state := FoDraft, el_xml := None\<rparr>)"

section \<open>Hiring requests\<close>

datatype hiring_state = HiDraft | HiSubmitted | HiApproved | HiRecruiting | HiFilled | HiCancelled

record hiring_request =
  hi_id :: nat
  hi_name :: string
  hi_approved_by :: "nat option"
  hi_state :: hiring_state

definition create_hiring :: "forms_env \<Rightarrow> nat \<Rightarrow> hiring_request \<Rightarrow> hiring_request" where
  "create_hiring e n r = (if hi_name r = ''New'' then r\<lparr>hi_name := py_or (fe_sequence e n) ''New''\<rparr> else r)"

definition action_submit :: "hiring_request \<Rightarrow> hiring_request" where
  "action_submit r = r\<lparr>hi_state := HiSubmitted\<rparr>"

definition action_approve_hiring :: "forms_env \<Rightarrow> hiring_request \<Rightarrow> hiring_request" where
  "action_approve_hiring e r = r\<lparr>hi_state := HiApproved, hi_approved_by := Some (fe_user e)\<rparr>"

definition action_start_recruiting :: "hiring_request \<Rightarrow> hiring_request" where
  "action_start_recruiting r = r\<lparr>hi_state := HiRecruiting\<rparr>"

definition action_mark_filled :: "hiring_request \<Rightarrow> hiring_request" where
  "action_mark_filled r = r\<lparr>hi_state := HiFilled\<rparr>"

definition action_cancel_hiring :: "hiring_request \<Rightarrow> hiring_request" where
  "action_cancel_hiring r = r\<lparr>hi_state := HiCancelled\<rparr>"

definition action_reset_hiring :: "hiring_request \<Rightarrow> hiring_request" where
  "action_reset_hiring r = r\<lparr>hi_state := HiDraft\<rparr>"

section \<open>What is generated first\<close>

lemma xml_has_employer: "\<exists>a b. build_xml_placeholder e r = a @ xml_line 8 ''NIT'' (show_char (el_employer_nit r)) @ b"
proof -
  have "a @ b @ c @ d @ k @ f @ g @ h @ i @ j @ x @ z = (a @ b @ c @ d @ k @ f @ g @ h @ i @ j) @ x @ z" for a b c d k f g h i j x z :: string
    by simp
  then show ?thesis unfolding build_xml_placeholder_def Let_def by blast
qed

lemma generate_xml_sel [simp]:
  "el_slip (generate_xml e r) = el_slip r" "el_employer_nit (generate_xml e r) = Some (or_empty (cc_vat (fe_company e (ps_company (fe_slip e (el_slip r))))))"
  "el_xml (generate_xml e r) = Some (build_xml_placeholder e r)"
  by (simp_all add: generate_xml_def Let_def)

lemma first_xml_lacks_employer:
  assumes "el_employer_nit r = None"
  shows "\<exists>a b. el_xml (generate_xml e r) = Some (a @ xml_line 8 ''NIT'' ''False'' @ b)"
    "\<exists>a b. el_xml (generate_xml e (generate_xml e r)) =
       Some (a @ xml_line 8 ''NIT'' (or_empty (cc_vat (fe_company e (ps_company (fe_slip e (el_slip r)))))) @ b)"
  using xml_has_employer [of e r] xml_has_employer [of e "generate_xml e r"] assms by (simp_all add: show_char_def)

end
