(* ===== verification/ClubAssembly.thy ===== *)
theory ClubAssembly
  imports Prelude
begin

text \<open>
  custom-addons/club_assembly/models: assemblies with their members and attendance, topics, and votes,
  by proxy or not. The tables of one database; a call that raises is rolled back. The affiliates of
  club_core are named by their ids; their e-mail and their membership are arguments.
\<close>

section \<open>Records\<close>

datatype assembly_status = AbDraft | AbScheduled | AbInSession | AbVoting | AbClosed | AbCancelled

datatype topic_status = TpPending | TpInDiscussion | TpVotingOpen | TpVotingClosed | TpApproved | TpRejected | TpTabled

datatype ballot = For | Against | Abstain

datatype attendance_status = AtInvited | AtPresent | AtAbsent | AtExcused | AtProxy

record assembly =
  ab_id :: nat
  ab_name :: string
  ab_status :: assembly_status
  ab_members :: "nat list"
  ab_quorum :: int

record topic =
  tp_id :: nat
  tp_assembly :: nat
  tp_status :: topic_status

record vote =
  vo_topic :: nat
  vo_affiliate :: nat
  vo_vote :: ballot
  vo_is_proxy :: bool
  vo_voter :: "nat option"

record attendance =
  at_assembly :: nat
  at_affiliate :: nat
  at_status :: attendance_status
  at_holder :: "nat option"

record hall =
  ha_assemblies :: "assembly list"
  ha_topics :: "topic list"
  ha_votes :: "vote list"
  ha_attendance :: "attendance list"
  ha_mails :: "(nat \<times> string) list"
  ha_notes :: "(nat \<times> nat) list"
  ha_next :: nat
  ha_sequence :: nat

record hall_env =
  he_sequence :: "nat \<Rightarrow> string option"
  he_email :: "nat \<Rightarrow> string option"
  he_active :: "nat list"

datatype hall_exn =
    OnlyDraftScheduled | OnlyScheduledInvites | OnlyScheduledOpened | QuorumNotMet int nat | OnlyInSessionVotes
  | OnlyOpenClosed | ClosedNotCancelled | OnlyPendingDiscussed | OnlyDiscussedVoted | OnlyVotedClosed
  | AlreadyVoted | NotAMember nat nat | ProxyUnnamed | ProxyUnauthorized nat nat
  | AlreadyAttending | ProxyHolderMissing | OwnProxy | NoRow nat

type_synonym 'a hall_act = "(hall, hall_exn, 'a) act"

section \<open>Assemblies\<close>

definition member_count :: "assembly \<Rightarrow> nat" where
  "member_count a = length (ab_members a)"

definition present_count :: "hall \<Rightarrow> nat \<Rightarrow> nat" where
  "present_count h i = length (filter (\<lambda>r. at_assembly r = i \<and> at_status r = AtPresent) (ha_attendance h))"

definition quorum_met :: "hall \<Rightarrow> assembly \<Rightarrow> bool" where
  "quorum_met h a \<longleftrightarrow> (if ab_quorum a = 0 then True else ab_quorum a \<le> int (present_count h (ab_id a)))"

definition write_assembly :: "nat \<Rightarrow> (assembly \<Rightarrow> assembly) \<Rightarrow> hall \<Rightarrow> hall" where
  "write_assembly i f h = h\<lparr>ha_assemblies := row_upd ab_id i f (ha_assemblies h)\<rparr>"

definition with_assembly :: "nat \<Rightarrow> (assembly \<Rightarrow> 'a hall_act) \<Rightarrow> 'a hall_act" where
  "with_assembly i k = (\<lambda>h. case row_get ab_id i (ha_assemblies h) of None \<Rightarrow> (Inl (NoRow i), h) | Some a \<Rightarrow> k a h)"

definition set_assembly_status :: "nat \<Rightarrow> assembly_status \<Rightarrow> unit hall_act" where
  "set_assembly_status i s = act_modify (write_assembly i (\<lambda>a. a\<lparr>ab_status := s\<rparr>))"

definition create_assembly :: "hall_env \<Rightarrow> assembly \<Rightarrow> hall \<Rightarrow> hall" where
  "create_assembly e a h =
     h\<lparr>ha_assemblies := ha_assemblies h @
          [a\<lparr>ab_id := ha_next h, ab_status := AbDraft, ab_members := remdups (ab_members a),
             ab_name := (if ab_name a = ''/'' then py_or (he_sequence e (ha_sequence h)) ''/'' else ab_name a)\<rparr>],
       ha_next := ha_next h + 1, ha_sequence := (if ab_name a = ''/'' then ha_sequence h + 1 else ha_sequence h)\<rparr>"

definition schedule_assembly :: "nat \<Rightarrow> unit hall_act" where
  "schedule_assembly i = with_assembly i (\<lambda>a. if ab_status a \<noteq> AbDraft then act_raise OnlyDraftScheduled else set_assembly_status i AbScheduled)"

definition invitations :: "hall_env \<Rightarrow> assembly \<Rightarrow> (nat \<times> string) list" where
  "invitations e a = map (\<lambda>m. (ab_id a, the (he_email e m))) (filter (\<lambda>m. truthy (he_email e m)) (ab_members a))"

definition invite_one :: "hall_env \<Rightarrow> nat \<Rightarrow> unit hall_act" where
  "invite_one e i = with_assembly i (\<lambda>a.
     if ab_status a \<noteq> AbScheduled then act_raise OnlyScheduledInvites
     else act_modify (\<lambda>h. h\<lparr>ha_mails := ha_mails h @ invitations e a, ha_notes := ha_notes h @ [(i, length (invitations e a))]\<rparr>))"

definition open_session :: "nat \<Rightarrow> unit hall_act" where
  "open_session i = with_assembly i (\<lambda>a h.
     if ab_status a \<noteq> AbScheduled then act_raise OnlyScheduledOpened h
     else if ab_quorum a \<noteq> 0 \<and> \<not> quorum_met h a then act_raise (QuorumNotMet (ab_quorum a) (present_count h i)) h
     else set_assembly_status i AbInSession h)"

definition start_voting :: "nat \<Rightarrow> unit hall_act" where
  "start_voting i = with_assembly i (\<lambda>a. if ab_status a \<noteq> AbInSession then act_raise OnlyInSessionVotes else set_assembly_status i AbVoting)"

definition close_assembly :: "nat \<Rightarrow> unit hall_act" where
  "close_assembly i = with_assembly i (\<lambda>a.
     if ab_status a \<noteq> AbInSession \<and> ab_status a \<noteq> AbVoting then act_raise OnlyOpenClosed else set_assembly_status i AbClosed)"

definition cancel_assembly :: "nat \<Rightarrow> unit hall_act" where
  "cancel_assembly i = with_assembly i (\<lambda>a. if ab_status a = AbClosed then act_raise ClosedNotCancelled else set_assembly_status i AbCancelled)"

definition add_active_one :: "hall_env \<Rightarrow> nat \<Rightarrow> unit hall_act" where
  "add_active_one e i = with_assembly i (\<lambda>a. act_modify (write_assembly i (\<lambda>a.
     a\<lparr>ab_members := ab_members a @ filter (\<lambda>m. m \<notin> set (ab_members a)) (remdups (he_active e))\<rparr>)))"

definition assembly_schedule :: "nat list \<Rightarrow> unit hall_act" where
  "assembly_schedule ids = rolled_back (for_each schedule_assembly ids)"

definition assembly_send_invitations :: "hall_env \<Rightarrow> nat list \<Rightarrow> unit hall_act" where
  "assembly_send_invitations e ids = rolled_back (for_each (invite_one e) ids)"

definition assembly_open_session :: "nat list \<Rightarrow> unit hall_act" where
  "assembly_open_session ids = rolled_back (for_each open_session ids)"

definition assembly_start_voting :: "nat list \<Rightarrow> unit hall_act" where
  "assembly_start_voting ids = rolled_back (for_each start_voting ids)"

definition assembly_close :: "nat list \<Rightarrow> unit hall_act" where
  "assembly_close ids = rolled_back (for_each close_assembly ids)"

definition assembly_cancel :: "nat list \<Rightarrow> unit hall_act" where
  "assembly_cancel ids = rolled_back (for_each cancel_assembly ids)"

definition assembly_add_all_active :: "hall_env \<Rightarrow> nat list \<Rightarrow> unit hall_act" where
  "assembly_add_all_active e ids = rolled_back (for_each (add_active_one e) ids)"

section \<open>Topics\<close>

definition votes_of :: "hall \<Rightarrow> nat \<Rightarrow> ballot \<Rightarrow> nat" where
  "votes_of h i b = length (filter (\<lambda>v. vo_topic v = i \<and> vo_vote v = b) (ha_votes h))"

definition tally :: "string \<Rightarrow> hall \<Rightarrow> nat \<Rightarrow> string" where
  "tally word h i = word @ '' ('' @ int_str (int (votes_of h i For)) @ ''-'' @ int_str (int (votes_of h i Against)) @ ''-''
     @ int_str (int (votes_of h i Abstain)) @ '')''"

definition vote_result :: "hall \<Rightarrow> topic \<Rightarrow> string" where
  "vote_result h t =
     (let f = votes_of h (tp_id t) For; a = votes_of h (tp_id t) Against
      in if tp_status t \<in> {TpApproved, TpRejected, TpVotingClosed}
         then if tp_status t = TpApproved \<or> tp_status t = TpVotingClosed \<and> a < f then tally ''Aprobado'' h (tp_id t)
              else if tp_status t = TpRejected \<or> tp_status t = TpVotingClosed \<and> f \<le> a then tally ''Rechazado'' h (tp_id t)
              else ''Pendiente''
         else ''Pendiente'')"

definition write_topic :: "nat \<Rightarrow> topic_status \<Rightarrow> unit hall_act" where
  "write_topic i s = act_modify (\<lambda>h. h\<lparr>ha_topics := row_upd tp_id i (\<lambda>t. t\<lparr>tp_status := s\<rparr>) (ha_topics h)\<rparr>)"

definition with_topic :: "nat \<Rightarrow> (topic \<Rightarrow> 'a hall_act) \<Rightarrow> 'a hall_act" where
  "with_topic i k = (\<lambda>h. case row_get tp_id i (ha_topics h) of None \<Rightarrow> (Inl (NoRow i), h) | Some t \<Rightarrow> k t h)"

definition open_discussion_one :: "nat \<Rightarrow> unit hall_act" where
  "open_discussion_one i = with_topic i (\<lambda>t. if tp_status t \<noteq> TpPending then act_raise OnlyPendingDiscussed else write_topic i TpInDiscussion)"

definition open_voting_one :: "nat \<Rightarrow> unit hall_act" where
  "open_voting_one i = with_topic i (\<lambda>t. if tp_status t \<noteq> TpInDiscussion then act_raise OnlyDiscussedVoted else write_topic i TpVotingOpen)"

definition close_voting_one :: "nat \<Rightarrow> unit hall_act" where
  "close_voting_one i = with_topic i (\<lambda>t h.
     if tp_status t \<noteq> TpVotingOpen then act_raise OnlyVotedClosed h
     else if votes_of h i Against < votes_of h i For then write_topic i TpApproved h
     else write_topic i TpRejected h)"

definition table_one :: "nat \<Rightarrow> unit hall_act" where
  "table_one i = with_topic i (\<lambda>t. write_topic i TpTabled)"

definition topic_open_discussion :: "nat list \<Rightarrow> unit hall_act" where
  "topic_open_discussion ids = rolled_back (for_each open_discussion_one ids)"

definition topic_open_voting :: "nat list \<Rightarrow> unit hall_act" where
  "topic_open_voting ids = rolled_back (for_each open_voting_one ids)"

definition topic_close_voting :: "nat list \<Rightarrow> unit hall_act" where
  "topic_close_voting ids = rolled_back (for_each close_voting_one ids)"

definition topic_table :: "nat list \<Rightarrow> unit hall_act" where
  "topic_table ids = rolled_back (for_each table_one ids)"

section \<open>Attendance\<close>

definition check_proxy_holder :: "attendance \<Rightarrow> hall_exn option" where
  "check_proxy_holder r =
     (if at_status r = AtProxy \<and> at_holder r = None then Some ProxyHolderMissing
      else if at_holder r = Some (at_affiliate r) then Some OwnProxy
      else None)"

definition onchange_status_proxy :: "attendance \<Rightarrow> attendance" where
  "onchange_status_proxy r = (if at_status r \<noteq> AtProxy then r\<lparr>at_holder := None\<rparr> else r)"

definition same_seat :: "attendance \<Rightarrow> attendance \<Rightarrow> bool" where
  "same_seat r s \<longleftrightarrow> at_assembly r = at_assembly s \<and> at_affiliate r = at_affiliate s"

definition create_attendance :: "attendance \<Rightarrow> unit hall_act" where
  "create_attendance r = (\<lambda>h.
     if list_ex (same_seat r) (ha_attendance h) then (Inl AlreadyAttending, h)
     else (case check_proxy_holder r of Some x \<Rightarrow> (Inl x, h) | None \<Rightarrow> (Inr (), h\<lparr>ha_attendance := ha_attendance h @ [r]\<rparr>)))"

definition write_attendance :: "nat \<Rightarrow> nat \<Rightarrow> attendance_status \<Rightarrow> nat option \<Rightarrow> unit hall_act" where
  "write_attendance i m s p = (\<lambda>h.
     let mine = (\<lambda>r. at_assembly r = i \<and> at_affiliate r = m); f = (\<lambda>r. r\<lparr>at_status := s, at_holder := p\<rparr>)
     in (case List.map_filter check_proxy_holder (map f (filter mine (ha_attendance h))) of
           x # _ \<Rightarrow> (Inl x, h)
         | [] \<Rightarrow> (Inr (), h\<lparr>ha_attendance := map (\<lambda>r. if mine r then f r else r) (ha_attendance h)\<rparr>)))"

section \<open>Votes\<close>

definition check_voter_is_member :: "hall \<Rightarrow> vote \<Rightarrow> hall_exn option" where
  "check_voter_is_member h v =
     (case row_get tp_id (vo_topic v) (ha_topics h) of
        None \<Rightarrow> Some (NoRow (vo_topic v))
      | Some t \<Rightarrow>
          (case row_get ab_id (tp_assembly t) (ha_assemblies h) of
             None \<Rightarrow> Some (NoRow (tp_assembly t))
           | Some a \<Rightarrow> if vo_affiliate v \<notin> set (ab_members a) then Some (NotAMember (vo_affiliate v) (ab_id a)) else None))"

definition authorizes :: "nat \<Rightarrow> nat \<Rightarrow> nat \<Rightarrow> attendance \<Rightarrow> bool" where
  "authorizes i m p r \<longleftrightarrow> at_assembly r = i \<and> at_affiliate r = m \<and> at_status r = AtProxy \<and> at_holder r = Some p"

definition check_proxy_authorization :: "hall \<Rightarrow> vote \<Rightarrow> hall_exn option" where
  "check_proxy_authorization h v =
     (if \<not> vo_is_proxy v then None
      else case vo_voter v of
        None \<Rightarrow> Some ProxyUnnamed
      | Some p \<Rightarrow>
          (case row_get tp_id (vo_topic v) (ha_topics h) of
             None \<Rightarrow> Some (NoRow (vo_topic v))
           | Some t \<Rightarrow> if list_ex (authorizes (tp_assembly t) (vo_affiliate v) p) (ha_attendance h) then None
                       else Some (ProxyUnauthorized p (vo_affiliate v))))"

definition same_voter :: "vote \<Rightarrow> vote \<Rightarrow> bool" where
  "same_voter v u \<longleftrightarrow> vo_topic v = vo_topic u \<and> vo_affiliate v = vo_affiliate u"

definition cast_vote :: "vote \<Rightarrow> unit hall_act" where
  "cast_vote v = (\<lambda>h.
     if list_ex (same_voter v) (ha_votes h) then (Inl AlreadyVoted, h)
     else (case check_proxy_authorization h v of
             Some x \<Rightarrow> (Inl x, h)
           | None \<Rightarrow>
               (case check_voter_is_member h v of
                  Some x \<Rightarrow> (Inl x, h)
                | None \<Rightarrow> (Inr (), h\<lparr>ha_votes := ha_votes h @ [v]\<rparr>))))"

text \<open>The value of a vote is not constrained.\<close>

definition change_vote :: "nat \<Rightarrow> nat \<Rightarrow> ballot \<Rightarrow> hall \<Rightarrow> hall" where
  "change_vote i m b h = h\<lparr>ha_votes := map (\<lambda>v. if vo_topic v = i \<and> vo_affiliate v = m then v\<lparr>vo_vote := b\<rparr> else v) (ha_votes h)\<rparr>"

definition delete_vote :: "nat \<Rightarrow> nat \<Rightarrow> hall \<Rightarrow> hall" where
  "delete_vote i m h = h\<lparr>ha_votes := filter (\<lambda>v. \<not> (vo_topic v = i \<and> vo_affiliate v = m)) (ha_votes h)\<rparr>"

section \<open>Order of the states\<close>

fun assembly_rank :: "assembly_status \<Rightarrow> nat" where
  "assembly_rank AbDraft = 0"
| "assembly_rank AbScheduled = 1"
| "assembly_rank AbInSession = 2"
| "assembly_rank AbVoting = 3"
| "assembly_rank AbClosed = 4"
| "assembly_rank AbCancelled = 5"

definition status_later :: "assembly_status \<Rightarrow> assembly_status \<Rightarrow> bool" where
  "status_later s t \<longleftrightarrow> s = t \<or> assembly_rank s < assembly_rank t \<and> s \<noteq> AbClosed \<and> s \<noteq> AbCancelled"

lemma status_later_refl [simp]: "status_later s s"
  by (simp add: status_later_def)

lemma status_later_trans: "status_later s t \<Longrightarrow> status_later t u \<Longrightarrow> status_later s u"
  by (auto simp: status_later_def)

definition hall_later :: "hall \<Rightarrow> hall \<Rightarrow> bool" where
  "hall_later h k \<longleftrightarrow>
     (\<forall>i a. row_get ab_id i (ha_assemblies h) = Some a \<longrightarrow>
        (\<exists>b. row_get ab_id i (ha_assemblies k) = Some b \<and> status_later (ab_status a) (ab_status b) \<and> set (ab_members a) \<subseteq> set (ab_members b))) \<and>
     (\<forall>i t. row_get tp_id i (ha_topics h) = Some t \<longrightarrow> (\<exists>u. row_get tp_id i (ha_topics k) = Some u \<and> tp_assembly u = tp_assembly t))"

lemma hall_later_refl: "hall_later h h"
  by (simp add: hall_later_def)

lemma hall_later_trans: "hall_later h k \<Longrightarrow> hall_later k l \<Longrightarrow> hall_later h l"
proof -
  assume l: "hall_later h k" "hall_later k l"
  have "\<exists>c. row_get ab_id i (ha_assemblies l) = Some c \<and> status_later (ab_status a) (ab_status c) \<and> set (ab_members a) \<subseteq> set (ab_members c)"
    if a: "row_get ab_id i (ha_assemblies h) = Some a" for i a
  proof -
    obtain b where b: "row_get ab_id i (ha_assemblies k) = Some b" "status_later (ab_status a) (ab_status b)" "set (ab_members a) \<subseteq> set (ab_members b)"
      using l(1) a unfolding hall_later_def by blast
    then obtain c where "row_get ab_id i (ha_assemblies l) = Some c" "status_later (ab_status b) (ab_status c)" "set (ab_members b) \<subseteq> set (ab_members c)"
      using l(2) unfolding hall_later_def by blast
    with b status_later_trans show ?thesis by blast
  qed
  moreover have "\<exists>v. row_get tp_id i (ha_topics l) = Some v \<and> tp_assembly v = tp_assembly t" if "row_get tp_id i (ha_topics h) = Some t" for i t
    using l that unfolding hall_later_def by metis
  ultimately show ?thesis unfolding hall_later_def by blast
qed

section \<open>What every call keeps\<close>

definition voter_ok :: "hall \<Rightarrow> vote \<Rightarrow> bool" where
  "voter_ok h v \<longleftrightarrow> (\<exists>t a. row_get tp_id (vo_topic v) (ha_topics h) = Some t \<and>
     row_get ab_id (tp_assembly t) (ha_assemblies h) = Some a \<and> vo_affiliate v \<in> set (ab_members a))"

definition vote_key :: "vote \<Rightarrow> nat \<times> nat" where
  "vote_key v = (vo_topic v, vo_affiliate v)"

definition hall_ok :: "hall \<Rightarrow> bool" where
  "hall_ok h \<longleftrightarrow> distinct (map ab_id (ha_assemblies h)) \<and> (\<forall>a \<in> set (ha_assemblies h). ab_id a < ha_next h) \<and>
     distinct (map tp_id (ha_topics h)) \<and> (\<forall>t \<in> set (ha_topics h). tp_id t < ha_next h) \<and>
     distinct (map vote_key (ha_votes h)) \<and> (\<forall>v \<in> set (ha_votes h). voter_ok h v)"

definition good :: "hall \<Rightarrow> hall \<Rightarrow> bool" where
  "good h k \<longleftrightarrow> hall_ok k \<and> hall_later h k"

lemma voter_ok_later: "voter_ok h v \<Longrightarrow> hall_later h k \<Longrightarrow> vote_key u = vote_key v \<Longrightarrow> voter_ok k u"
proof -
  assume v: "voter_ok h v" and l: "hall_later h k" and key: "vote_key u = vote_key v"
  obtain t a where t: "row_get tp_id (vo_topic v) (ha_topics h) = Some t" "row_get ab_id (tp_assembly t) (ha_assemblies h) = Some a"
    "vo_affiliate v \<in> set (ab_members a)" using v unfolding voter_ok_def by blast
  obtain t' where t': "row_get tp_id (vo_topic v) (ha_topics k) = Some t'" "tp_assembly t' = tp_assembly t"
    using l t(1) unfolding hall_later_def by blast
  obtain b where "row_get ab_id (tp_assembly t) (ha_assemblies k) = Some b" "set (ab_members a) \<subseteq> set (ab_members b)"
    using l t(2) unfolding hall_later_def by blast
  with t t' key show ?thesis unfolding voter_ok_def vote_key_def by auto
qed

lemma good_refl: "hall_ok h \<Longrightarrow> good h h"
  by (simp add: good_def hall_later_refl)

text \<open>A call that changes no vote has to keep the rows.\<close>

lemma good_rows:
  assumes "hall_ok h" "hall_later h k" "ha_votes k = ha_votes h"
    and "distinct (map ab_id (ha_assemblies k))" "\<forall>a \<in> set (ha_assemblies k). ab_id a < ha_next k"
    and "distinct (map tp_id (ha_topics k))" "\<forall>t \<in> set (ha_topics k). tp_id t < ha_next k"
  shows "good h k"
  using assms by (auto simp: good_def hall_ok_def intro: voter_ok_later [OF _ assms(2)])

lemma good_same_rows:
  "hall_ok h \<Longrightarrow> ha_assemblies k = ha_assemblies h \<Longrightarrow> ha_topics k = ha_topics h \<Longrightarrow> ha_votes k = ha_votes h \<Longrightarrow> ha_next k = ha_next h \<Longrightarrow> good h k"
  by (rule good_rows) (auto simp: hall_ok_def hall_later_def)

lemma good_write_assembly:
  assumes "hall_ok h" "row_get ab_id i (ha_assemblies h) = Some a" "\<And>a. ab_id (f a) = ab_id a"
    and "status_later (ab_status a) (ab_status (f a))" "set (ab_members a) \<subseteq> set (ab_members (f a))"
  shows "good h (write_assembly i f h)"
proof (rule good_rows [OF assms(1)])
  have "\<exists>c. row_get ab_id j (row_upd ab_id i f (ha_assemblies h)) = Some c \<and> status_later (ab_status b) (ab_status c) \<and> set (ab_members b) \<subseteq> set (ab_members c)"
    if "row_get ab_id j (ha_assemblies h) = Some b" for j b
    using that assms by (cases "j = i") (auto simp: row_get_upd_same row_get_upd_other)
  then show "hall_later h (write_assembly i f h)" by (simp add: hall_later_def write_assembly_def)
qed (use assms(1,3) in \<open>auto simp: hall_ok_def write_assembly_def map_key_row_upd in_set_row_upd\<close>)

lemma good_write_topic: "hall_ok h \<Longrightarrow> good h (snd (write_topic i s h))"
proof (rule good_rows)
  have "\<exists>u. row_get tp_id j (row_upd tp_id i (\<lambda>t. t\<lparr>tp_status := s\<rparr>) (ha_topics h)) = Some u \<and> tp_assembly u = tp_assembly t"
    if "row_get tp_id j (ha_topics h) = Some t" for j t
    using that by (cases "j = i") (auto simp: row_get_upd_same row_get_upd_other)
  then show "hall_later h (snd (write_topic i s h))" by (simp add: hall_later_def write_topic_def)
qed (auto simp: hall_ok_def write_topic_def map_key_row_upd in_set_row_upd)

lemma with_assembly_good:
  "(\<And>a. row_get ab_id i (ha_assemblies h) = Some a \<Longrightarrow> good h (snd (k a h))) \<Longrightarrow> hall_ok h \<Longrightarrow> good h (snd (with_assembly i k h))"
  by (auto simp: with_assembly_def good_refl split: option.split)

lemma with_topic_good:
  "(\<And>t. row_get tp_id i (ha_topics h) = Some t \<Longrightarrow> good h (snd (k t h))) \<Longrightarrow> hall_ok h \<Longrightarrow> good h (snd (with_topic i k h))"
  by (auto simp: with_topic_def good_refl split: option.split)

lemma good_status:
  "hall_ok h \<Longrightarrow> row_get ab_id i (ha_assemblies h) = Some a \<Longrightarrow> status_later (ab_status a) s \<Longrightarrow> good h (snd (set_assembly_status i s h))"
  unfolding set_assembly_status_def by (simp add: good_write_assembly)

lemma assembly_ones_good:
  assumes "hall_ok h"
  shows "good h (snd (schedule_assembly i h))" "good h (snd (invite_one e i h))" "good h (snd (open_session i h))" "good h (snd (start_voting i h))"
    "good h (snd (close_assembly i h))" "good h (snd (cancel_assembly i h))" "good h (snd (add_active_one e i h))"
proof -
  note r = good_refl [OF assms] and s = good_status [OF assms]
  show "good h (snd (schedule_assembly i h))" unfolding schedule_assembly_def
    by (rule with_assembly_good [OF _ assms]) (auto simp: r status_later_def intro!: s)
  show "good h (snd (invite_one e i h))" unfolding invite_one_def
    by (rule with_assembly_good [OF _ assms]) (auto simp: r intro!: good_same_rows [OF assms])
  show "good h (snd (open_session i h))" unfolding open_session_def
    by (rule with_assembly_good [OF _ assms]) (auto simp: r status_later_def intro!: s)
  show "good h (snd (start_voting i h))" unfolding start_voting_def
    by (rule with_assembly_good [OF _ assms]) (auto simp: r status_later_def intro!: s)
  show "good h (snd (close_assembly i h))" unfolding close_assembly_def
    by (rule with_assembly_good [OF _ assms]) (auto simp: r status_later_def intro!: s)
  show "good h (snd (add_active_one e i h))" unfolding add_active_one_def
    by (rule with_assembly_good [OF _ assms]) (auto intro!: good_write_assembly [OF assms])
  have later: "status_later t AbCancelled" if "t \<noteq> AbClosed" for t using that by (cases t) (simp_all add: status_later_def)
  show "good h (snd (cancel_assembly i h))" unfolding cancel_assembly_def
    by (rule with_assembly_good [OF _ assms]) (auto simp: r later intro!: s)
qed

lemma topic_ones_good:
  assumes "hall_ok h"
  shows "good h (snd (open_discussion_one i h))" "good h (snd (open_voting_one i h))" "good h (snd (close_voting_one i h))" "good h (snd (table_one i h))"
  unfolding open_discussion_one_def open_voting_one_def close_voting_one_def table_one_def
  by (rule with_topic_good [OF _ assms]; simp add: good_refl assms good_write_topic)+

lemma each_good:
  assumes "\<And>i h. hall_ok h \<Longrightarrow> good h (snd (f i h))" "hall_ok h"
  shows "good h (snd (rolled_back (for_each f ids) h))"
proof (rule rolled_back_inv [where I = "good h", OF for_each_inv [where I = "good h"]])
  show "good h (snd (f i s))" if "good h s" for i s
    using assms(1) [of s i] that hall_later_trans unfolding good_def by blast
qed (simp_all add: good_refl assms(2))

lemma cast_vote_good: "hall_ok h \<Longrightarrow> good h (snd (cast_vote v h))"
proof -
  assume ok: "hall_ok h"
  show ?thesis
  proof (cases "list_ex (same_voter v) (ha_votes h) \<or> check_proxy_authorization h v \<noteq> None \<or> check_voter_is_member h v \<noteq> None")
    case True
    then have "snd (cast_vote v h) = h" by (auto simp: cast_vote_def split: option.split)
    with ok show ?thesis by (simp add: good_refl)
  next
    case False
    let ?k = "h\<lparr>ha_votes := ha_votes h @ [v]\<rparr>"
    have run: "snd (cast_vote v h) = ?k" using False by (simp add: cast_vote_def)
    have later: "hall_later h ?k" by (simp add: hall_later_def)
    have "voter_ok h v" using False by (auto simp: check_voter_is_member_def voter_ok_def split: option.splits if_splits)
    then have "\<forall>u \<in> set (ha_votes ?k). voter_ok ?k u" using ok later by (auto simp: hall_ok_def intro: voter_ok_later)
    moreover have "distinct (map vote_key (ha_votes ?k))"
      using False ok by (auto simp: hall_ok_def vote_key_def same_voter_def list_ex_iff)
    ultimately have "hall_ok ?k" using ok by (simp add: hall_ok_def)
    with later run show ?thesis by (simp add: good_def)
  qed
qed

lemma votes_map_good:
  assumes "hall_ok h" "map vote_key vs = map vote_key (filter P (ha_votes h))"
  shows "good h (h\<lparr>ha_votes := vs\<rparr>)"
proof -
  let ?k = "h\<lparr>ha_votes := vs\<rparr>"
  have later: "hall_later h ?k" by (simp add: hall_later_def)
  have "voter_ok ?k u" if "u \<in> set vs" for u
  proof -
    have "vote_key u \<in> set (map vote_key (filter P (ha_votes h)))" using that by (simp flip: assms(2))
    then obtain v where "v \<in> set (ha_votes h)" "vote_key u = vote_key v" by auto
    then show ?thesis using assms(1) later voter_ok_later unfolding hall_ok_def by blast
  qed
  moreover have "distinct (map vote_key vs)" unfolding assms(2) using assms(1) by (simp add: hall_ok_def distinct_map_filter)
  ultimately show ?thesis using assms(1) later by (simp add: good_def hall_ok_def)
qed

lemma change_vote_good: "hall_ok h \<Longrightarrow> good h (change_vote i m b h)"
  unfolding change_vote_def by (rule votes_map_good [where P = "\<lambda>v. True"]) (simp_all add: vote_key_def comp_def)

lemma delete_vote_good: "hall_ok h \<Longrightarrow> good h (delete_vote i m h)"
  unfolding delete_vote_def by (rule votes_map_good) simp_all

lemma append_good:
  assumes "hall_ok h"
  shows "ab_id a = ha_next h \<Longrightarrow> good h (h\<lparr>ha_assemblies := ha_assemblies h @ [a], ha_next := ha_next h + 1, ha_sequence := q\<rparr>)"
    "good h (h\<lparr>ha_topics := ha_topics h @ [t\<lparr>tp_id := ha_next h\<rparr>], ha_next := ha_next h + 1\<rparr>)"
proof -
  have "\<forall>a \<in> set (ha_assemblies h). ab_id a < ha_next h" "\<forall>t \<in> set (ha_topics h). tp_id t < ha_next h"
    using assms by (simp_all add: hall_ok_def)
  then have new: "ha_next h \<notin> ab_id ` set (ha_assemblies h)" "ha_next h \<notin> tp_id ` set (ha_topics h)" by auto
  show "good h (h\<lparr>ha_assemblies := ha_assemblies h @ [a], ha_next := ha_next h + 1, ha_sequence := q\<rparr>)" if "ab_id a = ha_next h"
    by (rule good_rows [OF assms]) (use assms new that in \<open>auto simp: hall_ok_def hall_later_def row_get_append less_Suc_eq\<close>)
  show "good h (h\<lparr>ha_topics := ha_topics h @ [t\<lparr>tp_id := ha_next h\<rparr>], ha_next := ha_next h + 1\<rparr>)"
    by (rule good_rows [OF assms]) (use assms new in \<open>auto simp: hall_ok_def hall_later_def row_get_append less_Suc_eq\<close>)
qed

lemma create_assembly_good: "hall_ok h \<Longrightarrow> good h (create_assembly e a h)"
  unfolding create_assembly_def by (rule append_good(1)) simp_all

lemma attendance_good:
  "hall_ok h \<Longrightarrow> good h (snd (create_attendance r h))" "hall_ok h \<Longrightarrow> good h (snd (write_attendance i m s p h))"
  by (auto simp: create_attendance_def write_attendance_def Let_def good_refl intro!: good_same_rows split: option.split list.split)

inductive hall_step :: "hall \<Rightarrow> hall \<Rightarrow> bool" where
  "hall_step h (create_assembly e a h)"
| "hall_step h (snd (assembly_schedule ids h))"
| "hall_step h (snd (assembly_send_invitations e ids h))"
| "hall_step h (snd (assembly_open_session ids h))"
| "hall_step h (snd (assembly_start_voting ids h))"
| "hall_step h (snd (assembly_close ids h))"
| "hall_step h (snd (assembly_cancel ids h))"
| "hall_step h (snd (assembly_add_all_active e ids h))"
| "hall_step h (h\<lparr>ha_topics := ha_topics h @ [t\<lparr>tp_id := ha_next h\<rparr>], ha_next := ha_next h + 1\<rparr>)"
| "hall_step h (snd (topic_open_discussion ids h))"
| "hall_step h (snd (topic_open_voting ids h))"
| "hall_step h (snd (topic_close_voting ids h))"
| "hall_step h (snd (topic_table ids h))"
| "hall_step h (snd (create_attendance r h))"
| "hall_step h (snd (write_attendance i m s p h))"
| "hall_step h (snd (cast_vote v h))"
| "hall_step h (change_vote i m b h)"
| "hall_step h (delete_vote i m h)"

definition empty_hall :: hall where
  "empty_hall = \<lparr>ha_assemblies = [], ha_topics = [], ha_votes = [], ha_attendance = [], ha_mails = [], ha_notes = [], ha_next = 0, ha_sequence = 0\<rparr>"

lemma step_good: "hall_step h k \<Longrightarrow> hall_ok h \<Longrightarrow> good h k"
  by (induction rule: hall_step.induct)
    (simp_all add: create_assembly_good append_good [simplified] attendance_good cast_vote_good change_vote_good delete_vote_good
      assembly_schedule_def assembly_send_invitations_def assembly_open_session_def assembly_start_voting_def assembly_close_def
      assembly_cancel_def assembly_add_all_active_def topic_open_discussion_def topic_open_voting_def topic_close_voting_def topic_table_def
      each_good assembly_ones_good topic_ones_good)

lemma steps_good: "hall_step\<^sup>*\<^sup>* h k \<Longrightarrow> hall_ok h \<Longrightarrow> good h k"
proof (induction rule: rtranclp_induct)
  case base
  then show ?case by (rule good_refl)
next
  case (step k l)
  then have "good h k" "good k l" using step_good unfolding good_def by blast+
  then show ?case unfolding good_def using hall_later_trans by blast
qed

lemma reachable_hall: "hall_step\<^sup>*\<^sup>* empty_hall h \<Longrightarrow> hall_ok h"
  using steps_good [of empty_hall h] by (simp add: good_def hall_ok_def empty_hall_def)

section \<open>Counting\<close>

lemma votes_of_topic:
  "votes_of h i For + votes_of h i Against + votes_of h i Abstain = length (filter (\<lambda>v. vo_topic v = i) (ha_votes h))"
proof -
  have "length (filter (\<lambda>v. vo_topic v = i \<and> vo_vote v = For) vs) + length (filter (\<lambda>v. vo_topic v = i \<and> vo_vote v = Against) vs)
      + length (filter (\<lambda>v. vo_topic v = i \<and> vo_vote v = Abstain) vs) = length (filter (\<lambda>v. vo_topic v = i) vs)" for vs
  proof (induction vs)
    case (Cons v vs)
    then show ?case by (cases "vo_vote v") auto
  qed simp
  then show ?thesis by (simp add: votes_of_def)
qed

lemma voters_of_topic:
  assumes "hall_ok h" "row_get tp_id i (ha_topics h) = Some t" "row_get ab_id (tp_assembly t) (ha_assemblies h) = Some a"
  shows "length (filter (\<lambda>v. vo_topic v = i) (ha_votes h)) \<le> card (set (ab_members a))"
proof -
  let ?vs = "filter (\<lambda>v. vo_topic v = i) (ha_votes h)"
  have "inj_on vo_affiliate (set ?vs)" "distinct ?vs"
    using assms(1) by (auto simp: hall_ok_def distinct_map inj_on_def vote_key_def)
  then have "distinct (map vo_affiliate ?vs)" by (simp add: distinct_map)
  moreover have "set (map vo_affiliate ?vs) \<subseteq> set (ab_members a)"
    using assms by (auto simp: hall_ok_def voter_ok_def)
  ultimately show ?thesis by (metis List.finite_set card_mono distinct_card length_map)
qed

section \<open>Late votes\<close>

definition vote_against :: "nat \<Rightarrow> nat \<Rightarrow> vote" where
  "vote_against i m = \<lparr>vo_topic = i, vo_affiliate = m, vo_vote = Against, vo_is_proxy = False, vo_voter = None\<rparr>"

lemma cast_against:
  assumes "row_get tp_id i (ha_topics h) = Some t" "row_get ab_id (tp_assembly t) (ha_assemblies h) = Some a"
    and "distinct ms" "set ms \<subseteq> set (ab_members a)" "\<forall>v \<in> set (ha_votes h). vo_topic v = i \<longrightarrow> vo_affiliate v \<notin> set ms"
  shows "for_each (\<lambda>m. cast_vote (vote_against i m)) ms h = (Inr (), h\<lparr>ha_votes := ha_votes h @ map (vote_against i) ms\<rparr>)"
  using assms
proof (induction ms arbitrary: h)
  case (Cons m ms)
  let ?k = "h\<lparr>ha_votes := ha_votes h @ [vote_against i m]\<rparr>"
  have "\<not> list_ex (same_voter (vote_against i m)) (ha_votes h)"
    using Cons.prems(5) by (auto simp: list_ex_iff same_voter_def vote_against_def)
  moreover have "check_voter_is_member h (vote_against i m) = None"
    using Cons.prems(1,2,4) by (simp add: check_voter_is_member_def vote_against_def)
  moreover have "check_proxy_authorization h (vote_against i m) = None" by (simp add: check_proxy_authorization_def vote_against_def)
  ultimately have "cast_vote (vote_against i m) h = (Inr (), ?k)" by (simp add: cast_vote_def)
  moreover have "for_each (\<lambda>m. cast_vote (vote_against i m)) ms ?k = (Inr (), ?k\<lparr>ha_votes := ha_votes ?k @ map (vote_against i) ms\<rparr>)"
    by (rule Cons.IH) (use Cons.prems in \<open>auto simp: vote_against_def\<close>)
  ultimately show ?case by simp
qed simp

lemma votes_after:
  "votes_of (h\<lparr>ha_votes := ha_votes h @ map (vote_against i) ms\<rparr>) i b = votes_of h i b + (if b = Against then length ms else 0)"
proof -
  have "length (filter (\<lambda>v. vo_topic v = i \<and> vo_vote v = b) (map (vote_against i) ms)) = (if b = Against then length ms else 0)"
    by (induction ms) (auto simp: vote_against_def)
  then show ?thesis by (simp add: votes_of_def)
qed

section \<open>Properties\<close>

text \<open>
  C33: an assembly only moves forward: what is closed or cancelled stays so, under every order of calls, and no member is lost.
\<close>

theorem assembly_moves_forward:
  assumes "hall_step\<^sup>*\<^sup>* empty_hall h" "hall_step\<^sup>*\<^sup>* h k" "row_get ab_id i (ha_assemblies h) = Some a"
  shows "\<exists>b. row_get ab_id i (ha_assemblies k) = Some b \<and> (ab_status a \<in> {AbClosed, AbCancelled} \<longrightarrow> ab_status b = ab_status a) \<and>
     assembly_rank (ab_status a) \<le> assembly_rank (ab_status b) \<and> set (ab_members a) \<subseteq> set (ab_members b)"
proof -
  have "hall_later h k" using steps_good [OF assms(2) reachable_hall [OF assms(1)]] by (simp add: good_def)
  then obtain b where "row_get ab_id i (ha_assemblies k) = Some b" "status_later (ab_status a) (ab_status b)" "set (ab_members a) \<subseteq> set (ab_members b)"
    using assms(3) unfolding hall_later_def by blast
  then show ?thesis by (auto simp: status_later_def)
qed


text \<open>
  C35: votes are accepted after a topic is approved, whatever the state of its assembly; with enough of them it stays approved against a majority.
\<close>

theorem late_votes_accepted:
  assumes "row_get tp_id i (ha_topics h) = Some t" "tp_status t = TpApproved" "row_get ab_id (tp_assembly t) (ha_assemblies h) = Some a"
    and "distinct ms" "set ms \<subseteq> set (ab_members a)" "\<forall>v \<in> set (ha_votes h). vo_topic v = i \<longrightarrow> vo_affiliate v \<notin> set ms"
    and "votes_of h i For < votes_of h i Against + length ms"
  shows "\<exists>k. for_each (\<lambda>m. cast_vote (vote_against i m)) ms h = (Inr (), k) \<and> row_get tp_id i (ha_topics k) = Some t \<and>
     votes_of k i For < votes_of k i Against \<and> vote_result k t = tally ''Aprobado'' k i"
proof -
  let ?k = "h\<lparr>ha_votes := ha_votes h @ map (vote_against i) ms\<rparr>"
  have "votes_of ?k i For < votes_of ?k i Against" using assms(7) by (simp add: votes_after)
  moreover have "tp_id t = i" using row_get_in_set [OF assms(1)] by simp
  then have "vote_result ?k t = tally ''Aprobado'' ?k i" using assms(2) by (simp add: vote_result_def)
  ultimately show ?thesis using cast_against [OF assms(1,3-6)] assms(1) by (intro exI [of _ ?k]) simp
qed

section \<open>An example\<close>

definition meeting :: assembly where
  "meeting = \<lparr>ab_id = 0, ab_name = ''A/1'', ab_status = AbDraft, ab_members = [3, 4, 5], ab_quorum = 0\<rparr>"

definition no_mail :: hall_env where
  "no_mail = \<lparr>he_sequence = (\<lambda>n. None), he_email = (\<lambda>m. None), he_active = []\<rparr>"

definition with_meeting :: hall where
  "with_meeting = create_assembly no_mail meeting empty_hall"

definition with_topic_of_meeting :: hall where
  "with_topic_of_meeting = with_meeting\<lparr>ha_topics := ha_topics with_meeting @ [\<lparr>tp_id = 0, tp_assembly = 0, tp_status = TpPending\<rparr>\<lparr>tp_id := ha_next with_meeting\<rparr>], ha_next := ha_next with_meeting + 1\<rparr>"

lemmas meeting_defs = with_topic_of_meeting_def with_meeting_def create_assembly_def meeting_def empty_hall_def no_mail_def

lemma meeting_reached: "hall_step\<^sup>*\<^sup>* empty_hall with_meeting" "hall_step\<^sup>*\<^sup>* empty_hall with_topic_of_meeting"
proof -
  have "hall_step empty_hall with_meeting" unfolding with_meeting_def by (rule hall_step.intros(1))
  moreover have "hall_step with_meeting with_topic_of_meeting" unfolding with_topic_of_meeting_def by (rule hall_step.intros(9))
  ultimately show "hall_step\<^sup>*\<^sup>* empty_hall with_meeting" "hall_step\<^sup>*\<^sup>* empty_hall with_topic_of_meeting" by (meson rtranclp.simps)+
qed

theorem assembly_moves_forward_witness: "\<exists>b. row_get ab_id 0 (ha_assemblies (snd (assembly_cancel [0] with_meeting))) = Some b \<and> 3 \<in> set (ab_members b)"
proof -
  have a: "row_get ab_id 0 (ha_assemblies with_meeting) = Some meeting" by (simp add: meeting_defs row_simps)
  have "hall_step\<^sup>*\<^sup>* with_meeting (snd (assembly_cancel [0] with_meeting))"
    by (rule r_into_rtranclp [where r = hall_step], rule hall_step.intros(7))
  from assembly_moves_forward [OF meeting_reached(1) this a] show ?thesis by (auto simp: meeting_def)
qed


theorem late_votes_accepted_witness: "\<exists>h k t. h = empty_hall\<lparr>ha_assemblies := [meeting\<lparr>ab_status := AbClosed\<rparr>], ha_topics := [t], ha_votes := [(vote_against 1 3)\<lparr>vo_vote := For\<rparr>]\<rparr> \<and>
   tp_status t = TpApproved \<and> for_each (\<lambda>m. cast_vote (vote_against 1 m)) [4, 5] h = (Inr (), k) \<and> votes_of k 1 For < votes_of k 1 Against"
proof -
  let ?t = "\<lparr>tp_id = 1, tp_assembly = 0, tp_status = TpApproved\<rparr>"
  let ?h = "empty_hall\<lparr>ha_assemblies := [meeting\<lparr>ab_status := AbClosed\<rparr>], ha_topics := [?t], ha_votes := [(vote_against 1 3)\<lparr>vo_vote := For\<rparr>]\<rparr>"
  have t: "row_get tp_id 1 (ha_topics ?h) = Some ?t" by (simp add: row_simps)
  have a: "row_get ab_id (tp_assembly ?t) (ha_assemblies ?h) = Some (meeting\<lparr>ab_status := AbClosed\<rparr>)" by (simp add: row_simps meeting_def)
  have ms: "distinct [4, 5 :: nat]" "set [4, 5] \<subseteq> set (ab_members (meeting\<lparr>ab_status := AbClosed\<rparr>))"
    "\<forall>v \<in> set (ha_votes ?h). vo_topic v = 1 \<longrightarrow> vo_affiliate v \<notin> set [4, 5]" "votes_of ?h 1 For < votes_of ?h 1 Against + length [4, 5 :: nat]"
    by (simp_all add: meeting_def vote_against_def votes_of_def)
  have "tp_status ?t = TpApproved" by simp
  from late_votes_accepted [OF t this a ms] obtain k where
    k: "for_each (\<lambda>m. cast_vote (vote_against 1 m)) [4, 5] ?h = (Inr (), k)" "votes_of k 1 For < votes_of k 1 Against" by blast
  show ?thesis by (rule exI [of _ ?h], rule exI [of _ k], rule exI [of _ ?t]) (simp add: k del: for_each.simps One_nat_def)
qed

end
