(* ===== verification/CsvText.thy ===== *)
theory CsvText
  imports Prelude
begin

text \<open>
  The csv module of Python with the delimiter the tax report uses and QUOTE_MINIMAL, and a reader
  for what it writes, which serves as its specification.
\<close>

section \<open>Writing\<close>

definition csv_special :: "char \<Rightarrow> bool" where
  "csv_special c \<longleftrightarrow> c = CHR '';'' \<or> c = CHR 0x22 \<or> c = CHR 0x0D \<or> c = CHR 0x0A"

fun double_quotes :: "string \<Rightarrow> string" where
  "double_quotes [] = []"
| "double_quotes (c # s) = (if c = CHR 0x22 then [c, c] else [c]) @ double_quotes s"

definition csv_field :: "string \<Rightarrow> string" where
  "csv_field s = (if list_ex csv_special s then CHR 0x22 # double_quotes s @ [CHR 0x22] else s)"

fun join_fields :: "string list \<Rightarrow> string" where
  "join_fields [] = []"
| "join_fields [f] = csv_field f"
| "join_fields (f # g # fs) = csv_field f @ CHR '';'' # join_fields (g # fs)"

text \<open>A row that is one empty field is written with quotes.\<close>

definition csv_row :: "string list \<Rightarrow> string" where
  "csv_row fs = (if fs = [[]] then [CHR 0x22, CHR 0x22] else join_fields fs) @ [CHR 0x0D, CHR 0x0A]"

definition csv_text :: "string list list \<Rightarrow> string" where
  "csv_text rows = concat (map csv_row rows)"

section \<open>Reading\<close>

datatype csv_mode = Bare | Quoted | QuoteSeen

fun csv_scan :: "csv_mode \<Rightarrow> string \<Rightarrow> string list \<Rightarrow> string list list \<Rightarrow> string \<Rightarrow> string list list" where
  "csv_scan m cur row rows [] = (if cur = [] \<and> row = [] \<and> m = Bare then rows else rows @ [row @ [cur]])"
| "csv_scan Quoted cur row rows (c # s) =
     (if c = CHR 0x22 then csv_scan QuoteSeen cur row rows s else csv_scan Quoted (cur @ [c]) row rows s)"
| "csv_scan Bare cur row rows (c # s) =
     (if c = CHR 0x22 \<and> cur = [] then csv_scan Quoted [] row rows s
      else if c = CHR '';'' then csv_scan Bare [] (row @ [cur]) rows s
      else if c = CHR 0x0D \<and> s \<noteq> [] \<and> hd s = CHR 0x0A then csv_scan Bare [] [] (rows @ [row @ [cur]]) (tl s)
      else csv_scan Bare (cur @ [c]) row rows s)"
| "csv_scan QuoteSeen cur row rows (c # s) =
     (if c = CHR 0x22 then csv_scan Quoted (cur @ [c]) row rows s
      else if c = CHR '';'' then csv_scan Bare [] (row @ [cur]) rows s
      else if c = CHR 0x0D \<and> s \<noteq> [] \<and> hd s = CHR 0x0A then csv_scan Bare [] [] (rows @ [row @ [cur]]) (tl s)
      else csv_scan Bare (cur @ [c]) row rows s)"

definition csv_read :: "string \<Rightarrow> string list list" where
  "csv_read s = csv_scan Bare [] [] [] s"

section \<open>What is written is read back\<close>

lemma scan_bare: "\<not> list_ex csv_special f \<Longrightarrow> csv_scan Bare cur row rows (f @ rest) = csv_scan Bare (cur @ f) row rows rest"
  by (induction f arbitrary: cur) (auto simp: csv_special_def)

lemma scan_quoted: "csv_scan Quoted cur row rows (double_quotes f @ CHR 0x22 # rest) = csv_scan QuoteSeen (cur @ f) row rows rest"
  by (induction f arbitrary: cur) auto

lemma scan_field:
  "csv_scan Bare [] row rows (csv_field f @ CHR '';'' # rest) = csv_scan Bare [] (row @ [f]) rows rest"
  "csv_scan Bare [] row rows (csv_field f @ CHR 0x0D # CHR 0x0A # rest) = csv_scan Bare [] [] (rows @ [row @ [f]]) rest"
  by (simp_all add: csv_field_def scan_quoted scan_bare)

lemma scan_fields:
  "fs \<noteq> [] \<Longrightarrow> csv_scan Bare [] row rows (join_fields fs @ CHR 0x0D # CHR 0x0A # rest) = csv_scan Bare [] [] (rows @ [row @ fs]) rest"
  by (induction fs arbitrary: row rule: join_fields.induct) (simp_all add: scan_field)

lemma scan_row: "fs \<noteq> [] \<Longrightarrow> csv_scan Bare [] [] rows (csv_row fs @ rest) = csv_scan Bare [] [] (rows @ [fs]) rest"
  by (cases "fs = [[]]") (simp_all add: csv_row_def scan_fields)

lemma csv_read_text: "\<forall>fs \<in> set rows. fs \<noteq> [] \<Longrightarrow> csv_read (csv_text rows) = rows"
proof -
  have "csv_scan Bare [] [] acc (csv_text rows) = acc @ rows" if "\<forall>fs \<in> set rows. fs \<noteq> []" for acc
    using that by (induction rows arbitrary: acc) (simp_all add: csv_text_def scan_row)
  from this [of "[]"] show "\<forall>fs \<in> set rows. fs \<noteq> [] \<Longrightarrow> csv_read (csv_text rows) = rows" by (simp add: csv_read_def)
qed

end
