(* ===== verification/Exogena.thy ===== *)
theory Exogena
  imports PyDate PyRound CsvText
begin

text \<open>
  custom-addons/co_exogena: the yearly tax report on third parties. The wizard groups the entries of
  the year into the lines of nine formats; the report is validated and written as CSV files.

  The entries of the accounting are an argument, in the order its search returns them, with the
  fields the wizard reads; amounts are \<open>rat\<close>. The text of tax numbers is ASCII, where
  \<open>isdigit\<close> holds of 0 to 9 only.
\<close>

section \<open>Tax numbers\<close>

definition is_digit :: "char \<Rightarrow> bool" where
  "is_digit c \<longleftrightarrow> 48 \<le> (of_char c :: nat) \<and> (of_char c :: nat) \<le> 57"

definition digit_value :: "char \<Rightarrow> nat" where
  "digit_value c = of_char c - 48"

definition nit_weights :: "nat list" where
  "nit_weights = [3, 7, 13, 17, 19, 23, 29, 37, 41, 43, 47, 53, 59, 67, 71]"

definition nit_sum :: "string \<Rightarrow> nat" where
  "nit_sum s = sum_list (map (\<lambda>(d, w). d * w) (zip (rev (map digit_value (filter is_digit s))) nit_weights))"

definition compute_nit_check_digit :: "string \<Rightarrow> string" where
  "compute_nit_check_digit s =
     (if filter is_digit s = [] then []
      else let r = nit_sum s mod 11
           in if r = 0 then ''0'' else if r = 1 then ''1'' else int_str (11 - int r))"

text \<open>\<open>s.replace(ab, '')\<close> for a text of two characters.\<close>

fun remove_pair :: "char \<Rightarrow> char \<Rightarrow> string \<Rightarrow> string" where
  "remove_pair a b (x # y # s) = (if x = a \<and> y = b then remove_pair a b s else x # remove_pair a b (y # s))"
| "remove_pair a b s = s"

definition clean_nit :: "string option \<Rightarrow> string" where
  "clean_nit vat =
     filter is_digit (py_strip (remove_pair (CHR ''c'') (CHR ''o'') (remove_pair (CHR ''C'') (CHR ''O'') (py_or vat []))))"

section \<open>Partners and lines\<close>

record partner =
  pa_id :: nat
  pa_vat :: "string option"
  pa_name :: "string option"
  pa_is_company :: bool
  pa_street :: "string option"
  pa_state_code :: "string option"
  pa_country_code :: "string option"
  pa_id_type :: "(string option \<times> string option) option"

record tax_line =
  tl_partner :: "nat option"
  tl_name :: string
  tl_nit :: string
  tl_dv :: string
  tl_doc_type :: string
  tl_is_company :: bool
  tl_address :: string
  tl_dept :: string
  tl_mun :: string
  tl_country :: string
  tl_concept :: string
  tl_amount :: rat
  tl_base :: rat
  tl_retention :: rat
  tl_vat :: rat
  tl_participation :: rat

definition minor_nit :: string where
  "minor_nit = ''222222222''"

definition no_amounts :: "tax_line \<Rightarrow> string \<Rightarrow> tax_line" where
  "no_amounts l concept = l\<lparr>tl_concept := concept, tl_amount := 0, tl_base := 0, tl_retention := 0, tl_vat := 0, tl_participation := 0\<rparr>"

definition doc_type_of :: "(string option \<times> string option) option \<Rightarrow> string" where
  "doc_type_of t =
     (case t of
        None \<Rightarrow> ''nit''
      | Some (document_code, name) \<Rightarrow>
          (let code = py_lower (py_or document_code (py_or name []))
           in if py_in ''ced'' code \<or> py_in ''cc'' code then ''id_document''
              else if py_in ''ext'' code \<or> py_in ''ce'' code then ''foreign_id''
              else if py_in ''pas'' code then ''passport''
              else ''nit''))"

definition extract_partner_data :: "partner option \<Rightarrow> tax_line" where
  "extract_partner_data p =
     (case p of
        None \<Rightarrow>
          \<lparr>tl_partner = None, tl_name = ''CUANTIAS MENORES'', tl_nit = minor_nit, tl_dv = compute_nit_check_digit minor_nit,
           tl_doc_type = ''nit'', tl_is_company = False, tl_address = [], tl_dept = [], tl_mun = [], tl_country = ''CO'',
           tl_concept = [], tl_amount = 0, tl_base = 0, tl_retention = 0, tl_vat = 0, tl_participation = 0\<rparr>
      | Some q \<Rightarrow>
          \<lparr>tl_partner = Some (pa_id q), tl_name = py_or (pa_name q) [], tl_nit = clean_nit (pa_vat q),
           tl_dv = compute_nit_check_digit (clean_nit (pa_vat q)), tl_doc_type = doc_type_of (pa_id_type q),
           tl_is_company = pa_is_company q, tl_address = py_or (pa_street q) [], tl_dept = py_or (pa_state_code q) [],
           tl_mun = [], tl_country = py_or (pa_country_code q) ''CO'',
           tl_concept = [], tl_amount = 0, tl_base = 0, tl_retention = 0, tl_vat = 0, tl_participation = 0\<rparr>)"

section \<open>Entries\<close>

record move_line =
  ml_company :: nat
  ml_date :: date
  ml_posted :: bool
  ml_move_type :: string
  ml_partner :: "partner option"
  ml_account_code :: "string option"
  ml_account_type :: string
  ml_debit :: rat
  ml_credit :: rat
  ml_tax_name :: "string option option"
  ml_tax_base :: rat

definition balance :: "move_line \<Rightarrow> rat" where
  "balance l = ml_debit l - ml_credit l"

definition tax_name :: "move_line \<Rightarrow> string" where
  "tax_name l = (case ml_tax_name l of None \<Rightarrow> [] | Some n \<Rightarrow> py_lower (py_or n []))"

definition get_move_lines :: "date \<Rightarrow> date \<Rightarrow> nat \<Rightarrow> (move_line \<Rightarrow> bool) \<Rightarrow> move_line list \<Rightarrow> move_line list" where
  "get_move_lines d1 d2 c extra ls = filter (\<lambda>l. ml_company l = c \<and> d1 \<le> ml_date l \<and> ml_date l \<le> d2 \<and> ml_posted l \<and> extra l) ls"

definition year_end_lines :: "date \<Rightarrow> nat \<Rightarrow> string \<Rightarrow> move_line list \<Rightarrow> move_line list" where
  "year_end_lines d2 c t ls = filter (\<lambda>l. ml_company l = c \<and> ml_date l \<le> d2 \<and> ml_posted l \<and> ml_account_type l = t) ls"

definition has_tax :: "move_line \<Rightarrow> bool" where
  "has_tax l \<longleftrightarrow> ml_tax_name l \<noteq> None"

definition any_in :: "string list \<Rightarrow> string \<Rightarrow> bool" where
  "any_in ks s \<longleftrightarrow> list_ex (\<lambda>k. py_in k s) ks"

definition is_vat :: "move_line \<Rightarrow> bool" where
  "is_vat l \<longleftrightarrow> py_in ''iva'' (tax_name l) \<and> \<not> py_in ''rete'' (tax_name l)"

section \<open>Grouping\<close>

text \<open>A dict keeps the order of insertion. Keys are a number, or a number with a concept.\<close>

datatype line_key = NitKey string | PairKey string string

fun upsert :: "'k \<Rightarrow> 'v \<Rightarrow> ('v \<Rightarrow> 'v) \<Rightarrow> ('k \<times> 'v) list \<Rightarrow> ('k \<times> 'v) list" where
  "upsert k new f [] = [(k, f new)]"
| "upsert k new f ((j, v) # g) = (if j = k then (j, f v) # g else (j, v) # upsert k new f g)"

fun collect :: "('l \<Rightarrow> ('k \<times> 'v \<times> ('v \<Rightarrow> 'v)) option) \<Rightarrow> 'l list \<Rightarrow> ('k \<times> 'v) list \<Rightarrow> ('k \<times> 'v) list" where
  "collect entry [] g = g"
| "collect entry (l # ls) g =
     collect entry ls (case entry l of None \<Rightarrow> g | Some (k, new, f) \<Rightarrow> upsert k new f g)"

definition nit_key :: "partner \<Rightarrow> string" where
  "nit_key p = (if clean_nit (pa_vat p) = [] then ''NO_NIT'' else clean_nit (pa_vat p))"

definition add_amount :: "rat \<Rightarrow> tax_line \<Rightarrow> tax_line" where
  "add_amount x v = v\<lparr>tl_amount := tl_amount v + x\<rparr>"

text \<open>The lines of small amounts: one per concept, under the number 222222222.\<close>

definition add_minor :: "tax_line \<Rightarrow> tax_line \<Rightarrow> tax_line" where
  "add_minor v m = m\<lparr>tl_amount := tl_amount m + tl_amount v, tl_base := tl_base m + tl_base v,
     tl_retention := tl_retention m + tl_retention v, tl_vat := tl_vat m + tl_vat v\<rparr>"

definition minor_entry :: "line_key \<times> tax_line \<Rightarrow> (string \<times> tax_line \<times> (tax_line \<Rightarrow> tax_line)) option" where
  "minor_entry p = Some (tl_concept (snd p), no_amounts (extract_partner_data None) (tl_concept (snd p)), add_minor (snd p))"

definition minor_totals :: "rat \<Rightarrow> (line_key \<times> tax_line) list \<Rightarrow> (string \<times> tax_line) list" where
  "minor_totals m g = collect minor_entry (filter (\<lambda>(k, v). \<bar>tl_amount v\<bar> < m) g) []"

definition apply_min_threshold :: "(line_key \<times> tax_line) list \<Rightarrow> rat \<Rightarrow> (line_key \<times> tax_line) list" where
  "apply_min_threshold g m =
     (if m \<le> 0 then g
      else foldl (\<lambda>r (concept, v). upsert (PairKey minor_nit concept) v (\<lambda>_. v) r)
             (filter (\<lambda>(k, v). \<not> \<bar>tl_amount v\<bar> < m) g) (minor_totals m g))"

section \<open>The formats\<close>

definition new_line :: "partner \<Rightarrow> string \<Rightarrow> tax_line" where
  "new_line p concept = no_amounts (extract_partner_data (Some p)) concept"

definition bill_types :: "string list" where
  "bill_types = [''in_invoice'', ''in_refund'']"

definition sale_types :: "string list" where
  "sale_types = [''out_invoice'', ''out_refund'']"

definition concept_1001 :: "string \<Rightarrow> string" where
  "concept_1001 code =
     (if prefix ''51'' code then ''5002'' else if prefix ''52'' code then ''5003''
      else if prefix ''53'' code then ''5004'' else ''5001'')"

definition paid_1001 :: "move_line \<Rightarrow> rat" where
  "paid_1001 l =
     (if 0 < ml_debit l then ml_debit l
      else if 0 < ml_credit l \<and> ml_move_type l = ''in_refund'' then - ml_credit l
      else 0)"

definition entry_1001 :: "move_line \<Rightarrow> (line_key \<times> tax_line \<times> (tax_line \<Rightarrow> tax_line)) option" where
  "entry_1001 l =
     (case ml_partner l of
        None \<Rightarrow> None
      | Some p \<Rightarrow>
          (let concept = concept_1001 (py_or (ml_account_code l) [])
           in Some (PairKey (nit_key p) concept, new_line p concept, add_amount (paid_1001 l))))"

definition is_retention_1001 :: "move_line \<Rightarrow> bool" where
  "is_retention_1001 l \<longleftrightarrow> any_in [''retefu'', ''retencion'', ''rete iva'', ''rete ica''] (tax_name l)"

definition add_tax_1001 :: "move_line \<Rightarrow> tax_line \<Rightarrow> tax_line" where
  "add_tax_1001 l v =
     (if is_retention_1001 l
      then v\<lparr>tl_retention := tl_retention v + \<bar>balance l\<bar>, tl_base := tl_base v + \<bar>ml_tax_base l\<bar>\<rparr>
      else if is_vat l then v\<lparr>tl_vat := tl_vat v + \<bar>balance l\<bar>\<rparr>
      else v)"

text \<open>Taxes go to the first group of the number.\<close>

fun tax_to_first :: "string \<Rightarrow> move_line \<Rightarrow> (line_key \<times> tax_line) list \<Rightarrow> (line_key \<times> tax_line) list" where
  "tax_to_first nit l [] = []"
| "tax_to_first nit l ((k, v) # g) =
     (if (case k of PairKey n c \<Rightarrow> n = nit | NitKey n \<Rightarrow> False) then (k, add_tax_1001 l v) # g else (k, v) # tax_to_first nit l g)"

definition tax_1001 :: "(line_key \<times> tax_line) list \<Rightarrow> move_line \<Rightarrow> (line_key \<times> tax_line) list" where
  "tax_1001 g l = (case ml_partner l of None \<Rightarrow> g | Some p \<Rightarrow> tax_to_first (clean_nit (pa_vat p)) l g)"

definition generate_1001 :: "rat \<Rightarrow> date \<Rightarrow> date \<Rightarrow> nat \<Rightarrow> move_line list \<Rightarrow> tax_line list" where
  "generate_1001 m d1 d2 c ls =
     (let bills = get_move_lines d1 d2 c (\<lambda>l. ml_move_type l \<in> set bill_types) ls;
          taxes = get_move_lines d1 d2 c (\<lambda>l. ml_move_type l \<in> set bill_types \<and> has_tax l) ls
      in map snd (apply_min_threshold (foldl tax_1001 (collect entry_1001 bills []) taxes) m))"

definition add_withheld :: "move_line \<Rightarrow> tax_line \<Rightarrow> tax_line" where
  "add_withheld l v = v\<lparr>tl_base := tl_base v + \<bar>ml_tax_base l\<bar>, tl_retention := tl_retention v + \<bar>balance l\<bar>, tl_amount := tl_amount v + \<bar>balance l\<bar>\<rparr>"

definition is_retention_1003 :: "move_line \<Rightarrow> bool" where
  "is_retention_1003 l \<longleftrightarrow>
     any_in [''retefu'', ''retencion en la fuente'', ''rete fuente'', ''retefuente'', ''rete renta''] (tax_name l)"

definition entry_1003 :: "move_line \<Rightarrow> (line_key \<times> tax_line \<times> (tax_line \<Rightarrow> tax_line)) option" where
  "entry_1003 l =
     (if \<not> is_retention_1003 l then None
      else case ml_partner l of
        None \<Rightarrow> None
      | Some p \<Rightarrow> Some (PairKey (nit_key p) ''1301'', new_line p ''1301'', add_withheld l))"

definition generate_1003 :: "date \<Rightarrow> date \<Rightarrow> nat \<Rightarrow> move_line list \<Rightarrow> tax_line list" where
  "generate_1003 d1 d2 c ls = map snd (collect entry_1003 (get_move_lines d1 d2 c has_tax ls) [])"

definition add_vat :: "move_line \<Rightarrow> tax_line \<Rightarrow> tax_line" where
  "add_vat l v = v\<lparr>tl_amount := tl_amount v + \<bar>ml_tax_base l\<bar>, tl_vat := tl_vat v + \<bar>balance l\<bar>\<rparr>"

definition entry_vat :: "move_line \<Rightarrow> (line_key \<times> tax_line \<times> (tax_line \<Rightarrow> tax_line)) option" where
  "entry_vat l =
     (if \<not> is_vat l then None
      else case ml_partner l of None \<Rightarrow> None | Some p \<Rightarrow> Some (NitKey (nit_key p), new_line p [], add_vat l))"

definition generate_1005 :: "date \<Rightarrow> date \<Rightarrow> nat \<Rightarrow> move_line list \<Rightarrow> tax_line list" where
  "generate_1005 d1 d2 c ls =
     map snd (collect entry_vat (get_move_lines d1 d2 c (\<lambda>l. ml_move_type l \<in> set bill_types \<and> has_tax l) ls) [])"

definition generate_1006 :: "date \<Rightarrow> date \<Rightarrow> nat \<Rightarrow> move_line list \<Rightarrow> tax_line list" where
  "generate_1006 d1 d2 c ls =
     map snd (collect entry_vat (get_move_lines d1 d2 c (\<lambda>l. ml_move_type l \<in> set sale_types \<and> has_tax l) ls) [])"

definition earned_1007 :: "move_line \<Rightarrow> rat" where
  "earned_1007 l =
     (if 0 < ml_credit l then ml_credit l
      else if 0 < ml_debit l \<and> ml_move_type l = ''out_refund'' then - ml_debit l
      else 0)"

definition entry_1007 :: "move_line \<Rightarrow> (line_key \<times> tax_line \<times> (tax_line \<Rightarrow> tax_line)) option" where
  "entry_1007 l =
     (case ml_partner l of
        None \<Rightarrow> None
      | Some p \<Rightarrow>
          (let concept = (if prefix ''42'' (py_or (ml_account_code l) []) then ''4002'' else ''4001'')
           in Some (PairKey (nit_key p) concept, new_line p concept, add_amount (earned_1007 l))))"

definition income_lines :: "date \<Rightarrow> date \<Rightarrow> nat \<Rightarrow> move_line list \<Rightarrow> move_line list" where
  "income_lines d1 d2 c ls = get_move_lines d1 d2 c (\<lambda>l. ml_move_type l \<in> set sale_types \<and> ml_account_type l = ''income'') ls"

definition generate_1007 :: "rat \<Rightarrow> date \<Rightarrow> date \<Rightarrow> nat \<Rightarrow> move_line list \<Rightarrow> tax_line list" where
  "generate_1007 m d1 d2 c ls = map snd (apply_min_threshold (collect entry_1007 (income_lines d1 d2 c ls) []) m)"

definition entry_by_nit :: "(move_line \<Rightarrow> rat) \<Rightarrow> move_line \<Rightarrow> (line_key \<times> tax_line \<times> (tax_line \<Rightarrow> tax_line)) option" where
  "entry_by_nit value l =
     (case ml_partner l of None \<Rightarrow> None | Some p \<Rightarrow> Some (NitKey (nit_key p), new_line p [], add_amount (value l)))"

definition positive :: "(line_key \<times> tax_line) list \<Rightarrow> (line_key \<times> tax_line) list" where
  "positive g = filter (\<lambda>(k, v). 0 < tl_amount v) g"

definition generate_1008 :: "rat \<Rightarrow> date \<Rightarrow> nat \<Rightarrow> move_line list \<Rightarrow> tax_line list" where
  "generate_1008 m d2 c ls =
     map snd (apply_min_threshold (positive (collect (entry_by_nit balance) (year_end_lines d2 c ''asset_receivable'' ls) [])) m)"

definition generate_1009 :: "rat \<Rightarrow> date \<Rightarrow> nat \<Rightarrow> move_line list \<Rightarrow> tax_line list" where
  "generate_1009 m d2 c ls =
     map snd (apply_min_threshold (positive (collect (entry_by_nit (\<lambda>l. \<bar>balance l\<bar>)) (year_end_lines d2 c ''liability_payable'' ls) [])) m)"

definition generate_1010 :: "date \<Rightarrow> nat \<Rightarrow> move_line list \<Rightarrow> tax_line list" where
  "generate_1010 d2 c ls =
     (let g = collect (entry_by_nit (\<lambda>l. \<bar>balance l\<bar>)) (year_end_lines d2 c ''equity'' ls) [];
          whole = sum_list (map (tl_amount \<circ> snd) g)
      in map (\<lambda>(k, v). if 0 < whole then v\<lparr>tl_participation := tl_amount v / whole * 100\<rparr> else v) g)"

definition concept_1012 :: "string \<Rightarrow> string" where
  "concept_1012 n =
     (if py_in ''iva'' n \<and> \<not> py_in ''rete'' n then ''0001''
      else if py_in ''retefu'' n \<or> py_in ''retencion en la fuente'' n \<or> py_in ''rete fuente'' n then ''0002''
      else if py_in ''rete iva'' n then ''0003''
      else if py_in ''ica'' n \<or> py_in ''rete ica'' n then ''0004''
      else if py_in ''timbre'' n then ''0005''
      else ''0099'')"

definition declaration_line :: "string \<Rightarrow> tax_line" where
  "declaration_line concept =
     \<lparr>tl_partner = None, tl_name = ''Declaracion concepto '' @ concept, tl_nit = [], tl_dv = [], tl_doc_type = [], tl_is_company = False,
      tl_address = [], tl_dept = [], tl_mun = [], tl_country = ''CO'', tl_concept = concept, tl_amount = 0, tl_base = 0,
      tl_retention = 0, tl_vat = 0, tl_participation = 0\<rparr>"

definition entry_1012 :: "move_line \<Rightarrow> (line_key \<times> tax_line \<times> (tax_line \<Rightarrow> tax_line)) option" where
  "entry_1012 l =
     (let concept = concept_1012 (tax_name l)
      in Some (NitKey concept, declaration_line concept,
           (\<lambda>v. v\<lparr>tl_base := tl_base v + \<bar>ml_tax_base l\<bar>, tl_amount := tl_amount v + \<bar>balance l\<bar>\<rparr>)))"

definition generate_1012 :: "date \<Rightarrow> date \<Rightarrow> nat \<Rightarrow> move_line list \<Rightarrow> tax_line list" where
  "generate_1012 d1 d2 c ls = map snd (collect entry_1012 (get_move_lines d1 d2 c has_tax ls) [])"

section \<open>The report\<close>

datatype report_state = RsDraft | RsGenerated | RsValidated | RsError

record tax_format =
  tf_code :: string
  tf_lines :: "tax_line list"
  tf_csv :: "(string \<times> string) option"

datatype report_problem = WrongDigit string string string string | NegativeAmount string string rat | NoCompanyNit

record tax_report =
  tr_company :: nat
  tr_year :: nat
  tr_nit :: string
  tr_nit_dv :: string
  tr_state :: report_state
  tr_formats :: "tax_format list"
  tr_zip :: "(string \<times> (string \<times> string) list) option"
  tr_log :: "(report_problem list \<times> nat option) option"

datatype report_exn = NitMissing | NothingSelected | DuplicateFormat string | NotGenerated | NoFormats | YearOutOfRange nat

type_synonym 'a report_act = "(tax_report, report_exn, 'a) act"

record tax_wizard =
  wi_selected :: "string list"
  wi_min_1001 :: rat
  wi_min_1007 :: rat
  wi_min_1008 :: rat
  wi_min_1009 :: rat
  wi_overwrite :: bool

definition all_formats :: "string list" where
  "all_formats = [''1001'', ''1003'', ''1005'', ''1006'', ''1007'', ''1008'', ''1009'', ''1010'', ''1012'']"

definition report_from :: "tax_report \<Rightarrow> date" where
  "report_from r = Date (tr_year r) 1 1"

definition report_to :: "tax_report \<Rightarrow> date" where
  "report_to r = Date (tr_year r) 12 31"

definition compute_company_info :: "string option \<Rightarrow> tax_report \<Rightarrow> tax_report" where
  "compute_company_info vat r = r\<lparr>tr_nit := clean_nit vat, tr_nit_dv := compute_nit_check_digit (clean_nit vat)\<rparr>"

definition check_fiscal_year :: "date \<Rightarrow> nat \<Rightarrow> report_exn option" where
  "check_fiscal_year today y = (if y < 2000 \<or> yr today < y then Some (YearOutOfRange (yr today)) else None)"

definition generate_lines_of :: "tax_wizard \<Rightarrow> tax_report \<Rightarrow> move_line list \<Rightarrow> string \<Rightarrow> tax_line list" where
  "generate_lines_of z r ls code =
     (let d1 = report_from r; d2 = report_to r; c = tr_company r
      in if code = ''1001'' then generate_1001 (wi_min_1001 z) d1 d2 c ls
         else if code = ''1003'' then generate_1003 d1 d2 c ls
         else if code = ''1005'' then generate_1005 d1 d2 c ls
         else if code = ''1006'' then generate_1006 d1 d2 c ls
         else if code = ''1007'' then generate_1007 (wi_min_1007 z) d1 d2 c ls
         else if code = ''1008'' then generate_1008 (wi_min_1008 z) d2 c ls
         else if code = ''1009'' then generate_1009 (wi_min_1009 z) d2 c ls
         else if code = ''1010'' then generate_1010 d2 c ls
         else generate_1012 d1 d2 c ls)"

definition selected :: "tax_wizard \<Rightarrow> string list" where
  "selected z = filter (\<lambda>code. code \<in> set (wi_selected z)) all_formats"

definition create_format :: "tax_wizard \<Rightarrow> move_line list \<Rightarrow> string \<Rightarrow> unit report_act" where
  "create_format z ls code = (\<lambda>r.
     if code \<in> tf_code ` set (tr_formats r) then (Inl (DuplicateFormat code), r)
     else (Inr (), r\<lparr>tr_formats := tr_formats r @ [\<lparr>tf_code = code, tf_lines = generate_lines_of z r ls code, tf_csv = None\<rparr>]\<rparr>))"

definition wizard_generate :: "tax_wizard \<Rightarrow> move_line list \<Rightarrow> unit report_act" where
  "wizard_generate z ls = rolled_back (\<lambda>r.
     if tr_nit r = [] then (Inl NitMissing, r)
     else act_seq (act_modify (\<lambda>r. if wi_overwrite z then r\<lparr>tr_formats := []\<rparr> else r))
            (if selected z = [] then act_raise NothingSelected
             else act_seq (for_each (create_format z ls) (selected z)) (act_modify (\<lambda>r. r\<lparr>tr_state := RsGenerated\<rparr>))) r)"

definition dv_problems :: "tax_format \<Rightarrow> report_problem list" where
  "dv_problems f =
     List.map_filter (\<lambda>l. if tl_nit l \<noteq> [] \<and> tl_dv l \<noteq> [] \<and> tl_dv l \<noteq> compute_nit_check_digit (tl_nit l)
        then Some (WrongDigit (tf_code f) (tl_name l) (compute_nit_check_digit (tl_nit l)) (tl_dv l)) else None) (tf_lines f)"

definition no_neg_formats :: "string list" where
  "no_neg_formats = [''1001'', ''1005'', ''1006'', ''1007'', ''1008'', ''1009'', ''1010'']"

definition negative_problems :: "tax_format \<Rightarrow> report_problem list" where
  "negative_problems f =
     (if tf_code f \<in> set no_neg_formats
      then List.map_filter (\<lambda>l. if tl_amount l < 0 then Some (NegativeAmount (tf_code f) (tl_name l) (tl_amount l)) else None) (tf_lines f)
      else [])"

definition lines_of :: "string \<Rightarrow> tax_report \<Rightarrow> tax_line list option" where
  "lines_of code r =
     (case filter (\<lambda>f. tf_code f = code) (tr_formats r) of [] \<Rightarrow> None | fs \<Rightarrow> Some (concat (map tf_lines fs)))"

definition missing_retentions :: "tax_report \<Rightarrow> nat option" where
  "missing_retentions r =
     (case (lines_of ''1001'' r, lines_of ''1003'' r) of
        (Some ls, Some ks) \<Rightarrow>
          (let missing = remdups (filter (\<lambda>n. n \<notin> tl_nit ` set ks) (map tl_nit (filter (\<lambda>l. 0 < tl_retention l) ls)))
           in if missing = [] then None else Some (length missing))
      | _ \<Rightarrow> None)"

definition report_problems :: "tax_report \<Rightarrow> report_problem list" where
  "report_problems r =
     concat (map dv_problems (tr_formats r)) @ concat (map negative_problems (tr_formats r)) @ (if tr_nit r = [] then [NoCompanyNit] else [])"

definition action_validate :: "unit report_act" where
  "action_validate = (\<lambda>r.
     if tr_state r \<noteq> RsGenerated then (Inl NotGenerated, r)
     else (Inr (), r\<lparr>tr_log := Some (report_problems r, missing_retentions r),
                     tr_state := (if report_problems r \<noteq> [] then RsError else RsValidated)\<rparr>))"

definition reset_report :: "tax_report \<Rightarrow> tax_report" where
  "reset_report r = r\<lparr>tr_formats := [], tr_state := RsDraft, tr_zip := None, tr_log := None\<rparr>"

section \<open>CSV files\<close>

text \<open>\<open>str.split()\<close>.\<close>

fun split_words :: "string \<Rightarrow> string \<Rightarrow> string list" where
  "split_words cur [] = (if cur = [] then [] else [cur])"
| "split_words cur (c # s) =
     (if py_space c then (if cur = [] then split_words [] s else cur # split_words [] s) else split_words (cur @ [c]) s)"

fun join_words :: "string list \<Rightarrow> string" where
  "join_words [] = []"
| "join_words [w] = w"
| "join_words (w # v # ws) = w @ CHR 0x20 # join_words (v # ws)"

definition format_columns :: "string \<Rightarrow> string list" where
  "format_columns code =
     (let names = [''Primer apellido'', ''Segundo apellido'', ''Primer nombre'', ''Otros nombres'', ''Razon social''];
          ident = [''Tipo documento'', ''Numero identificacion'', ''Digito verificacion''];
          place = [''Direccion'', ''Codigo departamento'', ''Codigo municipio'']
      in if code = ''1001'' then ''Concepto'' # ident @ names @ place @
           [''Pago o abono en cuenta'', ''Valor base retencion'', ''Valor retencion'', ''Valor IVA'', ''Pais'']
         else if code = ''1003'' then ''Concepto'' # ident @ names @ place @ [''Base retencion'', ''Valor retencion'', ''Pais'']
         else if code = ''1005'' \<or> code = ''1006'' then ident @ names @ [''Valor operacion'', ''Valor IVA'', ''Pais'']
         else if code = ''1007'' then ''Concepto'' # ident @ names @ place @ [''Valor operacion'', ''Pais'']
         else if code = ''1008'' then ident @ names @ place @ [''Saldo cuentas por cobrar a 31 dic'', ''Pais'']
         else if code = ''1009'' then ident @ names @ place @ [''Saldo cuentas por pagar a 31 dic'', ''Pais'']
         else if code = ''1010'' then ident @ names @ place @ [''Valor patrimonial acciones'', ''Porcentaje participacion'', ''Pais'']
         else if code = ''1012'' then [''Concepto'', ''Valor base gravable'', ''Valor impuesto'', ''Valor retencion'']
         else [])"

text \<open>Surnames, names and company name.\<close>

definition get_partner_info :: "tax_line \<Rightarrow> string list" where
  "get_partner_info l =
     (let parts = split_words [] (py_strip (tl_name l)); n = length parts
      in if tl_is_company l then [[], [], [], [], tl_name l]
         else [if 1 \<le> n then parts ! 0 else [], if 2 \<le> n then parts ! 1 else [],
               if 3 \<le> n then parts ! 2 else if n = 1 then parts ! 0 else [],
               if 3 < n then join_words (drop 3 parts) else [],
               []])"

definition get_doc_type :: "tax_line \<Rightarrow> string" where
  "get_doc_type l =
     (let t = tl_doc_type l
      in if t = ''rut'' then ''31'' else if t = ''id_document'' then ''13'' else if t = ''foreign_id'' then ''22''
         else if t = ''passport'' then ''41'' else if t = ''nit'' then ''31'' else if t = ''external_id'' then ''42'' else ''31'')"

definition two_digits :: "nat \<Rightarrow> string" where
  "two_digits n = nat_digits (n div 10) @ nat_digits (n mod 10)"

definition amt :: "rat \<Rightarrow> string" where
  "amt x =
     (let cents = nat (round_half_even (\<bar>x\<bar> * 100))
      in (if x < 0 then ''-'' else []) @ nat_digits (cents div 100) @ ''.'' @ two_digits (cents mod 100))"

definition line_to_csv_row :: "string \<Rightarrow> tax_line \<Rightarrow> string list" where
  "line_to_csv_row code l =
     (let ident = [get_doc_type l, tl_nit l, tl_dv l]; names = get_partner_info l;
          place = [tl_address l, tl_dept l, tl_mun l]; country = (if tl_country l = [] then ''CO'' else tl_country l)
      in if code = ''1001'' then tl_concept l # ident @ names @ place @ [amt (tl_amount l), amt (tl_base l), amt (tl_retention l), amt (tl_vat l), country]
         else if code = ''1003'' then tl_concept l # ident @ names @ place @ [amt (tl_base l), amt (tl_retention l), country]
         else if code = ''1005'' \<or> code = ''1006'' then ident @ names @ [amt (tl_amount l), amt (tl_vat l), country]
         else if code = ''1007'' then tl_concept l # ident @ names @ place @ [amt (tl_amount l), country]
         else if code = ''1008'' \<or> code = ''1009'' then ident @ names @ place @ [amt (tl_amount l), country]
         else if code = ''1010'' then ident @ names @ place @ [amt (tl_amount l), amt (tl_participation l), country]
         else if code = ''1012'' then [tl_concept l, amt (tl_base l), amt (tl_amount l), amt (tl_retention l)]
         else [])"

text \<open>Lines are sorted by number and concept; Python compares texts by code points.\<close>

fun text_le :: "string \<Rightarrow> string \<Rightarrow> bool" where
  "text_le [] s = True"
| "text_le (c # s) [] = False"
| "text_le (c # s) (d # t) = ((of_char c :: nat) < of_char d \<or> c = d \<and> text_le s t)"

definition line_le :: "tax_line \<Rightarrow> tax_line \<Rightarrow> bool" where
  "line_le l k \<longleftrightarrow> (if tl_nit l = tl_nit k then text_le (tl_concept l) (tl_concept k) else text_le (tl_nit l) (tl_nit k))"

fun insert_line :: "tax_line \<Rightarrow> tax_line list \<Rightarrow> tax_line list" where
  "insert_line l [] = [l]"
| "insert_line l (k # ks) = (if line_le l k then l # k # ks else k # insert_line l ks)"

definition sort_lines :: "tax_line list \<Rightarrow> tax_line list" where
  "sort_lines ls = foldr insert_line ls []"

definition csv_rows :: "tax_format \<Rightarrow> string list list" where
  "csv_rows f = format_columns (tf_code f) # map (line_to_csv_row (tf_code f)) (sort_lines (tf_lines f))"

definition generate_csv_content :: "tax_format \<Rightarrow> string" where
  "generate_csv_content f = csv_text (csv_rows f)"

definition csv_name :: "tax_report \<Rightarrow> tax_format \<Rightarrow> string" where
  "csv_name r f = ''formato_'' @ tf_code f @ ''_'' @ int_str (int (tr_year r)) @ ''.csv''"

definition download_csv :: "tax_report \<Rightarrow> tax_format \<Rightarrow> tax_format" where
  "download_csv r f = f\<lparr>tf_csv := Some (csv_name r f, generate_csv_content f)\<rparr>"

definition download_zip :: "unit report_act" where
  "download_zip = (\<lambda>r.
     if tr_formats r = [] then (Inl NoFormats, r)
     else (Inr (), r\<lparr>tr_zip := Some (''exogena_'' @ tr_nit r @ ''_'' @ int_str (int (tr_year r)) @ ''.zip'',
                                       map (\<lambda>f. (csv_name r f, generate_csv_content f)) (tr_formats r))\<rparr>))"

section \<open>Totals of a format\<close>

definition format_total :: "(tax_line \<Rightarrow> rat) \<Rightarrow> tax_format \<Rightarrow> rat" where
  "format_total f t = sum_list (map f (tf_lines t))"

section \<open>Grouped lines\<close>

lemma upsert_keys: "fst ` set (upsert k new f g) = insert k (fst ` set g)"
proof (induction g)
  case (Cons p g)
  obtain j v where "p = (j, v)" by fastforce
  with Cons show ?case by (cases "j = k") auto
qed simp

lemma upsert_distinct: "distinct (map fst g) \<Longrightarrow> distinct (map fst (upsert k new f g))"
proof (induction g)
  case (Cons p g)
  obtain j v where p: "p = (j, v)" by fastforce
  have "set (map fst (upsert k new f g)) = insert k (set (map fst g))" using upsert_keys [of k new f g] by simp
  with Cons p show ?case by auto
qed simp

lemma collect_distinct: "distinct (map fst g) \<Longrightarrow> distinct (map fst (collect entry ls g))"
  by (induction ls arbitrary: g) (auto simp: upsert_distinct split: option.split)

lemma upsert_values: "(j, v) \<in> set (upsert k new f g) \<Longrightarrow> (j, v) \<in> set g \<or> j = k \<and> (v = f new \<or> (\<exists>u. (k, u) \<in> set g \<and> v = f u))"
  by (induction g) (auto split: if_splits)

lemma collect_values:
  assumes "\<And>l k new f. l \<in> set ls \<Longrightarrow> entry l = Some (k, new, f) \<Longrightarrow> P k new"
    and "\<And>l k new f v. l \<in> set ls \<Longrightarrow> entry l = Some (k, new, f) \<Longrightarrow> P k v \<Longrightarrow> P k (f v)"
    and "\<forall>(k, v) \<in> set g. P k v"
  shows "\<forall>(k, v) \<in> set (collect entry ls g). P k v"
  using assms
proof (induction ls arbitrary: g)
  case (Cons l ls)
  have sub: "\<forall>(k, v) \<in> set h. P k v \<Longrightarrow> \<forall>(k, v) \<in> set (collect entry ls h). P k v" for h
    by (rule Cons.IH) (blast intro: Cons.prems(1,2) list.set_intros(2))+
  show ?case
  proof (cases "entry l")
    case None
    with sub Cons.prems(3) show ?thesis by simp
  next
    case (Some e)
    obtain k new f where e: "e = (k, new, f)" by (cases e) auto
    have step: "P k new" "P k v \<Longrightarrow> P k (f v)" for v using Cons.prems(1,2) [of l k new f] Some e by auto
    have "\<forall>(j, v) \<in> set (upsert k new f g). P j v" using upsert_values [of _ _ k new f g] step Cons.prems(3) by fastforce
    then have "\<forall>(k, v) \<in> set (collect entry ls (upsert k new f g)). P k v" by (rule sub)
    then show ?thesis using Some e by simp
  qed
qed simp

definition sum_of :: "('v \<Rightarrow> rat) \<Rightarrow> ('k \<times> 'v) list \<Rightarrow> rat" where
  "sum_of m g = sum_list (map (\<lambda>p. m (snd p)) g)"

lemma sum_of_simps [simp]: "sum_of m [] = 0" "sum_of m ((k, v) # g) = m v + sum_of m g"
  by (simp_all add: sum_of_def)

lemma sum_of_append: "sum_of m (g @ h) = sum_of m g + sum_of m h"
  by (simp add: sum_of_def)

lemma sum_of_upsert: "m new = 0 \<Longrightarrow> (\<And>v. m (f v) = m v + x) \<Longrightarrow> sum_of m (upsert k new f g) = sum_of m g + x"
  by (induction g) auto

text \<open>A format puts each entry it takes under a key and adds its value to a measure of the line there.\<close>

locale grouped_format =
  fixes entry :: "'l \<Rightarrow> ('k \<times> 'v \<times> ('v \<Rightarrow> 'v)) option"
    and measure :: "'v \<Rightarrow> rat"
    and key :: "'l \<Rightarrow> 'k option"
    and worth :: "'l \<Rightarrow> rat"
  assumes keyed: "entry l = Some (k, new, f) \<Longrightarrow> key l = Some k"
    and skipped: "entry l = None \<Longrightarrow> key l = None"
    and starts: "entry l = Some (k, new, f) \<Longrightarrow> measure new = 0"
    and adds: "entry l = Some (k, new, f) \<Longrightarrow> measure (f v) = measure v + worth l"
begin

lemma whole: "sum_of measure (collect entry ls g) = sum_of measure g + sum_list (map worth (filter (\<lambda>l. key l \<noteq> None) ls))"
proof (induction ls arbitrary: g)
  case (Cons l ls)
  show ?case
  proof (cases "entry l")
    case None
    then show ?thesis using Cons skipped by simp
  next
    case (Some e)
    obtain k new f where e: "e = (k, new, f)" by (cases e) auto
    have "sum_of measure (upsert k new f g) = sum_of measure g + worth l"
      using Some e starts adds by (intro sum_of_upsert) blast+
    then show ?thesis using Cons Some e keyed by simp
  qed
qed simp

lemma keys: "fst ` set (collect entry ls g) = fst ` set g \<union> {k. \<exists>l \<in> set ls. key l = Some k}"
proof (induction ls arbitrary: g)
  case (Cons l ls)
  show ?case
  proof (cases "entry l")
    case None
    then show ?thesis using Cons skipped by simp
  next
    case (Some e)
    obtain k new f where e: "e = (k, new, f)" by (cases e) auto
    have "key l = Some k" using keyed Some e by blast
    then show ?thesis using Cons Some e by (auto simp: upsert_keys)
  qed
qed simp

text \<open>The line of a key has the values of the entries of that key.\<close>

lemma of_key: "map_of (collect entry ls g) k = Some v \<Longrightarrow>
    measure v = (case map_of g k of None \<Rightarrow> 0 | Some u \<Rightarrow> measure u) + sum_list (map worth (filter (\<lambda>l. key l = Some k) ls))"
proof (induction ls arbitrary: g)
  case (Cons l ls)
  show ?case
  proof (cases "entry l")
    case None
    then show ?thesis using Cons skipped [OF None] by simp
  next
    case (Some e)
    obtain j new f where e: "e = (j, new, f)" by (cases e) auto
    note one = keyed [OF Some [unfolded e]] starts [OF Some [unfolded e]] adds [OF Some [unfolded e]]
    have "map_of (upsert j new f h) k = (if k = j then Some (case map_of h j of None \<Rightarrow> f new | Some u \<Rightarrow> f u) else map_of h k)" for h
      by (induction h) auto
    with Cons.IH [of "upsert j new f g"] Cons.prems Some e one show ?thesis by (auto split: option.splits)
  qed
qed simp

end

definition partner_key :: "(partner \<Rightarrow> move_line \<Rightarrow> line_key) \<Rightarrow> move_line \<Rightarrow> line_key option" where
  "partner_key k l = (case ml_partner l of None \<Rightarrow> None | Some p \<Rightarrow> Some (k p l))"

definition key_1007 :: "move_line \<Rightarrow> line_key option" where
  "key_1007 = partner_key (\<lambda>p l. PairKey (nit_key p) (if prefix ''42'' (py_or (ml_account_code l) []) then ''4002'' else ''4001''))"

interpretation income: grouped_format entry_1007 tl_amount key_1007 earned_1007
  by unfold_locales (auto simp: entry_1007_def key_1007_def partner_key_def new_line_def no_amounts_def add_amount_def Let_def split: option.splits)

interpretation payments: grouped_format entry_1001 tl_amount "partner_key (\<lambda>p l. PairKey (nit_key p) (concept_1001 (py_or (ml_account_code l) [])))" paid_1001
  by unfold_locales (auto simp: entry_1001_def partner_key_def new_line_def no_amounts_def add_amount_def Let_def split: option.splits)

interpretation withheld: grouped_format entry_1003 tl_retention "\<lambda>l. if is_retention_1003 l then partner_key (\<lambda>p l. PairKey (nit_key p) ''1301'') l else None" "\<lambda>l. \<bar>balance l\<bar>"
  by unfold_locales (auto simp: entry_1003_def partner_key_def new_line_def no_amounts_def add_withheld_def split: option.splits if_splits)

interpretation vat: grouped_format entry_vat tl_vat "\<lambda>l. if is_vat l then partner_key (\<lambda>p l. NitKey (nit_key p)) l else None" "\<lambda>l. \<bar>balance l\<bar>"
  by unfold_locales (auto simp: entry_vat_def partner_key_def new_line_def no_amounts_def add_vat_def split: option.splits if_splits)

interpretation by_nit: grouped_format "entry_by_nit value" tl_amount "partner_key (\<lambda>p l. NitKey (nit_key p))" "value" for "value"
  by unfold_locales (auto simp: entry_by_nit_def partner_key_def new_line_def no_amounts_def add_amount_def split: option.splits)

interpretation declarations: grouped_format entry_1012 tl_amount "\<lambda>l. Some (NitKey (concept_1012 (tax_name l)))" "\<lambda>l. \<bar>balance l\<bar>"
  by unfold_locales (auto simp: entry_1012_def declaration_line_def Let_def)

interpretation minors: grouped_format minor_entry tl_amount "\<lambda>p. Some (tl_concept (snd p))" "\<lambda>p. tl_amount (snd p)"
  by unfold_locales (auto simp: minor_entry_def no_amounts_def add_minor_def)

section \<open>Small amounts\<close>

lemma upsert_new: "k \<notin> fst ` set g \<Longrightarrow> upsert k new f g = g @ [(k, f new)]"
  by (induction g) auto

lemma add_minor_lines:
  assumes "distinct (map fst ms)" "\<forall>c \<in> fst ` set ms. PairKey minor_nit c \<notin> fst ` set r"
  shows "foldl (\<lambda>r (concept, v). upsert (PairKey minor_nit concept) v (\<lambda>_. v) r) r ms = r @ map (\<lambda>(c, v). (PairKey minor_nit c, v)) ms"
  using assms
proof (induction ms arbitrary: r)
  case (Cons p ms)
  obtain c v where p: "p = (c, v)" by fastforce
  have "upsert (PairKey minor_nit c) v (\<lambda>_. v) r = r @ [(PairKey minor_nit c, v)]" using Cons.prems(2) p by (simp add: upsert_new)
  moreover have "foldl (\<lambda>r (concept, v). upsert (PairKey minor_nit concept) v (\<lambda>_. v) r) (r @ [(PairKey minor_nit c, v)]) ms =
      (r @ [(PairKey minor_nit c, v)]) @ map (\<lambda>(c, v). (PairKey minor_nit c, v)) ms"
    by (rule Cons.IH) (use Cons.prems p in auto)
  ultimately show ?case using p by simp
qed simp

lemma sum_of_parts: "sum_of m (filter P g) + sum_of m (filter (\<lambda>p. \<not> P p) g) = sum_of m g"
  by (induction g) (auto simp: sum_of_def)

text \<open>No amount is lost when no line of the number 222222222 was kept.\<close>

lemma threshold_total:
  assumes "\<forall>c. PairKey minor_nit c \<notin> fst ` set g"
  shows "sum_of tl_amount (apply_min_threshold g m) = sum_of tl_amount g"
proof (cases "m \<le> 0")
  case False
  let ?small = "\<lambda>p. \<bar>tl_amount (snd p)\<bar> < m"
  let ?ms = "minor_totals m g"
  have small: "(\<lambda>(k, v). \<bar>tl_amount v\<bar> < m) = ?small" "(\<lambda>(k, v). \<not> \<bar>tl_amount v\<bar> < m) = (\<lambda>p. \<not> ?small p)" by auto
  have run: "apply_min_threshold g m = filter (\<lambda>p. \<not> ?small p) g @ map (\<lambda>(c, v). (PairKey minor_nit c, v)) ?ms"
    using False assms unfolding apply_min_threshold_def small(2)
    by (subst add_minor_lines) (auto simp: minor_totals_def collect_distinct)
  have "sum_of tl_amount (map (\<lambda>(c, v). (PairKey minor_nit c, v)) ?ms) = sum_of tl_amount ?ms"
    by (simp add: sum_of_def comp_def case_prod_beta)
  also have "\<dots> = sum_of tl_amount (filter ?small g)"
    unfolding minor_totals_def small(1) by (subst minors.whole) (simp add: sum_of_def)
  finally have "sum_of tl_amount (apply_min_threshold g m) = sum_of tl_amount (filter (\<lambda>p. \<not> ?small p) g) + sum_of tl_amount (filter ?small g)"
    by (simp add: run sum_of_append)
  then show ?thesis using sum_of_parts [of tl_amount ?small g] by (simp add: add.commute)
qed (simp add: apply_min_threshold_def)

lemma fold_minor_values:
  "(k, v) \<in> set (foldl (\<lambda>r (c, v). upsert (PairKey minor_nit c) v (\<lambda>_. v) r) r ms) \<Longrightarrow> (k, v) \<in> set r \<or> v \<in> snd ` set ms"
proof (induction ms arbitrary: r)
  case (Cons p ms)
  obtain c u where p: "p = (c, u)" by fastforce
  from Cons p have "(k, v) \<in> set (upsert (PairKey minor_nit c) u (\<lambda>_. u) r) \<or> v \<in> snd ` set ms" by simp
  then show ?case using upsert_values [of k v "PairKey minor_nit c" u "\<lambda>_. u" r] p by auto
qed simp

lemma threshold_values:
  assumes "\<forall>(k, v) \<in> set g. Q v" "\<And>c. Q (no_amounts (extract_partner_data None) c)" "\<And>u v. Q u \<Longrightarrow> Q v \<Longrightarrow> Q (add_minor v u)"
  shows "\<forall>(k, v) \<in> set (apply_min_threshold g m). Q v"
proof (cases "m \<le> 0")
  case False
  have "\<forall>(k, v) \<in> set (collect minor_entry (filter (\<lambda>(k, v). \<bar>tl_amount v\<bar> < m) g) []). Q v"
    by (rule collect_values [where P = "\<lambda>k. Q"]) (use assms in \<open>auto simp: minor_entry_def\<close>)
  then have "\<forall>v \<in> snd ` set (minor_totals m g). Q v" by (auto simp: minor_totals_def)
  with assms(1) False show ?thesis using fold_minor_values by (fastforce simp: apply_min_threshold_def)
qed (simp add: apply_min_threshold_def assms(1))

section \<open>Check digits and signs of generated lines\<close>

definition dv_ok :: "tax_line \<Rightarrow> bool" where
  "dv_ok l \<longleftrightarrow> tl_nit l = [] \<or> tl_dv l = compute_nit_check_digit (tl_nit l)"

lemma new_line_ok [simp]: "dv_ok (new_line p c)" "tl_amount (new_line p c) = 0" "dv_ok (no_amounts (extract_partner_data q) c)"
  by (auto simp: dv_ok_def new_line_def no_amounts_def extract_partner_data_def split: option.split)

lemma dv_ok_adds [simp]:
  "dv_ok (add_amount x v) = dv_ok v" "dv_ok (add_withheld l v) = dv_ok v" "dv_ok (add_vat l v) = dv_ok v" "dv_ok (add_tax_1001 l v) = dv_ok v"
  "dv_ok (add_minor u v) = dv_ok v"
  by (simp_all add: dv_ok_def add_amount_def add_withheld_def add_vat_def add_tax_1001_def add_minor_def)

lemma amount_adds [simp]:
  "tl_amount (add_amount x v) = tl_amount v + x" "tl_amount (add_withheld l v) = tl_amount v + \<bar>balance l\<bar>"
  "tl_amount (add_vat l v) = tl_amount v + \<bar>ml_tax_base l\<bar>" "tl_amount (add_minor u v) = tl_amount v + tl_amount u"
  "tl_amount (no_amounts v c) = 0"
  by (simp_all add: add_amount_def add_withheld_def add_vat_def add_minor_def no_amounts_def)

definition line_ok :: "tax_line \<Rightarrow> bool" where
  "line_ok l \<longleftrightarrow> dv_ok l \<and> 0 \<le> tl_amount l"

lemma collect_lines:
  assumes "\<And>l k new f. entry l = Some (k, new, f) \<Longrightarrow> Q new \<and> (\<forall>v. Q v \<longrightarrow> Q (f v))"
  shows "\<forall>(k, v) \<in> set (collect entry ls []). Q v"
  by (rule collect_values [where P = "\<lambda>k. Q"]) (use assms in \<open>blast+, simp\<close>)

lemma threshold_line_ok: "\<forall>(k, v) \<in> set g. line_ok v \<Longrightarrow> \<forall>(k, v) \<in> set (apply_min_threshold g m). line_ok v"
  by (rule threshold_values) (auto simp: line_ok_def)

lemma sum_nonneg: "\<forall>(k, v) \<in> set g. 0 \<le> tl_amount v \<Longrightarrow> 0 \<le> sum_list (map (tl_amount \<circ> snd) g)"
  by (intro sum_list_nonneg) auto

lemma generated_ok:
  "l \<in> set (generate_1003 d1 d2 c ls) \<Longrightarrow> line_ok l" "l \<in> set (generate_1005 d1 d2 c ls) \<Longrightarrow> line_ok l"
  "l \<in> set (generate_1006 d1 d2 c ls) \<Longrightarrow> line_ok l" "l \<in> set (generate_1008 m d2 c ls) \<Longrightarrow> line_ok l"
  "l \<in> set (generate_1009 m d2 c ls) \<Longrightarrow> line_ok l" "l \<in> set (generate_1010 d2 c ls) \<Longrightarrow> line_ok l"
  "l \<in> set (generate_1012 d1 d2 c ls) \<Longrightarrow> line_ok l"
proof -
  have "\<forall>(k, v) \<in> set (collect entry_1003 xs []). line_ok v" for xs
    by (rule collect_lines) (auto simp: entry_1003_def line_ok_def split: if_splits option.splits)
  then show "l \<in> set (generate_1003 d1 d2 c ls) \<Longrightarrow> line_ok l" by (fastforce simp: generate_1003_def)
  have vat: "\<forall>(k, v) \<in> set (collect entry_vat xs []). line_ok v" for xs
    by (rule collect_lines) (auto simp: entry_vat_def line_ok_def split: if_splits option.splits)
  then show "l \<in> set (generate_1005 d1 d2 c ls) \<Longrightarrow> line_ok l" "l \<in> set (generate_1006 d1 d2 c ls) \<Longrightarrow> line_ok l"
    by (fastforce simp: generate_1005_def generate_1006_def)+
  have dv: "\<forall>(k, v) \<in> set (collect (entry_by_nit w) xs []). dv_ok v" for w xs
    by (rule collect_lines) (auto simp: entry_by_nit_def split: option.splits)
  then have pos: "\<forall>(k, v) \<in> set (positive (collect (entry_by_nit w) xs [])). line_ok v" for w xs
    by (fastforce simp: positive_def line_ok_def)
  show "l \<in> set (generate_1008 m d2 c ls) \<Longrightarrow> line_ok l" using threshold_line_ok [OF pos] by (fastforce simp: generate_1008_def)
  show "l \<in> set (generate_1009 m d2 c ls) \<Longrightarrow> line_ok l" using threshold_line_ok [OF pos] by (fastforce simp: generate_1009_def)
  have abs: "\<forall>(k, v) \<in> set (collect (entry_by_nit (\<lambda>l. \<bar>balance l\<bar>)) xs []). line_ok v" for xs
    by (rule collect_lines) (auto simp: entry_by_nit_def line_ok_def split: option.splits)
  moreover have pct: "line_ok (v\<lparr>tl_participation := x\<rparr>) = line_ok v" for v x by (simp add: line_ok_def dv_ok_def)
  ultimately show "l \<in> set (generate_1010 d2 c ls) \<Longrightarrow> line_ok l"
    by (fastforce simp: generate_1010_def Let_def pct split: if_splits)
  have "\<forall>(k, v) \<in> set (collect entry_1012 xs []). line_ok v" for xs
    by (rule collect_lines) (auto simp: entry_1012_def Let_def line_ok_def dv_ok_def declaration_line_def)
  then show "l \<in> set (generate_1012 d1 d2 c ls) \<Longrightarrow> line_ok l" by (fastforce simp: generate_1012_def)
qed

lemma create_formats_run:
  "distinct codes \<Longrightarrow> \<forall>c \<in> set codes. c \<notin> tf_code ` set (tr_formats r) \<Longrightarrow>
   for_each (create_format z ls) codes r = (Inr (), r\<lparr>tr_formats := tr_formats r @ map (\<lambda>c. \<lparr>tf_code = c, tf_lines = generate_lines_of z r ls c, tf_csv = None\<rparr>) codes\<rparr>)"
proof (induction codes arbitrary: r)
  case (Cons c codes)
  let ?r = "r\<lparr>tr_formats := tr_formats r @ [\<lparr>tf_code = c, tf_lines = generate_lines_of z r ls c, tf_csv = None\<rparr>]\<rparr>"
  have same: "generate_lines_of z ?r ls d = generate_lines_of z r ls d" for d
    unfolding generate_lines_of_def report_from_def report_to_def Let_def by simp
  have "for_each (create_format z ls) codes ?r = (Inr (), ?r\<lparr>tr_formats := tr_formats ?r @ map (\<lambda>c. \<lparr>tf_code = c, tf_lines = generate_lines_of z ?r ls c, tf_csv = None\<rparr>) codes\<rparr>)"
    by (rule Cons.IH) (use Cons.prems in auto)
  moreover have "create_format z ls c r = (Inr (), ?r)" using Cons.prems(2) by (simp add: create_format_def)
  ultimately show ?case by (simp add: same)
qed simp

lemma selected_distinct: "distinct (selected z)" "set (selected z) \<subseteq> set all_formats"
  by (simp_all add: selected_def all_formats_def)

lemma generate_run:
  assumes "wizard_generate z ls r = (Inr (), r')" "wi_overwrite z"
  shows "tr_nit r \<noteq> [] \<and> tr_nit r' = tr_nit r \<and> tr_state r' = RsGenerated \<and>
     tr_formats r' = map (\<lambda>c. \<lparr>tf_code = c, tf_lines = generate_lines_of z r ls c, tf_csv = None\<rparr>) (selected z)"
proof -
  let ?r = "r\<lparr>tr_formats := []\<rparr>"
  have run: "for_each (create_format z ls) (selected z) ?r =
      (Inr (), ?r\<lparr>tr_formats := map (\<lambda>c. \<lparr>tf_code = c, tf_lines = generate_lines_of z ?r ls c, tf_csv = None\<rparr>) (selected z)\<rparr>)"
    using create_formats_run [OF selected_distinct(1), where r = ?r] by simp
  have same: "generate_lines_of z ?r ls d = generate_lines_of z r ls d" for d
    unfolding generate_lines_of_def report_from_def report_to_def Let_def by simp
  show ?thesis using assms run by (auto simp: wizard_generate_def rolled_back_def same split: if_splits)
qed

text \<open>The entries of a supplier's refund, its payable among them, add up to nothing.\<close>

lemma refund_counts_nothing:
  assumes "\<forall>l \<in> set ls. ml_move_type l = ''in_refund'' \<and> 0 \<le> ml_debit l \<and> 0 \<le> ml_credit l \<and> (ml_debit l = 0 \<or> ml_credit l = 0)"
    and "sum_list (map ml_debit ls) = sum_list (map ml_credit ls)"
  shows "sum_list (map paid_1001 ls) = 0"
proof -
  have "sum_list (map paid_1001 ls) = sum_list (map ml_debit ls) - sum_list (map ml_credit ls)"
    using assms(1) by (induction ls) (auto simp: paid_1001_def)
  then show ?thesis using assms(2) by simp
qed

section \<open>Check digits\<close>

lemma weights_coprime: "w \<in> set nit_weights \<Longrightarrow> w mod 11 \<noteq> 0"
  by (auto simp: nit_weights_def)

lemma zip_sum_at:
  "length xs < length ws \<Longrightarrow> sum_list (map (\<lambda>(d, w). d * w) (zip (xs @ x # ys) ws)) =
     sum_list (map (\<lambda>(d, w). d * w) (zip xs ws)) + x * ws ! length xs + sum_list (map (\<lambda>(d, w). d * w) (zip ys (drop (Suc (length xs)) ws)))"
  for x :: nat
proof (induction xs arbitrary: ws)
  case Nil
  then show ?case by (cases ws) auto
next
  case (Cons a xs)
  then show ?case by (cases ws) auto
qed

definition check_char :: "nat \<Rightarrow> string" where
  "check_char r = (if r = 0 then ''0'' else if r = 1 then ''1'' else int_str (11 - int r))"

lemma check_char_values:
  "r < 11 \<Longrightarrow> check_char r = [char_of (48 + (if r \<le> 1 then r else 11 - r))]"
proof -
  assume r: "r < 11"
  have "nat_digits n = [char_of (48 + n)]" if "n < 10" for n using that by (simp add: nat_digits.simps)
  moreover have "nat (11 - int r) = 11 - r" by simp
  ultimately show ?thesis using r by (auto simp: check_char_def int_str_def char_of_def bit_0)
qed

lemma check_char_inj: "r < 11 \<Longrightarrow> s < 11 \<Longrightarrow> r \<noteq> s \<Longrightarrow> check_char r = check_char s \<Longrightarrow> check_char r = ''1''"
proof -
  assume r: "r < 11" "s < 11" "r \<noteq> s" and eq: "check_char r = check_char s"
  define f where "f r = (if r \<le> 1 then r else 11 - r)" for r :: nat
  have "f r < 11" "f s < 11" using r by (auto simp: f_def)
  moreover have "char_of (48 + f r) = (char_of (48 + f s) :: char)" using eq r(1,2) by (simp add: check_char_values f_def)
  then have "(of_char (char_of (48 + f r) :: char) :: nat) = of_char (char_of (48 + f s) :: char)" by simp
  ultimately have "f r = f s" by simp
  then have "f r = 1" using r by (auto simp: f_def split: if_splits)
  then show "check_char r = ''1''" using r(1) by (simp add: check_char_values f_def char_of_def bit_0)
qed

lemma digit_below: "is_digit c \<Longrightarrow> digit_value c < 10"
  by (auto simp: is_digit_def digit_value_def)

lemma digit_inj: "is_digit x \<Longrightarrow> is_digit y \<Longrightarrow> digit_value x = digit_value y \<Longrightarrow> x = y"
proof -
  assume "is_digit x" "is_digit y" "digit_value x = digit_value y"
  then have "(of_char x :: nat) = of_char y" unfolding is_digit_def digit_value_def by linarith
  then show "x = y" by simp
qed

lemma product_differs:
  fixes x y w :: nat
  assumes "x < 10" "y < 10" "x \<noteq> y" "w mod 11 \<noteq> 0"
  shows "(a + x * w) mod 11 \<noteq> (a + y * w) mod 11"
proof
  assume "(a + x * w) mod 11 = (a + y * w) mod 11"
  then have "11 dvd (int (a + x * w) - int (a + y * w))" by (metis mod_eq_dvd_iff of_nat_mod of_nat_numeral)
  then have "11 dvd ((int x - int y) * int w)" by (simp add: algebra_simps)
  moreover have "coprime 11 w"
  proof -
    have "w mod 11 = 1 \<or> w mod 11 = 2 \<or> w mod 11 = 3 \<or> w mod 11 = 4 \<or> w mod 11 = 5 \<or> w mod 11 = 6 \<or> w mod 11 = 7 \<or>
      w mod 11 = 8 \<or> w mod 11 = 9 \<or> w mod 11 = 10" using assms(4) by presburger
    then have "coprime 11 (w mod 11)" by (elim disjE) (simp_all add: coprime_iff_gcd_eq_1 gcd_non_0_nat)
    then show ?thesis by simp
  qed
  then have "coprime 11 (int w)" by (metis coprime_int_iff of_nat_numeral)
  ultimately have "11 dvd (int x - int y)" by (simp add: coprime_dvd_mult_left_iff)
  moreover have "\<not> 11 dvd (int x - int y)"
  proof
    assume "11 dvd (int x - int y)"
    then obtain k where "int x - int y = 11 * k" by (auto elim: dvdE)
    then show False using assms(1-3) by presburger
  qed
  ultimately show False by blast
qed

lemma one_digit_changed:
  assumes "is_digit x" "is_digit y" "x \<noteq> y" "length (filter is_digit (a @ x # b)) \<le> 15"
  shows "nit_sum (a @ x # b) mod 11 \<noteq> nit_sum (a @ y # b) mod 11"
proof -
  let ?d = "\<lambda>s. rev (map digit_value (filter is_digit s))"
  let ?n = "length (?d b)"
  let ?s = "\<lambda>ds ws. sum_list (map (\<lambda>(d, w). d * w) (zip ds ws)) :: nat"
  have n: "?n < length nit_weights" using assms(1,4) by (simp add: nit_weights_def)
  have "nit_sum (a @ z # b) = (?s (?d b) nit_weights + ?s (?d a) (drop (Suc ?n) nit_weights)) + digit_value z * nit_weights ! ?n" if "is_digit z" for z
    using zip_sum_at [OF n, of "digit_value z" "?d a"] that by (simp add: nit_sum_def)
  moreover have "nit_weights ! ?n mod 11 \<noteq> 0" using n by (intro weights_coprime nth_mem)
  moreover have "digit_value x \<noteq> digit_value y" using assms(1-3) digit_inj by blast
  ultimately show ?thesis using product_differs [OF digit_below [OF assms(1)] digit_below [OF assms(2)]] assms(1,2) by simp
qed

section \<open>Files\<close>

lemma set_insert_line: "set (insert_line l ks) = insert l (set ks)" "length (insert_line l ks) = Suc (length ks)"
  by (induction ks) auto

lemma set_sort_lines: "set (sort_lines ls) = set ls" "length (sort_lines ls) = length ls"
  by (induction ls) (simp_all add: sort_lines_def set_insert_line)

lemma partner_info_length: "length (get_partner_info l) = 5"
  by (simp add: get_partner_info_def Let_def)

lemma row_lengths: "code \<in> set all_formats \<Longrightarrow> length (line_to_csv_row code l) = length (format_columns code) \<and> format_columns code \<noteq> []"
  by (auto simp: all_formats_def line_to_csv_row_def format_columns_def partner_info_length Let_def)

section \<open>An example\<close>

definition supplier :: partner where
  "supplier = \<lparr>pa_id = 7, pa_vat = Some ''CO900373913'', pa_name = Some ''Uno; Dos'', pa_is_company = True, pa_street = None,
     pa_state_code = None, pa_country_code = None, pa_id_type = None\<rparr>"

definition entry_of :: "string \<Rightarrow> string \<Rightarrow> rat \<Rightarrow> rat \<Rightarrow> move_line" where
  "entry_of move account debit credit = \<lparr>ml_company = 1, ml_date = Date 2024 5 2, ml_posted = True, ml_move_type = move, ml_partner = Some supplier,
     ml_account_code = None, ml_account_type = account, ml_debit = debit, ml_credit = credit, ml_tax_name = None, ml_tax_base = 0\<rparr>"

definition small_wizard :: tax_wizard where
  "small_wizard = \<lparr>wi_selected = [''1005''], wi_min_1001 = 0, wi_min_1007 = 0, wi_min_1008 = 0, wi_min_1009 = 0, wi_overwrite = True\<rparr>"

definition report_2024 :: tax_report where
  "report_2024 = \<lparr>tr_company = 1, tr_year = 2024, tr_nit = ''900373913'', tr_nit_dv = [], tr_state = RsDraft, tr_formats = [], tr_zip = None, tr_log = None\<rparr>"

section \<open>Properties\<close>



text \<open>
  C37: format 1009 adds what was paid to what was billed: a supplier is reported with the sum of both, whatever is still owed.
\<close>

theorem payables_add_payments:
  assumes "\<forall>l \<in> set (year_end_lines d2 c ''liability_payable'' ls). ml_partner l = Some p"
    and "m \<le> sum_list (map (\<lambda>l. \<bar>balance l\<bar>) (year_end_lines d2 c ''liability_payable'' ls))"
    and "0 < sum_list (map (\<lambda>l. \<bar>balance l\<bar>) (year_end_lines d2 c ''liability_payable'' ls))"
  shows "\<exists>v. generate_1009 m d2 c ls = [v] \<and> tl_amount v = sum_list (map (\<lambda>l. \<bar>balance l\<bar>) (year_end_lines d2 c ''liability_payable'' ls))"
proof -
  let ?ls = "year_end_lines d2 c ''liability_payable'' ls"
  let ?k = "NitKey (nit_key p)"
  let ?g = "collect (entry_by_nit (\<lambda>l. \<bar>balance l\<bar>)) ?ls []"
  have "?ls \<noteq> []" using assms(3) by auto
  then have "fst ` set ?g = {?k}" using assms(1) by (auto simp: by_nit.keys partner_key_def) (metis hd_in_set)
  moreover have d: "distinct (map fst ?g)" by (rule collect_distinct) simp
  ultimately have "length ?g = 1" using distinct_card [OF d] by simp
  then obtain k v where g: "?g = [(k, v)]" by (auto simp: length_Suc_conv)
  have "sum_of tl_amount ?g = sum_list (map (\<lambda>l. \<bar>balance l\<bar>) (filter (\<lambda>l. partner_key (\<lambda>p l. NitKey (nit_key p)) l \<noteq> None) ?ls))"
    by (simp add: by_nit.whole)
  also have "filter (\<lambda>l. partner_key (\<lambda>p l. NitKey (nit_key p)) l \<noteq> None) ?ls = ?ls"
    using assms(1) by (simp add: filter_id_conv partner_key_def)
  finally have v: "tl_amount v = sum_list (map (\<lambda>l. \<bar>balance l\<bar>) ?ls)" by (simp add: g)
  have "apply_min_threshold [(k, v)] m = [(k, v)]"
    using v assms(2,3) by (simp add: apply_min_threshold_def minor_totals_def)
  then show ?thesis using v assms(3) by (simp add: generate_1009_def g positive_def)
qed

theorem payables_add_payments_witness: "\<exists>v. balance (entry_of ''in_invoice'' ''liability_payable'' 0 800) + balance (entry_of ''entry'' ''liability_payable'' 800 0) = 0 \<and>
   generate_1009 500 (Date 2024 12 31) 1 [entry_of ''in_invoice'' ''liability_payable'' 0 800, entry_of ''entry'' ''liability_payable'' 800 0] = [v] \<and> tl_amount v = 1600"
proof -
  let ?ls = "[entry_of ''in_invoice'' ''liability_payable'' 0 800, entry_of ''entry'' ''liability_payable'' 800 0]"
  have lines: "year_end_lines (Date 2024 12 31) 1 ''liability_payable'' ?ls = ?ls"
    by (simp add: year_end_lines_def entry_of_def less_eq_date_def)
  have hyps: "\<forall>l \<in> set (year_end_lines (Date 2024 12 31) 1 ''liability_payable'' ?ls). ml_partner l = Some supplier"
    "(500 :: rat) \<le> sum_list (map (\<lambda>l. \<bar>balance l\<bar>) (year_end_lines (Date 2024 12 31) 1 ''liability_payable'' ?ls))"
    "0 < sum_list (map (\<lambda>l. \<bar>balance l\<bar>) (year_end_lines (Date 2024 12 31) 1 ''liability_payable'' ?ls))"
    unfolding lines by (simp_all add: entry_of_def balance_def)
  from payables_add_payments [OF hyps] show ?thesis unfolding lines by (simp add: entry_of_def balance_def)
qed

text \<open>
  C38: the check digit of a tax number of up to 15 digits shows a wrong digit, unless it is 1.
\<close>

theorem check_digit_detects:
  assumes "is_digit x" "is_digit y" "x \<noteq> y" "length (filter is_digit (a @ x # b)) \<le> 15"
  shows "compute_nit_check_digit (a @ x # b) \<noteq> compute_nit_check_digit (a @ y # b) \<or> compute_nit_check_digit (a @ x # b) = ''1''"
proof -
  have dv: "compute_nit_check_digit (a @ z # b) = check_char (nit_sum (a @ z # b) mod 11)" if "is_digit z" for z
    using that by (simp add: compute_nit_check_digit_def check_char_def Let_def)
  show ?thesis using check_char_inj [OF _ _ one_digit_changed [OF assms]] by (auto simp: dv assms(1,2))
qed

theorem check_digit_detects_witness: "compute_nit_check_digit ''900373913'' \<noteq> compute_nit_check_digit ''900383913''"
proof -
  have d: "is_digit (CHR ''7'')" "is_digit (CHR ''8'')" "CHR ''7'' \<noteq> CHR ''8''" "length (filter is_digit (''9003'' @ CHR ''7'' # ''3913'')) \<le> 15"
    by code_simp+
  have "compute_nit_check_digit ''900373913'' \<noteq> ''1''" by code_simp
  with check_digit_detects [OF d] show ?thesis by simp
qed

text \<open>
  C39: a report that was generated anew without formats 1001 and 1007 passes its validation.
\<close>

theorem generated_report_validates:
  assumes "wizard_generate z ls r = (Inr (), r')" "wi_overwrite z" "''1001'' \<notin> set (wi_selected z)" "''1007'' \<notin> set (wi_selected z)"
  shows "\<exists>r''. action_validate r' = (Inr (), r'') \<and> tr_state r'' = RsValidated \<and> tr_formats r'' = tr_formats r'"
proof -
  note run = generate_run [OF assms(1,2)]
  have ok: "line_ok l" if "c \<in> set (selected z)" "l \<in> set (generate_lines_of z r ls c)" for c l
  proof -
    have "c \<in> set all_formats" "c \<noteq> ''1001''" "c \<noteq> ''1007''" using that(1) assms(3,4) by (auto simp: selected_def)
    then show ?thesis using that(2) by (auto simp: all_formats_def generate_lines_of_def Let_def intro: generated_ok)
  qed
  have "dv_problems f = [] \<and> negative_problems f = []" if "f \<in> set (tr_formats r')" for f
  proof -
    have "line_ok l" if "l \<in> set (tf_lines f)" for l using ok that \<open>f \<in> set (tr_formats r')\<close> run by auto
    then show ?thesis by (fastforce simp: dv_problems_def negative_problems_def List.map_filter_def filter_empty_conv line_ok_def dv_ok_def)
  qed
  then have "report_problems r' = []" using run by (simp add: report_problems_def)
  then show ?thesis using run by (simp add: action_validate_def)
qed

theorem generated_report_validates_witness: "\<exists>r' r''. wizard_generate small_wizard [] report_2024 = (Inr (), r') \<and> action_validate r' = (Inr (), r'') \<and> tr_state r'' = RsValidated"
proof -
  have "selected small_wizard = [''1005'']" by code_simp
  then obtain r' where r': "wizard_generate small_wizard [] report_2024 = (Inr (), r')"
    by (simp add: wizard_generate_def rolled_back_def create_format_def small_wizard_def report_2024_def)
  have "wi_overwrite small_wizard" "''1001'' \<notin> set (wi_selected small_wizard)" "''1007'' \<notin> set (wi_selected small_wizard)"
    by (simp_all add: small_wizard_def)
  from generated_report_validates [OF r' this] r' show ?thesis by blast
qed

text \<open>
  C40: the file of a format is read back as its header and one row per line, each with a cell per column.
\<close>

theorem files_read_back:
  assumes "tf_code f \<in> set all_formats"
  shows "csv_read (generate_csv_content f) = format_columns (tf_code f) # map (line_to_csv_row (tf_code f)) (sort_lines (tf_lines f)) \<and>
     set (sort_lines (tf_lines f)) = set (tf_lines f) \<and> length (sort_lines (tf_lines f)) = length (tf_lines f) \<and>
     (\<forall>row \<in> set (csv_rows f). length row = length (format_columns (tf_code f)))"
proof -
  have rows: "\<forall>row \<in> set (csv_rows f). length row = length (format_columns (tf_code f)) \<and> row \<noteq> []"
    using row_lengths [OF assms] by (auto simp: csv_rows_def) (metis length_0_conv)
  then have "csv_read (csv_text (csv_rows f)) = csv_rows f" by (intro csv_read_text) blast
  then show ?thesis using rows by (simp add: generate_csv_content_def csv_rows_def set_sort_lines)
qed

theorem files_read_back_witness: "csv_read (generate_csv_content \<lparr>tf_code = ''1005'', tf_lines = [new_line supplier []], tf_csv = None\<rparr>) =
   [format_columns ''1005'', line_to_csv_row ''1005'' (new_line supplier [])]"
proof -
  have "tf_code \<lparr>tf_code = ''1005'', tf_lines = [new_line supplier []], tf_csv = None\<rparr> \<in> set all_formats" by (simp add: all_formats_def)
  from files_read_back [OF this] show ?thesis by (simp add: sort_lines_def)
qed

end
