(* ===== verification/Spec2Isabelle.thy ===== *)
theory Spec2Isabelle
  imports MigrationRecovery FilestoreTransfer MaskDatabase MigrationWindow MigrationQueue WebhookBus SaasEndpoints ClubWizard ClubNights ClubBilling ClubGuests SpecAgent FixedAssets PayrollForms ClubAssembly Exogena
begin

text \<open>
  A model of the program logic of this repository: a SaaS platform that runs one Odoo database per
  tenant, the agents that take change requests from Slack, and the addons of clubs. Paths are
  under src/.

  \<^bold>\<open>Conventions\<close> (\<open>Prelude\<close>, \<open>PyJson\<close>, \<open>ActionRules\<close>, \<open>PyDate\<close>, \<open>Regex\<close>, \<open>Signing\<close>).
  Code that may raise is an action: a function from the state to a sum (\<open>Inl\<close> the exception, \<open>Inr\<close>
  the result) and the new state. A database table is a list of rows with a key; \<open>row_get\<close> and
  \<open>row_upd\<close> are the lookup and the update, and a request that raises is rolled back
  (\<open>rolled_back\<close>). Strings are Python strings with code points up to U+00FF, JSON is the datatype
  \<open>json\<close>, dates are \<open>PyDate.date\<close> with the calendar of \<open>datetime\<close> and \<open>relativedelta\<close>. Code that
  is not under src/ (PostgreSQL, Odoo's accounting, cron and time zone libraries, ciphers, Slack,
  GitHub, subprocesses) is an argument of the definitions; what is assumed of it is a named
  hypothesis, and every such theorem has a witness with a concrete instance.

  \<^bold>\<open>Migration runner\<close> (infra/runners/migration_runner). \<open>MigrationWindow\<close> is window.py: the
  override, the cron expression in the tenant's zone, and the hour for which a firing
  counts. \<open>MigrationStore\<close> is db.py: the tables and one action per method; the locale
  \<open>job_transition\<close> states what all of them keep. \<open>MigrationSnapshot\<close> is snapshot.py with its
  parsers. \<open>MigrationRunner\<close> is runner.py with heartbeat.py: one iteration from the claim to the
  record of its outcome, and \<open>run_forever\<close> over a list of environments. \<open>MigrationQueue\<close> is the
  interleaving of several runners, crashes and the control plane as a step relation, with its
  invariant. \<open>MigrationRollback\<close> is rollback.py. \<open>MigrationRecovery\<close> puts runner and rollback
  together: what an upgrade leaves for a rollback, and that healthy iterations drain the queue.

  \<^bold>\<open>Agents\<close> (agents/agents). \<open>ThreadStore\<close> is the port state.py with its adapters in memory and
  in SQLite; both interpret one locale and are shown to agree. \<open>SlackIntake\<close> is slack_intake/core.py:
  the handlers of events, modals, buttons and issue comments. \<open>WebhookBus\<close> is the verification of
  Slack and GitHub requests and the HTTP service around the handlers. \<open>SpecText\<close> and
  \<open>SpecAgent\<close> are spec_generator: the texts it reads and writes, and its three handlers as actions
  that add calls on the ports; what they may call is shown through the rules \<open>makes_intros\<close>.

  \<^bold>\<open>Platform addons\<close> (custom-addons). \<open>LicenseGate\<close> is saas_license_gate: the check, the cached
  verdict, the write guard and the cap on seats. \<open>SaasEndpoints\<close> is saas_tenant_gate and
  saas_provisioning_gateway: signed envelopes (the locale \<open>signed_endpoint\<close>), rotation, telemetry,
  provisioning, lockdown. \<open>FilestoreFormat\<close> and \<open>FilestoreTransfer\<close> are the encrypted backup of
  saas_filestore_backup and the restore endpoint: formats, round trips, temporary files.
  \<open>MaskColumns\<close> and \<open>MaskDatabase\<close> are infra/agentlab/mask_prod_data.py: the classification of
  columns, the masking expressions with their types, the transaction, the audits and the retry.

  \<^bold>\<open>Club addons\<close> (custom-addons/club_*). \<open>ClubData\<close> has the records that several addons share.
  \<open>ClubAccess\<close> and \<open>ClubWizard\<close> are club_access_control: the lookups (the locale \<open>lookup\<close>), the
  decision at the gate and the choice by hand. \<open>ClubMembership\<close> is club_core: the life cycle of a
  membership, its invoices and the two daily jobs as steps, and the locale \<open>sweep\<close> of a job's body.
  \<open>ClubNights\<close> runs the jobs over days and asks the gate what they mean for a member's card.
  \<open>ClubBilling\<close> is club_affiliate_billing with the sale check of club_pos: runs, grouping by
  customer, invoices and the monthly job. \<open>ClubGuests\<close> is club_guests: visits, the limits of their
  policy under every order of calls, and the code of a visit up to the answer of the gate.
  \<open>ClubAssembly\<close> is club_assembly: sessions, topics and votes under every order of calls.

  \<^bold>\<open>Colombian addons\<close> (custom-addons/co_*). \<open>FixedAssets\<close> is co_fixed_assets: assets with their
  schedule (both methods interpret the locale \<open>schedule_rule\<close>), the entries of depreciation and
  disposal, the workflow as steps and the monthly job; \<open>PyRound\<close> is the rounding it uses. \<open>Payroll\<close>
  is co_payroll: the computed fields of a payslip in the order the code calls them, confirmation and
  reset, loans, the monthly filing and the end of a contract; \<open>PayrollForms\<close> its forms.
  \<open>Exogena\<close> is co_exogena: the nine formats of the yearly tax report as groupings of entries (each
  interprets the locale \<open>grouped_format\<close>), validation and files; \<open>CsvText\<close> the csv module with a reader.
  \<^bold>\<open>What the lemmas show\<close>. Each theory has lemmas about its operations on every branch, then the
  invariants of its state, then the properties, which are the theorems after a text that starts
  with an id. Invariants over interleavings are proved by induction over step relations
  (\<open>MigrationQueue\<close>, \<open>ClubMembership\<close>, \<open>ClubBilling\<close>, \<open>ClubGuests\<close>); what several operations share is proved
  once in a locale and used through its interpretations.

  \<^bold>\<open>Bounds\<close>. Loops of the code are structural recursion or run over explicit lists (ticks of the
  heartbeat, environments of the daemon's iterations, days of a cron job), so there is no fuel
  that could run out; the retry of \<open>MaskDatabase\<close> counts down the attempts the code allows.
  Widths matter for bytes and counters of the file formats, which are words.

  \<^bold>\<open>Not modelled\<close>. Logging, windows and notifications; the photo fields; the field and domain
  lists for the browser; the HTTP listener of the runner's health check. Of the agents: the LLM,
  GitHub and Slack adapters that only call services. The reports account_*,
  jorels-addons and hr_contract_community (third party), and the addons listed as not modelled in
  the manifest. Amounts are rationals, so the rounding of floats is not modelled. Planned next:
  the budget and the bank reconciliation of the co_* addons, and goliatt_pms.
\<close>

end
